(* ===== verification/APB_Prelude.thy ===== *)
theory APB_Prelude
  imports Main "HOL-Library.Word"
begin

text \<open>
  Shared vocabulary of the access point bridge development: machine words and their
  little-endian byte images (the bridge runs on little-endian hosts and copies packed
  structures with \<^verbatim>\<open>memcpy\<close>), the host/network byte swaps, writes into fixed size
  buffers, runs of a step function over a list of inputs, and the interfaces
  (as locales) that several components share.
\<close>

unbundle bit_operations_syntax

named_theorems wire_simps "sizes and images of the packed wire structures"
named_theorems run_simps "running a step function over a list of inputs"

type_synonym byte = "8 word"
type_synonym u16 = "16 word"
type_synonym u32 = "32 word"
type_synonym u64 = "64 word"

section \<open>Conversions between word widths\<close>

lemma unat_ucast_up:
  fixes w :: "'a::len word"
  assumes "LENGTH('a) \<le> LENGTH('b::len)"
  shows "unat (ucast w :: 'b word) = unat w"
proof -
  have "unat w < 2 ^ LENGTH('a)" by (rule unsigned_less)
  also have "(2::nat) ^ LENGTH('a) \<le> 2 ^ LENGTH('b)" using assms by simp
  finally show ?thesis by (simp add: unsigned_ucast_eq take_bit_nat_eq_self)
qed

lemma ucast_ucast_take_bit:
  fixes w :: "'a::len word"
  shows "ucast (ucast w :: 'b::len word) = take_bit LENGTH('b) w"
  by (rule bit_eqI) (auto simp: bit_simps)

lemma word_xor_eq_iff: "x XOR y = z \<longleftrightarrow> y = x XOR z" for x y z :: "'a::len word"
  by (metis xor.assoc xor.left_neutral xor_self_eq)

text \<open>The two halves of a 64-bit word.\<close>

lemma high_word: "x AND 0xFFFFFFFF00000000 = push_bit 32 (drop_bit 32 x)" for x :: u64
proof -
  have high: "(0xFFFFFFFF00000000 :: u64) = push_bit 32 (mask 32)"
    by (simp add: mask_eq_exp_minus_1 push_bit_eq_mult)
  show ?thesis unfolding high by (intro bit_eqI) (auto simp del: mask_numeral simp: bit_simps dest: bit_imp_le_length)
qed

lemma low_word: "x AND 0xFFFFFFFF = take_bit 32 x" for x :: u64
  by (simp add: take_bit_eq_mask mask_eq_exp_minus_1)

lemma unat_high_word: "unat (push_bit 32 (drop_bit 32 x)) = unat x div 2 ^ 32 * 2 ^ 32" for x :: u64
proof -
  have "unat x div 2 ^ 32 * 2 ^ 32 \<le> unat x" by simp
  also have "unat x < 2 ^ 64" using unsigned_less[of x, where 'a = nat] by simp
  finally show ?thesis
    by (simp add: push_bit_eq_mult unat_word_ariths unsigned_drop_bit_eq drop_bit_eq_div)
qed

lemma join_words:
  "unat ((ucast (a :: u32) :: u64) OR push_bit 32 (drop_bit 32 x)) = unat a + unat x div 2 ^ 32 * 2 ^ 32"
proof -
  have or: "(ucast a :: u64) OR push_bit 32 (drop_bit 32 x) = ucast a + push_bit 32 (drop_bit 32 x)"
    by (rule disjunctive_add[symmetric]) (auto simp: bit_simps dest: bit_imp_le_length)
  have "unat a < 2 ^ 32" using unsigned_less[of a, where 'a = nat] by simp
  moreover have "unat x div 2 ^ 32 < 2 ^ 32"
    using unsigned_less[of x, where 'a = nat] by (intro less_mult_imp_div_less) simp
  ultimately have "unat a + unat x div 2 ^ 32 * 2 ^ 32 < 2 ^ 64" by simp
  then show ?thesis
    unfolding or by (simp add: unat_word_ariths unat_high_word unat_ucast_up)
qed

lemma unat_low_word: "unat (take_bit 32 x) = unat x mod 2 ^ 32" for x :: u64
  by (simp only: unsigned_take_bit_eq) (simp add: take_bit_eq_mod)

section \<open>Little-endian images of words\<close>

primrec le_bytes :: "nat \<Rightarrow> 'a::len word \<Rightarrow> byte list" where
  "le_bytes 0 w = []"
| "le_bytes (Suc n) w = ucast w # le_bytes n (drop_bit 8 w)"

primrec le_word :: "byte list \<Rightarrow> 'a::len word" where
  "le_word [] = 0"
| "le_word (b # bs) = ucast b OR push_bit 8 (le_word bs)"

lemma length_le_bytes [simp]: "length (le_bytes n w) = n"
  by (induction n arbitrary: w) auto

lemma le_word_le_bytes: "le_word (le_bytes n w) = take_bit (8 * n) w"
proof (induction n arbitrary: w)
  case 0
  then show ?case by simp
next
  case (Suc n)
  show ?case
    by (simp add: Suc, rule bit_eqI)
      (auto simp: bit_simps not_less intro: le_less_trans dest: bit_imp_le_length)
qed

lemma le_word_full [simp]:
  fixes w :: "'a::len word"
  assumes "LENGTH('a) \<le> 8 * n"
  shows "le_word (le_bytes n w) = w"
  using assms by (simp add: le_word_le_bytes take_bit_word_eq_self)

lemma bit_le_word_high:
  "8 * length bs \<le> n \<Longrightarrow> \<not> bit (le_word bs :: 'a::len word) n"
proof (induction bs arbitrary: n)
  case (Cons b bs)
  then show ?case by (auto simp: bit_simps dest: bit_imp_le_length)
qed simp

lemma le_bytes_le_word:
  "8 * length bs \<le> LENGTH('a) \<Longrightarrow> le_bytes (length bs) (le_word bs :: 'a::len word) = bs"
proof (induction bs)
  case (Cons b bs)
  have "ucast (ucast b OR push_bit 8 (le_word bs) :: 'a word) = b"
    by (rule bit_eqI) (use Cons.prems in \<open>auto simp: bit_simps\<close>)
  moreover have "drop_bit 8 (ucast b OR push_bit 8 (le_word bs) :: 'a word) = le_word bs"
    by (rule bit_eqI)
      (use Cons.prems bit_le_word_high[of bs, where 'a = 'a] in
        \<open>auto simp: bit_simps dest: bit_imp_le_length\<close>)
  ultimately show ?case using Cons by simp
qed simp

lemma le_bytes_inject:
  fixes v w :: "'a::len word"
  assumes "LENGTH('a) \<le> 8 * n"
  shows "le_bytes n v = le_bytes n w \<longleftrightarrow> v = w"
  by (metis assms le_word_full)

text \<open>\<^verbatim>\<open>htons\<close>, \<^verbatim>\<open>htonl\<close> and their inverses on a little-endian host swap the bytes.\<close>

definition htons :: "u16 \<Rightarrow> u16" where
  "htons w = le_word (rev (le_bytes 2 w))"

definition htonl :: "u32 \<Rightarrow> u32" where
  "htonl w = le_word (rev (le_bytes 4 w))"

definition ntohs :: "u16 \<Rightarrow> u16" where "ntohs w = htons w"
definition ntohl :: "u32 \<Rightarrow> u32" where "ntohl w = htonl w"

lemma htons_htons [simp]: "htons (htons w) = w"
  using le_bytes_le_word[of "rev (le_bytes 2 w)", where 'a = 16] by (simp add: htons_def)

lemma htonl_htonl [simp]: "htonl (htonl w) = w"
  using le_bytes_le_word[of "rev (le_bytes 4 w)", where 'a = 32] by (simp add: htonl_def)

lemma le_bytes_htons: "le_bytes 2 (htons w) = rev (le_bytes 2 w)"
  using le_bytes_le_word[of "rev (le_bytes 2 w)", where 'a = 16] by (simp add: htons_def)

lemma le_bytes_htonl: "le_bytes 4 (htonl w) = rev (le_bytes 4 w)"
  using le_bytes_le_word[of "rev (le_bytes 4 w)", where 'a = 32] by (simp add: htonl_def)

section \<open>Writes into fixed size buffers\<close>

text \<open>\<^verbatim>\<open>memcpy(dst + off, src, size)\<close>; \<^const>\<open>None\<close> when the write leaves the destination.\<close>

definition overwrite :: "nat \<Rightarrow> 'a list \<Rightarrow> 'a list \<Rightarrow> 'a list" where
  "overwrite off src dst = take off dst @ src @ drop (off + length src) dst"

definition memcpy_at :: "nat \<Rightarrow> 'a list \<Rightarrow> 'a list \<Rightarrow> 'a list option" where
  "memcpy_at off src dst =
     (if off + length src \<le> length dst then Some (overwrite off src dst) else None)"

lemma length_overwrite [simp]:
  "off + length src \<le> length dst \<Longrightarrow> length (overwrite off src dst) = length dst"
  by (simp add: overwrite_def)

lemma take_overwrite:
  "off + length src \<le> length dst \<Longrightarrow> take (off + length src) (overwrite off src dst) = take off dst @ src"
  by (simp add: overwrite_def)

lemma take_overwrite_0 [simp]:
  "length src \<le> length dst \<Longrightarrow> take (length src) (overwrite 0 src dst) = src"
  by (simp add: overwrite_def)

lemma memcpy_at_Some:
  "off + length src \<le> length dst \<Longrightarrow> memcpy_at off src dst = Some (overwrite off src dst)"
  by (simp add: memcpy_at_def)

section \<open>Ring indices\<close>

lemma ring_back:
  fixes n N off :: nat
  assumes "0 < N" "off \<le> N" "off \<le> n"
  shows "(if n mod N < off then n mod N + N - off else n mod N - off) = (n - off) mod N"
proof -
  have n: "n = n div N * N + n mod N" by simp
  show ?thesis
  proof (cases "n mod N < off")
    case False
    then have eq: "n - off = n div N * N + (n mod N - off)" using n by linarith
    have "(n - off) mod N = (n mod N - off) mod N"
      unfolding eq by (rule mod_mult_self3)
    then show ?thesis using False assms(1) by (simp add: less_imp_diff_less)
  next
    case True
    then have "n div N \<noteq> 0" using assms(3) n by (metis add_0 mult_0 not_less)
    then obtain q where "n div N = Suc q" using not0_implies_Suc by blast
    then have eq: "n - off = q * N + (n mod N + N - off)" using n assms(2) by simp
    have "(n - off) mod N = (n mod N + N - off) mod N"
      unfolding eq by (rule mod_mult_self3)
    moreover have "n mod N + N - off < N" using True assms(1) by arith
    ultimately show ?thesis using True by simp
  qed
qed

lemma ring_next:
  "0 < N \<Longrightarrow> (if Suc (n mod N) \<ge> N then 0 else Suc (n mod N)) = Suc n mod N" for n N :: nat
  by (simp add: mod_Suc) (use mod_less_divisor[of N n] in linarith)

lemma ring_last_write:
  fixes k n N :: nat
  assumes "k \<le> n" "n - k < N"
  shows "k mod N = n mod N \<longleftrightarrow> k = n"
  using assms by (metis mod_eq_dvd_iff_nat nat_dvd_not_less le_eq_less_or_eq zero_less_diff)

section \<open>Runs\<close>

text \<open>
  A component is driven by a list of inputs; each step returns the new state and the
  calls the component makes on its environment, in order.
\<close>

fun run :: "('s \<Rightarrow> 'i \<Rightarrow> 's \<times> 'o list) \<Rightarrow> 's \<Rightarrow> 'i list \<Rightarrow> 's \<times> 'o list" where
  "run step s [] = (s, [])"
| "run step s (i # is) =
     (let (s', out) = step s i; (s'', outs) = run step s' is in (s'', out @ outs))"

lemma fst_run_Cons [run_simps]: "fst (run step s (i # is)) = fst (run step (fst (step s i)) is)"
  by (simp add: Let_def split: prod.splits)

lemma snd_run_Cons [run_simps]:
  "snd (run step s (i # is)) = snd (step s i) @ snd (run step (fst (step s i)) is)"
  by (simp add: Let_def split: prod.splits)

lemmas run_Nil [run_simps] = run.simps(1)

declare run.simps [simp del]

lemma fst_run_append [run_simps]:
  "fst (run step s (xs @ ys)) = fst (run step (fst (run step s xs)) ys)"
  by (induction xs arbitrary: s) (simp_all add: run_simps)

lemma snd_run_append [run_simps]:
  "snd (run step s (xs @ ys)) = snd (run step s xs) @ snd (run step (fst (run step s xs)) ys)"
  by (induction xs arbitrary: s) (simp_all add: run_simps)

lemma run_append:
  "run step s (xs @ ys) =
     (let (s', out) = run step s xs; (s'', outs) = run step s' ys in (s'', out @ outs))"
  by (rule prod_eqI) (simp_all add: run_simps case_prod_beta Let_def)

lemma run_view:
  assumes "\<And>s i. f (fst (step s i)) = f s"
  shows "f (fst (run step s is)) = f s"
  by (induction "is" arbitrary: s) (simp_all add: run_simps assms)

lemma run_rel:
  assumes "\<And>s i. i \<in> set is \<Longrightarrow> R s (fst (step s i)) (snd (step s i))" and "\<And>s. R s s []"
    and "\<And>s s1 s2 o1 o2. R s s1 o1 \<Longrightarrow> R s1 s2 o2 \<Longrightarrow> R s s2 (o1 @ o2)"
  shows "R s (fst (run step s is)) (snd (run step s is))"
  using assms(1)
proof (induction "is" arbitrary: s)
  case Nil
  then show ?case by (simp add: run_simps assms(2))
next
  case (Cons i "is")
  have "R s (fst (step s i)) (snd (step s i))" using Cons.prems by simp
  moreover have "R (fst (step s i)) (fst (run step (fst (step s i)) is)) (snd (run step (fst (step s i)) is))"
    using Cons by simp
  ultimately show ?case using assms(3) by (simp add: run_simps)
qed

text \<open>An invariant kept by every step holds after every run.\<close>

locale step_invariant =
  fixes step :: "'s \<Rightarrow> 'i \<Rightarrow> 's \<times> 'o list"
    and inv :: "'s \<Rightarrow> bool"
  assumes step_inv: "inv s \<Longrightarrow> inv (fst (step s i))"
begin

lemma run_inv: "inv s \<Longrightarrow> inv (fst (run step s is))"
proof (induction "is" arbitrary: s)
  case (Cons i "is")
  then show ?case using step_inv by (simp add: run_simps)
qed (simp add: run_simps)

end

text \<open>
  A frame codec: a decoder that, from every state in which it is ready, turns the
  encoding of a valid frame into exactly that frame and is ready again.
\<close>

locale frame_codec =
  fixes step :: "'s \<Rightarrow> byte \<Rightarrow> 's \<times> 'f list"
    and encode :: "'f \<Rightarrow> byte list"
    and ready :: "'s \<Rightarrow> bool"
    and valid :: "'f \<Rightarrow> bool"
  assumes decode_frame: "ready s \<Longrightarrow> valid f \<Longrightarrow> snd (run step s (encode f)) = [f]"
    and ready_again: "ready s \<Longrightarrow> valid f \<Longrightarrow> ready (fst (run step s (encode f)))"
begin

lemma decode_stream:
  assumes "ready s" and "list_all valid fs"
  shows "snd (run step s (concat (map encode fs))) = fs
    \<and> ready (fst (run step s (concat (map encode fs))))"
  using assms
proof (induction fs arbitrary: s)
  case (Cons f fs)
  then show ?case
    using Cons.IH[of "fst (run step s (encode f))"] decode_frame[of s f] ready_again[of s f]
    by (simp add: run_simps)
qed (simp add: run_simps)

lemma encode_stream_inject:
  assumes "ready s" "list_all valid fs" "list_all valid gs"
    and "concat (map encode fs) = concat (map encode gs)"
  shows "fs = gs"
  by (metis assms decode_stream)

end

text \<open>
  A pool of \<open>cap\<close> buffers that are given back in the order in which they were taken.
\<close>

datatype pool_op = PoolAlloc | PoolRelease

locale buffer_pool =
  fixes alloc :: "'s \<Rightarrow> 's \<times> nat option"
    and release :: "'s \<Rightarrow> 's"
    and used :: "'s \<Rightarrow> nat list"
    and inv :: "'s \<Rightarrow> bool"
    and cap :: nat
  assumes used_cap: "inv s \<Longrightarrow> length (used s) \<le> cap"
    and alloc_some: "inv s \<Longrightarrow> length (used s) < cap \<Longrightarrow>
      \<exists>s' i. alloc s = (s', Some i) \<and> i < cap \<and> i \<notin> set (used s) \<and> used s' = used s @ [i] \<and> inv s'"
    and alloc_none: "inv s \<Longrightarrow> length (used s) = cap \<Longrightarrow> alloc s = (s, None)"
    and release_used: "inv s \<Longrightarrow> used s \<noteq> [] \<Longrightarrow> used (release s) = tl (used s) \<and> inv (release s)"
begin

definition pool_step :: "'s \<Rightarrow> pool_op \<Rightarrow> 's \<times> nat list" where
  "pool_step s op = (case op of
      PoolAlloc \<Rightarrow> (case alloc s of (s', r) \<Rightarrow> (s', case r of None \<Rightarrow> [] | Some i \<Rightarrow> [i]))
    | PoolRelease \<Rightarrow> (if used s = [] then s else release s, []))"

lemma pool_step_safe:
  assumes "inv s" and "distinct (used s)" and "set (used s) \<subseteq> {..<cap}"
  shows "inv (fst (pool_step s op)) \<and> distinct (used (fst (pool_step s op)))
    \<and> set (used (fst (pool_step s op))) \<subseteq> {..<cap}
    \<and> set (snd (pool_step s op)) \<inter> set (used s) = {}"
proof (cases op)
  case PoolAlloc
  show ?thesis
  proof (cases "length (used s) < cap")
    case True
    then show ?thesis using alloc_some[OF assms(1) True] assms PoolAlloc by (auto simp: pool_step_def)
  next
    case False
    then have "alloc s = (s, None)" using used_cap[OF assms(1)] alloc_none[OF assms(1)] by simp
    then show ?thesis using assms PoolAlloc by (simp add: pool_step_def)
  qed
next
  case PoolRelease
  then show ?thesis
    using assms release_used[OF assms(1)] by (cases "used s") (auto simp: pool_step_def)
qed

lemma pool_run_safe:
  assumes "inv s" and "distinct (used s)" and "set (used s) \<subseteq> {..<cap}"
  shows "inv (fst (run pool_step s ops)) \<and> distinct (used (fst (run pool_step s ops)))
    \<and> set (used (fst (run pool_step s ops))) \<subseteq> {..<cap}"
  using assms
proof (induction ops arbitrary: s)
  case (Cons op ops)
  then show ?case using pool_step_safe[of s op] by (simp add: run_simps)
qed (simp add: run_simps)

end

section \<open>Operations with results and calls\<close>

text \<open>
  An operation that may go wrong beyond any handled error (\<^const>\<open>None\<close>) returns the new state, its
  result and the calls it makes on other components, in order.
\<close>

type_synonym ('s, 'r, 'o) outcome = "('s \<times> 'r \<times> 'o list) option"

definition and_then :: "('s, 'a, 'o) outcome \<Rightarrow> ('s \<Rightarrow> 'a \<Rightarrow> ('t, 'b, 'o) outcome) \<Rightarrow> ('t, 'b, 'o) outcome" where
  "and_then m f = (case m of None \<Rightarrow> None
     | Some (s, a, out) \<Rightarrow> (case f s a of None \<Rightarrow> None | Some (s', b, out') \<Rightarrow> Some (s', b, out @ out')))"

lemma and_then_None [simp]: "and_then None f = None"
  by (simp add: and_then_def)

lemma and_then_Some [simp]:
  "and_then (Some (s, a, out)) f = map_option (\<lambda>(s', b, out'). (s', b, out @ out')) (f s a)"
  by (auto simp: and_then_def split: option.splits)

lemma and_then_eq_Some:
  "and_then m f = Some (t, b, out) \<longleftrightarrow>
     (\<exists>s a o1 o2. m = Some (s, a, o1) \<and> f s a = Some (t, b, o2) \<and> out = o1 @ o2)"
  by (auto simp: and_then_def split: option.splits)

section \<open>Services\<close>

text \<open>
  A service that takes requests from several producers and serves them one after
  the other.  \<open>post\<close> hands over a request, \<open>serve\<close> is a step of the server, \<open>ctl\<close> is anything else
  that may happen to the service.
\<close>

datatype ('m, 'c) service_event = Post 'm | Serve | Ctl 'c

fun service_run ::
  "('m \<Rightarrow> 's \<Rightarrow> 's option) \<Rightarrow> ('s \<Rightarrow> ('s \<times> 'm list) option) \<Rightarrow> ('c \<Rightarrow> 's \<Rightarrow> 's) \<Rightarrow> ('s \<Rightarrow> bool)
     \<Rightarrow> ('m, 'c) service_event list \<Rightarrow> 's \<Rightarrow> ('s \<times> 'm list \<times> 'm list) option" where
  "service_run post serve ctl accepting [] s = Some (s, [], [])"
| "service_run post serve ctl accepting (Post m # evs) s =
     (case post m s of None \<Rightarrow> None
      | Some s' \<Rightarrow> map_option (\<lambda>(t, acc, out). (t, (if accepting s then m # acc else acc), out))
                    (service_run post serve ctl accepting evs s'))"
| "service_run post serve ctl accepting (Serve # evs) s =
     (case serve s of None \<Rightarrow> None
      | Some (s', served) \<Rightarrow> map_option (\<lambda>(t, acc, out). (t, acc, served @ out))
                              (service_run post serve ctl accepting evs s'))"
| "service_run post serve ctl accepting (Ctl c # evs) s = service_run post serve ctl accepting evs (ctl c s)"

locale message_service =
  fixes post :: "'m \<Rightarrow> 's \<Rightarrow> 's option"
    and serve :: "'s \<Rightarrow> ('s \<times> 'm list) option"
    and ctl :: "'c \<Rightarrow> 's \<Rightarrow> 's"
    and accepting :: "'s \<Rightarrow> bool"
    and valid :: "'m \<Rightarrow> bool"
    and pending :: "'s \<Rightarrow> 'm list"
    and inv :: "'s \<Rightarrow> bool"
  assumes post_accepted: "inv s \<Longrightarrow> valid m \<Longrightarrow> accepting s \<Longrightarrow>
      \<exists>s'. post m s = Some s' \<and> inv s' \<and> pending s' = pending s @ [m]"
    and post_refused: "inv s \<Longrightarrow> \<not> accepting s \<Longrightarrow> post m s = Some s"
    and serve_ok: "inv s \<Longrightarrow> \<exists>s' out. serve s = Some (s', out) \<and> inv s' \<and> pending s = out @ pending s'"
    and ctl_ok: "inv s \<Longrightarrow> inv (ctl c s) \<and> pending (ctl c s) = pending s"
begin

lemma service_fifo:
  assumes "inv s" and "\<And>m. Post m \<in> set evs \<Longrightarrow> valid m"
  shows "\<exists>s' acc out. service_run post serve ctl accepting evs s = Some (s', acc, out)
    \<and> inv s' \<and> pending s @ acc = out @ pending s'"
  using assms
proof (induction evs arbitrary: s)
  case (Cons ev evs)
  have ih: "\<exists>t acc out. service_run post serve ctl accepting evs s' = Some (t, acc, out)
      \<and> inv t \<and> pending s' @ acc = out @ pending t" if "inv s'" for s'
    using Cons.IH[OF that] Cons.prems(2) by simp
  show ?case
  proof (cases ev)
    case (Post m)
    obtain s' where s': "post m s = Some s'" "inv s'"
        "pending s' = pending s @ (if accepting s then [m] else [])"
      using post_accepted[OF Cons.prems(1), of m] post_refused[OF Cons.prems(1), of m] Cons.prems Post
      by (cases "accepting s") auto
    show ?thesis using ih[OF s'(2)] s' Post by (cases "accepting s") auto
  next
    case Serve
    obtain s' o1 where s': "serve s = Some (s', o1)" "inv s'" "pending s = o1 @ pending s'"
      using serve_ok[OF Cons.prems(1)] by blast
    show ?thesis using ih[OF s'(2)] s' Serve by auto
  next
    case (Ctl c)
    show ?thesis using ih[of "ctl c s"] ctl_ok[OF Cons.prems(1), of c] Ctl by auto
  qed
qed simp

end

end
