(* ===== verification/APC_Types.thy ===== *)
theory APC_Types
  imports APB_Prelude
begin

text \<open>
  Data types of the manager protocol and the constants the components share:
  \<^verbatim>\<open>common/common.h\<close> (byte order, identifiers, sizes), \<^verbatim>\<open>public/APCError.h\<close>,
  \<^verbatim>\<open>public/IAPCCommon.h\<close> and \<^verbatim>\<open>APCProto.h\<close>.  An enumeration that never leaves the program is a
  datatype; \<^verbatim>\<open>apc_msg_type_t\<close> is read from the wire into a \<^verbatim>\<open>uint8_t\<close> enumeration without a
  range check and therefore is a byte with named values.
\<close>

named_theorems apc_const_defs "named constants of the protocol headers"

section \<open>common.h\<close>

definition MAX_NET_PKT_SIZE :: u32 where [apc_const_defs]: "MAX_NET_PKT_SIZE = 1024"

type_synonym moteid_t = u16
definition MOTEID_EMPTY :: moteid_t where [apc_const_defs]: "MOTEID_EMPTY = 0"
definition MOTEID_BROADCAST :: moteid_t where [apc_const_defs]: "MOTEID_BROADCAST = 0xFFFF"

type_synonym ap_intf_id_t = u32
definition APINTFID_EMPTY :: ap_intf_id_t where [apc_const_defs]: "APINTFID_EMPTY = 0"

definition htonll :: "u64 \<Rightarrow> u64" where
  "htonll l =
     (drop_bit 56 l AND 0x00000000000000FF) OR
     (drop_bit 40 l AND 0x000000000000FF00) OR
     (drop_bit 24 l AND 0x0000000000FF0000) OR
     (drop_bit 8 l AND 0x00000000FF000000) OR
     (push_bit 8 l AND 0x000000FF00000000) OR
     (push_bit 24 l AND 0x0000FF0000000000) OR
     (push_bit 40 l AND 0x00FF000000000000) OR
     (push_bit 56 l AND 0xFF00000000000000)"

definition ntohll :: "u64 \<Rightarrow> u64" where "ntohll l = htonll l"

datatype converttype_t = HOST_TO_NET | NET_TO_HOST

definition CONVERT_S :: "converttype_t \<Rightarrow> u16 \<Rightarrow> u16" where
  "CONVERT_S c v = (if c = NET_TO_HOST then ntohs v else htons v)"

definition CONVERT_L :: "converttype_t \<Rightarrow> u32 \<Rightarrow> u32" where
  "CONVERT_L c v = (if c = NET_TO_HOST then ntohl v else htonl v)"

definition CONVERT_LL :: "converttype_t \<Rightarrow> u64 \<Rightarrow> u64" where
  "CONVERT_LL c v = (if c = NET_TO_HOST then ntohll v else htonll v)"

section \<open>APCError.h\<close>

datatype apc_error_t =
    APC_OK | APC_STOP_CONNECTOR | APC_ERR_INIT | APC_ERR_SIZE | APC_ERR_OUTBUFOVERFLOW
  | APC_ERR_UNCONFIRMED_PKT | APC_ERR_IO | APC_ERR_ASYNC_OPERATION | APC_ERR_STATE
  | APC_ERR_PROTOCOL | APC_ERR_NOTFOUND | APC_ERR_PKTSERIALIZATION | APC_ERR_NOTCONNECT
  | APC_ERR_DISCONNECT | APC_ERR_OFFLINE | APC_ERR_CONNECT

datatype apc_stop_reason_t =
    APC_STOP_NA | APC_DISCONNECT_MSG | APC_STOP_TIMEOUT | APC_STOP_CREATE | APC_STOP_READ
  | APC_STOP_WRITE | APC_STOP_CLOSE | APC_STOP_DELAYED | APC_STOP_CONNECT_NOT_FOUND
  | APC_STOP_CONNECT_NEW_PORT | APC_STOP_CONNECT_SAME_PORT | APC_STOP_PKTPARSE | APC_STOP_VER
  | APC_STOP_MAXAPC | APC_STOP_RECONNECTION

section \<open>APCProto.h\<close>

type_synonym apc_msg_type_t = byte

definition APC_NA :: apc_msg_type_t where [apc_const_defs]: "APC_NA = 0"
definition APC_CONNECT :: apc_msg_type_t where [apc_const_defs]: "APC_CONNECT = 1"
definition APC_DISCONNECT :: apc_msg_type_t where [apc_const_defs]: "APC_DISCONNECT = 2"
definition APC_NET_TX :: apc_msg_type_t where [apc_const_defs]: "APC_NET_TX = 3"
definition APC_NET_RX :: apc_msg_type_t where [apc_const_defs]: "APC_NET_RX = 4"
definition APC_NET_TXDONE :: apc_msg_type_t where [apc_const_defs]: "APC_NET_TXDONE = 5"
definition APC_NET_TX_PAUSE :: apc_msg_type_t where [apc_const_defs]: "APC_NET_TX_PAUSE = 6"
definition APC_NET_TX_RESUME :: apc_msg_type_t where [apc_const_defs]: "APC_NET_TX_RESUME = 7"
definition APC_RESET_AP :: apc_msg_type_t where [apc_const_defs]: "APC_RESET_AP = 8"
definition APC_KA :: apc_msg_type_t where [apc_const_defs]: "APC_KA = 9"
definition APC_AP_LOST :: apc_msg_type_t where [apc_const_defs]: "APC_AP_LOST = 10"
definition APC_GET_TIME :: apc_msg_type_t where [apc_const_defs]: "APC_GET_TIME = 11"
definition APC_TIME_MAP :: apc_msg_type_t where [apc_const_defs]: "APC_TIME_MAP = 12"
definition APC_GPS_LOCK :: apc_msg_type_t where [apc_const_defs]: "APC_GPS_LOCK = 13"
definition APC_DISCONNECT_AP :: apc_msg_type_t where [apc_const_defs]: "APC_DISCONNECT_AP = 14"

definition SIZE_STR_VER :: nat where [apc_const_defs]: "SIZE_STR_VER = 80"
definition APC_PROTO_VER :: byte where [apc_const_defs]: "APC_PROTO_VER = 1"
definition APC_FL_INTSYNCH_AP :: u32 where [apc_const_defs]: "APC_FL_INTSYNCH_AP = 0x1"
definition APC_COOKIE :: u32 where [apc_const_defs]: "APC_COOKIE = 0x7E7E7E7E"
definition APC_HDR_FLAGS_NOTRACK :: byte where [apc_const_defs]: "APC_HDR_FLAGS_NOTRACK = 0x1"
definition APC_NETTX_FL_USETXINFO :: byte where [apc_const_defs]: "APC_NETTX_FL_USETXINFO = 0x1"
definition APC_NETTX_NOTXDONE :: u16 where [apc_const_defs]: "APC_NETTX_NOTXDONE = 0xFFFF"

text \<open>The packed structures have no padding: their sizes are the sums of the field sizes.\<close>

definition sizeof_apc_hdr_s :: nat where [wire_simps]: "sizeof_apc_hdr_s = 4 + 1 + 4 + 4 + 1 + 2"
definition sizeof_apc_msg_net_gpslock_s :: nat where [wire_simps]: "sizeof_apc_msg_net_gpslock_s = 1"
definition sizeof_apc_msg_connect_s :: nat where [wire_simps]:
  "sizeof_apc_msg_connect_s = 1 + 4 + 32 + 4 + 1 + 4 + 80"
definition sizeof_apc_msg_net_tx_s :: nat where [wire_simps]: "sizeof_apc_msg_net_tx_s = 1 + 2 + 1 + 1 + 4 + 1 + 2"
definition sizeof_apc_msg_net_txdone_s :: nat where [wire_simps]: "sizeof_apc_msg_net_txdone_s = 2 + 1"
definition sizeof_apc_msg_timemap_s :: nat where [wire_simps]: "sizeof_apc_msg_timemap_s = 8 + 4 + 8 + 2"

definition MAX_APC_HDR_SIZE :: nat where [wire_simps]:
  "MAX_APC_HDR_SIZE = sizeof_apc_hdr_s + sizeof_apc_msg_net_tx_s"

definition APC_MAX_MSG_SIZE :: nat where [wire_simps]:
  "APC_MAX_MSG_SIZE = unat MAX_NET_PKT_SIZE + MAX_APC_HDR_SIZE"

lemma APC_MAX_MSG_SIZE_val: "APC_MAX_MSG_SIZE = 1052"
  by (simp add: wire_simps apc_const_defs)

section \<open>IAPCCommon.h\<close>

datatype ap_intf_priority_t = APINTF_LOW | APINTF_MED | APINTF_HI | APINTF_CMD

record ap_intf_sendhdr_t =
  sh_priority :: ap_intf_priority_t
  sh_isTxDoneRequested :: bool
  sh_txDoneId :: u16
  sh_isLinkInfoSpecified :: bool
  sh_frId :: byte
  sh_slot :: u32
  sh_offset :: byte
  sh_dst :: u16

datatype ap_intf_txstatus_t = APINTF_TXDONE_OK | APINTF_TXDONE_ERR

record ap_intf_txdone_t =
  td_txDoneId :: u16
  td_status :: ap_intf_txstatus_t

record ap_time_map_t =
  tm_timeSec :: u64
  tm_timeUsec :: u32
  tm_asn :: u64
  tm_asnOffset :: u16

datatype ap_int_gpslockstat_t = APINTF_GPS_LOCK | APINTF_GPS_NOLOCK

datatype EAPClockSource = INTERNAL | NETWORK | PPS | MNGRSET

section \<open>Byte order\<close>

lemma le_bytes_8:
  "le_bytes 8 w = [ucast w, ucast (drop_bit 8 w), ucast (drop_bit 16 w), ucast (drop_bit 24 w),
     ucast (drop_bit 32 w), ucast (drop_bit 40 w), ucast (drop_bit 48 w), ucast (drop_bit 56 w)]"
  by (simp add: eval_nat_numeral)

lemma byte_masks:
  "(0xFF00 :: u64) = push_bit 8 (mask 8)"
  "(0xFF0000 :: u64) = push_bit 16 (mask 8)" "(0xFF000000 :: u64) = push_bit 24 (mask 8)"
  "(0xFF00000000 :: u64) = push_bit 32 (mask 8)" "(0xFF0000000000 :: u64) = push_bit 40 (mask 8)"
  "(0xFF000000000000 :: u64) = push_bit 48 (mask 8)"
  "(0xFF00000000000000 :: u64) = push_bit 56 (mask 8)"
  by (simp_all add: mask_eq_exp_minus_1 push_bit_eq_mult)

lemma bit_and_byte_mask:
  "bit (x AND push_bit k (mask 8)) n \<longleftrightarrow> bit x n \<and> k \<le> n \<and> n < k + 8" for x :: u64
  by (auto simp: bit_simps dest: bit_imp_le_length)

lemma bit_htonll:
  "bit (htonll w) n \<longleftrightarrow>
     n < 64 \<and> bit w (if n < 8 then n + 56 else if n < 16 then n + 40 else if n < 24 then n + 24
       else if n < 32 then n + 8 else if n < 40 then n - 8 else if n < 48 then n - 24
       else if n < 56 then n - 40 else n - 56)"
proof -
  have mask_0: "(0xFF :: u64) = push_bit 0 (mask 8)" by (simp add: mask_eq_exp_minus_1)
  show ?thesis
    unfolding htonll_def mask_0 byte_masks bit_or_iff bit_and_byte_mask
    by (auto simp: bit_push_bit_iff bit_drop_bit_eq add.commute dest: bit_imp_le_length)
qed

lemma le_bytes_htonll: "le_bytes 8 (htonll w) = rev (le_bytes 8 w)"
  unfolding le_bytes_8
  by (simp, intro conjI; rule bit_eqI; simp add: bit_simps bit_htonll add.commute)

lemma htonll_htonll [simp]: "htonll (htonll w) = w"
proof -
  have "le_bytes 8 (htonll (htonll w)) = le_bytes 8 w" by (simp add: le_bytes_htonll)
  then show ?thesis by (simp add: le_bytes_inject)
qed

lemma CONVERT_involution [simp]:
  "CONVERT_S NET_TO_HOST (CONVERT_S HOST_TO_NET s) = s"
  "CONVERT_L NET_TO_HOST (CONVERT_L HOST_TO_NET l) = l"
  "CONVERT_LL NET_TO_HOST (CONVERT_LL HOST_TO_NET ll) = ll"
  by (simp_all add: CONVERT_S_def CONVERT_L_def CONVERT_LL_def ntohs_def ntohl_def ntohll_def)

end
