(* ===== verification/APM_Types.thy ===== *)
theory APM_Types
  imports APC_Types
begin

text \<open>
  The part of the serial protocol of the access point mote that the bridge uses
  (\<^verbatim>\<open>dn_api_common.h\<close>, \<^verbatim>\<open>dn_api_local.h\<close>, \<^verbatim>\<open>dn_api_param.h\<close>, \<^verbatim>\<open>dn_api_net.h\<close>, \<^verbatim>\<open>dn_mesh.h\<close>): command
  and parameter identifiers, return codes, and the packed structures of responses and notifications
  with their sizes and layout.  A structure that is handed on is a record; its fields are read from the bytes of the message.
\<close>

named_theorems dn_defs \<open>constants of the serial protocol\<close>

section \<open>Identifiers\<close>

definition DN_API_LOC_CMD_SETPARAM :: byte where [dn_defs]: "DN_API_LOC_CMD_SETPARAM = 0x01"
definition DN_API_LOC_CMD_GETPARAM :: byte where [dn_defs]: "DN_API_LOC_CMD_GETPARAM = 0x02"
definition DN_API_LOC_CMD_JOIN :: byte where [dn_defs]: "DN_API_LOC_CMD_JOIN = 0x06"
definition DN_API_LOC_CMD_DISCONNECT :: byte where [dn_defs]: "DN_API_LOC_CMD_DISCONNECT = 0x07"
definition DN_API_LOC_NOTIF_TIME :: byte where [dn_defs]: "DN_API_LOC_NOTIF_TIME = 0x0D"
definition DN_API_LOC_NOTIF_EVENTS :: byte where [dn_defs]: "DN_API_LOC_NOTIF_EVENTS = 0x0F"
definition DN_API_LOC_CMD_AP_SEND :: byte where [dn_defs]: "DN_API_LOC_CMD_AP_SEND = 0x23"
definition DN_API_LOC_NOTIF_TXDONE :: byte where [dn_defs]: "DN_API_LOC_NOTIF_TXDONE = 0x25"
definition DN_API_LOC_NOTIF_AP_RECEIVE :: byte where [dn_defs]: "DN_API_LOC_NOTIF_AP_RECEIVE = 0x27"
definition DN_API_LOC_NOTIF_READY_FOR_TIME :: byte where [dn_defs]: "DN_API_LOC_NOTIF_READY_FOR_TIME = 0x2C"
definition DN_API_LOC_CMD_WRITE_GPS_STATUS :: byte where [dn_defs]: "DN_API_LOC_CMD_WRITE_GPS_STATUS = 0x2D"

definition DN_API_LOC_EV_BOOT :: u32 where [dn_defs]: "DN_API_LOC_EV_BOOT = 0x01"

definition DN_API_PARAM_MACADDR :: byte where [dn_defs]: "DN_API_PARAM_MACADDR = 0x01"
definition DN_API_PARAM_NETID :: byte where [dn_defs]: "DN_API_PARAM_NETID = 0x03"
definition DN_API_PARAM_MOTEINFO :: byte where [dn_defs]: "DN_API_PARAM_MOTEINFO = 0x0C"
definition DN_API_PARAM_TIME :: byte where [dn_defs]: "DN_API_PARAM_TIME = 0x0F"
definition DN_API_PARAM_APPINFO :: byte where [dn_defs]: "DN_API_PARAM_APPINFO = 0x1E"
definition DN_API_PARAM_AP_CLKSRC :: byte where [dn_defs]: "DN_API_PARAM_AP_CLKSRC = 0x26"
definition DN_API_PARAM_AP_STATUS :: byte where [dn_defs]: "DN_API_PARAM_AP_STATUS = 0x28"

definition DN_API_RC_OK :: byte where [dn_defs]: "DN_API_RC_OK = 0x00"
definition DN_API_RC_NO_RESOURCES :: byte where [dn_defs]: "DN_API_RC_NO_RESOURCES = 0x0C"

definition DN_API_ST_IDLE :: byte where [dn_defs]: "DN_API_ST_IDLE = 1"

definition DN_API_AP_CLK_SOURCE_INTERNAL :: byte where [dn_defs]: "DN_API_AP_CLK_SOURCE_INTERNAL = 0"
definition DN_API_AP_CLK_SOURCE_NETWORK :: byte where [dn_defs]: "DN_API_AP_CLK_SOURCE_NETWORK = 1"
definition DN_API_AP_CLK_SOURCE_PPS :: byte where [dn_defs]: "DN_API_AP_CLK_SOURCE_PPS = 2"
definition DN_API_AP_CLK_SOURCE_AUTO :: byte where [dn_defs]: "DN_API_AP_CLK_SOURCE_AUTO = 3"

section \<open>Structures\<close>

definition DN_MACADDR_SIZE :: nat where [dn_defs]: "DN_MACADDR_SIZE = 8"
definition DN_SERNUM_SIZE :: nat where [dn_defs]: "DN_SERNUM_SIZE = 8"
definition DN_ASN_SIZE :: nat where [dn_defs]: "DN_ASN_SIZE = 5"

record dn_api_swver_t =
  ver_major :: byte
  ver_minor :: byte
  ver_patch :: byte
  ver_build :: u16

record dn_api_loc_notif_events_t =
  ev_events :: u32
  ev_state :: byte
  ev_alarms :: u32

record dn_api_loc_notif_txdone_t =
  txd_packetId :: u16
  txd_status :: byte

record dn_api_rsp_get_time_t =
  gt_asn :: "byte list"
  gt_offset :: u16

definition sizeof_dn_utc_time_t :: nat where [dn_defs]: "sizeof_dn_utc_time_t = 8 + 4"
definition sizeof_dn_api_swver_t :: nat where [dn_defs]: "sizeof_dn_api_swver_t = 1 + 1 + 1 + 2"
definition sizeof_dn_api_loc_notif_events_t :: nat where [dn_defs]: "sizeof_dn_api_loc_notif_events_t = 4 + 1 + 4"
definition sizeof_dn_api_loc_notif_txdone_t :: nat where [dn_defs]: "sizeof_dn_api_loc_notif_txdone_t = 2 + 1"
definition sizeof_dn_api_loc_notif_time_t :: nat where [dn_defs]:
  "sizeof_dn_api_loc_notif_time_t = 4 + sizeof_dn_utc_time_t + DN_ASN_SIZE + 2 + 2"
definition sizeof_dn_api_loc_notif_ready_for_time_t :: nat where [dn_defs]: "sizeof_dn_api_loc_notif_ready_for_time_t = 1"
definition sizeof_dn_api_rsp_get_macaddr_t :: nat where [dn_defs]: "sizeof_dn_api_rsp_get_macaddr_t = 1 + 1 + DN_MACADDR_SIZE"
definition sizeof_dn_api_rsp_get_moteinfo_t :: nat where [dn_defs]:
  "sizeof_dn_api_rsp_get_moteinfo_t = 1 + 1 + 1 + DN_SERNUM_SIZE + 1 + 1 + sizeof_dn_api_swver_t + 1"
definition sizeof_dn_api_rsp_get_appinfo_t :: nat where [dn_defs]:
  "sizeof_dn_api_rsp_get_appinfo_t = 1 + 1 + 2 + 1 + sizeof_dn_api_swver_t"
definition sizeof_dn_api_rsp_get_ap_clksrc_t :: nat where [dn_defs]: "sizeof_dn_api_rsp_get_ap_clksrc_t = 1 + 1 + 1"
definition sizeof_dn_api_rsp_get_netid_t :: nat where [dn_defs]: "sizeof_dn_api_rsp_get_netid_t = 1 + 1 + 2"
definition sizeof_dn_api_rsp_get_time_t :: nat where [dn_defs]:
  "sizeof_dn_api_rsp_get_time_t = 1 + 1 + 4 + sizeof_dn_utc_time_t + DN_ASN_SIZE + 2"
definition sizeof_dn_api_rsp_get_apstatus_t :: nat where [dn_defs]: "sizeof_dn_api_rsp_get_apstatus_t = 1 + 1 + 1"

definition sizeof_dn_api_set_netid_t :: nat where [dn_defs]: "sizeof_dn_api_set_netid_t = 1 + 2"
definition sizeof_dn_api_loc_apsend_ctrl_t :: nat where [dn_defs]: "sizeof_dn_api_loc_apsend_ctrl_t = 1 + 2 + 1 + 4 + 1 + 2"

text \<open>
  The \<^verbatim>\<open>INT16U\<close> and \<^verbatim>\<open>INT32U\<close> fields hold the bytes of the message as a little endian machine reads
  them; the code that uses a field converts it.
\<close>

definition swver_at :: "nat \<Rightarrow> byte list \<Rightarrow> dn_api_swver_t" where
  "swver_at off pl = \<lparr>ver_major = pl ! off, ver_minor = pl ! (off + 1), ver_patch = pl ! (off + 2),
     ver_build = le_word (take 2 (drop (off + 3) pl))\<rparr>"

section \<open>Notifications of the access point\<close>

text \<open>The calls of \<^verbatim>\<open>IAPMNotifHandler\<close>, with the parts of the structures that receivers use.\<close>

datatype IAPMNotifHandler =
    handleAPReceive "byte list"
  | handleEvent dn_api_loc_notif_events_t
  | handleTimeIndication "byte list"
  | handleReadyForTime byte
  | handleTXDone dn_api_loc_notif_txdone_t
  | handleParamMacAddress "byte list"
  | handleParamMoteInfo dn_api_swver_t
  | handleParamAppInfo dn_api_swver_t
  | handleParamClkSrc byte
  | handleParamNetId u16
  | handleParamGetTime dn_api_rsp_get_time_t
  | handleParamApStatus byte
  | handleAPLost
  | handleAPPause
  | handleAPResume
  | handleAPBoot
  | handleAPReboot
  | handleError byte byte

end
