(* ===== verification/APM_Serializer.thy ===== *)
theory APM_Serializer
  imports APM_Types
begin

text \<open>
  Parsing of the responses and notifications of the access point (\<^verbatim>\<open>APMSerializer.h\<close>, \<^verbatim>\<open>APMSerializer.cpp\<close>).

  The serializer calls its handler at most once per message, as its last action; \<^verbatim>\<open>handleCmd\<close> returns
  that call.  The input buffer fields of the class are never used and left out.  \<^const>\<open>None\<close> is a read outside the message.
\<close>

section \<open>Data and operations\<close>

definition APM_MAX_BOOT_EVENTS :: u16 where "APM_MAX_BOOT_EVENTS = 10"

record CAPMSerializer =
  m_bootCounter :: u16

definition new_CAPMSerializer :: CAPMSerializer where
  "new_CAPMSerializer = \<lparr>m_bootCounter = 0\<rparr>"

text \<open>\<^verbatim>\<open>bufferCast_p<T>(payload, length)\<close>: the message is at least as long as the structure.\<close>

definition fits :: "nat \<Rightarrow> byte list \<Rightarrow> bool" where
  "fits sz pl \<longleftrightarrow> \<not> length pl < sz"

definition u16_at :: "nat \<Rightarrow> byte list \<Rightarrow> u16" where
  "u16_at off pl = le_word (take 2 (drop off pl))"

definition u32_at :: "nat \<Rightarrow> byte list \<Rightarrow> u32" where
  "u32_at off pl = le_word (take 4 (drop off pl))"

definition handleGetParam :: "byte list \<Rightarrow> IAPMNotifHandler list option" where
  "handleGetParam pl =
     (if length pl < 2 then None
      else
        let paramId = pl ! 1 in
        if paramId = DN_API_PARAM_MACADDR then
          Some (if fits sizeof_dn_api_rsp_get_macaddr_t pl
                then [handleParamMacAddress (take DN_MACADDR_SIZE (drop 2 pl))] else [])
        else if paramId = DN_API_PARAM_MOTEINFO then
          Some (if fits sizeof_dn_api_rsp_get_moteinfo_t pl
                then [handleParamMoteInfo (swver_at (1 + 1 + 1 + DN_SERNUM_SIZE + 1 + 1) pl)] else [])
        else if paramId = DN_API_PARAM_APPINFO then
          Some (if fits sizeof_dn_api_rsp_get_appinfo_t pl
                then [handleParamAppInfo (swver_at (1 + 1 + 2 + 1) pl)] else [])
        else if paramId = DN_API_PARAM_AP_CLKSRC then
          Some (if fits sizeof_dn_api_rsp_get_ap_clksrc_t pl then [handleParamClkSrc (pl ! 2)] else [])
        else if paramId = DN_API_PARAM_NETID then
          Some (if fits sizeof_dn_api_rsp_get_netid_t pl then [handleParamNetId (ntohs (u16_at 2 pl))] else [])
        else if paramId = DN_API_PARAM_TIME then
          Some (if fits sizeof_dn_api_rsp_get_time_t pl
                then [handleParamGetTime \<lparr>gt_asn = take DN_ASN_SIZE (drop (1 + 1 + 4 + sizeof_dn_utc_time_t) pl),
                        gt_offset = ntohs (u16_at (1 + 1 + 4 + sizeof_dn_utc_time_t + DN_ASN_SIZE) pl)\<rparr>] else [])
        else if paramId = DN_API_PARAM_AP_STATUS then
          Some (if fits sizeof_dn_api_rsp_get_apstatus_t pl then [handleParamApStatus (pl ! 2)] else [])
        else Some [])"

definition handleCmd ::
  "CAPMSerializer \<Rightarrow> byte \<Rightarrow> byte list \<Rightarrow> (CAPMSerializer \<times> apc_error_t \<times> IAPMNotifHandler list) option" where
  "handleCmd s cmdId pl =
     (let s = (if cmdId \<noteq> DN_API_LOC_NOTIF_EVENTS then s\<lparr>m_bootCounter := 0\<rparr> else s) in
      if cmdId = DN_API_LOC_NOTIF_EVENTS then
        if fits sizeof_dn_api_loc_notif_events_t pl then
          let events = ntohl (u32_at 0 pl); alarms = ntohl (u32_at 5 pl) in
          if events AND DN_API_LOC_EV_BOOT \<noteq> 0 then
            let s = s\<lparr>m_bootCounter := m_bootCounter s + 1\<rparr> in
            if m_bootCounter s > APM_MAX_BOOT_EVENTS
            then Some (s\<lparr>m_bootCounter := 0\<rparr>, APC_OK, [handleAPLost])
            else Some (s, APC_OK, [handleAPBoot])
          else Some (s\<lparr>m_bootCounter := 0\<rparr>, APC_OK,
                     [handleEvent \<lparr>ev_events = events, ev_state = pl ! 4, ev_alarms = alarms\<rparr>])
        else Some (s, APC_OK, [])
      else if cmdId = DN_API_LOC_NOTIF_TXDONE then
        Some (s, APC_OK, if fits sizeof_dn_api_loc_notif_txdone_t pl
                         then [handleTXDone \<lparr>txd_packetId = ntohs (u16_at 0 pl), txd_status = pl ! 2\<rparr>] else [])
      else if cmdId = DN_API_LOC_NOTIF_AP_RECEIVE then Some (s, APC_OK, [handleAPReceive pl])
      else if cmdId = DN_API_LOC_CMD_GETPARAM then map_option (\<lambda>ns. (s, APC_OK, ns)) (handleGetParam pl)
      else if cmdId = DN_API_LOC_NOTIF_TIME then
        Some (s, APC_OK, if fits sizeof_dn_api_loc_notif_time_t pl
                         then [handleTimeIndication (take sizeof_dn_api_loc_notif_time_t pl)] else [])
      else if cmdId = DN_API_LOC_NOTIF_READY_FOR_TIME then
        Some (s, APC_OK, if fits sizeof_dn_api_loc_notif_ready_for_time_t pl then [handleReadyForTime (pl ! 0)] else [])
      else if cmdId = DN_API_LOC_CMD_WRITE_GPS_STATUS then
        (if length pl < 1 then None else Some (s, APC_OK, []))
      else Some (s, APC_OK, []))"

definition handleError_p :: "byte \<Rightarrow> byte \<Rightarrow> IAPMNotifHandler list" where
  "handleError_p cmdId rc = [handleError cmdId rc]"

text \<open>
  \<^verbatim>\<open>prepMsg\<close> fills the command and length of the header and copies the payload; the flags byte of the buffer is left as it
  is.  \<^verbatim>\<open>convert\<close> does nothing.
\<close>

definition apm_prepMsg ::
  "byte \<Rightarrow> byte list \<Rightarrow> byte list \<Rightarrow> nat \<Rightarrow> (byte list \<times> nat \<times> apc_error_t) option" where
  "apm_prepMsg cmdId payload msg maxSize =
     (let msgSize = length payload + 3 in
      if msgSize > maxSize then Some (msg, msgSize, APC_ERR_SIZE)
      else if length msg < 3 then None
      else
        let msg = msg[0 := cmdId, 1 := word_of_nat (length payload)]
        in case memcpy_at 3 payload msg of None \<Rightarrow> None | Some msg \<Rightarrow> Some (msg, msgSize, APC_OK))"

section \<open>Boot events\<close>

text \<open>A boot notification as it arrives.\<close>

definition is_boot :: "byte list \<Rightarrow> bool" where
  "is_boot pl \<longleftrightarrow> fits sizeof_dn_api_loc_notif_events_t pl \<and> ntohl (u32_at 0 pl) AND DN_API_LOC_EV_BOOT \<noteq> 0"

lemma handleCmd_boot:
  assumes "is_boot pl"
  shows "handleCmd s DN_API_LOC_NOTIF_EVENTS pl =
    (if m_bootCounter s + 1 > APM_MAX_BOOT_EVENTS then Some (s\<lparr>m_bootCounter := 0\<rparr>, APC_OK, [handleAPLost])
     else Some (s\<lparr>m_bootCounter := m_bootCounter s + 1\<rparr>, APC_OK, [handleAPBoot]))"
  using assms by (simp add: handleCmd_def is_boot_def Let_def)

text \<open>The handler is called at most once, and only with what the message says.\<close>

lemma handleCmd_once:
  assumes "handleCmd s cmdId pl = Some (s', r, ns)"
  shows "r = APC_OK" and "length ns \<le> 1"
  using assms unfolding handleCmd_def handleGetParam_def Let_def
  by (auto split: if_splits)

lemma handleCmd_resets:
  assumes "handleCmd s cmdId pl = Some (s', r, ns)" and "\<not> (cmdId = DN_API_LOC_NOTIF_EVENTS \<and> is_boot pl)"
    and "cmdId = DN_API_LOC_NOTIF_EVENTS \<Longrightarrow> fits sizeof_dn_api_loc_notif_events_t pl"
  shows "m_bootCounter s' = 0"
  using assms unfolding handleCmd_def is_boot_def Let_def
  by (auto split: if_splits)

text \<open>A sequence of event notifications handled one after the other.\<close>

definition event_step :: "CAPMSerializer \<Rightarrow> byte list \<Rightarrow> CAPMSerializer \<times> IAPMNotifHandler list" where
  "event_step s pl = (case handleCmd s DN_API_LOC_NOTIF_EVENTS pl of
     Some (s', _, ns) \<Rightarrow> (s', ns) | None \<Rightarrow> (s, []))"

lemma event_step_boot:
  assumes "is_boot pl" and "c \<le> 10"
  shows "event_step \<lparr>m_bootCounter = word_of_nat c\<rparr> pl =
     (\<lparr>m_bootCounter = word_of_nat (Suc c mod 11)\<rparr>, [if Suc c mod 11 = 0 then handleAPLost else handleAPBoot])"
proof -
  have "(word_of_nat c + 1 :: u16) = word_of_nat (Suc c)" by simp
  moreover have "(word_of_nat (Suc c) :: u16) > APM_MAX_BOOT_EVENTS \<longleftrightarrow> c = 10"
    using assms(2) by (auto simp: APM_MAX_BOOT_EVENTS_def word_less_nat_alt unat_of_nat simp del: of_nat_Suc)
  moreover have "c \<noteq> 10 \<Longrightarrow> Suc c mod 11 = Suc c" using assms(2) by simp
  ultimately show ?thesis
    using handleCmd_boot[OF assms(1), of "\<lparr>m_bootCounter = word_of_nat c\<rparr>"]
    by (cases "c = 10") (simp_all add: event_step_def del: of_nat_Suc)
qed

lemma boot_run:
  assumes "list_all is_boot pls" and "c \<le> 10"
  shows "snd (run event_step \<lparr>m_bootCounter = word_of_nat c\<rparr> pls) =
     map (\<lambda>k. if Suc (c + k) mod 11 = 0 then handleAPLost else handleAPBoot) [0..<length pls]"
  using assms
proof (induction pls arbitrary: c)
  case (Cons pl pls)
  have "Suc c mod 11 \<le> 10" using mod_less_divisor[of 11 "Suc c"] by linarith
  then have "snd (run event_step \<lparr>m_bootCounter = word_of_nat (Suc c mod 11)\<rparr> pls) =
      map (\<lambda>k. if Suc (Suc c mod 11 + k) mod 11 = 0 then handleAPLost else handleAPBoot) [0..<length pls]"
    using Cons by simp
  moreover have "Suc (Suc c mod 11 + k) mod 11 = Suc (c + Suc k) mod 11" for k
    by (metis add_Suc add_Suc_right mod_Suc_eq mod_add_left_eq)
  moreover have "[0..<length (pl # pls)] = 0 # map Suc [0..<length pls]"
    unfolding map_Suc_upt by (simp add: upt_conv_Cons del: upt_Suc)
  ultimately show ?case
    using event_step_boot[of pl c] Cons.prems by (simp add: run_simps comp_def)
qed (simp add: run_simps)

text \<open>
  An access point that boots again and again without anything else in between is reported as booted ten
  times in a row and every eleventh time as lost, so that it gets reset; the counter never grows beyond ten.\<close>

lemma boot_loop_reported_lost:
  assumes "list_all is_boot pls"
  shows "snd (run event_step new_CAPMSerializer pls) =
     map (\<lambda>k. if Suc k mod 11 = 0 then handleAPLost else handleAPBoot) [0..<length pls]"
  using boot_run[OF assms, of 0] by (simp add: new_CAPMSerializer_def)

lemma boot_loop_reported_lost_example:
  "snd (run event_step new_CAPMSerializer (replicate 11 [0, 0, 0, 1, 1, 0, 0, 0, 0]))
     = map (\<lambda>k. if Suc k mod 11 = 0 then handleAPLost else handleAPBoot) [0..<11]"
proof -
  have "is_boot [0, 0, 0, 1, 1, 0, 0, 0, 0]" by code_simp
  then have "list_all is_boot (replicate 11 [0, 0, 0, 1, 1, 0, 0, 0, 0])" by (simp add: list_all_iff)
  then show ?thesis
    using boot_loop_reported_lost[of "replicate 11 [0, 0, 0, 1, 1, 0, 0, 0, 0]"] by (simp only: length_replicate)
qed

end
