(* ===== verification/APM_Transport.thy ===== *)
theory APM_Transport
  imports APM_Serializer
begin

text \<open>
  The transport to the access point mote (\<^verbatim>\<open>APMTransport.h\<close>, \<^verbatim>\<open>APMTransport.cpp\<close>): one command at a time is sent
  over the serial port, repeated until a response with its command identifier and packet identifier arrives; notifications are
  acknowledged and repeated ones are dropped; the manager is paused while the queue is long or old.

  An operation is a function of the transport and of the environment of the call: the time, whether the
  serial port is ready, and the calls the upper layer makes on the transport while it handles a
  notification or a callback.  It returns the new transport, its result and the calls on the serial port and on
  the upper layer, in order.  Timers are their delay in milliseconds while a wait is pending.  Logging is left out, as is
  the branch of \<^verbatim>\<open>sendCommand\<close> for a missing output handler: the constructor sets it and it is dereferenced before.
\<close>

section \<open>Headers\<close>

record apt_hdr_s =
  hd_cmdId :: byte
  hd_length :: byte
  hd_flags :: byte

definition sizeof_apt_hdr_s :: nat where "sizeof_apt_hdr_s = 3"

definition new_apt_hdr_s :: "byte \<Rightarrow> u16 \<Rightarrow> byte \<Rightarrow> apt_hdr_s" where
  "new_apt_hdr_s cmd len f = \<lparr>hd_cmdId = cmd, hd_length = ucast len, hd_flags = f\<rparr>"

definition hdr_serialize :: "apt_hdr_s \<Rightarrow> byte list" where
  "hdr_serialize h = [hd_cmdId h, hd_length h AND 0xFF, hd_flags h]"

definition hdr_parse :: "byte list \<Rightarrow> (apt_hdr_s \<times> nat) option" where
  "hdr_parse input =
     (if length input \<ge> 3 then Some (\<lparr>hd_cmdId = input ! 0, hd_length = input ! 1, hd_flags = input ! 2\<rparr>, 3)
      else None)"

section \<open>State\<close>

datatype apm_flow_control_t = APM_FLOW_NORMAL | APM_FLOW_PAUSE

datatype err_callback = DisconnectErrorResponse | ExternErrorResponse nat

record APMCommand =
  ac_cmdId :: byte
  ac_payload :: "byte list"
  ac_isSynch :: bool
  ac_resCallback :: "nat option"
  ac_errResCallback :: "err_callback option"
  ac_timestamp :: nat

record tr_init_param_t =
  ti_maxQueueSize :: u16
  ti_highQueueWatermark :: u16
  ti_lowQueueWatermark :: u16
  ti_pingTimeout :: u32
  ti_retryDelay :: u32
  ti_retryTimeout :: u32
  ti_maxRetries :: u16
  ti_maxMsgSize :: u16
  ti_maxPacketAge :: u16

definition default_tr_init_param :: tr_init_param_t where
  "default_tr_init_param =
     \<lparr>ti_maxQueueSize = 16, ti_highQueueWatermark = 12, ti_lowQueueWatermark = 6, ti_pingTimeout = 1500,
      ti_retryDelay = 100, ti_retryTimeout = 1200, ti_maxRetries = 3, ti_maxMsgSize = 256, ti_maxPacketAge = 1500\<rparr>"

text \<open>The last argument of the constructor is narrowed from 32 to 16 bits.\<close>

definition new_tr_init_param ::
  "u16 \<Rightarrow> u16 \<Rightarrow> u16 \<Rightarrow> u32 \<Rightarrow> u32 \<Rightarrow> u32 \<Rightarrow> u16 \<Rightarrow> u16 \<Rightarrow> u32 \<Rightarrow> tr_init_param_t" where
  "new_tr_init_param queueSize highWatermark lowWatermark pingTimeout nackDelay retryTimeout maxRetries msgSize packetAge =
     \<lparr>ti_maxQueueSize = queueSize, ti_highQueueWatermark = highWatermark, ti_lowQueueWatermark = lowWatermark,
      ti_pingTimeout = pingTimeout, ti_retryDelay = nackDelay, ti_retryTimeout = retryTimeout, ti_maxRetries = maxRetries,
      ti_maxMsgSize = msgSize, ti_maxPacketAge = ucast packetAge\<rparr>"

text \<open>Rates are kept as the number of packets of the last complete interval of 30 and of 300 seconds.\<close>

record APMTStats =
  st_minRspTime :: u64
  st_maxRspTime :: u64
  st_lastRspTime :: int
  st_numRespRecv :: u32
  st_totalRspTime :: u64
  st_numPktsSent :: u32
  st_numBytesSent :: u32
  st_numPktsRecv :: u32
  st_numBytesRecv :: u32
  st_numNacks :: u32
  st_numRetriesSent :: u32
  st_numRetriesRecv :: u32
  st_maxNackCount :: u32
  st_minTimeInQueue :: u64
  st_maxTimeInQueue :: u64
  st_totalTimeInQueue :: u64
  st_numPacketsQueued :: u32
  st_timeInQueue :: int
  st_packetRate :: u32
  st_30secPackets :: u32
  st_5minPackets :: u32
  st_totalSecs :: u32

definition stats_reset :: APMTStats where
  "stats_reset =
     \<lparr>st_minRspTime = 10000000, st_maxRspTime = 0, st_lastRspTime = 0, st_numRespRecv = 0, st_totalRspTime = 0,
      st_numPktsSent = 0, st_numBytesSent = 0, st_numPktsRecv = 0, st_numBytesRecv = 0, st_numNacks = 0,
      st_numRetriesSent = 0, st_numRetriesRecv = 0, st_maxNackCount = 0, st_minTimeInQueue = 10000000,
      st_maxTimeInQueue = 0, st_totalTimeInQueue = 0, st_numPacketsQueued = 0, st_timeInQueue = 0,
      st_packetRate = 0, st_30secPackets = 0, st_5minPackets = 0, st_totalSecs = 0\<rparr>"

record CAPMTransport =
  tr_cmdHandler :: CAPMSerializer
  tr_params :: tr_init_param_t
  tr_outputTimer :: "u32 option"
  tr_pingTimer :: "u32 option"
  tr_ppsTimer :: "u32 option"
  tr_queueCheckTimer :: "u32 option"
  tr_curRetryCount :: u32
  tr_curNackCount :: u32
  tr_respPacketId :: byte
  tr_notifPacketId :: byte
  tr_pending :: bool
  tr_outputQueue :: "APMCommand list"
  tr_capacity :: nat
  tr_sendTime :: nat
  tr_stats :: APMTStats
  tr_apInputState :: apm_flow_control_t
  tr_mngrInputState :: apm_flow_control_t
  tr_isMngrConnected :: bool
  tr_isApConnected :: bool
  tr_isRunning :: bool
  tr_netId :: u32
  tr_reconnectSerial :: bool
  tr_abortEnabled :: bool
  tr_last_numNotifRecv :: u32
  tr_numNotifRecv_30sec_ago :: u32
  tr_numNotifRecv_5min_ago :: u32

definition new_CAPMTransport :: "bool \<Rightarrow> CAPMTransport" where
  "new_CAPMTransport bReconnectSerial =
     \<lparr>tr_cmdHandler = new_CAPMSerializer, tr_params = default_tr_init_param, tr_outputTimer = None, tr_pingTimer = None,
      tr_ppsTimer = None, tr_queueCheckTimer = None, tr_curRetryCount = 0, tr_curNackCount = 0, tr_respPacketId = 0,
      tr_notifPacketId = 0, tr_pending = False, tr_outputQueue = [], tr_capacity = 0, tr_sendTime = 0,
      tr_stats = stats_reset, tr_apInputState = APM_FLOW_NORMAL, tr_mngrInputState = APM_FLOW_NORMAL,
      tr_isMngrConnected = False, tr_isApConnected = False, tr_isRunning = False, tr_netId = 0,
      tr_reconnectSerial = bReconnectSerial, tr_abortEnabled = True, tr_last_numNotifRecv = 0,
      tr_numNotifRecv_30sec_ago = 0, tr_numNotifRecv_5min_ago = 0\<rparr>"

section \<open>Environment\<close>

datatype apm_out =
    SerWrite "byte list"
  | SerReopen
  | SerResetAP
  | ApmNotif IAPMNotifHandler
  | RespCallback nat byte "byte list"
  | ErrCallback nat byte byte
  | StopNode

text \<open>
  The calls the upper layer can make on the transport while it is being notified.  While it is told of a lost access point, of
  a pause or of a resume it makes only simple ones.
\<close>

datatype simple_call = CallHwReset | CallDisableJoin | CallSetAPMState apm_flow_control_t

record tr_request =
  rq_cmdId :: byte
  rq_data :: "byte list"
  rq_isHighPriority :: bool
  rq_resCallback :: "nat option"
  rq_errRespCallback :: "err_callback option"
  rq_isSynch :: bool

datatype tr_call = Simple simple_call | CallInsert tr_request

record tr_env =
  te_now :: nat
  te_ready :: bool
  te_simple :: "IAPMNotifHandler \<Rightarrow> simple_call list"
  te_react :: "apm_out \<Rightarrow> tr_call list"

type_synonym tr_step = "CAPMTransport \<times> apm_out list"

section \<open>Timers\<close>

definition startRetryTimer :: "CAPMTransport \<Rightarrow> CAPMTransport" where
  "startRetryTimer t = t\<lparr>tr_outputTimer := Some (ti_retryTimeout (tr_params t))\<rparr>"

definition stopRetryTimer :: "CAPMTransport \<Rightarrow> CAPMTransport" where
  "stopRetryTimer t = t\<lparr>tr_curRetryCount := 0, tr_outputTimer := None\<rparr>"

definition startNackRetryTimer :: "CAPMTransport \<Rightarrow> CAPMTransport" where
  "startNackRetryTimer t = t\<lparr>tr_outputTimer := Some (ti_retryDelay (tr_params t))\<rparr>"

definition startPingTimer :: "CAPMTransport \<Rightarrow> CAPMTransport" where
  "startPingTimer t = t\<lparr>tr_pingTimer := Some (ti_pingTimeout (tr_params t))\<rparr>"

definition stopPingTimer :: "CAPMTransport \<Rightarrow> CAPMTransport" where
  "stopPingTimer t = t\<lparr>tr_pingTimer := None\<rparr>"

definition startQueueCheckTimer :: "CAPMTransport \<Rightarrow> CAPMTransport" where
  "startQueueCheckTimer t = t\<lparr>tr_queueCheckTimer := Some (ucast (ti_maxPacketAge (tr_params t) div 2))\<rparr>"

definition stopQueueCheckTimer :: "CAPMTransport \<Rightarrow> CAPMTransport" where
  "stopQueueCheckTimer t = t\<lparr>tr_queueCheckTimer := None\<rparr>"

definition startPPSTimer :: "CAPMTransport \<Rightarrow> CAPMTransport" where
  "startPPSTimer t = t\<lparr>tr_ppsTimer := Some 1000\<rparr>"

definition tr_open :: "tr_init_param_t \<Rightarrow> CAPMTransport \<Rightarrow> CAPMTransport" where
  "tr_open p t = startPPSTimer (t\<lparr>tr_params := p, tr_capacity := unat (ti_maxQueueSize p),
     tr_outputQueue := take (unat (ti_maxQueueSize p)) (tr_outputQueue t)\<rparr>)"

definition tr_stop :: "CAPMTransport \<Rightarrow> CAPMTransport \<times> apc_error_t" where
  "tr_stop t = (stopQueueCheckTimer (stopPingTimer (stopRetryTimer t)), APC_OK)"

definition queueSize :: "CAPMTransport \<Rightarrow> nat" where
  "queueSize t = length (tr_outputQueue t)"

section \<open>Sending\<close>

definition sendCommand :: "tr_env \<Rightarrow> byte \<Rightarrow> byte list \<Rightarrow> bool \<Rightarrow> CAPMTransport \<Rightarrow> tr_step" where
  "sendCommand e cmdId data isSynch t =
     (let f = tr_respPacketId t;
          f = (if isSynch then f OR 8 else f);
          output = hdr_serialize (new_apt_hdr_s cmdId (word_of_nat (length data)) f) @ data;
          t = t\<lparr>tr_sendTime := te_now e,
                tr_stats := (tr_stats t)\<lparr>st_numBytesSent := st_numBytesSent (tr_stats t) + word_of_nat (length data)\<rparr>,
                tr_pending := True\<rparr>
      in (startPingTimer (startRetryTimer t), [SerWrite output]))"

definition send :: "tr_env \<Rightarrow> bool \<Rightarrow> CAPMTransport \<Rightarrow> tr_step" where
  "send e isNew t =
     (if \<not> te_ready e then (t, [])
      else case tr_outputQueue t of [] \<Rightarrow> (t, [])
      | cmd # _ \<Rightarrow>
          if (isNew \<and> tr_pending t) \<or> (\<not> isNew \<and> \<not> tr_pending t) then (t, [])
          else sendCommand e (ac_cmdId cmd) (ac_payload cmd) (ac_isSynch cmd) t)"

definition sendRetry :: "tr_env \<Rightarrow> CAPMTransport \<Rightarrow> tr_step" where
  "sendRetry e t = send e False t"

definition sendAck :: "byte \<Rightarrow> byte \<Rightarrow> byte \<Rightarrow> CAPMTransport \<Rightarrow> tr_step" where
  "sendAck notifId pktId rc t =
     (t\<lparr>tr_stats := (tr_stats t)\<lparr>st_numBytesSent := st_numBytesSent (tr_stats t) + 1,
                                st_numPktsSent := st_numPktsSent (tr_stats t) + 1\<rparr>\<rparr>,
      [SerWrite (hdr_serialize (new_apt_hdr_s notifId 0 (1 OR pktId)) @ [rc])])"

section \<open>Notifying the upper layer\<close>

definition hwResetAP :: "CAPMTransport \<Rightarrow> tr_step" where
  "hwResetAP t = (t\<lparr>tr_isRunning := False\<rparr>, [SerResetAP])"

definition setJoinProcessState_p :: "bool \<Rightarrow> CAPMTransport \<Rightarrow> CAPMTransport \<times> bool" where
  "setJoinProcessState_p isConnected t =
     (let t = t\<lparr>tr_isMngrConnected := isConnected\<rparr> in (t, tr_isMngrConnected t \<and> tr_isApConnected t))"

definition setAPConnectionState_p :: "bool \<Rightarrow> CAPMTransport \<Rightarrow> CAPMTransport \<times> bool" where
  "setAPConnectionState_p isConnected t =
     (let t = t\<lparr>tr_isApConnected := isConnected\<rparr> in (t, tr_isMngrConnected t \<and> tr_isApConnected t))"

definition disableJoin :: "CAPMTransport \<Rightarrow> CAPMTransport" where
  "disableJoin t = fst (setJoinProcessState_p False t)"

definition setAPMState :: "apm_flow_control_t \<Rightarrow> CAPMTransport \<Rightarrow> CAPMTransport" where
  "setAPMState newstate t = t\<lparr>tr_apInputState := newstate\<rparr>"

fun simple_step :: "CAPMTransport \<Rightarrow> simple_call \<Rightarrow> tr_step" where
  "simple_step t CallHwReset = hwResetAP t"
| "simple_step t CallDisableJoin = (disableJoin t, [])"
| "simple_step t (CallSetAPMState s) = (setAPMState s t, [])"

text \<open>A notification during which the upper layer makes only simple calls.\<close>

definition tell :: "tr_env \<Rightarrow> IAPMNotifHandler \<Rightarrow> CAPMTransport \<Rightarrow> tr_step" where
  "tell e n t = (let (t, out) = run simple_step t (te_simple e n) in (t, ApmNotif n # out))"

definition sendAPLostNotif_p :: "tr_env \<Rightarrow> CAPMTransport \<Rightarrow> tr_step" where
  "sendAPLostNotif_p e t =
     (let (t, out) = tell e handleAPLost t;
          t = fst (setAPConnectionState_p False t)
      in (t\<lparr>tr_isRunning := False\<rparr>, out))"

definition sendMgrResume :: "tr_env \<Rightarrow> CAPMTransport \<Rightarrow> tr_step" where
  "sendMgrResume e t =
     (if tr_mngrInputState t = APM_FLOW_PAUSE then
        let (t, out) = tell e handleAPResume t in (t\<lparr>tr_mngrInputState := APM_FLOW_NORMAL\<rparr>, out)
      else (t, []))"

section \<open>The output queue\<close>

definition insertMsg :: "tr_env \<Rightarrow> tr_request \<Rightarrow> CAPMTransport \<Rightarrow> CAPMTransport \<times> apc_error_t \<times> apm_out list" where
  "insertMsg e rq t =
     (if \<not> te_ready e then
        let (t, out) = sendAPLostNotif_p e t in (t, APC_ERR_STATE, out)
      else if length (tr_outputQueue t) = tr_capacity t then (t, APC_ERR_OUTBUFOVERFLOW, [])
      else
        let cmd = \<lparr>ac_cmdId = rq_cmdId rq, ac_payload = rq_data rq, ac_isSynch = rq_isSynch rq,
                   ac_resCallback = rq_resCallback rq, ac_errResCallback = rq_errRespCallback rq,
                   ac_timestamp = te_now e\<rparr>;
            t = t\<lparr>tr_stats := (tr_stats t)\<lparr>st_numPacketsQueued := st_numPacketsQueued (tr_stats t) + 1\<rparr>,
                  tr_outputQueue := (if rq_isHighPriority rq then cmd # tr_outputQueue t else tr_outputQueue t @ [cmd])\<rparr>;
            atHighWatermark = length (tr_outputQueue t) \<ge> unat (ti_highQueueWatermark (tr_params t));
            (t, out1) = send e True t;
            (t, out2) =
              (if tr_mngrInputState t = APM_FLOW_NORMAL \<and> atHighWatermark then
                 let (t, out) = tell e handleAPPause t in (t\<lparr>tr_mngrInputState := APM_FLOW_PAUSE\<rparr>, out)
               else (t, []));
            t = (if length (tr_outputQueue t) > 0 then startQueueCheckTimer t else t)
        in (t, APC_OK, out1 @ out2))"

fun call_step :: "tr_env \<Rightarrow> CAPMTransport \<Rightarrow> tr_call \<Rightarrow> tr_step" where
  "call_step e t (Simple s) = simple_step t s"
| "call_step e t (CallInsert rq) = (case insertMsg e rq t of (t, _, out) \<Rightarrow> (t, out))"

text \<open>A call on the upper layer, with the calls it makes on the transport meanwhile.\<close>

definition upper :: "tr_env \<Rightarrow> apm_out \<Rightarrow> CAPMTransport \<Rightarrow> tr_step" where
  "upper e o1 t = (let (t, out) = run (call_step e) t (te_react e o1) in (t, o1 # out))"

definition plain_request :: "byte \<Rightarrow> byte list \<Rightarrow> tr_request" where
  "plain_request cmdId data = \<lparr>rq_cmdId = cmdId, rq_data = data, rq_isHighPriority = False, rq_resCallback = None,
     rq_errRespCallback = None, rq_isSynch = False\<rparr>"

definition sendPing :: "tr_env \<Rightarrow> CAPMTransport \<Rightarrow> CAPMTransport \<times> apc_error_t \<times> apm_out list" where
  "sendPing e t = insertMsg e (plain_request DN_API_LOC_CMD_GETPARAM [DN_API_PARAM_MACADDR]) t"

definition clearOutputQueue :: "CAPMTransport \<Rightarrow> CAPMTransport" where
  "clearOutputQueue t =
     (stopPingTimer (stopRetryTimer (t\<lparr>tr_outputQueue := []\<rparr>)))
       \<lparr>tr_respPacketId := 0, tr_notifPacketId := 0, tr_pending := False,
        tr_apInputState := APM_FLOW_NORMAL, tr_mngrInputState := APM_FLOW_NORMAL\<rparr>"

section \<open>Join process\<close>

definition startJoin_p :: "tr_env \<Rightarrow> CAPMTransport \<Rightarrow> tr_step" where
  "startJoin_p e t =
     (let (t, _, out1) = insertMsg e (plain_request DN_API_LOC_CMD_GETPARAM [DN_API_PARAM_MACADDR]) t;
          param = DN_API_PARAM_NETID # le_bytes 2 (htons (ucast (tr_netId t)));
          (t, _, out2) = insertMsg e (plain_request DN_API_LOC_CMD_SETPARAM param) t;
          (t, _, out3) = insertMsg e (plain_request DN_API_LOC_CMD_JOIN []) t
      in (t\<lparr>tr_isRunning := True\<rparr>, out1 @ out2 @ out3))"

definition enableJoin :: "tr_env \<Rightarrow> u32 \<Rightarrow> CAPMTransport \<Rightarrow> tr_step" where
  "enableJoin e netId t =
     (let (t, both) = setJoinProcessState_p True (t\<lparr>tr_netId := netId\<rparr>)
      in if both then startJoin_p e t else (t, []))"

definition enableAbort :: "CAPMTransport \<Rightarrow> CAPMTransport" where
  "enableAbort t = t\<lparr>tr_abortEnabled := True\<rparr>"

definition disableAbort :: "CAPMTransport \<Rightarrow> CAPMTransport" where
  "disableAbort t = t\<lparr>tr_abortEnabled := False\<rparr>"

definition disconnectAP :: "tr_env \<Rightarrow> bool \<Rightarrow> CAPMTransport \<Rightarrow> tr_step" where
  "disconnectAP e isSinchBit t =
     (case insertMsg e \<lparr>rq_cmdId = DN_API_LOC_CMD_DISCONNECT, rq_data = [], rq_isHighPriority = True, rq_resCallback = None,
             rq_errRespCallback = Some DisconnectErrorResponse, rq_isSynch = isSinchBit\<rparr> t of (t, _, out) \<Rightarrow> (t, out))"

section \<open>Notifications of the serializer\<close>

definition tr_handleAPBoot :: "tr_env \<Rightarrow> CAPMTransport \<Rightarrow> tr_step" where
  "tr_handleAPBoot e t =
     (let t = clearOutputQueue t in
      if \<not> tr_isRunning t then
        let (t, out1) = upper e (ApmNotif handleAPBoot) t;
            (t, both) = setAPConnectionState_p True t;
            (t, out2) = (if both then startJoin_p e t else (t, []))
        in (t, out1 @ out2)
      else
        let (t, out) = upper e (ApmNotif handleAPReboot) t in (t\<lparr>tr_isRunning := False\<rparr>, out))"

text \<open>The transport is the handler of its serializer: most notifications are handed on.\<close>

definition tr_notify :: "tr_env \<Rightarrow> IAPMNotifHandler \<Rightarrow> CAPMTransport \<Rightarrow> tr_step" where
  "tr_notify e n t = (case n of
      handleAPLost \<Rightarrow> sendAPLostNotif_p e t
    | handleAPBoot \<Rightarrow> tr_handleAPBoot e t
    | handleAPReboot \<Rightarrow> (t, [])
    | handleAPPause \<Rightarrow> tell e n t
    | handleAPResume \<Rightarrow> tell e n t
    | _ \<Rightarrow> upper e (ApmNotif n) t)"

text \<open>\<^verbatim>\<open>m_cmdHandler->handleCmd\<close> with the notification it causes.\<close>

definition tr_handleCmd ::
  "tr_env \<Rightarrow> byte \<Rightarrow> byte list \<Rightarrow> CAPMTransport \<Rightarrow> (CAPMTransport, apc_error_t, apm_out) outcome" where
  "tr_handleCmd e cmdId data t =
     (case handleCmd (tr_cmdHandler t) cmdId data of None \<Rightarrow> None
      | Some (s, res, ns) \<Rightarrow>
          (case run (\<lambda>t n. tr_notify e n t) (t\<lparr>tr_cmdHandler := s\<rparr>) ns of (t, out) \<Rightarrow> Some (t, res, out)))"

section \<open>Messages from the serial port\<close>

text \<open>The acknowledgement carries the low byte of the error code.\<close>

definition error_rc :: "apc_error_t \<Rightarrow> byte" where
  "error_rc r = (case r of APC_OK \<Rightarrow> 0 | APC_STOP_CONNECTOR \<Rightarrow> 1 | APC_ERR_INIT \<Rightarrow> 2 | APC_ERR_SIZE \<Rightarrow> 3
     | APC_ERR_OUTBUFOVERFLOW \<Rightarrow> 4 | APC_ERR_UNCONFIRMED_PKT \<Rightarrow> 5 | APC_ERR_IO \<Rightarrow> 6 | APC_ERR_ASYNC_OPERATION \<Rightarrow> 7
     | APC_ERR_STATE \<Rightarrow> 8 | APC_ERR_PROTOCOL \<Rightarrow> 9 | APC_ERR_NOTFOUND \<Rightarrow> 10 | APC_ERR_PKTSERIALIZATION \<Rightarrow> 11
     | APC_ERR_NOTCONNECT \<Rightarrow> 12 | APC_ERR_DISCONNECT \<Rightarrow> 13 | APC_ERR_OFFLINE \<Rightarrow> 14 | APC_ERR_CONNECT \<Rightarrow> 15)"

definition handleNotification ::
  "tr_env \<Rightarrow> apt_hdr_s \<Rightarrow> byte list \<Rightarrow> CAPMTransport \<Rightarrow> (CAPMTransport, apc_error_t, apm_out) outcome" where
  "handleNotification e hdr data t =
     (let pktId = hd_flags hdr AND 2;
          isSync = (hd_flags hdr AND 8 > 0)
      in if pktId \<noteq> tr_notifPacketId t \<or> isSync then
           let t = t\<lparr>tr_stats := (tr_stats t)\<lparr>st_numBytesRecv := st_numBytesRecv (tr_stats t) + word_of_nat (length data),
                       st_numPktsRecv := st_numPktsRecv (tr_stats t) + 1\<rparr>\<rparr>
           in if tr_apInputState t = APM_FLOW_PAUSE \<and> hd_cmdId hdr = DN_API_LOC_NOTIF_AP_RECEIVE then
                let (t, out) = sendAck (hd_cmdId hdr) pktId DN_API_RC_NO_RESOURCES t in Some (t, APC_ERR_STATE, out)
              else
                and_then (tr_handleCmd e (hd_cmdId hdr) data t)
                  (\<lambda>t res.
                     let t = (if res = APC_OK then t\<lparr>tr_notifPacketId := pktId\<rparr> else t);
                         (t, out) = sendAck (hd_cmdId hdr) pktId (error_rc res) t
                     in Some (t, res, out))
         else
           let t = t\<lparr>tr_stats := (tr_stats t)\<lparr>st_numRetriesRecv := st_numRetriesRecv (tr_stats t) + 1\<rparr>\<rparr>;
               (t, out) = sendAck (hd_cmdId hdr) pktId (error_rc APC_OK) t
           in Some (t, APC_OK, out))"

text \<open>Lines 231 to 260: timer, statistics, next packet identifier.\<close>

definition note_response :: "tr_env \<Rightarrow> nat \<Rightarrow> CAPMTransport \<Rightarrow> CAPMTransport" where
  "note_response e len t =
     (let t = stopRetryTimer t; s = tr_stats t; rsp = int (te_now e) - int (tr_sendTime t); cur = word_of_int rsp
      in t\<lparr>tr_stats := s\<lparr>st_numRespRecv := st_numRespRecv s + 1, st_lastRspTime := rsp,
              st_totalRspTime := st_totalRspTime s + cur, st_minRspTime := min cur (st_minRspTime s),
              st_maxRspTime := max cur (st_maxRspTime s),
              st_numBytesRecv := st_numBytesRecv s + word_of_nat len, st_numPktsRecv := st_numPktsRecv s + 1\<rparr>,
            tr_respPacketId := tr_respPacketId t XOR 2\<rparr>)"

text \<open>Lines 271 to 297, under the lock: a NACK keeps the command, any other code removes it.\<close>

definition take_response :: "tr_env \<Rightarrow> byte \<Rightarrow> APMCommand \<Rightarrow> CAPMTransport \<Rightarrow> CAPMTransport \<times> bool" where
  "take_response e rc front t =
     (let s = tr_stats t in
      if rc = DN_API_RC_NO_RESOURCES then
        let nacks = tr_curNackCount t + 1
        in (startNackRetryTimer (t\<lparr>tr_stats := s\<lparr>st_numNacks := st_numNacks s + 1,
               st_maxNackCount := max nacks (st_maxNackCount s)\<rparr>, tr_curNackCount := nacks\<rparr>), False)
      else
        let tq = int (te_now e) - int (ac_timestamp front); cur = word_of_int tq;
            t = t\<lparr>tr_stats := s\<lparr>st_timeInQueue := tq, st_totalTimeInQueue := st_totalTimeInQueue s + cur,
                    st_minTimeInQueue := min cur (st_minTimeInQueue s), st_maxTimeInQueue := max cur (st_maxTimeInQueue s),
                    st_numPktsSent := st_numPktsSent s + 1\<rparr>,
                  tr_outputQueue := tl (tr_outputQueue t), tr_curNackCount := 0, tr_pending := False\<rparr>
        in (t, length (tr_outputQueue t) < unat (ti_lowQueueWatermark (tr_params t))))"

text \<open>Lines 307 to 327: the response goes to the callback of the command or to the serializer.\<close>

definition deliver_response ::
  "tr_env \<Rightarrow> byte \<Rightarrow> byte \<Rightarrow> byte list \<Rightarrow> APMCommand \<Rightarrow> CAPMTransport \<Rightarrow> (CAPMTransport, apc_error_t, apm_out) outcome" where
  "deliver_response e cmdId rc data front t =
     (if rc = DN_API_RC_OK then
        if length data > 1 then
          case ac_resCallback front of
            Some cb \<Rightarrow> (case upper e (RespCallback cb cmdId data) t of (t, out) \<Rightarrow> Some (t, APC_OK, out))
          | None \<Rightarrow> tr_handleCmd e cmdId data t
        else Some (t, APC_OK, [])
      else
        case ac_errResCallback front of
          Some DisconnectErrorResponse \<Rightarrow> Some (t, APC_OK, [SerResetAP])
        | Some (ExternErrorResponse cb) \<Rightarrow> (case upper e (ErrCallback cb cmdId rc) t of (t, out) \<Rightarrow> Some (t, APC_OK, out))
        | None \<Rightarrow> (case run (\<lambda>t n. tr_notify e n t) t (handleError_p cmdId rc) of (t, out) \<Rightarrow> Some (t, APC_OK, out)))"

definition handleResponse ::
  "tr_env \<Rightarrow> apt_hdr_s \<Rightarrow> byte list \<Rightarrow> CAPMTransport \<Rightarrow> (CAPMTransport, apc_error_t, apm_out) outcome" where
  "handleResponse e hdr data t =
     (if data = [] then None
      else
        let rc = data ! 0; t = note_response e (length data) t
        in case tr_outputQueue t of [] \<Rightarrow> Some (t, APC_ERR_STATE, [])
           | front # _ \<Rightarrow>
               let (t, belowLowWatermark) = take_response e rc front t;
                   (t, out1) =
                     (if tr_mngrInputState t = APM_FLOW_PAUSE \<and> belowLowWatermark then
                        let (t, out) = tell e handleAPResume t in (t\<lparr>tr_mngrInputState := APM_FLOW_NORMAL\<rparr>, out)
                      else (t, []))
               in and_then (Some (t, (), out1))
                    (\<lambda>t _. and_then (deliver_response e (hd_cmdId hdr) rc data front t)
                       (\<lambda>t res. case send e True t of (t, out) \<Rightarrow> Some (t, res, out))))"

text \<open>A header pointer is never null here: \<^verbatim>\<open>dataReceived\<close> checks the size first.\<close>

definition handleMsg ::
  "tr_env \<Rightarrow> apt_hdr_s \<Rightarrow> byte list \<Rightarrow> CAPMTransport \<Rightarrow> (CAPMTransport, apc_error_t, apm_out) outcome" where
  "handleMsg e hdr data t =
     (let isResp = (hd_flags hdr AND 1 \<noteq> 0); pktId = hd_flags hdr AND 2
      in if isResp then
           case tr_outputQueue t of [] \<Rightarrow> Some (t, APC_OK, [])
           | front # _ \<Rightarrow>
               if hd_cmdId hdr \<noteq> ac_cmdId front then Some (t, APC_OK, [])
               else if pktId \<noteq> tr_respPacketId t then Some (t, APC_OK, [])
               else handleResponse e hdr data t
         else handleNotification e hdr data t)"

definition tr_dataReceived ::
  "tr_env \<Rightarrow> byte list \<Rightarrow> CAPMTransport \<Rightarrow> (CAPMTransport, apc_error_t, apm_out) outcome" where
  "tr_dataReceived e data t =
     (let t = startPingTimer t in
      if length data < sizeof_apt_hdr_s then Some (t, APC_ERR_SIZE, [])
      else handleMsg e \<lparr>hd_cmdId = data ! 0, hd_length = data ! 1, hd_flags = data ! 2\<rparr> (drop sizeof_apt_hdr_s data) t)"

section \<open>Timer callbacks\<close>

text \<open>A timer that expires has no wait pending when its callback runs; a cancelled one calls back with an error, which does nothing.\<close>

definition handleRetryTimeout :: "tr_env \<Rightarrow> CAPMTransport \<Rightarrow> tr_step" where
  "handleRetryTimeout e t =
     (let t = t\<lparr>tr_outputTimer := None\<rparr> in
      if tr_curRetryCount t < ucast (ti_maxRetries (tr_params t)) then
        let out1 = (if tr_reconnectSerial t \<and> tr_curRetryCount t > 0 then [SerReopen] else []);
            (t, out2) = sendRetry e t;
            t = t\<lparr>tr_stats := (tr_stats t)\<lparr>st_numRetriesSent := st_numRetriesSent (tr_stats t) + 1\<rparr>,
                  tr_curRetryCount := tr_curRetryCount t + 1\<rparr>
        in (startRetryTimer t, out1 @ out2)
      else
        let t = stopPingTimer t in
        if tr_abortEnabled t then
          let (t, out1) = sendAPLostNotif_p e t;
              (t, out2) = hwResetAP t
          in (t, out1 @ out2 @ (if tr_reconnectSerial t then [StopNode] else []))
        else (t, []))"

definition handleQueueCheckTimeout :: "tr_env \<Rightarrow> CAPMTransport \<Rightarrow> tr_step" where
  "handleQueueCheckTimeout e t =
     (let t = t\<lparr>tr_queueCheckTimer := None\<rparr> in
      case tr_outputQueue t of [] \<Rightarrow> sendMgrResume e t
      | front # _ \<Rightarrow>
          let (t, out) =
                (if tr_mngrInputState t = APM_FLOW_NORMAL then
                   let diff = (word_of_int ((int (te_now e) - int (ac_timestamp front)) div 1000) :: u32)
                   in if diff > ucast (ti_maxPacketAge (tr_params t)) then
                        let (t, out) = tell e handleAPPause t in (t\<lparr>tr_mngrInputState := APM_FLOW_PAUSE\<rparr>, out)
                      else (t, [])
                 else (t, []))
          in (startQueueCheckTimer t, out))"

definition handlePingTimeout :: "tr_env \<Rightarrow> CAPMTransport \<Rightarrow> tr_step" where
  "handlePingTimeout e t =
     (let t = t\<lparr>tr_pingTimer := None\<rparr>;
          (t, out) = (if queueSize t = 0 then case sendPing e t of (t, _, out) \<Rightarrow> (t, out) else (t, []))
      in (startPingTimer t, out))"

definition handlePPSTimeout :: "CAPMTransport \<Rightarrow> CAPMTransport" where
  "handlePPSTimeout t =
     (let s = tr_stats t; numNotifRecv = st_numPktsRecv s - st_numRespRecv s;
          s = s\<lparr>st_packetRate := numNotifRecv - tr_last_numNotifRecv t\<rparr>;
          t = t\<lparr>tr_last_numNotifRecv := numNotifRecv\<rparr>;
          s = s\<lparr>st_totalSecs := st_totalSecs s + 1\<rparr>;
          (t, s) = (if st_totalSecs s mod 30 = 0
                    then (t\<lparr>tr_numNotifRecv_30sec_ago := numNotifRecv\<rparr>,
                          s\<lparr>st_30secPackets := numNotifRecv - tr_numNotifRecv_30sec_ago t\<rparr>) else (t, s));
          (t, s) = (if st_totalSecs s mod 300 = 0
                    then (t\<lparr>tr_numNotifRecv_5min_ago := numNotifRecv\<rparr>,
                          s\<lparr>st_5minPackets := numNotifRecv - tr_numNotifRecv_5min_ago t\<rparr>) else (t, s))
      in startPPSTimer (t\<lparr>tr_stats := s\<rparr>))"

definition clearAPMStatistics :: "CAPMTransport \<Rightarrow> CAPMTransport" where
  "clearAPMStatistics t = t\<lparr>tr_stats := stats_reset\<rparr>"

end
