(* ===== verification/APC_Cache.thy ===== *)
theory APC_Cache
  imports APC_Types
begin

text \<open>
  The ring of sent packets (\<^verbatim>\<open>APCCache.h\<close>, \<^verbatim>\<open>APCCache.cpp\<close>) from which packets the peer has not
  confirmed are sent again after a reconnection.  Counters keep their widths.  An access outside
  \<^verbatim>\<open>m_outpkts\<close> or outside a buffer and a failed \<^verbatim>\<open>BOOST_ASSERT\<close> are \<^const>\<open>None\<close>.  A pointer
  argument is \<^const>\<open>None\<close> for \<^verbatim>\<open>NULL\<close> and otherwise the bytes it points to.
\<close>

section \<open>State and operations\<close>

record apc_cache_pkt_s =
  m_seqNumb :: u32
  m_type :: apc_msg_type_t
  m_size :: u32
  m_payload :: "byte list"

record CAPCCache =
  m_outpkts :: "apc_cache_pkt_s list"
  m_lastSentSeqNum :: u64
  m_numPackets :: u32
  m_pos :: u32
  m_getNextSeqNum :: u64

definition cache_clear :: "CAPCCache \<Rightarrow> CAPCCache" where
  "cache_clear c = c\<lparr>m_lastSentSeqNum := 0, m_getNextSeqNum := 0, m_pos := 0, m_numPackets := 0\<rparr>"

text \<open>The vector's elements are value initialised.\<close>

definition empty_pkt :: apc_cache_pkt_s where
  "empty_pkt = \<lparr>m_seqNumb = 0, m_type = 0, m_size = 0, m_payload = replicate APC_MAX_MSG_SIZE 0\<rparr>"

definition new_CAPCCache :: "u32 \<Rightarrow> CAPCCache" where
  "new_CAPCCache cacheSize = cache_clear
     \<lparr>m_outpkts = replicate (unat cacheSize) empty_pkt, m_lastSentSeqNum = 0, m_numPackets = 0,
      m_pos = 0, m_getNextSeqNum = 0\<rparr>"

definition cache_size :: "CAPCCache \<Rightarrow> u64" where
  "cache_size c = word_of_nat (length (m_outpkts c))"

definition getLastSent :: "CAPCCache \<Rightarrow> u32" where
  "getLastSent c = ucast (m_lastSentSeqNum c)"

definition getNumCachedPkts :: "CAPCCache \<Rightarrow> u32" where
  "getNumCachedPkts c = m_numPackets c"

text \<open>\<^verbatim>\<open>if (p && s > 0) memcpy(dst + off, p, s)\<close>\<close>

definition copy_in :: "u32 \<Rightarrow> byte list option \<Rightarrow> u32 \<Rightarrow> byte list \<Rightarrow> byte list option" where
  "copy_in off p s dst =
     (case p of
        None \<Rightarrow> Some dst
      | Some bs \<Rightarrow>
          if 0 < s then
            if unat s \<le> length bs then memcpy_at (unat off) (take (unat s) bs) dst else None
          else Some dst)"

text \<open>The result carries the value written to \<^verbatim>\<open>*pSeqNum\<close>, if it is written.\<close>

definition addPacket ::
  "CAPCCache \<Rightarrow> apc_msg_type_t \<Rightarrow> byte list option \<Rightarrow> u32 \<Rightarrow> byte list option \<Rightarrow> u32
     \<Rightarrow> (CAPCCache \<times> apc_error_t \<times> u32 option) option" where
  "addPacket c type p1 s1 p2 s2 =
     (if (p1 = None \<and> s1 \<noteq> 0) \<or> (p2 = None \<and> s2 \<noteq> 0) then None
      else if s1 + s2 > word_of_nat APC_MAX_MSG_SIZE then Some (c, APC_ERR_SIZE, None)
      else if \<not> unat (m_pos c) < length (m_outpkts c) then None
      else
        let pkt = m_outpkts c ! unat (m_pos c);
            pkt = pkt\<lparr>m_type := type, m_size := s1 + s2\<rparr>
        in case copy_in 0 p1 s1 (m_payload pkt) of None \<Rightarrow> None
        | Some buf \<Rightarrow>
          (case copy_in s1 p2 s2 buf of None \<Rightarrow> None
           | Some buf \<Rightarrow>
              let last = m_lastSentSeqNum c + 1;
                  pkt = pkt\<lparr>m_payload := buf, m_seqNumb := ucast last\<rparr>;
                  c = c\<lparr>m_outpkts := (m_outpkts c)[unat (m_pos c) := pkt], m_lastSentSeqNum := last\<rparr>;
                  pos = m_pos c + 1;
                  c = c\<lparr>m_pos := (if ucast pos \<ge> cache_size c then 0 else pos)\<rparr>
              in if ucast (m_numPackets c) \<ge> cache_size c
                 then Some (c, APC_ERR_OUTBUFOVERFLOW, Some (ucast last))
                 else Some (c\<lparr>m_numPackets := m_numPackets c + 1\<rparr>, APC_OK, Some (ucast last))))"

definition confirmedSeqNum :: "CAPCCache \<Rightarrow> u32 \<Rightarrow> bool \<Rightarrow> CAPCCache \<times> apc_error_t" where
  "confirmedSeqNum c a_confirmedNum isInit =
     (let last = m_lastSentSeqNum c;
          confirmedNum = ucast a_confirmedNum OR (last AND 0xFFFFFFFF00000000);
          confirmedNum = (if ucast a_confirmedNum > last AND 0xFFFFFFFF
                          then confirmedNum - 0x100000000 else confirmedNum)
      in if confirmedNum > last then (c, APC_ERR_PROTOCOL)
         else
           let (confirmedNum, res) =
                 (if last - confirmedNum > cache_size c
                  then (last - cache_size c, APC_ERR_OUTBUFOVERFLOW) else (confirmedNum, APC_OK));
               numPkt = ucast (last - confirmedNum)
           in (if m_numPackets c > numPkt \<or> isInit then c\<lparr>m_numPackets := numPkt\<rparr> else c, res))"

definition prepForGet :: "CAPCCache \<Rightarrow> CAPCCache" where
  "prepForGet c = c\<lparr>m_getNextSeqNum := m_lastSentSeqNum c - ucast (m_numPackets c)\<rparr>"

text \<open>\<^verbatim>\<open>*pPkt\<close> is assigned unless \<^const>\<open>APC_ERR_NOTFOUND\<close> is returned.\<close>

definition getNextPacket :: "CAPCCache \<Rightarrow> (CAPCCache \<times> apc_error_t \<times> apc_cache_pkt_s option) option" where
  "getNextPacket c =
     (if m_getNextSeqNum c \<ge> m_lastSentSeqNum c then Some (c, APC_ERR_NOTFOUND, None)
      else
        let offset = m_lastSentSeqNum c - m_getNextSeqNum c;
            (c, offset, res) =
              (if offset > ucast (m_numPackets c) then
                 let offset = ucast (m_numPackets c)
                 in (c\<lparr>m_getNextSeqNum := m_lastSentSeqNum c - offset\<rparr>, offset, APC_ERR_OUTBUFOVERFLOW)
               else (c, offset, APC_OK));
            pos = m_pos c;
            pos = (if offset > ucast (m_pos c) then pos + word_of_nat (length (m_outpkts c)) else pos);
            pos = pos - ucast offset
        in if unat pos < length (m_outpkts c)
           then Some (c\<lparr>m_getNextSeqNum := m_getNextSeqNum c + 1\<rparr>, res, Some (m_outpkts c ! unat pos))
           else None)"

section \<open>The ring holds the most recent packets\<close>

text \<open>
  The specification of a cache is the list of all packets added to it since it was cleared, oldest first;
  packet \<open>k\<close> (from 0) has sequence number \<open>k + 1\<close>.
\<close>

type_synonym sent_pkt = "apc_msg_type_t \<times> byte list"

definition pkt_view :: "apc_cache_pkt_s \<Rightarrow> u32 \<times> sent_pkt" where
  "pkt_view p = (m_seqNumb p, m_type p, take (unat (m_size p)) (m_payload p))"

definition sent_view :: "sent_pkt list \<Rightarrow> nat \<Rightarrow> u32 \<times> sent_pkt" where
  "sent_view hist k = (word_of_nat (Suc k), hist ! k)"

definition cache_rel :: "CAPCCache \<Rightarrow> sent_pkt list \<Rightarrow> bool" where
  "cache_rel c hist \<longleftrightarrow>
     (let N = length (m_outpkts c); n = length hist in
      0 < N \<and> N < 2 ^ 32 \<and> n < 2 ^ 64 \<and> unat (m_lastSentSeqNum c) = n \<and> unat (m_pos c) = n mod N
      \<and> unat (m_numPackets c) \<le> N \<and> unat (m_numPackets c) \<le> n
      \<and> (\<forall>p \<in> set (m_outpkts c). length (m_payload p) = APC_MAX_MSG_SIZE)
      \<and> (\<forall>k < n. n - k \<le> N \<longrightarrow> pkt_view (m_outpkts c ! (k mod N)) = sent_view hist k))"

lemma cache_relD:
  assumes "cache_rel c hist"
  shows "0 < length (m_outpkts c)" "length (m_outpkts c) < 2 ^ 32" "length hist < 2 ^ 64"
    "unat (m_lastSentSeqNum c) = length hist"
    "unat (m_pos c) = length hist mod length (m_outpkts c)"
    "unat (m_numPackets c) \<le> length (m_outpkts c)" "unat (m_numPackets c) \<le> length hist"
    "\<And>p. p \<in> set (m_outpkts c) \<Longrightarrow> length (m_payload p) = APC_MAX_MSG_SIZE"
    "\<And>k. k < length hist \<Longrightarrow> length hist - k \<le> length (m_outpkts c)
       \<Longrightarrow> pkt_view (m_outpkts c ! (k mod length (m_outpkts c))) = sent_view hist k"
  using assms by (auto simp: cache_rel_def Let_def)

lemma unat_cache_size [simp]:
  "length (m_outpkts c) < 2 ^ 32 \<Longrightarrow> unat (cache_size c) = length (m_outpkts c)"
  by (simp add: cache_size_def unat_of_nat)

lemma new_CAPCCache_rel: "0 < n \<Longrightarrow> cache_rel (new_CAPCCache n) []"
  using unsigned_less[of n, where 'a = nat]
  by (simp add: cache_rel_def new_CAPCCache_def cache_clear_def empty_pkt_def word_less_nat_alt)

lemma cache_clear_rel: "cache_rel c hist \<Longrightarrow> cache_rel (cache_clear c) []"
  by (simp add: cache_rel_def cache_clear_def Let_def)

text \<open>The bytes a pointer and a size denote.\<close>

definition arg_bytes :: "byte list option \<Rightarrow> u32 \<Rightarrow> byte list option" where
  "arg_bytes p s = (case p of None \<Rightarrow> if s = 0 then Some [] else None
     | Some bs \<Rightarrow> if unat s \<le> length bs then Some (take (unat s) bs) else None)"

lemma arg_bytesD:
  assumes "arg_bytes p s = Some bs"
  shows "length bs = unat s" and "p = None \<Longrightarrow> s = 0"
    and "unat off + length bs \<le> length dst \<Longrightarrow> copy_in off p s dst = Some (overwrite (unat off) bs dst)"
  using assms
  by (auto simp: arg_bytes_def copy_in_def memcpy_at_def overwrite_def word_less_nat_alt min_def
      split: option.splits if_splits)

lemma overwrite_twice:
  assumes "length b1 + length b2 \<le> length dst"
  shows "take (length b1 + length b2) (overwrite (length b1) b2 (overwrite 0 b1 dst)) = b1 @ b2"
    "length (overwrite (length b1) b2 (overwrite 0 b1 dst)) = length dst"
  using assms by (simp_all add: overwrite_def)

lemma ucast_word_of_nat: "ucast (word_of_nat n :: u64) = (word_of_nat n :: u32)"
  by (rule bit_eqI) (simp add: bit_simps)

text \<open>Writing one slot and advancing the counters, the common tail of the two returns of \<^verbatim>\<open>addPacket\<close>.\<close>

definition cache_full :: "CAPCCache \<Rightarrow> bool" where
  "cache_full c \<longleftrightarrow> unat (m_numPackets c) = length (m_outpkts c)"

definition cache_push :: "CAPCCache \<Rightarrow> apc_cache_pkt_s \<Rightarrow> CAPCCache" where
  "cache_push c pkt = c\<lparr>m_outpkts := (m_outpkts c)[unat (m_pos c) := pkt],
     m_lastSentSeqNum := m_lastSentSeqNum c + 1,
     m_pos := (if ucast (m_pos c + 1) \<ge> cache_size c then 0 else m_pos c + 1),
     m_numPackets := (if cache_full c then m_numPackets c else m_numPackets c + 1)\<rparr>"

lemma cache_push_counters:
  assumes rel: "cache_rel c hist" and room: "Suc (length hist) < 2 ^ 64"
  shows "m_lastSentSeqNum c + 1 = word_of_nat (Suc (length hist))"
    and "unat (m_lastSentSeqNum (cache_push c pkt)) = Suc (length hist)"
    and "unat (m_pos (cache_push c pkt)) = Suc (length hist) mod length (m_outpkts c)"
    and "unat (m_numPackets (cache_push c pkt)) = min (Suc (unat (m_numPackets c))) (length (m_outpkts c))"
proof -
  note D = cache_relD[OF rel]
  show last: "m_lastSentSeqNum c + 1 = word_of_nat (Suc (length hist))"
    by (simp flip: D(4))
  have "unat (word_of_nat (Suc (length hist)) :: u64) = Suc (length hist)"
    using room by (simp only: unat_of_nat) simp
  moreover have "m_lastSentSeqNum (cache_push c pkt) = m_lastSentSeqNum c + 1"
    by (simp add: cache_push_def)
  ultimately show "unat (m_lastSentSeqNum (cache_push c pkt)) = Suc (length hist)"
    by (simp only: last)
  have "unat (m_pos c) < length (m_outpkts c)" using D(1,5) by simp
  then have "unat (m_pos c + 1) = Suc (unat (m_pos c))"
    using D(2) by (simp add: unat_word_ariths)
  then show "unat (m_pos (cache_push c pkt)) = Suc (length hist) mod length (m_outpkts c)"
    using ring_next[OF D(1), of "length hist"] D(2)
    by (simp add: cache_push_def word_le_nat_alt unat_ucast_up D(5) split: if_splits)
  show "unat (m_numPackets (cache_push c pkt)) = min (Suc (unat (m_numPackets c))) (length (m_outpkts c))"
    using D(2,6) by (auto simp: cache_push_def cache_full_def unat_word_ariths)
qed

lemma cache_push_rel:
  assumes rel: "cache_rel c hist" and room: "Suc (length hist) < 2 ^ 64"
    and view: "pkt_view pkt = sent_view (hist @ [x]) (length hist)"
    and len: "length (m_payload pkt) = APC_MAX_MSG_SIZE"
  shows "cache_rel (cache_push c pkt) (hist @ [x])"
  unfolding cache_rel_def Let_def
proof (intro conjI ballI allI impI)
  let ?N = "length (m_outpkts c)" and ?n = "length hist"
  note D = cache_relD[OF rel]
  have N: "length (m_outpkts (cache_push c pkt)) = ?N" by (simp add: cache_push_def)
  show "0 < length (m_outpkts (cache_push c pkt))" "length (m_outpkts (cache_push c pkt)) < 2 ^ 32"
    using D N by simp_all
  show "length (hist @ [x]) < 2 ^ 64" using room by simp
  show "unat (m_lastSentSeqNum (cache_push c pkt)) = length (hist @ [x])"
    "unat (m_pos (cache_push c pkt)) = length (hist @ [x]) mod length (m_outpkts (cache_push c pkt))"
    "unat (m_numPackets (cache_push c pkt)) \<le> length (m_outpkts (cache_push c pkt))"
    "unat (m_numPackets (cache_push c pkt)) \<le> length (hist @ [x])"
    using cache_push_counters(2-4)[OF rel room, of pkt] D N by simp_all
  fix p assume "p \<in> set (m_outpkts (cache_push c pkt))"
  then show "length (m_payload p) = APC_MAX_MSG_SIZE"
    using D(8) len by (auto simp: cache_push_def dest: set_update_subset_insert[THEN subsetD])
next
  let ?N = "length (m_outpkts c)" and ?n = "length hist"
  note D = cache_relD[OF rel]
  fix k assume k: "k < length (hist @ [x])" "length (hist @ [x]) - k \<le> length (m_outpkts (cache_push c pkt))"
  show "pkt_view (m_outpkts (cache_push c pkt) ! (k mod length (m_outpkts (cache_push c pkt))))
      = sent_view (hist @ [x]) k"
  proof (cases "k = ?n")
    case True
    then show ?thesis using view D(1) by (simp add: cache_push_def D(5))
  next
    case False
    then have "k < ?n" "?n - k < ?N" using k by (simp_all add: cache_push_def)
    then show ?thesis
      using D(9)[of k] ring_last_write[of k ?n ?N] False
      by (simp add: cache_push_def D(5) sent_view_def nth_append)
  qed
qed

lemma addPacket_push:
  assumes rel: "cache_rel c hist"
    and b1: "arg_bytes p1 s1 = Some b1" and b2: "arg_bytes p2 s2 = Some b2"
    and size: "length b1 + length b2 \<le> APC_MAX_MSG_SIZE"
  obtains pkt where
    "addPacket c type p1 s1 p2 s2 = Some (cache_push c pkt,
       if cache_full c then APC_ERR_OUTBUFOVERFLOW else APC_OK, Some (word_of_nat (Suc (length hist))))"
    and "pkt_view pkt = (word_of_nat (Suc (length hist)), type, b1 @ b2)"
    and "length (m_payload pkt) = APC_MAX_MSG_SIZE"
proof -
  let ?old = "m_outpkts c ! unat (m_pos c)"
  define buf where "buf = overwrite (length b1) b2 (overwrite 0 b1 (m_payload ?old))"
  define pkt where "pkt = ?old\<lparr>m_type := type, m_size := s1 + s2, m_payload := buf,
     m_seqNumb := word_of_nat (Suc (length hist))\<rparr>"
  note D = cache_relD[OF rel]
  have pos: "unat (m_pos c) < length (m_outpkts c)" using D(1,5) by simp
  then have len: "length (m_payload ?old) = APC_MAX_MSG_SIZE" using D(8) by simp
  have sum: "unat (s1 + s2) = length b1 + length b2"
    using arg_bytesD(1)[OF b1] arg_bytesD(1)[OF b2] size
    by (simp add: unat_word_ariths APC_MAX_MSG_SIZE_val)
  have last: "m_lastSentSeqNum c + 1 = word_of_nat (Suc (length hist))" by (simp flip: D(4))
  have seq: "(ucast (m_lastSentSeqNum c + 1) :: u32) = word_of_nat (Suc (length hist))"
    unfolding last by (rule ucast_word_of_nat)
  have full: "ucast (m_numPackets c) \<ge> cache_size c \<longleftrightarrow> cache_full c"
    using D(2,6) by (auto simp: cache_full_def word_le_nat_alt unat_ucast_up)
  have fits: "\<not> s1 + s2 > word_of_nat APC_MAX_MSG_SIZE"
    using size by (simp add: word_less_nat_alt sum APC_MAX_MSG_SIZE_val)
  have "copy_in 0 p1 s1 (m_payload ?old) = Some (overwrite 0 b1 (m_payload ?old))"
    "copy_in s1 p2 s2 (overwrite 0 b1 (m_payload ?old)) = Some buf"
    using arg_bytesD(3)[OF b1, of 0 "m_payload ?old"] arg_bytesD(1)[OF b1] len size
      arg_bytesD(3)[OF b2, of s1 "overwrite 0 b1 (m_payload ?old)"]
    by (simp_all add: buf_def)
  then have "addPacket c type p1 s1 p2 s2 = Some (cache_push c pkt,
     if cache_full c then APC_ERR_OUTBUFOVERFLOW else APC_OK, Some (word_of_nat (Suc (length hist))))"
    using arg_bytesD(2)[OF b1] arg_bytesD(2)[OF b2] fits pos full
    by (auto simp: addPacket_def Let_def cache_push_def pkt_def seq cache_size_def)
  moreover have "pkt_view pkt = (word_of_nat (Suc (length hist)), type, b1 @ b2)"
    "length (m_payload pkt) = APC_MAX_MSG_SIZE"
    using overwrite_twice[of b1 b2 "m_payload ?old"] size len
    by (simp_all add: pkt_view_def pkt_def sum buf_def)
  ultimately show thesis using that by blast
qed

lemma addPacket_spec:
  assumes rel: "cache_rel c hist" and room: "Suc (length hist) < 2 ^ 64"
    and b1: "arg_bytes p1 s1 = Some b1" and b2: "arg_bytes p2 s2 = Some b2"
    and size: "length b1 + length b2 \<le> APC_MAX_MSG_SIZE"
  shows "\<exists>c'. addPacket c type p1 s1 p2 s2 =
       Some (c', if cache_full c then APC_ERR_OUTBUFOVERFLOW else APC_OK, Some (word_of_nat (Suc (length hist))))
     \<and> cache_rel c' (hist @ [(type, b1 @ b2)])
     \<and> length (m_outpkts c') = length (m_outpkts c)
     \<and> unat (m_numPackets c') = min (Suc (unat (m_numPackets c))) (length (m_outpkts c))"
proof -
  obtain pkt where "addPacket c type p1 s1 p2 s2 = Some (cache_push c pkt,
       if cache_full c then APC_ERR_OUTBUFOVERFLOW else APC_OK, Some (word_of_nat (Suc (length hist))))"
    and "pkt_view pkt = (word_of_nat (Suc (length hist)), type, b1 @ b2)"
    and "length (m_payload pkt) = APC_MAX_MSG_SIZE"
    using addPacket_push[OF rel b1 b2 size] by metis
  moreover from this have "cache_rel (cache_push c pkt) (hist @ [(type, b1 @ b2)])"
    by (intro cache_push_rel[OF rel room]) (simp_all add: sent_view_def)
  ultimately show ?thesis
    using cache_push_counters(4)[OF rel room, of pkt]
    by (intro exI[of _ "cache_push c pkt"]) (simp add: cache_push_def)
qed

lemma addPacket_size_error:
  assumes "arg_bytes p1 s1 = Some b1" and "arg_bytes p2 s2 = Some b2"
    and "APC_MAX_MSG_SIZE < length b1 + length b2" "length b1 + length b2 < 2 ^ 32"
  shows "addPacket c type p1 s1 p2 s2 = Some (c, APC_ERR_SIZE, None)"
proof -
  have "unat (s1 + s2) = length b1 + length b2"
    using arg_bytesD(1)[OF assms(1)] arg_bytesD(1)[OF assms(2)] assms(4) by (simp add: unat_word_ariths)
  then show ?thesis
    using assms(3) arg_bytesD(2)[OF assms(1)] arg_bytesD(2)[OF assms(2)]
    by (auto simp: addPacket_def word_less_nat_alt APC_MAX_MSG_SIZE_val)
qed

section \<open>Confirmations\<close>

text \<open>The 64-bit number that a received 32-bit confirmation stands for.\<close>

definition confirmed64 :: "u64 \<Rightarrow> u32 \<Rightarrow> u64" where
  "confirmed64 lst a = (let confirmedNum = ucast a OR (lst AND 0xFFFFFFFF00000000)
     in if ucast a > lst AND 0xFFFFFFFF then confirmedNum - 0x100000000 else confirmedNum)"

lemma window_div:
  fixes x n B :: nat
  assumes "x \<le> n" "n - x < B"
  shows "n div B = (if n mod B < x mod B then Suc (x div B) else x div B)"
proof -
  define p q A r where "p = x div B" "q = n div B" "A = x mod B" "r = n mod B"
  have x: "x = p * B + A" and n: "n = q * B + r" by (simp_all add: p_q_A_r_def)
  have B: "A < B" "r < B" using assms(2) by (simp_all add: p_q_A_r_def)
  have upper: "q * B + r < Suc p * B + A" and lower: "p * B + A \<le> q * B + r"
    using assms x n by simp_all
  have "q * B < Suc (Suc p) * B" using upper B by simp
  then have "q < Suc (Suc p)" by (simp only: mult_less_cancel2)
  then have "q \<le> Suc p" by simp
  have "p * B < Suc q * B" using lower B by simp
  then have "p < Suc q" by (simp only: mult_less_cancel2)
  then have "p \<le> q" by simp
  show ?thesis
  proof (cases "r < A")
    case True
    then have "p * B < q * B" using lower by linarith
    then have "p < q" by simp
    then have "q = Suc p" using \<open>q \<le> Suc p\<close> by simp
    then show ?thesis using True by (simp add: p_q_A_r_def)
  next
    case False
    then have "q * B < Suc p * B" using upper by simp
    then have "q < Suc p" by (simp only: mult_less_cancel2)
    then have "q = p" using \<open>p \<le> q\<close> by simp
    then show ?thesis using False by (simp add: p_q_A_r_def)
  qed
qed

lemma confirmed64_in_window:
  assumes "x \<le> unat lst" "unat lst - x < 2 ^ 32"
  shows "unat (confirmed64 lst (word_of_nat x)) = x"
proof -
  let ?a = "word_of_nat x :: u32"
  define J where "J = (ucast ?a :: u64) OR (lst AND 0xFFFFFFFF00000000)"
  have ua: "unat ?a = x mod 2 ^ 32" by (simp add: unat_of_nat)
  have J: "unat J = x mod 2 ^ 32 + unat lst div 2 ^ 32 * 2 ^ 32"
    unfolding J_def high_word join_words ua ..
  have cond: "(ucast ?a :: u64) > lst AND 0xFFFFFFFF \<longleftrightarrow> unat lst mod 2 ^ 32 < x mod 2 ^ 32"
    by (simp add: word_less_nat_alt low_word unat_low_word unat_ucast_up unat_of_nat)
  show ?thesis
  proof (cases "unat lst mod 2 ^ 32 < x mod 2 ^ 32")
    case True
    then have *: "unat J = x + 2 ^ 32"
      using J window_div[OF assms] by simp
    then have "0x100000000 \<le> J" by (simp add: word_le_nat_alt)
    then have "unat (J - 0x100000000) = x" using * by (simp add: unat_sub)
    then show ?thesis using True by (simp add: confirmed64_def J_def[symmetric] cond)
  next
    case False
    then have "unat J = x" using J window_div[OF assms] by simp
    then show ?thesis using False by (simp add: confirmed64_def J_def[symmetric] cond)
  qed
qed

lemma confirmed64_beyond:
  assumes "unat lst < unat (a :: u32)"
  shows "lst < confirmed64 lst a"
proof -
  have a: "unat a < 2 ^ 32" using unsigned_less[of a, where 'a = nat] by simp
  then have small: "unat lst < 2 ^ 32" using assms by linarith
  then have high: "drop_bit 32 lst = 0"
    by (simp add: drop_bit_eq_div word_unat_eq_iff unat_div_distrib)
  have "(ucast a :: u64) > lst AND 0xFFFFFFFF"
    using assms small by (simp add: word_less_nat_alt low_word unat_low_word unat_ucast_up)
  then have conf: "confirmed64 lst a = ucast a - 0x100000000"
    by (simp add: confirmed64_def high_word high)
  have val: "uint (ucast a - 0x100000000 :: u64) = uint a - 2 ^ 32 + 2 ^ 64"
  proof -
    have "uint a < 2 ^ 32" "0 \<le> uint a" using unsigned_less[of a, where 'a = int] by simp_all
    moreover from this have "uint (ucast a :: u64) = uint a"
      by (simp add: unsigned_ucast_eq take_bit_int_eq_self)
    moreover have "(uint a - 2 ^ 32) mod 2 ^ 64 = uint a - 2 ^ 32 + 2 ^ 64"
    proof -
      have "(uint a - 2 ^ 32) mod 2 ^ 64 = (uint a - 2 ^ 32 + 2 ^ 64) mod (2 ^ 64 :: int)"
        by (rule mod_add_self2[symmetric])
      also have "\<dots> = uint a - 2 ^ 32 + 2 ^ 64"
        by (rule mod_pos_pos_trivial) (use \<open>uint a < 2 ^ 32\<close> \<open>0 \<le> uint a\<close> in simp_all)
      finally show ?thesis .
    qed
    ultimately show ?thesis
      by (simp add: uint_word_ariths)
  qed
  have "int (unat lst) < int (2 ^ 32)" using small by (simp only: of_nat_less_iff)
  then have "uint lst < 2 ^ 32" by simp
  moreover have "0 \<le> uint a" by simp
  moreover have "(2 :: int) ^ 32 < 2 ^ 64 - 2 ^ 32" by simp
  ultimately have "uint lst < uint a - 2 ^ 32 + 2 ^ 64" by linarith
  then show ?thesis unfolding conf word_less_def val .
qed

lemma confirmedSeqNum_64:
  "confirmedSeqNum c a isInit =
     (let last = m_lastSentSeqNum c; conf = confirmed64 last a
      in if conf > last then (c, APC_ERR_PROTOCOL)
         else
           let (conf, res) =
                 (if last - conf > cache_size c
                  then (last - cache_size c, APC_ERR_OUTBUFOVERFLOW) else (conf, APC_OK));
               numPkt = ucast (last - conf)
           in (if m_numPackets c > numPkt \<or> isInit then c\<lparr>m_numPackets := numPkt\<rparr> else c, res))"
  unfolding confirmedSeqNum_def confirmed64_def Let_def ..

lemma confirmedSeqNum_window:
  assumes rel: "cache_rel c hist" and x: "x \<le> length hist" "length hist - x < 2 ^ 32"
  shows "confirmedSeqNum c (word_of_nat x) isInit =
     (let m = min (length hist - x) (length (m_outpkts c))
      in (if m < unat (m_numPackets c) \<or> isInit then c\<lparr>m_numPackets := word_of_nat m\<rparr> else c,
          if length (m_outpkts c) < length hist - x then APC_ERR_OUTBUFOVERFLOW else APC_OK))"
proof -
  note D = cache_relD[OF rel]
  let ?last = "m_lastSentSeqNum c"
  let ?conf = "confirmed64 ?last (word_of_nat x)"
  have conf: "unat ?conf = x"
    by (rule confirmed64_in_window) (use x D(4) in simp_all)
  then have le: "\<not> ?conf > ?last" using x D(4) by (simp add: word_less_nat_alt)
  then have diff: "unat (?last - ?conf) = length hist - x"
    using conf D(4) by (simp add: unat_sub)
  then have d: "(ucast (?last - ?conf) :: u32) = word_of_nat (length hist - x)"
    by (simp flip: diff)
  have "(ucast (cache_size c) :: u32) = word_of_nat (length (m_outpkts c))"
    by (simp add: cache_size_def ucast_word_of_nat)
  with le d show ?thesis
    using D(2) diff x(2)
    by (auto simp: confirmedSeqNum_64 Let_def word_less_nat_alt min_def unat_of_nat)
qed

lemma confirmedSeqNum_protocol:
  assumes "cache_rel c hist" and "length hist < unat a"
  shows "confirmedSeqNum c a isInit = (c, APC_ERR_PROTOCOL)"
  using assms confirmed64_beyond[of "m_lastSentSeqNum c" a] cache_relD(4)[OF assms(1)]
  by (simp add: confirmedSeqNum_64)
section \<open>Replay\<close>

text \<open>The packets that \<^verbatim>\<open>getNextPacket\<close> is going to return.\<close>

definition pending :: "CAPCCache \<Rightarrow> apc_cache_pkt_s list" where
  "pending c = map (\<lambda>k. m_outpkts c ! (k mod length (m_outpkts c)))
     [unat (m_getNextSeqNum c)..<unat (m_lastSentSeqNum c)]"

definition replay_ok :: "CAPCCache \<Rightarrow> bool" where
  "replay_ok c \<longleftrightarrow> (\<exists>hist. cache_rel c hist)
     \<and> unat (m_lastSentSeqNum c) - unat (m_getNextSeqNum c) \<le> unat (m_numPackets c)"

lemma getNextPacket_pos:
  assumes rel: "cache_rel c hist" and off: "unat off \<le> unat (m_numPackets c)"
  shows "unat ((if off > ucast (m_pos c) then m_pos c + word_of_nat (length (m_outpkts c)) else m_pos c)
     - ucast (off :: u64)) = (length hist - unat off) mod length (m_outpkts c)"
proof -
  note D = cache_relD[OF rel]
  let ?N = "length (m_outpkts c)"
  have ring: "(if length hist mod ?N < unat off then length hist mod ?N + ?N - unat off
      else length hist mod ?N - unat off) = (length hist - unat off) mod ?N"
    using ring_back[of ?N "unat off" "length hist"] D(1,6,7) off by simp
  define P where "P = length hist mod ?N"
  have pos: "m_pos c = word_of_nat P"
    by (simp add: P_def flip: D(5))
  have ucast_off: "(ucast off :: u32) = word_of_nat (unat off)" by simp
  have P: "P < ?N" using D(1) by (simp add: P_def)
  have cond: "off > ucast (m_pos c) \<longleftrightarrow> P < unat off"
    by (simp add: word_less_nat_alt unat_ucast_up D(5) P_def)
  show ?thesis
  proof (cases "P < unat off")
    case True
    have "m_pos c + word_of_nat ?N - ucast off = word_of_nat (P + ?N - unat off)"
      using off D(6) unfolding pos ucast_off by (simp add: of_nat_diff)
    then show ?thesis
      using True cond ring D(2) P by (simp add: P_def[symmetric] unat_of_nat)
  next
    case False
    then have eq: "m_pos c - ucast off = word_of_nat (P - unat off)"
      unfolding pos ucast_off by (simp add: of_nat_diff)
    have "unat (m_pos c - ucast off) = P - unat off"
      unfolding eq unat_of_nat using D(2) P by simp
    then show ?thesis
      using False cond ring by (simp add: P_def[symmetric])
  qed
qed

lemma getNextPacket_spec:
  assumes rel: "cache_rel c hist" and more: "m_getNextSeqNum c < m_lastSentSeqNum c"
  defines "g \<equiv> (if unat (m_lastSentSeqNum c) - unat (m_getNextSeqNum c) \<le> unat (m_numPackets c)
     then unat (m_getNextSeqNum c) else unat (m_lastSentSeqNum c) - unat (m_numPackets c))"
  shows "getNextPacket c = Some (c\<lparr>m_getNextSeqNum := word_of_nat (Suc g)\<rparr>,
     if g = unat (m_getNextSeqNum c) then APC_OK else APC_ERR_OUTBUFOVERFLOW,
     Some (m_outpkts c ! (g mod length (m_outpkts c))))"
proof -
  note D = cache_relD[OF rel]
  let ?lst = "m_lastSentSeqNum c" and ?get = "m_getNextSeqNum c" and ?num = "ucast (m_numPackets c) :: u64"
  have diff: "unat (?lst - ?get) = unat ?lst - unat ?get" using more by (simp add: unat_sub)
  have num: "unat ?num = unat (m_numPackets c)" by (simp add: unat_ucast_up)
  have lt: "\<not> ?get \<ge> ?lst" "unat ?get < unat ?lst" using more by (simp_all add: word_less_nat_alt word_le_nat_alt)
  define over where "over = (?lst - ?get > ?num)"
  define off where "off = (if over then ?num else ?lst - ?get)"
  have over: "over \<longleftrightarrow> unat (m_numPackets c) < unat ?lst - unat ?get"
    by (simp add: over_def word_less_nat_alt diff num)
  have off: "unat off \<le> unat (m_numPackets c)" "unat off \<le> unat ?lst" "unat ?lst - unat off = g"
    using over D(4,7) lt by (auto simp: off_def g_def num diff)
  have get: "?lst - off = word_of_nat g"
    using off(2) by (simp add: of_nat_diff flip: off(3))
  note pos = getNextPacket_pos[OF rel off(1)]
  have "unat off = length hist - g" using off(2,3) D(4) by simp
  have idx: "(length hist - unat off) mod length (m_outpkts c) = g mod length (m_outpkts c)"
    using off(3) D(4) by simp
  have ok: "over \<longleftrightarrow> g \<noteq> unat ?get"
    using over lt D(7) D(4) by (auto simp: g_def)
  have get': "m_getNextSeqNum (if over then c\<lparr>m_getNextSeqNum := ?lst - off\<rparr> else c) = word_of_nat g"
    using get ok by simp
  let ?pos = "(if off > ucast (m_pos c) then m_pos c + word_of_nat (length (m_outpkts c)) else m_pos c)
     - ucast off"
  have "getNextPacket c = (let c' = (if over then c\<lparr>m_getNextSeqNum := ?lst - off\<rparr> else c)
      in if unat ?pos < length (m_outpkts c)
         then Some (c\<lparr>m_getNextSeqNum := m_getNextSeqNum c' + 1\<rparr>,
           if over then APC_ERR_OUTBUFOVERFLOW else APC_OK, Some (m_outpkts c ! unat ?pos))
         else None)"
  proof (cases over)
    case True
    then have "?lst - ?get > ?num" "off = ?num" by (simp_all add: over_def off_def)
    then show ?thesis using lt(1) True by (simp only: getNextPacket_def Let_def) simp
  next
    case False
    then have "\<not> ?lst - ?get > ?num" "off = ?lst - ?get" by (simp_all add: over_def off_def)
    then show ?thesis using lt(1) False by (simp only: getNextPacket_def Let_def) simp
  qed
  also have "\<dots> = Some (c\<lparr>m_getNextSeqNum := word_of_nat g + 1\<rparr>,
      if over then APC_ERR_OUTBUFOVERFLOW else APC_OK, Some (m_outpkts c ! (g mod length (m_outpkts c))))"
    using D(1) by (simp only: Let_def get' pos idx) simp
  finally show ?thesis using ok by (simp add: add.commute)
qed

lemma cache_rel_get [simp]: "cache_rel (c\<lparr>m_getNextSeqNum := g\<rparr>) hist = cache_rel c hist"
  by (simp add: cache_rel_def)

lemma prepForGet_rel: "cache_rel c hist \<Longrightarrow> cache_rel (prepForGet c) hist"
  by (simp add: prepForGet_def)

lemma getNextPacket_total:
  assumes "cache_rel c hist"
  shows "\<exists>c' r p. getNextPacket c = Some (c', r, p) \<and> cache_rel c' hist
    \<and> (r = APC_ERR_NOTFOUND \<longleftrightarrow> p = None)"
proof (cases "m_getNextSeqNum c < m_lastSentSeqNum c")
  case True
  then show ?thesis using getNextPacket_spec[OF assms True] assms by simp
next
  case False
  then show ?thesis using assms by (simp add: getNextPacket_def not_less)
qed

lemma confirmedSeqNum_rel:
  assumes rel: "cache_rel c hist"
  shows "cache_rel (fst (confirmedSeqNum c a isInit)) hist"
proof (cases "length hist < unat a")
  case True
  then show ?thesis using rel by (simp add: confirmedSeqNum_protocol)
next
  case False
  note D = cache_relD[OF rel]
  define q where "q = (length hist - unat a) div 2 ^ 32"
  define x where "x = unat a + q * 2 ^ 32"
  have "length hist - unat a = q * 2 ^ 32 + (length hist - unat a) mod 2 ^ 32"
    by (simp add: q_def)
  moreover have "(length hist - unat a) mod 2 ^ 32 < 2 ^ 32" by simp
  ultimately have x: "x \<le> length hist" "length hist - x < 2 ^ 32"
    using False unfolding x_def by linarith+
  have "unat a < 2 ^ 32" using unsigned_less[of a, where 'a = nat] by simp
  then have a: "a = word_of_nat x"
    unfolding word_unat_eq_iff unat_of_nat by (simp add: x_def)
  show ?thesis
    using rel D(2,6,7) unfolding a confirmedSeqNum_window[OF rel x]
    by (auto simp: Let_def cache_rel_def unat_of_nat)
qed

text \<open>
  A client that sends again everything the cache returns, until the cache has no more or
  sending fails (\<^verbatim>\<open>CAPCClient::apcConnected\<close>).  The loop has fuel; the fuel is an argument.
\<close>

fun replay_loop ::
  "nat \<Rightarrow> ('c \<Rightarrow> ('c \<times> apc_error_t \<times> 'p option) option) \<Rightarrow> ('h \<Rightarrow> 'p \<Rightarrow> 'h \<times> apc_error_t)
     \<Rightarrow> 'c \<Rightarrow> 'h \<Rightarrow> ('c \<times> 'h \<times> apc_error_t) option" where
  "replay_loop 0 get send c h = None"
| "replay_loop (Suc fuel) get send c h =
     (case get c of
        Some (c', e, Some p) \<Rightarrow>
          if e = APC_ERR_NOTFOUND then None
          else (let (h', r) = send h p in
                if r = APC_OK then replay_loop fuel get send c' h' else Some (c', h', r))
      | Some (c', e, None) \<Rightarrow> if e = APC_ERR_NOTFOUND then Some (c', h, APC_OK) else None
      | None \<Rightarrow> None)"

text \<open>What the client means: send a list of packets until one fails.\<close>

fun send_all :: "('h \<Rightarrow> 'p \<Rightarrow> 'h \<times> apc_error_t) \<Rightarrow> 'h \<Rightarrow> 'p list \<Rightarrow> 'h \<times> apc_error_t" where
  "send_all send h [] = (h, APC_OK)"
| "send_all send h (p # ps) =
     (let (h', r) = send h p in if r = APC_OK then send_all send h' ps else (h', r))"

locale replay_source =
  fixes get :: "'c \<Rightarrow> ('c \<times> apc_error_t \<times> 'p option) option"
    and pend :: "'c \<Rightarrow> 'p list"
    and ok :: "'c \<Rightarrow> bool"
  assumes get_empty: "ok c \<Longrightarrow> pend c = [] \<Longrightarrow> get c = Some (c, APC_ERR_NOTFOUND, None)"
    and get_more: "ok c \<Longrightarrow> pend c = p # ps \<Longrightarrow>
      \<exists>c'. get c = Some (c', APC_OK, Some p) \<and> pend c' = ps \<and> ok c'"
begin

lemma replay_sends_pending:
  assumes "ok c" and "length (pend c) < fuel"
  shows "\<exists>c'. ok c' \<and> replay_loop fuel get send c h = Some (c', send_all send h (pend c))"
  using assms
proof (induction fuel arbitrary: c h)
  case (Suc fuel)
  show ?case
  proof (cases "pend c")
    case Nil
    then show ?thesis using get_empty[OF Suc.prems(1)] Suc.prems(1) by simp
  next
    case (Cons p ps)
    then obtain c' where c': "get c = Some (c', APC_OK, Some p)" "pend c' = ps" "ok c'"
      using get_more[OF Suc.prems(1)] by blast
    then show ?thesis
      using Suc.IH[of c' "fst (send h p)"] Suc.prems(2) Cons by (auto simp: case_prod_beta Let_def)
  qed
qed simp

end

interpretation cache_replay: replay_source getNextPacket pending replay_ok
proof
  fix c assume ok: "replay_ok c" and e: "pending c = []"
  then have "m_getNextSeqNum c \<ge> m_lastSentSeqNum c"
    by (auto simp: pending_def word_le_nat_alt)
  then show "getNextPacket c = Some (c, APC_ERR_NOTFOUND, None)" by (simp add: getNextPacket_def)
next
  fix c p ps assume ok: "replay_ok c" and e: "pending c = p # ps"
  let ?g = "unat (m_getNextSeqNum c)" and ?n = "unat (m_lastSentSeqNum c)"
  obtain hist where rel: "cache_rel c hist" and le: "?n - ?g \<le> unat (m_numPackets c)"
    using ok by (auto simp: replay_ok_def)
  have lt: "?g < ?n" using e by (metis pending_def upt_eq_Nil_conv list.simps(8) list.distinct(1) not_less)
  then have more: "m_getNextSeqNum c < m_lastSentSeqNum c" by (simp add: word_less_nat_alt)
  have suc: "unat (word_of_nat (Suc ?g) :: u64) = Suc ?g"
  proof -
    have "Suc ?g < 2 ^ 64" using lt cache_relD(3,4)[OF rel] by simp
    then show ?thesis unfolding unat_of_nat by simp
  qed
  let ?c = "c\<lparr>m_getNextSeqNum := word_of_nat (Suc ?g)\<rparr>"
  have split: "pending c = m_outpkts c ! (?g mod length (m_outpkts c)) # pending ?c"
    using lt suc by (simp add: pending_def upt_conv_Cons del: of_nat_Suc)
  have "getNextPacket c = Some (?c, APC_OK, Some (m_outpkts c ! (?g mod length (m_outpkts c))))"
    using getNextPacket_spec[OF rel more] le by simp
  moreover have "replay_ok ?c"
    using rel le suc by (auto simp: replay_ok_def simp del: of_nat_Suc)
  ultimately show "\<exists>c'. getNextPacket c = Some (c', APC_OK, Some p) \<and> pending c' = ps \<and> replay_ok c'"
    using split e by (simp add: )
qed

section \<open>Reachable caches\<close>

text \<open>
  The caches the program can reach, with the packets added so far; \<^verbatim>\<open>m_lastSentSeqNum\<close> does not
  wrap in the life of a session (2^64 packets).
\<close>

inductive cache_reach :: "u32 \<Rightarrow> CAPCCache \<Rightarrow> sent_pkt list \<Rightarrow> bool" for cacheSize where
  reach_new: "cache_reach cacheSize (new_CAPCCache cacheSize) []"
| reach_clear: "cache_reach cacheSize c hist \<Longrightarrow> cache_reach cacheSize (cache_clear c) []"
| reach_add: "cache_reach cacheSize c hist \<Longrightarrow> Suc (length hist) < 2 ^ 64
    \<Longrightarrow> arg_bytes p1 s1 = Some b1 \<Longrightarrow> arg_bytes p2 s2 = Some b2
    \<Longrightarrow> length b1 + length b2 \<le> APC_MAX_MSG_SIZE
    \<Longrightarrow> addPacket c type p1 s1 p2 s2 = Some (c', r, q)
    \<Longrightarrow> cache_reach cacheSize c' (hist @ [(type, b1 @ b2)])"
| reach_add_size: "cache_reach cacheSize c hist
    \<Longrightarrow> addPacket c type p1 s1 p2 s2 = Some (c', APC_ERR_SIZE, q) \<Longrightarrow> cache_reach cacheSize c' hist"
| reach_confirm: "cache_reach cacheSize c hist
    \<Longrightarrow> cache_reach cacheSize (fst (confirmedSeqNum c a isInit)) hist"
| reach_prep: "cache_reach cacheSize c hist \<Longrightarrow> cache_reach cacheSize (prepForGet c) hist"
| reach_get: "cache_reach cacheSize c hist \<Longrightarrow> getNextPacket c = Some (c', r, p)
    \<Longrightarrow> cache_reach cacheSize c' hist"

lemma addPacket_APC_ERR_SIZE: "addPacket c type p1 s1 p2 s2 = Some (c', APC_ERR_SIZE, q) \<Longrightarrow> c' = c"
  by (auto simp: addPacket_def Let_def split: if_splits option.splits)

lemma length_confirmedSeqNum [simp]:
  "length (m_outpkts (fst (confirmedSeqNum c a isInit))) = length (m_outpkts c)"
  by (simp add: confirmedSeqNum_def Let_def case_prod_beta)

lemma cache_reach_rel:
  assumes "cache_reach cacheSize c hist" and "0 < cacheSize"
  shows "cache_rel c hist \<and> length (m_outpkts c) = unat cacheSize"
  using assms
proof (induction rule: cache_reach.induct)
  case reach_new
  then show ?case using new_CAPCCache_rel by (simp add: new_CAPCCache_def cache_clear_def)
next
  case (reach_clear c hist)
  then show ?case using cache_clear_rel by (auto simp: cache_clear_def)
next
  case (reach_add c hist p1 s1 b1 p2 s2 b2 type c' r q)
  then show ?case using addPacket_spec[of c hist p1 s1 b1 p2 s2 b2 type] by auto
next
  case (reach_add_size c hist type p1 s1 p2 s2 c' q)
  then show ?case using addPacket_APC_ERR_SIZE by blast
next
  case (reach_confirm c hist a isInit)
  then show ?case using confirmedSeqNum_rel by simp
next
  case (reach_prep c hist)
  then show ?case using prepForGet_rel by (simp add: prepForGet_def)
next
  case (reach_get c hist c' r p)
  then have "m_outpkts c' = m_outpkts c"
    by (auto simp: getNextPacket_def Let_def split: if_splits)
  then show ?case using reach_get getNextPacket_total[of c hist] by auto
qed

lemma pending_after_confirm:
  assumes rel: "cache_rel c hist" and x: "x \<le> length hist" "length hist - x \<le> length (m_outpkts c)"
  defines "c' \<equiv> prepForGet (fst (confirmedSeqNum c (word_of_nat x) True))"
  shows "replay_ok c'" and "map pkt_view (pending c') = map (sent_view hist) [x..<length hist]"
proof -
  note D = cache_relD[OF rel]
  let ?m = "length hist - x"
  have small: "?m < 2 ^ 32" using x D(2) by linarith
  have c': "c' = c\<lparr>m_numPackets := word_of_nat ?m,
      m_getNextSeqNum := m_lastSentSeqNum c - ucast (word_of_nat ?m :: u32)\<rparr>"
    using x confirmedSeqNum_window[OF rel x(1) small, of True]
    by (simp add: c'_def prepForGet_def Let_def min_def)
  have m: "unat (word_of_nat ?m :: u32) = ?m" using small by (simp add: unat_of_nat)
  have g: "unat (m_getNextSeqNum c') = x"
  proof -
    have "(ucast (word_of_nat ?m :: u32) :: u64) \<le> m_lastSentSeqNum c"
      using m D(4) x by (simp add: word_le_nat_alt unat_ucast_up)
    then show ?thesis using m D(4) x by (simp add: c' unat_sub unat_ucast_up)
  qed
  have "cache_rel c' hist"
    using rel confirmedSeqNum_rel prepForGet_rel unfolding c'_def by blast
  moreover have num: "unat (m_numPackets c') = ?m" "m_lastSentSeqNum c' = m_lastSentSeqNum c"
    "m_outpkts c' = m_outpkts c"
    using m by (simp_all add: c')
  ultimately show "replay_ok c'" using g D(4) by (auto simp: replay_ok_def)
  show "map pkt_view (pending c') = map (sent_view hist) [x..<length hist]"
    using D(4,9) x by (auto simp: pending_def g num)
qed

section \<open>Properties of the cache\<close>

lemma send_all_collect: "send_all (\<lambda>h p. (h @ [f p], APC_OK)) h ps = (h @ map f ps, APC_OK)"
  by (induction ps arbitrary: h) simp_all

lemma cache_reach_any:
  assumes "0 < cacheSize" and "list_all (\<lambda>(t, b). length b \<le> APC_MAX_MSG_SIZE) hist"
    and "length hist < 2 ^ 64"
  shows "\<exists>c. cache_reach cacheSize c hist"
  using assms(2,3)
proof (induction hist rule: rev_induct)
  case Nil
  then show ?case using reach_new by blast
next
  case (snoc tb hist)
  obtain t b where tb: "tb = (t, b)" by fastforce
  have b: "length b \<le> APC_MAX_MSG_SIZE" using snoc.prems tb by simp
  obtain c where c: "cache_reach cacheSize c hist" using snoc by auto
  have arg: "arg_bytes (Some b) (word_of_nat (length b)) = Some b" "arg_bytes None 0 = Some []"
    using b by (simp_all add: arg_bytes_def unat_of_nat APC_MAX_MSG_SIZE_val)
  obtain c' r q where "addPacket c t (Some b) (word_of_nat (length b)) None 0 = Some (c', r, q)"
    using addPacket_spec[of c hist, OF _ _ arg, of t] cache_reach_rel[OF c assms(1)] snoc.prems(2) b by auto
  then have "cache_reach cacheSize c' (hist @ [(t, b @ [])])"
    using reach_add[OF c _ arg] b snoc.prems(2) by simp
  then show ?case using tb by auto
qed

text \<open>
  Claim C5. Replay: when the peer confirms on reconnection the packet \<open>x\<close> and the packets after
  it are still in the ring, the client loop over \<^verbatim>\<open>getNextPacket\<close> returns exactly the packets
  \<open>x + 1\<close> to the last one sent, each once, in order, with their sequence numbers, types and
  payloads, and ends; this holds in every reachable cache, after any wrap of the ring.
\<close>

theorem cache_replay_exact:
  assumes "cache_reach cacheSize c hist" and "0 < cacheSize"
    and "x \<le> length hist" and "length hist - x \<le> unat cacheSize"
  shows "\<exists>c'. replay_loop (Suc (length hist - x)) getNextPacket (\<lambda>sent p. (sent @ [pkt_view p], APC_OK))
      (prepForGet (fst (confirmedSeqNum c (word_of_nat x) True))) []
     = Some (c', map (\<lambda>k. (word_of_nat (Suc k), hist ! k)) [x..<length hist], APC_OK)"
proof -
  let ?c = "prepForGet (fst (confirmedSeqNum c (word_of_nat x) True))"
  note P = pending_after_confirm[of c hist x]
  have rel: "cache_rel c hist" "length (m_outpkts c) = unat cacheSize"
    using cache_reach_rel[OF assms(1,2)] by auto
  have ok: "replay_ok ?c" and pend: "map pkt_view (pending ?c) = map (sent_view hist) [x..<length hist]"
    using P rel assms(3,4) by simp_all
  have "length (pending ?c) = length hist - x"
    using arg_cong[OF pend, of length] by simp
  then obtain c' where "replay_loop (Suc (length hist - x)) getNextPacket
      (\<lambda>sent p. (sent @ [pkt_view p], APC_OK)) ?c [] = Some (c', map (sent_view hist) [x..<length hist], APC_OK)"
    using cache_replay.replay_sends_pending[OF ok, of "Suc (length hist - x)"
        "\<lambda>sent p. (sent @ [pkt_view p], APC_OK)" "[]"] pend
    by (auto simp: send_all_collect simp del: replay_loop.simps)
  then show ?thesis unfolding sent_view_def[abs_def] by blast
qed

theorem cache_replay_exact_witness:
  "\<exists>c c'. cache_reach 2 c [(4, [1]), (4, [2, 3]), (5, [])]
     \<and> replay_loop (Suc (Suc (Suc 0))) getNextPacket (\<lambda>sent p. (sent @ [pkt_view p], APC_OK))
         (prepForGet (fst (confirmedSeqNum c (word_of_nat 1) True))) []
       = Some (c', [(2, 4, [2, 3]), (3, 5, [])], APC_OK)"
proof -
  obtain c where c: "cache_reach 2 c [(4, [1]), (4, [2, 3]), (5, [])]"
    using cache_reach_any[of 2 "[(4, [1]), (4, [2, 3]), (5, [])]"] by (auto simp: APC_MAX_MSG_SIZE_val)
  have "[1..<3] = [1, 2 :: nat]" "Suc (3 - 1) = 3" by (simp_all add: upt_rec)
  then show ?thesis
    using cache_replay_exact[OF c, of 1] c
    by (simp del: replay_loop.simps) blast
qed

text \<open>
  Claim C19. Adding: in every reachable cache a packet of at most \<^verbatim>\<open>APC_MAX_MSG_SIZE\<close> bytes is stored
  without leaving the ring or a slot, gets the next sequence number (modulo 2^32), and overflow is
  reported exactly when the ring holds as many unconfirmed packets as it has slots.
\<close>

theorem cache_add_safe:
  assumes "cache_reach cacheSize c hist" and "0 < cacheSize" and "Suc (length hist) < 2 ^ 64"
    and "arg_bytes p1 s1 = Some b1" and "arg_bytes p2 s2 = Some b2"
    and "length b1 + length b2 \<le> APC_MAX_MSG_SIZE"
  shows "\<exists>c'. addPacket c type p1 s1 p2 s2 = Some (c',
       if m_numPackets c = cacheSize then APC_ERR_OUTBUFOVERFLOW else APC_OK, Some (word_of_nat (Suc (length hist))))
     \<and> cache_rel c' (hist @ [(type, b1 @ b2)])"
proof -
  have rel: "cache_rel c hist" and len: "length (m_outpkts c) = unat cacheSize"
    using cache_reach_rel[OF assms(1,2)] by auto
  show ?thesis
    using addPacket_spec[OF rel assms(3-6), of type] len by (auto simp: cache_full_def word_unat_eq_iff)
qed

theorem cache_add_safe_witness:
  "\<exists>c c'. addPacket c 4 (Some [1, 2]) 2 None 0 = Some (c', APC_OK, Some 1)
     \<and> cache_rel c' [(4, [1, 2])]"
  using cache_add_safe[OF reach_new[of 2], of "Some [1, 2]" 2 "[1, 2]" None 0 "[]" 4]
  by (auto simp: arg_bytes_def APC_MAX_MSG_SIZE_val new_CAPCCache_def cache_clear_def)



end
