(* ===== verification/APC_Serializer.thy ===== *)
theory APC_Serializer
  imports APC_Types
begin

text \<open>
  Messages on the TCP connection to the manager (\<^verbatim>\<open>APCSerializer.h\<close>, \<^verbatim>\<open>APCSerializer.cpp\<close>):
  building a message in an output buffer and reassembling messages from the byte
  stream.  Structures overlay buffers, so a field is read from and written to its bytes.
  \<^verbatim>\<open>size_t\<close> values are naturals; the one subtraction that could wrap is written out.  The receiver
  of messages (\<^verbatim>\<open>ISerRxHandler\<close>) is a function on a handler state.  A copy that
  leaves a buffer and a failed assertion are \<^const>\<open>None\<close>.
\<close>

section \<open>Overlaid structures\<close>

definition bytes_at :: "nat \<Rightarrow> nat \<Rightarrow> 'a list \<Rightarrow> 'a list" where
  "bytes_at off n bs = take n (drop off bs)"

record apc_hdr_s =
  h_cookie :: u32
  h_flags :: byte
  h_mySeq :: u32
  h_yourSeq :: u32
  h_type :: apc_msg_type_t
  h_length :: u16

definition hdr_bytes :: "apc_hdr_s \<Rightarrow> byte list" where
  "hdr_bytes h = le_bytes 4 (h_cookie h) @ [h_flags h] @ le_bytes 4 (h_mySeq h)
     @ le_bytes 4 (h_yourSeq h) @ [h_type h] @ le_bytes 2 (h_length h)"

definition read_hdr :: "byte list \<Rightarrow> apc_hdr_s" where
  "read_hdr bs = \<lparr>h_cookie = le_word (bytes_at 0 4 bs), h_flags = bs ! 4, h_mySeq = le_word (bytes_at 5 4 bs),
     h_yourSeq = le_word (bytes_at 9 4 bs), h_type = bs ! 13, h_length = le_word (bytes_at 14 2 bs)\<rparr>"

text \<open>\<^verbatim>\<open>p->field = CONVERT(p->field)\<close> for a field of 2, 4 or 8 bytes at an offset.\<close>

definition update_at :: "nat \<Rightarrow> (byte list \<Rightarrow> byte list) \<Rightarrow> nat \<Rightarrow> byte list \<Rightarrow> byte list" where
  "update_at n f off bs = overwrite off (f (bytes_at off n bs)) bs"

definition conv_s :: "converttype_t \<Rightarrow> nat \<Rightarrow> byte list \<Rightarrow> byte list" where
  "conv_s c = update_at 2 (\<lambda>b. le_bytes 2 (CONVERT_S c (le_word b)))"

definition conv_l :: "converttype_t \<Rightarrow> nat \<Rightarrow> byte list \<Rightarrow> byte list" where
  "conv_l c = update_at 4 (\<lambda>b. le_bytes 4 (CONVERT_L c (le_word b)))"

definition conv_ll :: "converttype_t \<Rightarrow> nat \<Rightarrow> byte list \<Rightarrow> byte list" where
  "conv_ll c = update_at 8 (\<lambda>b. le_bytes 8 (CONVERT_LL c (le_word b)))"

definition bufferCast_p :: "nat \<Rightarrow> byte list \<Rightarrow> bool" where
  "bufferCast_p size_T payload \<longleftrightarrow> \<not> length payload < size_T"

text \<open>Offsets: \<^verbatim>\<open>apc_msg_net_tx_s\<close> 1, 5, 10; \<^verbatim>\<open>apc_msg_net_txdone_s\<close> 0;
  \<^verbatim>\<open>apc_msg_timemap_s\<close> 0, 8, 12, 20; \<^verbatim>\<open>apc_msg_connect_s\<close> 1, 37, 42.\<close>

definition convert :: "converttype_t \<Rightarrow> apc_msg_type_t \<Rightarrow> byte list \<Rightarrow> byte list \<times> apc_error_t" where
  "convert c msgType payload =
     (if msgType = APC_NET_TX then
        if bufferCast_p sizeof_apc_msg_net_tx_s payload
        then (conv_s c 10 (conv_l c 5 (conv_s c 1 payload)), APC_OK) else (payload, APC_ERR_SIZE)
      else if msgType = APC_NET_TXDONE then
        if bufferCast_p sizeof_apc_msg_net_txdone_s payload
        then (conv_s c 0 payload, APC_OK) else (payload, APC_ERR_SIZE)
      else if msgType = APC_TIME_MAP then
        if bufferCast_p sizeof_apc_msg_timemap_s payload
        then (conv_s c 20 (conv_ll c 12 (conv_l c 8 (conv_ll c 0 payload))), APC_OK)
        else (payload, APC_ERR_SIZE)
      else if msgType = APC_CONNECT then
        if bufferCast_p sizeof_apc_msg_connect_s payload
        then (conv_l c 42 (conv_l c 37 (conv_l c 1 payload)), APC_OK) else (payload, APC_ERR_SIZE)
      else (payload, APC_OK))"

section \<open>Building a message\<close>

text \<open>\<^verbatim>\<open>if (size > 0) memcpy(msg + off, payload, size)\<close>\<close>

definition copy_payload :: "nat \<Rightarrow> byte list option \<Rightarrow> nat \<Rightarrow> byte list \<Rightarrow> byte list option" where
  "copy_payload off p sz msg =
     (if sz > 0 then
        case p of None \<Rightarrow> None
        | Some bs \<Rightarrow> if sz \<le> length bs then memcpy_at off (take sz bs) msg else None
      else Some msg)"

text \<open>The result is the output buffer, \<^verbatim>\<open>*pMsgSize\<close> and the error code.\<close>

definition prepMsg ::
  "byte list \<Rightarrow> nat \<Rightarrow> apc_msg_type_t \<Rightarrow> byte \<Rightarrow> u32 \<Rightarrow> u32 \<Rightarrow> byte list option \<Rightarrow> nat
     \<Rightarrow> byte list option \<Rightarrow> nat \<Rightarrow> (byte list \<times> nat \<times> apc_error_t) option" where
  "prepMsg msg maxSize type flags mySeq yourSeq payload1 size1 payload2 size2 =
     (if \<not> ((size1 = 0 \<or> payload1 \<noteq> None) \<and> (size2 = 0 \<or> payload2 \<noteq> None)) then None
      else
        let fullSize = size1 + size2;
            msgSize = fullSize + sizeof_apc_hdr_s
        in if msgSize > maxSize then Some (msg, msgSize, APC_ERR_SIZE)
           else
             let hdr = \<lparr>h_cookie = APC_COOKIE, h_flags = flags, h_mySeq = htonl mySeq,
                        h_yourSeq = htonl yourSeq, h_type = type, h_length = htons (word_of_nat fullSize)\<rparr>
             in case memcpy_at 0 (hdr_bytes hdr) msg of None \<Rightarrow> None
             | Some msg \<Rightarrow>
               (case copy_payload sizeof_apc_hdr_s payload1 size1 msg of None \<Rightarrow> None
                | Some msg \<Rightarrow>
                  (case copy_payload (sizeof_apc_hdr_s + size1) payload2 size2 msg of None \<Rightarrow> None
                   | Some msg \<Rightarrow>
                     let (payload, res) = convert HOST_TO_NET type (bytes_at sizeof_apc_hdr_s fullSize msg)
                     in Some (overwrite sizeof_apc_hdr_s payload msg, msgSize, res))))"

section \<open>Reassembling messages\<close>

text \<open>The arguments of \<^verbatim>\<open>ISerRxHandler::messageReceived\<close>.\<close>

record rx_msg =
  rx_type :: apc_msg_type_t
  rx_flags :: byte
  rx_mySeq :: u32
  rx_yourSeq :: u32
  rx_payload :: "byte list"

type_synonym 'h rx_handler = "'h \<Rightarrow> rx_msg \<Rightarrow> 'h \<times> apc_error_t"

record CAPCSerializer =
  m_inpBuf :: "byte list"
  m_inpNumReceived :: nat
  m_inpNumExpected :: nat

definition new_CAPCSerializer :: "nat \<Rightarrow> CAPCSerializer" where
  "new_CAPCSerializer maxMsgSize =
     \<lparr>m_inpBuf = replicate maxMsgSize 0, m_inpNumReceived = 0, m_inpNumExpected = sizeof_apc_hdr_s\<rparr>"

definition fillInpBuf_p :: "CAPCSerializer \<Rightarrow> byte list \<Rightarrow> (CAPCSerializer \<times> nat) option" where
  "fillInpBuf_p s data =
     (let len = nat ((int (m_inpNumExpected s) - int (m_inpNumReceived s)) mod 2 ^ 64);
          len = (if length data < len then length data else len)
      in case memcpy_at (m_inpNumReceived s) (take len data) (m_inpBuf s) of None \<Rightarrow> None
         | Some buf \<Rightarrow> Some (s\<lparr>m_inpBuf := buf, m_inpNumReceived := m_inpNumReceived s + len\<rparr>, len))"

text \<open>The loop body of \<^verbatim>\<open>dataReceived\<close> from line 80 on: deliver a complete message.\<close>

definition rx_deliver ::
  "'h rx_handler \<Rightarrow> CAPCSerializer \<Rightarrow> 'h \<Rightarrow> CAPCSerializer \<times> 'h \<times> apc_error_t" where
  "rx_deliver handler s h =
     (if m_inpNumExpected s = m_inpNumReceived s then
        let hdr = read_hdr (m_inpBuf s);
            (payload, res) = convert NET_TO_HOST (h_type hdr)
               (bytes_at sizeof_apc_hdr_s (m_inpNumReceived s - sizeof_apc_hdr_s) (m_inpBuf s));
            (h, res) =
              (if res = APC_OK then
                 handler h \<lparr>rx_type = h_type hdr, rx_flags = h_flags hdr, rx_mySeq = ntohl (h_mySeq hdr),
                            rx_yourSeq = ntohl (h_yourSeq hdr), rx_payload = payload\<rparr>
               else (h, res))
        in (s\<lparr>m_inpBuf := overwrite sizeof_apc_hdr_s payload (m_inpBuf s), m_inpNumReceived := 0,
              m_inpNumExpected := sizeof_apc_hdr_s\<rparr>, h, res)
      else (s, h, APC_OK))"

text \<open>Lines 76 to 88: fill again, then deliver.\<close>

definition rx_payload_part ::
  "'h rx_handler \<Rightarrow> CAPCSerializer \<Rightarrow> 'h \<Rightarrow> byte list
     \<Rightarrow> (CAPCSerializer \<times> 'h \<times> byte list \<times> apc_error_t) option" where
  "rx_payload_part handler s h data =
     (case (if m_inpNumExpected s \<noteq> m_inpNumReceived s \<and> data \<noteq> []
            then map_option (\<lambda>(s, n). (s, drop n data)) (fillInpBuf_p s data) else Some (s, data)) of
        None \<Rightarrow> None
      | Some (s, data) \<Rightarrow> (case rx_deliver handler s h of (s, h, res) \<Rightarrow> Some (s, h, data, res)))"

text \<open>One iteration of the loop; the early returns leave the loop like the loop condition does.\<close>

definition rx_iteration ::
  "'h rx_handler \<Rightarrow> CAPCSerializer \<Rightarrow> 'h \<Rightarrow> byte list
     \<Rightarrow> (CAPCSerializer \<times> 'h \<times> byte list \<times> apc_error_t) option" where
  "rx_iteration handler s h data =
     (case fillInpBuf_p s data of None \<Rightarrow> None
      | Some (s, processedLen) \<Rightarrow>
          let data = drop processedLen data
          in if m_inpNumReceived s = sizeof_apc_hdr_s then
               let hdr = read_hdr (m_inpBuf s);
                   s = s\<lparr>m_inpNumExpected := m_inpNumExpected s + unat (ntohs (h_length hdr))\<rparr>
               in if h_cookie hdr \<noteq> APC_COOKIE then Some (s, h, data, APC_ERR_PROTOCOL)
                  else if m_inpNumExpected s > length (m_inpBuf s) then Some (s, h, data, APC_ERR_SIZE)
                  else rx_payload_part handler s h data
             else rx_payload_part handler s h data)"

text \<open>
  The loop, with fuel.  Every iteration started in a state of the invariant below consumes a
  byte, so one unit more than there are bytes is enough.
\<close>

fun dataReceived_loop ::
  "nat \<Rightarrow> 'h rx_handler \<Rightarrow> CAPCSerializer \<Rightarrow> 'h \<Rightarrow> byte list \<Rightarrow> (CAPCSerializer \<times> 'h \<times> apc_error_t) option" where
  "dataReceived_loop 0 handler s h data = None"
| "dataReceived_loop (Suc fuel) handler s h data =
     (if data = [] then Some (s, h, APC_OK)
      else case rx_iteration handler s h data of None \<Rightarrow> None
           | Some (s, h, data, res) \<Rightarrow>
               if res = APC_OK then dataReceived_loop fuel handler s h data else Some (s, h, res))"

definition dataReceived ::
  "'h rx_handler \<Rightarrow> CAPCSerializer \<Rightarrow> 'h \<Rightarrow> byte list \<Rightarrow> (CAPCSerializer \<times> 'h \<times> apc_error_t) option" where
  "dataReceived handler s h data = dataReceived_loop (Suc (length data)) handler s h data"

section \<open>Field accesses\<close>

lemma length_bytes_at [simp]: "off + n \<le> length bs \<Longrightarrow> length (bytes_at off n bs) = n"
  by (simp add: bytes_at_def)

lemma bytes_at_overwrite_same: "off + length src \<le> length bs \<Longrightarrow> bytes_at off (length src) (overwrite off src bs) = src"
  by (simp add: bytes_at_def overwrite_def)

lemma nth_overwrite:
  "off + length src \<le> length bs \<Longrightarrow> i < length bs \<Longrightarrow>
   overwrite off src bs ! i = (if off \<le> i \<and> i < off + length src then src ! (i - off) else bs ! i)"
  by (auto simp: overwrite_def nth_append min_def)

lemma bytes_at_overwrite_other:
  assumes "off + length src \<le> length bs" "off' + n \<le> off \<or> off + length src \<le> off'" 
  shows "bytes_at off' n (overwrite off src bs) = bytes_at off' n bs"
proof (rule nth_equalityI)
  show "length (bytes_at off' n (overwrite off src bs)) = length (bytes_at off' n bs)"
    using assms(1) by (simp add: bytes_at_def)
  fix i assume "i < length (bytes_at off' n (overwrite off src bs))"
  then show "bytes_at off' n (overwrite off src bs) ! i = bytes_at off' n bs ! i"
    using assms by (auto simp: bytes_at_def nth_overwrite)
qed

lemma overwrite_bytes_at [simp]: "off + n \<le> length bs \<Longrightarrow> overwrite off (bytes_at off n bs) bs = bs"
  by (simp add: bytes_at_def overwrite_def) (metis append.assoc append_take_drop_id take_add)

lemma overwrite_overwrite_same:
  "length a = length b \<Longrightarrow> off + length a \<le> length bs \<Longrightarrow> overwrite off b (overwrite off a bs) = overwrite off b bs"
  by (simp add: overwrite_def)

lemma overwrite_commute:
  assumes "off + length a \<le> off'" "off' + length b \<le> length bs"
  shows "overwrite off a (overwrite off' b bs) = overwrite off' b (overwrite off a bs)"
proof (rule nth_equalityI)
  show "length (overwrite off a (overwrite off' b bs)) = length (overwrite off' b (overwrite off a bs))"
    using assms by simp
  fix i assume "i < length (overwrite off a (overwrite off' b bs))"
  then show "overwrite off a (overwrite off' b bs) ! i = overwrite off' b (overwrite off a bs) ! i"
    using assms by (auto simp: nth_overwrite)
qed

text \<open>Updates of disjoint fields commute (sorted by offset), and the two conversions of one field cancel.\<close>

lemma update_at_commute:
  assumes "\<And>b. length (f b) = n" "\<And>b. length (g b) = m" "off + n \<le> off'" "off' + m \<le> length bs"
  shows "update_at n f off (update_at m g off' bs) = update_at m g off' (update_at n f off bs)"
  using assms by (simp add: update_at_def bytes_at_overwrite_other) (rule overwrite_commute; simp)

lemma update_at_inverse:
  assumes "\<And>b. length (f b) = n" "\<And>b. length (g b) = n" "\<And>b. length b = n \<Longrightarrow> f (g b) = b"
    and "off + n \<le> length bs"
  shows "update_at n f off (update_at n g off bs) = bs"
  using assms bytes_at_overwrite_same[of off "g (bytes_at off n bs)" bs]
  by (simp add: update_at_def overwrite_overwrite_same)

lemma length_update_at: "(\<And>b. length (f b) = n) \<Longrightarrow> off + n \<le> length bs \<Longrightarrow> length (update_at n f off bs) = length bs"
  by (simp add: update_at_def)

lemma le_convert_inverse:
  "length b = 2 \<Longrightarrow> le_bytes 2 (CONVERT_S NET_TO_HOST (le_word (le_bytes 2 (CONVERT_S HOST_TO_NET (le_word b))))) = b"
  "length b = 4 \<Longrightarrow> le_bytes 4 (CONVERT_L NET_TO_HOST (le_word (le_bytes 4 (CONVERT_L HOST_TO_NET (le_word b))))) = b"
  "length b = 8 \<Longrightarrow> le_bytes 8 (CONVERT_LL NET_TO_HOST (le_word (le_bytes 8 (CONVERT_LL HOST_TO_NET (le_word b))))) = b"
  using le_bytes_le_word[of b, where 'a = 16] le_bytes_le_word[of b, where 'a = 32]
    le_bytes_le_word[of b, where 'a = 64]
  by simp_all

lemma length_convert [simp]: "length (fst (convert c t p)) = length p"
  by (auto simp: convert_def conv_s_def conv_l_def conv_ll_def length_update_at bufferCast_p_def wire_simps)

lemma convert_error: "snd (convert c t p) = snd (convert d t p)" "snd (convert c t p) \<noteq> APC_OK \<Longrightarrow> fst (convert c t p) = p"
  by (auto simp: convert_def)

lemma snd_convert_length: "length p = length q \<Longrightarrow> snd (convert c t p) = snd (convert d t q)"
  by (auto simp: convert_def bufferCast_p_def)

lemma conv_sort:
  "off + 2 \<le> off' \<Longrightarrow> off' + 2 \<le> length bs \<Longrightarrow>
     conv_s NET_TO_HOST off (conv_s HOST_TO_NET off' bs) = conv_s HOST_TO_NET off' (conv_s NET_TO_HOST off bs)"
  "off + 2 \<le> off' \<Longrightarrow> off' + 4 \<le> length bs \<Longrightarrow>
     conv_s NET_TO_HOST off (conv_l HOST_TO_NET off' bs) = conv_l HOST_TO_NET off' (conv_s NET_TO_HOST off bs)"
  "off + 2 \<le> off' \<Longrightarrow> off' + 8 \<le> length bs \<Longrightarrow>
     conv_s NET_TO_HOST off (conv_ll HOST_TO_NET off' bs) = conv_ll HOST_TO_NET off' (conv_s NET_TO_HOST off bs)"
  "off + 4 \<le> off' \<Longrightarrow> off' + 2 \<le> length bs \<Longrightarrow>
     conv_l NET_TO_HOST off (conv_s HOST_TO_NET off' bs) = conv_s HOST_TO_NET off' (conv_l NET_TO_HOST off bs)"
  "off + 4 \<le> off' \<Longrightarrow> off' + 4 \<le> length bs \<Longrightarrow>
     conv_l NET_TO_HOST off (conv_l HOST_TO_NET off' bs) = conv_l HOST_TO_NET off' (conv_l NET_TO_HOST off bs)"
  "off + 4 \<le> off' \<Longrightarrow> off' + 8 \<le> length bs \<Longrightarrow>
     conv_l NET_TO_HOST off (conv_ll HOST_TO_NET off' bs) = conv_ll HOST_TO_NET off' (conv_l NET_TO_HOST off bs)"
  "off + 8 \<le> off' \<Longrightarrow> off' + 2 \<le> length bs \<Longrightarrow>
     conv_ll NET_TO_HOST off (conv_s HOST_TO_NET off' bs) = conv_s HOST_TO_NET off' (conv_ll NET_TO_HOST off bs)"
  "off + 8 \<le> off' \<Longrightarrow> off' + 4 \<le> length bs \<Longrightarrow>
     conv_ll NET_TO_HOST off (conv_l HOST_TO_NET off' bs) = conv_l HOST_TO_NET off' (conv_ll NET_TO_HOST off bs)"
  "off + 8 \<le> off' \<Longrightarrow> off' + 8 \<le> length bs \<Longrightarrow>
     conv_ll NET_TO_HOST off (conv_ll HOST_TO_NET off' bs) = conv_ll HOST_TO_NET off' (conv_ll NET_TO_HOST off bs)"
  unfolding conv_s_def conv_l_def conv_ll_def by (rule update_at_commute; simp)+

lemma conv_cancel:
  "off + 2 \<le> length bs \<Longrightarrow> conv_s NET_TO_HOST off (conv_s HOST_TO_NET off bs) = bs"
  "off + 4 \<le> length bs \<Longrightarrow> conv_l NET_TO_HOST off (conv_l HOST_TO_NET off bs) = bs"
  "off + 8 \<le> length bs \<Longrightarrow> conv_ll NET_TO_HOST off (conv_ll HOST_TO_NET off bs) = bs"
  unfolding conv_s_def conv_l_def conv_ll_def
  by (rule update_at_inverse; (erule le_convert_inverse | simp))+

lemma length_conv [simp]:
  "off + 2 \<le> length bs \<Longrightarrow> length (conv_s c off bs) = length bs"
  "off + 4 \<le> length bs \<Longrightarrow> length (conv_l c off bs) = length bs"
  "off + 8 \<le> length bs \<Longrightarrow> length (conv_ll c off bs) = length bs"
  by (simp_all add: conv_s_def conv_l_def conv_ll_def length_update_at)

lemma convert_inverse:
  assumes "snd (convert HOST_TO_NET t p) = APC_OK"
  shows "convert NET_TO_HOST t (fst (convert HOST_TO_NET t p)) = (p, APC_OK)"
proof -
  consider "t = APC_NET_TX" | "t = APC_NET_TXDONE" | "t = APC_TIME_MAP" | "t = APC_CONNECT"
    | "t \<notin> {APC_NET_TX, APC_NET_TXDONE, APC_TIME_MAP, APC_CONNECT}" by auto
  then show ?thesis
  proof cases
    case 1
    then have "12 \<le> length p" using assms by (simp add: convert_def bufferCast_p_def wire_simps split: if_splits)
    then show ?thesis using 1 by (simp add: convert_def bufferCast_p_def wire_simps conv_sort conv_cancel)
  next
    case 2
    then have "3 \<le> length p"
      using assms by (simp add: convert_def bufferCast_p_def wire_simps apc_const_defs split: if_splits)
    then show ?thesis using 2
      by (simp add: convert_def bufferCast_p_def wire_simps apc_const_defs conv_cancel)
  next
    case 3
    then have "22 \<le> length p"
      using assms by (simp add: convert_def bufferCast_p_def wire_simps apc_const_defs split: if_splits)
    then show ?thesis using 3
      by (simp add: convert_def bufferCast_p_def wire_simps apc_const_defs conv_sort conv_cancel)
  next
    case 4
    then have "126 \<le> length p"
      using assms by (simp add: convert_def bufferCast_p_def wire_simps apc_const_defs split: if_splits)
    then show ?thesis using 4
      by (simp add: convert_def bufferCast_p_def wire_simps apc_const_defs conv_sort conv_cancel)
  next
    case 5
    then show ?thesis by (simp add: convert_def)
  qed
qed

lemma length_hdr_bytes [simp]: "length (hdr_bytes h) = sizeof_apc_hdr_s"
  by (simp add: hdr_bytes_def wire_simps)

lemma read_hdr_bytes: "read_hdr (hdr_bytes h @ rest) = h"
  by (simp add: read_hdr_def hdr_bytes_def bytes_at_def nth_append)

lemma bytes_at_take: "off + k \<le> n \<Longrightarrow> bytes_at off k (take n bs) = bytes_at off k bs"
  by (simp add: bytes_at_def drop_take min_def)

lemma read_hdr_take: "sizeof_apc_hdr_s \<le> n \<Longrightarrow> read_hdr (take n bs) = read_hdr bs"
  by (simp add: read_hdr_def bytes_at_take wire_simps)

section \<open>Reassembly byte by byte\<close>

text \<open>
  The specification of the receiver: the bytes of the message under way, and what one more byte does.
\<close>

definition msg_need :: "byte list \<Rightarrow> nat" where
  "msg_need p = sizeof_apc_hdr_s + unat (ntohs (h_length (read_hdr p)))"

definition msg_of :: "byte list \<Rightarrow> byte list \<Rightarrow> rx_msg" where
  "msg_of p payload = \<lparr>rx_type = h_type (read_hdr p), rx_flags = h_flags (read_hdr p),
     rx_mySeq = ntohl (h_mySeq (read_hdr p)), rx_yourSeq = ntohl (h_yourSeq (read_hdr p)),
     rx_payload = payload\<rparr>"

definition finish_msg :: "'h rx_handler \<Rightarrow> byte list \<Rightarrow> 'h \<Rightarrow> byte list \<times> 'h \<times> apc_error_t" where
  "finish_msg handler p h =
     (let (payload, res) = convert NET_TO_HOST (h_type (read_hdr p)) (drop sizeof_apc_hdr_s p)
      in if res = APC_OK then ([], handler h (msg_of p payload)) else ([], h, res))"

definition rx_byte :: "nat \<Rightarrow> 'h rx_handler \<Rightarrow> byte list \<Rightarrow> 'h \<Rightarrow> byte \<Rightarrow> byte list \<times> 'h \<times> apc_error_t" where
  "rx_byte M handler p h b =
     (let p = p @ [b]
      in if length p < sizeof_apc_hdr_s then (p, h, APC_OK)
         else if length p = sizeof_apc_hdr_s \<and> h_cookie (read_hdr p) \<noteq> APC_COOKIE then (p, h, APC_ERR_PROTOCOL)
         else if length p = sizeof_apc_hdr_s \<and> msg_need p > M then (p, h, APC_ERR_SIZE)
         else if length p < msg_need p then (p, h, APC_OK)
         else finish_msg handler p h)"

fun rx_bytes :: "nat \<Rightarrow> 'h rx_handler \<Rightarrow> byte list \<Rightarrow> 'h \<Rightarrow> byte list \<Rightarrow> byte list \<times> 'h \<times> apc_error_t" where
  "rx_bytes M handler p h [] = (p, h, APC_OK)"
| "rx_bytes M handler p h (b # bs) =
     (case rx_byte M handler p h b of (p', h', r) \<Rightarrow>
        if r = APC_OK then rx_bytes M handler p' h' bs else (p', h', r))"

lemma rx_bytes_append:
  "rx_bytes M handler p h (xs @ ys) =
     (case rx_bytes M handler p h xs of (p', h', r) \<Rightarrow>
        if r = APC_OK then rx_bytes M handler p' h' ys else (p', h', r))"
  by (induction xs arbitrary: p h) (auto split: prod.splits)

text \<open>The bytes under way, as a predicate.\<close>

definition under_way :: "nat \<Rightarrow> byte list \<Rightarrow> bool" where
  "under_way M p \<longleftrightarrow> length p < sizeof_apc_hdr_s
     \<or> (h_cookie (read_hdr p) = APC_COOKIE \<and> length p < msg_need p \<and> msg_need p \<le> M)"

lemma read_hdr_append: "sizeof_apc_hdr_s \<le> length p \<Longrightarrow> read_hdr (p @ xs) = read_hdr p"
  using read_hdr_take[of "length p" "p @ xs"] by simp

lemma msg_need_append: "sizeof_apc_hdr_s \<le> length p \<Longrightarrow> msg_need (p @ xs) = msg_need p"
  by (simp add: msg_need_def read_hdr_append)

lemma rx_bytes_header:
  "length p + length xs < sizeof_apc_hdr_s \<Longrightarrow> rx_bytes M handler p h xs = (p @ xs, h, APC_OK)"
  by (induction xs arbitrary: p) (simp_all add: rx_byte_def Let_def)

lemma rx_bytes_payload:
  assumes "sizeof_apc_hdr_s \<le> length p" "length p + length xs < msg_need p"
  shows "rx_bytes M handler p h xs = (p @ xs, h, APC_OK)"
  using assms
proof (induction xs arbitrary: p)
  case (Cons b xs)
  then show ?case by (simp add: rx_byte_def Let_def msg_need_append)
qed simp

lemma rx_bytes_complete:
  assumes "sizeof_apc_hdr_s \<le> length p" "xs \<noteq> []" "length p + length xs = msg_need p"
  shows "rx_bytes M handler p h xs = finish_msg handler (p @ xs) h"
proof -
  obtain ys y where xs: "xs = ys @ [y]" using assms(2) by (metis rev_exhaust)
  then show ?thesis
    using rx_bytes_payload[OF assms(1), of ys M handler h] assms
    by (auto simp: rx_bytes_append rx_byte_def Let_def msg_need_append split: prod.splits)
qed

lemma rx_bytes_header_done:
  assumes "xs \<noteq> []" "length p + length xs = sizeof_apc_hdr_s"
  shows "rx_bytes M handler p h xs =
     (if h_cookie (read_hdr (p @ xs)) \<noteq> APC_COOKIE then (p @ xs, h, APC_ERR_PROTOCOL)
      else if msg_need (p @ xs) > M then (p @ xs, h, APC_ERR_SIZE)
      else if sizeof_apc_hdr_s < msg_need (p @ xs) then (p @ xs, h, APC_OK)
      else finish_msg handler (p @ xs) h)"
proof -
  obtain ys y where xs: "xs = ys @ [y]" using assms(1) by (metis rev_exhaust)
  then show ?thesis
    using rx_bytes_header[of p ys M handler h] assms
    by (auto simp: rx_bytes_append rx_byte_def Let_def split: prod.splits)
qed

section \<open>The buffered receiver implements the byte-wise one\<close>

definition ser_rel :: "nat \<Rightarrow> CAPCSerializer \<Rightarrow> byte list \<Rightarrow> bool" where
  "ser_rel M s p \<longleftrightarrow> length (m_inpBuf s) = M \<and> sizeof_apc_hdr_s \<le> M \<and> M < 2 ^ 64
     \<and> take (m_inpNumReceived s) (m_inpBuf s) = p \<and> m_inpNumReceived s = length p \<and> under_way M p
     \<and> m_inpNumExpected s = (if length p < sizeof_apc_hdr_s then sizeof_apc_hdr_s else msg_need p)"

lemma fillInpBuf_p_spec:
  fixes data :: "byte list"
  assumes "length (m_inpBuf s) = M" "M < 2 ^ 64" "m_inpNumReceived s \<le> m_inpNumExpected s" "m_inpNumExpected s \<le> M"
  defines "k \<equiv> min (m_inpNumExpected s - m_inpNumReceived s) (length data)"
  shows "\<exists>buf. fillInpBuf_p s data = Some (s\<lparr>m_inpBuf := buf, m_inpNumReceived := m_inpNumReceived s + k\<rparr>, k)
     \<and> length buf = M
     \<and> take (m_inpNumReceived s + k) buf = take (m_inpNumReceived s) (m_inpBuf s) @ take k data"
proof -
  have "nat ((int (m_inpNumExpected s) - int (m_inpNumReceived s)) mod 2 ^ 64)
      = m_inpNumExpected s - m_inpNumReceived s"
    using assms(2-4) by (subst mod_pos_pos_trivial) auto
  moreover have "(if length data < m_inpNumExpected s - m_inpNumReceived s then length data
      else m_inpNumExpected s - m_inpNumReceived s) = k"
    by (simp add: k_def min_def)
  ultimately have fill: "fillInpBuf_p s data = (case memcpy_at (m_inpNumReceived s) (take k data) (m_inpBuf s) of
      None \<Rightarrow> None | Some buf \<Rightarrow>
        Some (s\<lparr>m_inpBuf := buf, m_inpNumReceived := m_inpNumReceived s + k\<rparr>, k))"
    by (simp only: fillInpBuf_p_def Let_def)
  have room: "m_inpNumReceived s + length (take k data) \<le> length (m_inpBuf s)"
    using assms(1,3,4) by (simp add: k_def)
  have "length (take k data) = k" by (simp add: k_def)
  then show ?thesis
    using take_overwrite[OF room] length_overwrite[OF room] assms(1)
    by (intro exI[of _ "overwrite (m_inpNumReceived s) (take k data) (m_inpBuf s)"])
      (simp add: fill memcpy_at_Some[OF room])
qed

lemma rx_deliver_done:
  assumes "length (m_inpBuf s) = M" "sizeof_apc_hdr_s \<le> M" "M < 2 ^ 64" "take (m_inpNumReceived s) (m_inpBuf s) = q"
    "m_inpNumReceived s \<le> M" "sizeof_apc_hdr_s \<le> m_inpNumReceived s" "m_inpNumExpected s = m_inpNumReceived s"
  shows "\<exists>s' h' r. rx_deliver handler s h = (s', h', r) \<and> finish_msg handler q h = ([], h', r) \<and> ser_rel M s' []"
proof -
  have hdr: "read_hdr q = read_hdr (m_inpBuf s)"
    using assms(4)[symmetric] assms(6) by (simp add: read_hdr_take)
  have pay: "bytes_at sizeof_apc_hdr_s (m_inpNumReceived s - sizeof_apc_hdr_s) (m_inpBuf s) = drop sizeof_apc_hdr_s q"
    using assms(4)[symmetric] by (simp add: bytes_at_def drop_take)
  have "length q = m_inpNumReceived s" using assms(1,4,5) by auto
  then have "length (fst (convert NET_TO_HOST t (drop sizeof_apc_hdr_s q))) = m_inpNumReceived s - sizeof_apc_hdr_s" for t
    by simp
  then show ?thesis
    using assms(1-3,5-7)
    by (auto simp: rx_deliver_def finish_msg_def msg_of_def hdr pay ser_rel_def under_way_def Let_def case_prod_beta
        simp del: length_convert) (auto simp: wire_simps)
qed

lemma rx_payload_part_spec:
  fixes data :: "byte list"
  assumes "length (m_inpBuf s) = M" "sizeof_apc_hdr_s \<le> M" "M < 2 ^ 64" "take (m_inpNumReceived s) (m_inpBuf s) = q"
    "m_inpNumReceived s = length q" "sizeof_apc_hdr_s \<le> length q" "h_cookie (read_hdr q) = APC_COOKIE"
    "m_inpNumExpected s = msg_need q" "length q \<le> msg_need q" "msg_need q \<le> M"
  defines "k \<equiv> min (msg_need q - length q) (length data)"
  shows "\<exists>s' p' h' r. rx_payload_part handler s h data = Some (s', h', drop k data, r)
     \<and> (p', h', r) = (if length q + k = msg_need q then finish_msg handler (q @ take k data) h
                     else (q @ take k data, h, APC_OK))
     \<and> (r = APC_OK \<longrightarrow> ser_rel M s' p')"
proof -
  have le: "m_inpNumReceived s \<le> m_inpNumExpected s" "m_inpNumExpected s \<le> M"
    "m_inpNumExpected s - m_inpNumReceived s = msg_need q - length q"
    using assms(5,8-10) by simp_all
  obtain buf where buf:
    "fillInpBuf_p s data = Some (s\<lparr>m_inpBuf := buf, m_inpNumReceived := length q + k\<rparr>, k)"
    "length buf = M" "take (length q + k) buf = q @ take k data"
    using fillInpBuf_p_spec[OF assms(1,3) le(1,2), of data] unfolding le(3) k_def[symmetric]
    by (metis assms(4,5))
  define s1 where "s1 = (if m_inpNumExpected s \<noteq> m_inpNumReceived s \<and> data \<noteq> []
     then s\<lparr>m_inpBuf := buf, m_inpNumReceived := length q + k\<rparr> else s)"
  have k0: "k = 0" if "\<not> (m_inpNumExpected s \<noteq> m_inpNumReceived s \<and> data \<noteq> [])"
    using that assms(5,8) by (auto simp: k_def)
  have s1: "length (m_inpBuf s1) = M" "take (m_inpNumReceived s1) (m_inpBuf s1) = q @ take k data"
    "m_inpNumReceived s1 = length q + k" "m_inpNumExpected s1 = msg_need q"
    using buf assms k0 by (auto simp: s1_def)
  have part: "rx_payload_part handler s h data =
      (case rx_deliver handler s1 h of (s, h, res) \<Rightarrow> Some (s, h, drop k data, res))"
    using buf k0 by (simp add: rx_payload_part_def s1_def)
  have klen: "length (take k data) = k" by (simp add: k_def)
  show ?thesis
  proof (cases "length q + k = msg_need q")
    case True
    then show ?thesis
      using rx_deliver_done[of s1 M "q @ take k data" handler h] s1 assms part by auto
  next
    case False
    then have "length q + k < msg_need q" using assms(9) by (simp add: k_def min_def split: if_splits)
    then have "ser_rel M s1 (q @ take k data)"
      using s1 assms klen by (simp add: ser_rel_def under_way_def read_hdr_append msg_need_append)
    moreover have "rx_deliver handler s1 h = (s1, h, APC_OK)"
      using False s1 by (simp add: rx_deliver_def)
    ultimately show ?thesis using False part by auto
  qed
qed

text \<open>The iteration in which the header becomes complete.\<close>

lemma rx_header_then_payload:
  assumes s: "length (m_inpBuf s) = M" "sizeof_apc_hdr_s \<le> M" "M < 2 ^ 64"
      "take (length q) (m_inpBuf s) = q" "m_inpNumReceived s = length q" "m_inpNumExpected s = msg_need q"
    and q: "q = p @ xs" "xs \<noteq> []" "length q = sizeof_apc_hdr_s" "h_cookie (read_hdr q) = APC_COOKIE" "msg_need q \<le> M"
  shows "\<exists>s' p' h' r j. rx_payload_part handler s h data = Some (s', h', drop j data, r) \<and> j \<le> length data
     \<and> rx_bytes M handler p h (xs @ take j data) = (p', h', r) \<and> (r = APC_OK \<longrightarrow> ser_rel M s' p')"
proof -
  define j where "j = min (msg_need q - length q) (length data)"
  have need: "length q \<le> msg_need q" using q(3) by (simp add: msg_need_def)
  obtain s' p' h' r where part: "rx_payload_part handler s h data = Some (s', h', drop j data, r)"
    "(p', h', r) = (if length q + j = msg_need q then finish_msg handler (q @ take j data) h
       else (q @ take j data, h, APC_OK))" "r = APC_OK \<longrightarrow> ser_rel M s' p'"
    using rx_payload_part_spec[of s M q handler h data] s q need unfolding j_def by auto
  have head: "rx_bytes M handler p h xs =
      (if sizeof_apc_hdr_s < msg_need q then (q, h, APC_OK) else finish_msg handler q h)"
    using rx_bytes_header_done[of xs p M handler h] q by simp
  have "rx_bytes M handler p h (xs @ take j data) = (p', h', r)"
  proof (cases "sizeof_apc_hdr_s < msg_need q")
    case False
    then have "j = 0" "length q = msg_need q" using need q(3) by (simp_all add: j_def)
    then show ?thesis using head False part(2) by simp
  next
    case True
    have "rx_bytes M handler q h (take j data) = (p', h', r)"
    proof (cases "length q + j = msg_need q")
      case full: True
      then have "take j data \<noteq> []" "length (take j data) = j" using True q(3) by (auto simp: j_def)
      then show ?thesis using rx_bytes_complete[of q "take j data" M handler h] full part(2) q(3) by simp
    next
      case False
      then have "length q + length (take j data) < msg_need q" using need by (auto simp: j_def)
      then show ?thesis using rx_bytes_payload[of q "take j data" M handler h] False part(2) q(3) by simp
    qed
    then show ?thesis using head True by (simp add: rx_bytes_append)
  qed
  then show ?thesis using part by (intro exI[of _ s'] exI[of _ p'] exI[of _ h'] exI[of _ r] exI[of _ j]) (simp add: j_def)
qed

lemma rx_iteration_spec:
  assumes rel: "ser_rel M s p" and data: "data \<noteq> []"
  shows "\<exists>s' p' h' r k. rx_iteration handler s h data = Some (s', h', drop k data, r) \<and> 0 < k \<and> k \<le> length data
     \<and> rx_bytes M handler p h (take k data) = (p', h', r) \<and> (r = APC_OK \<longrightarrow> ser_rel M s' p')"
proof -
  define k where "k = min (m_inpNumExpected s - length p) (length data)"
  define q where "q = p @ take k data"
  have R: "length (m_inpBuf s) = M" "sizeof_apc_hdr_s \<le> M" "M < 2 ^ 64"
    "take (m_inpNumReceived s) (m_inpBuf s) = p" "m_inpNumReceived s = length p" "under_way M p"
    "m_inpNumExpected s = (if length p < sizeof_apc_hdr_s then sizeof_apc_hdr_s else msg_need p)"
    using rel by (auto simp: ser_rel_def)
  have bounds: "length p < m_inpNumExpected s" "m_inpNumExpected s \<le> M"
    using R by (auto simp: under_way_def)
  have k: "0 < k" "k \<le> length data" "length (take k data) = k"
    using bounds data by (auto simp: k_def)
  obtain buf where buf: "fillInpBuf_p s data = Some (s\<lparr>m_inpBuf := buf, m_inpNumReceived := length q\<rparr>, k)"
    "length buf = M" "take (length q) buf = q"
    using fillInpBuf_p_spec[OF R(1,3), of data] bounds R(4,5) k(3)
    by (auto simp: k_def[symmetric] q_def)
  let ?s = "s\<lparr>m_inpBuf := buf, m_inpNumReceived := length q\<rparr>"
  have hdr: "read_hdr buf = read_hdr q" if "sizeof_apc_hdr_s \<le> length q"
    using that buf(3) read_hdr_take[of "length q" buf] by simp
  consider "length q < sizeof_apc_hdr_s" | "length q = sizeof_apc_hdr_s" | "sizeof_apc_hdr_s < length q" by linarith
  then show ?thesis
  proof cases
    case 1
    then have "length p < sizeof_apc_hdr_s" "drop k data = []"
      using R(7) k(3) by (auto simp: k_def q_def min_def split: if_splits)
    moreover from this have "ser_rel M ?s q"
      using R 1 buf by (simp add: ser_rel_def under_way_def)
    ultimately show ?thesis
      using rx_bytes_header[of p "take k data" M handler h] 1 k R(7)
      by (intro exI[of _ ?s] exI[of _ q] exI[of _ h] exI[of _ APC_OK] exI[of _ k])
        (simp add: rx_iteration_def buf(1) rx_payload_part_def rx_deliver_def q_def)
  next
    case 2
    then have p: "length p < sizeof_apc_hdr_s" and exp: "m_inpNumExpected s = sizeof_apc_hdr_s"
      using R(7) k by (auto simp: q_def)
    let ?s1 = "?s\<lparr>m_inpNumExpected := msg_need q\<rparr>"
    have it: "rx_iteration handler s h data =
        (if h_cookie (read_hdr q) \<noteq> APC_COOKIE then Some (?s1, h, drop k data, APC_ERR_PROTOCOL)
         else if msg_need q > M then Some (?s1, h, drop k data, APC_ERR_SIZE)
         else rx_payload_part handler ?s1 h (drop k data))"
      using 2 hdr buf exp by (simp add: rx_iteration_def msg_need_def)
    show ?thesis
    proof (cases "h_cookie (read_hdr q) \<noteq> APC_COOKIE \<or> msg_need q > M")
      case True
      define r where "r = (if h_cookie (read_hdr q) \<noteq> APC_COOKIE then APC_ERR_PROTOCOL else APC_ERR_SIZE)"
      have "rx_bytes M handler p h (take k data) = (q, h, r)" "r \<noteq> APC_OK"
        using k 2 True rx_bytes_header_done[of "take k data" p M handler h] data by (auto simp: q_def r_def)
      moreover have "rx_iteration handler s h data = Some (?s1, h, drop k data, r)"
        using it True by (auto simp: r_def)
      ultimately show ?thesis using k by blast
    next
      case False
      have "take k data \<noteq> []" using k data by auto
      then have "\<exists>s' p' h' r j. rx_payload_part handler ?s1 h (drop k data) = Some (s', h', drop j (drop k data), r)
          \<and> j \<le> length (drop k data) \<and> rx_bytes M handler p h (take k data @ take j (drop k data)) = (p', h', r)
          \<and> (r = APC_OK \<longrightarrow> ser_rel M s' p')"
        using False 2 buf R by (intro rx_header_then_payload[of ?s1 M q p "take k data"]) (simp_all add: q_def)
      then obtain s' p' h' r j where j:
        "rx_payload_part handler ?s1 h (drop k data) = Some (s', h', drop j (drop k data), r)"
        "j \<le> length (drop k data)" "r = APC_OK \<longrightarrow> ser_rel M s' p'"
        "rx_bytes M handler p h (take k data @ take j (drop k data)) = (p', h', r)"
        by blast
      then show ?thesis
        using it False k
        by (intro exI[of _ s'] exI[of _ p'] exI[of _ h'] exI[of _ r] exI[of _ "k + j"])
          (simp add: take_add add.commute[of j k])
    qed
  next
    case 3
    then have p: "sizeof_apc_hdr_s \<le> length p"
      using R(7) k(3) by (auto simp: k_def q_def min_def split: if_splits)
    have need: "msg_need q = msg_need p" "h_cookie (read_hdr q) = APC_COOKIE" "msg_need q \<le> M"
      using p R(6) by (auto simp: q_def msg_need_append read_hdr_append under_way_def)
    have le: "length q \<le> msg_need q" "min (msg_need q - length q) (length (drop k data)) = 0"
      using need(1) R(7) p k(3) bounds by (auto simp: q_def k_def min_def split: if_splits)
    have "\<exists>s' p' h' r. rx_payload_part handler ?s h (drop k data) = Some (s', h', drop 0 (drop k data), r)
        \<and> (p', h', r) = (if length q + 0 = msg_need q then finish_msg handler (q @ take 0 (drop k data)) h
            else (q @ take 0 (drop k data), h, APC_OK)) \<and> (r = APC_OK \<longrightarrow> ser_rel M s' p')"
      using R p 3 buf need le
      by (intro rx_payload_part_spec[of ?s M q handler h "drop k data", unfolded le(2)]) simp_all
    then obtain s' p' h' r where part: "rx_payload_part handler ?s h (drop k data) = Some (s', h', drop k data, r)"
      "(p', h', r) = (if length q = msg_need q then finish_msg handler q h else (q, h, APC_OK))"
      "r = APC_OK \<longrightarrow> ser_rel M s' p'"
      unfolding drop_0 take_0 append_Nil2 add_0_right by blast
    have "rx_bytes M handler p h (take k data) = (p', h', r)"
      using part(2) rx_bytes_complete[OF p, of "take k data"] rx_bytes_payload[OF p, of "take k data"] k need le data
      by (cases "length q = msg_need q") (auto simp: q_def)
    moreover have "rx_iteration handler s h data = Some (s', h', drop k data, r)"
      using part(1) 3 buf(1) by (simp add: rx_iteration_def)
    ultimately show ?thesis using part(3) k(1,2) by blast
  qed
qed

lemma dataReceived_loop_spec:
  assumes "ser_rel M s p" and "length data < fuel"
  shows "\<exists>s' p' h' r. dataReceived_loop fuel handler s h data = Some (s', h', r)
     \<and> rx_bytes M handler p h data = (p', h', r) \<and> (r = APC_OK \<longrightarrow> ser_rel M s' p')"
  using assms
proof (induction fuel arbitrary: s p h data)
  case (Suc fuel)
  show ?case
  proof (cases "data = []")
    case True
    then show ?thesis using Suc.prems(1) by simp
  next
    case False
    obtain s1 p1 h1 r1 k where it: "rx_iteration handler s h data = Some (s1, h1, drop k data, r1)"
      "0 < k" "k \<le> length data" "rx_bytes M handler p h (take k data) = (p1, h1, r1)"
      "r1 = APC_OK \<longrightarrow> ser_rel M s1 p1"
      using rx_iteration_spec[OF Suc.prems(1) False, of handler h] by blast
    have split: "rx_bytes M handler p h data =
        (if r1 = APC_OK then rx_bytes M handler p1 h1 (drop k data) else (p1, h1, r1))"
      using it(4) rx_bytes_append[of M handler p h "take k data" "drop k data"] by simp
    show ?thesis
    proof (cases "r1 = APC_OK")
      case True
      then show ?thesis
        using Suc.IH[of s1 p1 "drop k data" h1] it Suc.prems(2) False split by simp
    next
      case error: False
      then show ?thesis using it False split by simp
    qed
  qed
qed simp

lemma dataReceived_spec:
  assumes "ser_rel M s p"
  shows "\<exists>s' p' h' r. dataReceived handler s h data = Some (s', h', r)
     \<and> rx_bytes M handler p h data = (p', h', r) \<and> (r = APC_OK \<longrightarrow> ser_rel M s' p')"
  unfolding dataReceived_def by (rule dataReceived_loop_spec[OF assms]) simp

text \<open>What every message keeps, receiving keeps.\<close>

lemma rx_bytes_keeps:
  assumes "\<And>h m. Q h \<Longrightarrow> Q (fst (handler h m))" and "Q h"
  shows "Q (fst (snd (rx_bytes M handler p h data)))"
  using assms(2)
proof (induction data arbitrary: p h)
  case (Cons b data)
  have "Q (fst (snd (rx_byte M handler p h b)))"
    using Cons.prems assms(1) by (simp add: rx_byte_def finish_msg_def Let_def case_prod_beta)
  then show ?case using Cons.IH by (auto simp: case_prod_beta)
qed simp

lemma dataReceived_keeps:
  assumes "ser_rel M s p" and "dataReceived handler s h data = Some (s', h', r)"
    and "\<And>h m. Q h \<Longrightarrow> Q (fst (handler h m))" and "Q h"
  shows "Q h'"
  using dataReceived_spec[OF assms(1), of handler h data] assms(2)
    rx_bytes_keeps[of Q handler h M p data, OF assms(3,4)] by auto

lemma prepMsg_total:
  assumes "length msg = maxSize"
    and "case p1 of None \<Rightarrow> s1 = 0 | Some b \<Rightarrow> s1 \<le> length b"
    and "case p2 of None \<Rightarrow> s2 = 0 | Some b \<Rightarrow> s2 \<le> length b"
  shows "\<exists>msg' n res. prepMsg msg maxSize type flags mySeq yourSeq p1 s1 p2 s2 = Some (msg', n, res)"
proof (cases "s1 + s2 + sizeof_apc_hdr_s > maxSize")
  case True
  then show ?thesis using assms by (auto simp: prepMsg_def Let_def split: option.splits)
next
  case False
  have copy: "\<exists>d'. copy_payload off p sz d = Some d' \<and> length d' = length d"
    if "case p of None \<Rightarrow> sz = 0 | Some b \<Rightarrow> sz \<le> length b" "off + sz \<le> length d"
    for off p sz and d :: "byte list"
    using that by (auto simp: copy_payload_def memcpy_at_def split: option.splits)
  let ?hb = "hdr_bytes \<lparr>h_cookie = APC_COOKIE, h_flags = flags, h_mySeq = htonl mySeq,
      h_yourSeq = htonl yourSeq, h_type = type, h_length = htons (word_of_nat (s1 + s2))\<rparr>"
  have m0: "memcpy_at 0 ?hb msg = Some (overwrite 0 ?hb msg)" "length (overwrite 0 ?hb msg) = maxSize"
    using False assms(1) by (simp_all add: memcpy_at_def)
  obtain d1 where d1: "copy_payload sizeof_apc_hdr_s p1 s1 (overwrite 0 ?hb msg) = Some d1" "length d1 = maxSize"
    using copy[OF assms(2), of sizeof_apc_hdr_s "overwrite 0 ?hb msg"] m0(2) False by auto
  obtain d2 where d2: "copy_payload (sizeof_apc_hdr_s + s1) p2 s2 d1 = Some d2"
    using copy[OF assms(3), of "sizeof_apc_hdr_s + s1" d1] d1(2) False by auto
  show ?thesis
    using assms(2,3) False
    by (auto simp: prepMsg_def Let_def m0(1) d1(1) d2 case_prod_beta simp del: of_nat_add split: option.splits)
qed

lemma new_CAPCSerializer_rel:
  "sizeof_apc_hdr_s \<le> M \<Longrightarrow> M < 2 ^ 64 \<Longrightarrow> ser_rel M (new_CAPCSerializer M) []"
  by (simp add: ser_rel_def new_CAPCSerializer_def under_way_def wire_simps)

section \<open>The codec\<close>

text \<open>The bytes of a message on the wire, and the messages that can be sent.\<close>

definition wire_bytes :: "rx_msg \<Rightarrow> byte list" where
  "wire_bytes msg = hdr_bytes \<lparr>h_cookie = APC_COOKIE, h_flags = rx_flags msg, h_mySeq = htonl (rx_mySeq msg),
      h_yourSeq = htonl (rx_yourSeq msg), h_type = rx_type msg,
      h_length = htons (word_of_nat (length (rx_payload msg)))\<rparr>
    @ fst (convert HOST_TO_NET (rx_type msg) (rx_payload msg))"

definition sendable :: "nat \<Rightarrow> rx_msg \<Rightarrow> bool" where
  "sendable M msg \<longleftrightarrow> sizeof_apc_hdr_s + length (rx_payload msg) \<le> M \<and> length (rx_payload msg) < 2 ^ 16
     \<and> snd (convert HOST_TO_NET (rx_type msg) (rx_payload msg)) = APC_OK"

text \<open>What \<^verbatim>\<open>prepMsg\<close> returns when the message fits into the buffer.\<close>

lemma prepMsg_fits:
  assumes len: "length msg = maxSize" and p: "size1 \<le> length b1" "size2 \<le> length b2"
    and fit: "sizeof_apc_hdr_s + size1 + size2 \<le> maxSize" "size1 + size2 < 2 ^ 16"
    and m: "m = \<lparr>rx_type = type, rx_flags = flags, rx_mySeq = mySeq, rx_yourSeq = yourSeq,
      rx_payload = take size1 b1 @ take size2 b2\<rparr>"
  shows "prepMsg msg maxSize type flags mySeq yourSeq (Some b1) size1 (Some b2) size2
      = Some (wire_bytes m @ drop (length (wire_bytes m)) msg, length (wire_bytes m),
              snd (convert HOST_TO_NET type (rx_payload m)))"
proof -
  let ?H = sizeof_apc_hdr_s
  define hb where "hb = hdr_bytes \<lparr>h_cookie = APC_COOKIE, h_flags = flags, h_mySeq = htonl mySeq,
      h_yourSeq = htonl yourSeq, h_type = type, h_length = htons (word_of_nat (size1 + size2))\<rparr>"
  define a1 a2 where "a1 = take size1 b1" "a2 = take size2 b2"
  have ln: "length hb = ?H" "length a1 = size1" "length a2 = size2"
    using p by (simp_all add: hb_def a1_a2_def)
  define full where "full = hb @ a1 @ a2 @ drop (?H + size1 + size2) msg"
  have copies: "memcpy_at 0 hb msg = Some (hb @ drop ?H msg)"
    "copy_payload ?H (Some b1) size1 (hb @ drop ?H msg) = Some (hb @ a1 @ drop (?H + size1) msg)"
    "copy_payload (?H + size1) (Some b2) size2 (hb @ a1 @ drop (?H + size1) msg) = Some full"
    using ln fit len p
    by (auto simp: memcpy_at_def copy_payload_def overwrite_def a1_a2_def full_def ac_simps)
  have pay: "bytes_at ?H (size1 + size2) full = a1 @ a2"
    using ln by (simp add: bytes_at_def full_def)
  obtain c r where conv: "convert HOST_TO_NET type (a1 @ a2) = (c, r)" by fastforce
  have c: "length c = size1 + size2"
    using length_convert[of HOST_TO_NET type "a1 @ a2"] ln by (simp add: conv)
  have wire: "wire_bytes m = hb @ c"
    using ln conv p by (simp add: wire_bytes_def m hb_def a1_a2_def)
  have "prepMsg msg maxSize type flags mySeq yourSeq (Some b1) size1 (Some b2) size2
      = Some (overwrite ?H c full, ?H + size1 + size2, r)"
    using copies pay conv fit len by (simp add: prepMsg_def Let_def hb_def[symmetric] ac_simps del: of_nat_add)
  moreover have "overwrite ?H c full = hb @ c @ drop (?H + size1 + size2) msg"
    using ln c fit len by (simp add: overwrite_def full_def)
  ultimately show ?thesis
    using wire ln c conv by (simp add: m a1_a2_def add.assoc)
qed

lemma prepMsg_wire:
  assumes "length msg = maxSize" and p: "size1 \<le> length b1" "size2 \<le> length b2"
    and ok: "sendable maxSize m"
    and m: "m = \<lparr>rx_type = type, rx_flags = flags, rx_mySeq = mySeq, rx_yourSeq = yourSeq,
      rx_payload = take size1 b1 @ take size2 b2\<rparr>"
  shows "\<exists>msg'. prepMsg msg maxSize type flags mySeq yourSeq (Some b1) size1 (Some b2) size2
       = Some (msg', length (wire_bytes m), APC_OK)
     \<and> length msg' = maxSize \<and> take (length (wire_bytes m)) msg' = wire_bytes m"
proof -
  have fit: "sizeof_apc_hdr_s + size1 + size2 \<le> maxSize" "size1 + size2 < 2 ^ 16"
    and c: "snd (convert HOST_TO_NET type (rx_payload m)) = APC_OK"
    using ok p by (simp_all add: sendable_def m)
  moreover have "length (wire_bytes m) = sizeof_apc_hdr_s + size1 + size2"
    using p by (simp add: wire_bytes_def m)
  ultimately show ?thesis using prepMsg_fits[OF assms(1) p fit m] assms(1) by simp
qed

text \<open>The messages that cannot be sent are refused.\<close>

lemma prepMsg_ok_sendable:
  assumes "length msg = maxSize" and p: "size1 \<le> length b1" "size2 \<le> length b2" and "size1 + size2 < 2 ^ 16"
    and m: "m = \<lparr>rx_type = type, rx_flags = flags, rx_mySeq = mySeq, rx_yourSeq = yourSeq,
      rx_payload = take size1 b1 @ take size2 b2\<rparr>"
    and "prepMsg msg maxSize type flags mySeq yourSeq (Some b1) size1 (Some b2) size2 = Some (msg', n, APC_OK)"
  shows "sendable maxSize m" and "take n msg' = wire_bytes m"
proof -
  have fit: "sizeof_apc_hdr_s + size1 + size2 \<le> maxSize"
    using assms(6) by (auto simp: prepMsg_def Let_def split: if_splits)
  note eq = prepMsg_fits[OF assms(1) p fit assms(4) m]
  show "sendable maxSize m" using eq assms(6) fit p assms(4) by (simp add: sendable_def m)
  show "take n msg' = wire_bytes m" using eq assms(6) by auto
qed

lemma rx_msg_eta:
  "\<lparr>rx_type = rx_type m, rx_flags = rx_flags m, rx_mySeq = rx_mySeq m, rx_yourSeq = rx_yourSeq m,
    rx_payload = rx_payload m\<rparr> = m"
  by (cases m) simp

lemma rx_wire:
  assumes "sendable M m"
  shows "rx_bytes M handler [] h (wire_bytes m) = ([], handler h m)"
proof -
  define hd where "hd = \<lparr>h_cookie = APC_COOKIE, h_flags = rx_flags m, h_mySeq = htonl (rx_mySeq m),
      h_yourSeq = htonl (rx_yourSeq m), h_type = rx_type m,
      h_length = htons (word_of_nat (length (rx_payload m)))\<rparr>"
  define c where "c = fst (convert HOST_TO_NET (rx_type m) (rx_payload m))"
  have w: "wire_bytes m = hdr_bytes hd @ c" by (simp add: wire_bytes_def hd_def c_def)
  have need: "msg_need (hdr_bytes hd @ xs) = sizeof_apc_hdr_s + length c" for xs
    using assms by (simp add: msg_need_def read_hdr_bytes hd_def ntohs_def unat_of_nat sendable_def c_def)
  note need0 = need[of "[]", simplified]
  have ok: "h_cookie (read_hdr (hdr_bytes hd)) = APC_COOKIE" "sizeof_apc_hdr_s + length c \<le> M"
    using assms read_hdr_bytes[of hd "[]"] by (simp_all add: hd_def sendable_def c_def)
  have fin: "finish_msg handler (hdr_bytes hd @ c) h = ([], handler h m)"
  proof -
    have "convert NET_TO_HOST (rx_type m) c = (rx_payload m, APC_OK)"
      using convert_inverse assms by (simp add: sendable_def c_def)
    then show ?thesis
      by (simp add: finish_msg_def msg_of_def read_hdr_bytes ntohl_def) (simp add: hd_def msg_of_def read_hdr_bytes ntohl_def rx_msg_eta)
  qed
  have nonempty: "hdr_bytes hd \<noteq> []" by (simp add: hdr_bytes_def)
  show ?thesis
  proof (cases "c = []")
    case True
    then show ?thesis
      using rx_bytes_header_done[of "hdr_bytes hd" "[]" M handler h] nonempty ok need0 fin w by simp
  next
    case False
    then have "rx_bytes M handler [] h (hdr_bytes hd) = (hdr_bytes hd, h, APC_OK)"
      using rx_bytes_header_done[of "hdr_bytes hd" "[]" M handler h] nonempty ok need0 by simp
    moreover have "rx_bytes M handler (hdr_bytes hd) h c = ([], handler h m)"
      using rx_bytes_complete[of "hdr_bytes hd" c M handler h] False need0 fin by simp
    ultimately show ?thesis by (simp add: w rx_bytes_append)
  qed
qed

text \<open>The decoder as a codec: a step is one received byte, an output is a message handed to the receiver.\<close>

definition rx_step :: "nat \<Rightarrow> byte list \<Rightarrow> byte \<Rightarrow> byte list \<times> rx_msg list" where
  "rx_step M p b = (case rx_byte M (\<lambda>ms m. (ms @ [m], APC_OK)) p [] b of (p', ms, r) \<Rightarrow> (p', ms))"

abbreviation collect :: "rx_msg list rx_handler" where
  "collect \<equiv> \<lambda>ms m. (ms @ [m], APC_OK)"

lemma rx_byte_collect: "rx_byte M collect p ms b = (case rx_byte M collect p [] b of (p', ns, r) \<Rightarrow> (p', ms @ ns, r))"
  by (simp add: rx_byte_def finish_msg_def Let_def case_prod_beta)

lemma rx_bytes_run:
  assumes "rx_bytes M collect p ms bs = (p', ms', APC_OK)"
  shows "run (rx_step M) p bs = (p', drop (length ms) ms') \<and> take (length ms) ms' = ms"
  using assms
proof (induction bs arbitrary: p ms)
  case Nil
  then show ?case by (simp add: run.simps)
next
  case (Cons b bs)
  obtain q ns r where b: "rx_byte M collect p [] b = (q, ns, r)" by (metis prod_cases3)
  then have "rx_byte M collect p ms b = (q, ms @ ns, r)" using rx_byte_collect[of M p ms b] by simp
  then have rest: "rx_bytes M collect q (ms @ ns) bs = (p', ms', APC_OK)"
    using Cons.prems by (auto split: if_splits)
  note IH = Cons.IH[OF rest]
  then have "ms' = (ms @ ns) @ drop (length (ms @ ns)) ms'" by (metis append_take_drop_id)
  then have "drop (length ms) ms' = ns @ drop (length (ms @ ns)) ms'" "take (length ms) ms' = ms"
    by (metis append.assoc append_eq_conv_conj)+
  then show ?case using IH b by (simp add: run.simps rx_step_def)
qed

interpretation apc_codec: frame_codec "rx_step M" wire_bytes "\<lambda>p. p = []" "sendable M" for M
proof
  fix s :: "byte list" and m assume "s = []" "sendable M m"
  then have "run (rx_step M) s (wire_bytes m) = ([], [m])"
    using rx_bytes_run[of M "[]" "[]" "wire_bytes m" "[]" "[m]"] rx_wire[of M m collect "[]"] by simp
  then show "snd (run (rx_step M) s (wire_bytes m)) = [m]" "fst (run (rx_step M) s (wire_bytes m)) = []"
    by simp_all
qed

section \<open>Properties of the serializer\<close>

text \<open>A connection delivers its bytes in chunks of any size; an error ends it.\<close>

fun rx_chunks ::
  "'h rx_handler \<Rightarrow> CAPCSerializer \<Rightarrow> 'h \<Rightarrow> byte list list \<Rightarrow> (CAPCSerializer \<times> 'h \<times> apc_error_t) option" where
  "rx_chunks handler s h [] = Some (s, h, APC_OK)"
| "rx_chunks handler s h (c # cs) =
     (case dataReceived handler s h c of None \<Rightarrow> None
      | Some (s', h', r) \<Rightarrow> if r = APC_OK then rx_chunks handler s' h' cs else Some (s', h', r))"

lemma rx_chunks_spec:
  "ser_rel M s p \<Longrightarrow> \<exists>s' p' h' r. rx_chunks handler s h cs = Some (s', h', r)
     \<and> rx_bytes M handler p h (concat cs) = (p', h', r) \<and> (r = APC_OK \<longrightarrow> ser_rel M s' p')"
proof (induction cs arbitrary: s p h)
  case (Cons c cs)
  obtain s1 p1 h1 r1 where c: "dataReceived handler s h c = Some (s1, h1, r1)"
    "rx_bytes M handler p h c = (p1, h1, r1)" "r1 = APC_OK \<longrightarrow> ser_rel M s1 p1"
    using dataReceived_spec[OF Cons.prems, of handler h c] by blast
  show ?case
  proof (cases "r1 = APC_OK")
    case True
    then show ?thesis using c Cons.IH[of s1 p1 h1] by (simp add: rx_bytes_append)
  next
    case False
    then show ?thesis using c by (simp add: rx_bytes_append)
  qed
qed simp

lemma rx_wire_stream:
  "list_all (sendable M) ms \<Longrightarrow> rx_bytes M collect [] acc (concat (map wire_bytes ms)) = ([], acc @ ms, APC_OK)"
  by (induction ms arbitrary: acc) (simp_all add: rx_bytes_append rx_wire)

text \<open>
  Claim C6. Messages of the manager protocol survive the connection: the wire images of any sequence of
  messages that fit the buffers, cut into chunks in any way, are handed to
  the receiver in order, with type, flags, sequence numbers and payload restored to host byte order.
  The receive loop always ends and never writes outside its buffer.
\<close>

theorem apc_stream_roundtrip:
  assumes "list_all (sendable M) ms" and "concat chunks = concat (map wire_bytes ms)"
    and "sizeof_apc_hdr_s \<le> M" and "M < 2 ^ 64"
  shows "\<exists>s'. rx_chunks (\<lambda>got m. (got @ [m], APC_OK)) (new_CAPCSerializer M) [] chunks = Some (s', ms, APC_OK)"
  using rx_chunks_spec[OF new_CAPCSerializer_rel[OF assms(3,4)], of collect "[]" chunks]
    rx_wire_stream[OF assms(1), of "[]"] assms(2) by auto

theorem apc_stream_roundtrip_witness:
  "\<exists>s'. rx_chunks (\<lambda>got m. (got @ [m], APC_OK)) (new_CAPCSerializer 64) []
     [take 3 (wire_bytes \<lparr>rx_type = 5, rx_flags = 0, rx_mySeq = 7, rx_yourSeq = 1, rx_payload = [1, 2, 3]\<rparr>),
      drop 3 (wire_bytes \<lparr>rx_type = 5, rx_flags = 0, rx_mySeq = 7, rx_yourSeq = 1, rx_payload = [1, 2, 3]\<rparr>)]
     = Some (s', [\<lparr>rx_type = 5, rx_flags = 0, rx_mySeq = 7, rx_yourSeq = 1, rx_payload = [1, 2, 3]\<rparr>], APC_OK)"
  by (rule apc_stream_roundtrip)
    (simp_all add: sendable_def convert_def bufferCast_p_def apc_const_defs wire_simps)

text \<open>
  Reassembly does not depend on how TCP cuts the stream: for every receiver, feeding the bytes
  in chunks gives the result of feeding them one at a time, the errors of the
  receiver and of the header checks included, and no chunk makes the code leave its buffer or loop.
\<close>

lemma apc_chunking_irrelevant:
  assumes "concat chunks = concat chunks'" and "sizeof_apc_hdr_s \<le> M" and "M < 2 ^ 64"
  shows "\<exists>s s' h' r. rx_chunks handler (new_CAPCSerializer M) h chunks = Some (s, h', r)
     \<and> rx_chunks handler (new_CAPCSerializer M) h chunks' = Some (s', h', r)"
  using rx_chunks_spec[OF new_CAPCSerializer_rel[OF assms(2,3)], of handler h chunks]
    rx_chunks_spec[OF new_CAPCSerializer_rel[OF assms(2,3)], of handler h chunks'] assms(1) by auto

lemma apc_chunking_irrelevant_example:
  "\<exists>s s' h' r. rx_chunks (\<lambda>got m. (got @ [m], APC_ERR_STATE)) (new_CAPCSerializer 64) [] [[0x7E, 0x7E], [], [1]] = Some (s, h', r)
     \<and> rx_chunks (\<lambda>got m. (got @ [m], APC_ERR_STATE)) (new_CAPCSerializer 64) [] [[0x7E], [0x7E, 1]] = Some (s', h', r)"
  by (rule apc_chunking_irrelevant) (simp_all add: wire_simps)

text \<open>
  \<^verbatim>\<open>prepMsg\<close> writes the wire image of the message whose payload is the two parts one after the
  other at the start of the buffer, stays inside the buffer and returns its size.
\<close>

lemma prepMsg_writes_wire:
  assumes "length msg = maxSize" and "size1 \<le> length b1" and "size2 \<le> length b2"
    and "sendable maxSize \<lparr>rx_type = type, rx_flags = flags, rx_mySeq = mySeq, rx_yourSeq = yourSeq,
      rx_payload = take size1 b1 @ take size2 b2\<rparr>"
  shows "\<exists>msg'. prepMsg msg maxSize type flags mySeq yourSeq (Some b1) size1 (Some b2) size2
       = Some (msg', sizeof_apc_hdr_s + size1 + size2, APC_OK)
     \<and> length msg' = maxSize
     \<and> take (sizeof_apc_hdr_s + size1 + size2) msg' = wire_bytes \<lparr>rx_type = type, rx_flags = flags,
         rx_mySeq = mySeq, rx_yourSeq = yourSeq, rx_payload = take size1 b1 @ take size2 b2\<rparr>"
proof -
  have "length (wire_bytes \<lparr>rx_type = type, rx_flags = flags, rx_mySeq = mySeq, rx_yourSeq = yourSeq,
      rx_payload = take size1 b1 @ take size2 b2\<rparr>) = sizeof_apc_hdr_s + size1 + size2"
    using assms(2,3) by (simp add: wire_bytes_def)
  then show ?thesis using prepMsg_wire[OF assms refl] by simp
qed

lemma prepMsg_writes_wire_example:
  "\<exists>msg'. prepMsg (replicate 64 0) 64 4 0 1 2 (Some [8, 9]) 2 (Some []) 0 = Some (msg', 18, APC_OK)
     \<and> take 18 msg' = wire_bytes \<lparr>rx_type = 4, rx_flags = 0, rx_mySeq = 1, rx_yourSeq = 2, rx_payload = [8, 9]\<rparr>"
  using prepMsg_writes_wire[of "replicate 64 0" 64 2 "[8, 9]" 0 "[]" 4 0 1 2]
  by (auto simp: sendable_def convert_def apc_const_defs wire_simps)

end
