(* ===== verification/Stat_Delays.thy ===== *)
theory Stat_Delays
  imports APB_Prelude
begin

text \<open>
  Delay statistics (\<^verbatim>\<open>common/StatDelays.h\<close>, \<^verbatim>\<open>common/StatDelaysCalc.h\<close>, \<^verbatim>\<open>common/StatDelaysCalc.cpp\<close>):
  events counted per delay threshold.  Durations are microseconds, counters are 64-bit.
\<close>

section \<open>State and operations\<close>

record numthevent_s =
  m_threshold :: int
  m_number :: u64

record statdelays_s =
  m_numThresholdEvents :: "numthevent_s list"
  m_numOutThresholdEvents :: numthevent_s
  m_numEvents :: u64
  sd_maxDelay :: int

record CStatDelaysCalc =
  m_maxDelay :: int
  m_thresholds :: "numthevent_s list"
  m_numOutThresholds :: numthevent_s
  m_allEvents :: u64

definition DEFAULT_THRESHOLDS :: "int list" where
  "DEFAULT_THRESHOLDS = [5000, 7000, 10000, 50000]"

definition stat_clear :: "CStatDelaysCalc \<Rightarrow> CStatDelaysCalc" where
  "stat_clear s = s\<lparr>m_maxDelay := 0, m_allEvents := 0,
     m_numOutThresholds := (m_numOutThresholds s)\<lparr>m_number := 0\<rparr>,
     m_thresholds := map (\<lambda>e. e\<lparr>m_number := 0\<rparr>) (m_thresholds s)\<rparr>"

text \<open>\<^verbatim>\<open>delays.back()\<close> of an empty vector is outside the language; the callers pass the defaults.\<close>

definition setThresholds :: "CStatDelaysCalc \<Rightarrow> int list \<Rightarrow> CStatDelaysCalc option" where
  "setThresholds s delays =
     (if delays = [] then None
      else Some (s\<lparr>m_thresholds := map (\<lambda>d. \<lparr>m_threshold = d, m_number = 0\<rparr>) delays,
                   m_numOutThresholds := \<lparr>m_threshold = last delays, m_number = 0\<rparr>\<rparr>))"

definition new_CStatDelaysCalc :: CStatDelaysCalc where
  "new_CStatDelaysCalc =
     the (setThresholds (stat_clear \<lparr>m_maxDelay = 0, m_thresholds = [],
       m_numOutThresholds = \<lparr>m_threshold = 0, m_number = 0\<rparr>, m_allEvents = 0\<rparr>) DEFAULT_THRESHOLDS)"

definition getStat :: "CStatDelaysCalc \<Rightarrow> statdelays_s" where
  "getStat s = \<lparr>m_numThresholdEvents = m_thresholds s, m_numOutThresholdEvents = m_numOutThresholds s,
     m_numEvents = m_allEvents s, sd_maxDelay = m_maxDelay s\<rparr>"

definition getNumEvents :: "CStatDelaysCalc \<Rightarrow> u64" where
  "getNumEvents s = m_allEvents s"

text \<open>The loop over the thresholds; the flag is \<^verbatim>\<open>isAdded\<close>.\<close>

fun add_to_threshold :: "int \<Rightarrow> numthevent_s list \<Rightarrow> numthevent_s list \<times> bool" where
  "add_to_threshold delay [] = ([], False)"
| "add_to_threshold delay (i # is) =
     (if delay \<le> m_threshold i then (i\<lparr>m_number := m_number i + 1\<rparr> # is, True)
      else case add_to_threshold delay is of (is', isAdded) \<Rightarrow> (i # is', isAdded))"

definition addEvent :: "CStatDelaysCalc \<Rightarrow> int \<Rightarrow> CStatDelaysCalc" where
  "addEvent s delay =
     (let (ts, isAdded) = add_to_threshold delay (m_thresholds s);
          s = s\<lparr>m_thresholds := ts\<rparr>;
          s = (if \<not> isAdded
               then s\<lparr>m_numOutThresholds := (m_numOutThresholds s)\<lparr>m_number := m_number (m_numOutThresholds s) + 1\<rparr>\<rparr>
               else s);
          s = (if delay > m_maxDelay s then s\<lparr>m_maxDelay := delay\<rparr> else s)
      in s\<lparr>m_allEvents := m_allEvents s + 1\<rparr>)"

section \<open>Properties\<close>

text \<open>Number of events with a delay in the half-open interval below each threshold.\<close>

fun bucket_counts :: "int list \<Rightarrow> int list \<Rightarrow> nat list" where
  "bucket_counts [] delays = [length delays]"
| "bucket_counts (t # ts) delays =
     length (filter (\<lambda>d. d \<le> t) delays) # bucket_counts ts (filter (\<lambda>d. \<not> d \<le> t) delays)"

definition stat_counts :: "CStatDelaysCalc \<Rightarrow> u64 list" where
  "stat_counts s = map m_number (m_thresholds s) @ [m_number (m_numOutThresholds s)]"

lemma add_to_threshold_thresholds:
  "map m_threshold (fst (add_to_threshold d ts)) = map m_threshold ts"
  by (induction ts) (auto split: prod.splits)

lemma addEvent_thresholds: "map m_threshold (m_thresholds (addEvent s d)) = map m_threshold (m_thresholds s)"
  using add_to_threshold_thresholds[of d "m_thresholds s"]
  by (simp add: addEvent_def Let_def case_prod_beta)

lemma bucket_counts_snoc:
  assumes "map word_of_nat (bucket_counts (map m_threshold ts) ds) = map m_number ts @ [out]"
  shows "map word_of_nat (bucket_counts (map m_threshold ts) (ds @ [d])) =
    (let (ts', added) = add_to_threshold d ts
     in map m_number ts' @ [if added then out else out + (1 :: u64)])"
  using assms
proof (induction ts arbitrary: ds)
  case Nil
  then show ?case by (simp add: add.commute)
next
  case (Cons t ts)
  then show ?case
    using Cons.IH[of "filter (\<lambda>x. \<not> x \<le> m_threshold t) ds"]
    by (auto simp: Let_def add.commute split: prod.splits)
qed

lemma addEvent_counts:
  assumes "map word_of_nat (bucket_counts (map m_threshold (m_thresholds s)) ds) = stat_counts s"
  shows "map word_of_nat (bucket_counts (map m_threshold (m_thresholds (addEvent s d))) (ds @ [d]))
    = stat_counts (addEvent s d)"
  using bucket_counts_snoc[OF assms[unfolded stat_counts_def], of d]
  unfolding addEvent_thresholds
  by (auto simp: stat_counts_def addEvent_def Let_def split: prod.splits)

lemma new_stat_simps [simp]:
  "map m_threshold (m_thresholds new_CStatDelaysCalc) = DEFAULT_THRESHOLDS"
  "stat_counts new_CStatDelaysCalc = [0, 0, 0, 0, 0]" "m_maxDelay new_CStatDelaysCalc = 0"
  "m_allEvents new_CStatDelaysCalc = 0"
  by (simp_all add: new_CStatDelaysCalc_def setThresholds_def stat_clear_def DEFAULT_THRESHOLDS_def stat_counts_def)

lemma foldl_addEvent_thresholds:
  "map m_threshold (m_thresholds (foldl addEvent s ds)) = map m_threshold (m_thresholds s)"
  by (induction ds arbitrary: s) (simp_all add: addEvent_thresholds)

text \<open>
  After any sequence of events each counter holds (modulo 2^64) the number of events whose
  delay is at most its threshold and above the earlier ones, the last counter those beyond all
  thresholds, the total is the number of events, and the maximum is the largest delay (at least 0).
\<close>

lemma stat_delays_counts:
  "stat_counts (foldl addEvent new_CStatDelaysCalc ds) = map word_of_nat (bucket_counts DEFAULT_THRESHOLDS ds)
   \<and> getNumEvents (foldl addEvent new_CStatDelaysCalc ds) = word_of_nat (length ds)
   \<and> m_maxDelay (foldl addEvent new_CStatDelaysCalc ds) = Max (set (0 # ds))"
proof (induction ds rule: rev_induct)
  case Nil
  then show ?case by (simp add: DEFAULT_THRESHOLDS_def getNumEvents_def)
next
  case (snoc d ds)
  let ?s = "foldl addEvent new_CStatDelaysCalc ds"
  have th: "map m_threshold (m_thresholds ?s) = DEFAULT_THRESHOLDS"
    by (simp add: foldl_addEvent_thresholds)
  have "stat_counts (addEvent ?s d) = map word_of_nat (bucket_counts DEFAULT_THRESHOLDS (ds @ [d]))"
    using addEvent_counts[of ?s ds d] snoc th by (simp add: addEvent_thresholds)
  moreover have "m_maxDelay (addEvent ?s d) = max (m_maxDelay ?s) d"
    by (auto simp: addEvent_def Let_def max_def split: prod.splits)
  moreover have "m_allEvents (addEvent ?s d) = m_allEvents ?s + 1"
    by (simp add: addEvent_def Let_def case_prod_beta)
  moreover have "Max (set (0 # ds @ [d])) = max (Max (set (0 # ds))) d"
  proof -
    have "set (0 # ds @ [d]) = insert d (set (0 # ds))" by auto
    then show ?thesis by (simp only: List.finite_set Max_insert list.set_intros) (simp add: max.commute)
  qed
  ultimately show ?case using snoc by (simp add: getNumEvents_def add.commute)
qed

end
