(* ===== verification/APC_Connector.thy ===== *)
theory APC_Connector
  imports APC_Serializer Stat_Delays
begin

text \<open>
  One TCP connection to the manager (\<^verbatim>\<open>APCConnector.h\<close>, \<^verbatim>\<open>APCConnector.cpp\<close>): keep-alive timers, the ring of
  output buffers, sending, receiving, start and stop.

  Every operation is a function of the connector, of its environment for that call (clock readings,
  whether an asynchronous operation could be started, what other threads do while it waits for
  a buffer) and of its arguments; it returns the new connector, the result and the calls made on the socket
  and on the notification interface, in order.  The socket keeps the list of writes
  handed to it and not yet completed, by buffer index; it completes them in order.
  Logging is left out.  Times are microseconds of the steady clock.
\<close>

section \<open>Keep-alive timer\<close>

record CAPCKATimer =
  ka_isWorking :: bool
  ka_hasCbFun :: bool
  ka_timeoutMsec :: u32
  ka_timeLastActivity :: nat
  ka_waiting :: bool

definition createKATimer :: "u32 \<Rightarrow> CAPCKATimer" where
  "createKATimer timeoutMsec = \<lparr>ka_isWorking = False, ka_hasCbFun = False, ka_timeoutMsec = timeoutMsec,
     ka_timeLastActivity = 0, ka_waiting = False\<rparr>"

text \<open>\<^verbatim>\<open>asyncOk\<close> is false when the asio call throws.\<close>

definition startTimer_p :: "bool \<Rightarrow> CAPCKATimer \<Rightarrow> CAPCKATimer \<times> apc_error_t" where
  "startTimer_p asyncOk t =
     (if asyncOk then (t\<lparr>ka_waiting := True\<rparr>, APC_OK) else (t, APC_ERR_ASYNC_OPERATION))"

definition startTimer :: "nat \<Rightarrow> bool \<Rightarrow> CAPCKATimer \<Rightarrow> CAPCKATimer \<times> apc_error_t" where
  "startTimer now asyncOk t =
     startTimer_p asyncOk (t\<lparr>ka_isWorking := True, ka_hasCbFun := True, ka_timeLastActivity := now\<rparr>)"

definition stopTimer :: "CAPCKATimer \<Rightarrow> CAPCKATimer" where
  "stopTimer t = t\<lparr>ka_isWorking := False, ka_hasCbFun := False, ka_waiting := False\<rparr>"

definition recordActivity :: "nat \<Rightarrow> CAPCKATimer \<Rightarrow> CAPCKATimer" where
  "recordActivity now t = t\<lparr>ka_timeLastActivity := now\<rparr>"

text \<open>The second component is the argument of the callback, when it is called.\<close>

definition handle_timer_p :: "bool \<Rightarrow> bool \<Rightarrow> CAPCKATimer \<Rightarrow> CAPCKATimer \<times> nat option" where
  "handle_timer_p error asyncOk t =
     (if error then (t, None)
      else
        let (t, cb) = (if ka_isWorking t then (fst (startTimer_p asyncOk t), ka_hasCbFun t) else (t, False))
        in (t, if cb then Some (ka_timeLastActivity t) else None))"

section \<open>Connector state\<close>

definition APC_NUM_OUT_BUFS :: u32 where "APC_NUM_OUT_BUFS = 2"
definition APC_NUM_OUT_BUFS_MASK :: u32 where "APC_NUM_OUT_BUFS_MASK = APC_NUM_OUT_BUFS - 1"
definition APC_CONNECTOR_NAME_LENGTH :: nat where "APC_CONNECTOR_NAME_LENGTH = 31"

datatype stopflags_t = STOP_FL_OFFLINE | STOP_FL_DISCONNECT

record init_param_t =
  ip_apcConnect :: "byte list"
  ip_hasNotif :: bool
  ip_kaTimeout :: u32
  ip_freeBufTimeout :: u32
  ip_unconfirmedInpPkt :: u32
  ip_swVersion :: "byte list"

record CAPCConnector =
  c_apcName :: "byte list"
  c_swVersion :: "byte list"
  c_hasNotif :: bool
  c_serializer :: CAPCSerializer
  c_intfId :: ap_intf_id_t
  c_isWorking :: bool
  c_isConnected :: bool
  c_forceDisconnect :: bool
  c_kaTxTimer :: "CAPCKATimer option"
  c_kaRxTimer :: "CAPCKATimer option"
  c_unconfirmedInpPkt :: u32
  c_txTimeout :: nat
  c_rxTimeout :: nat
  c_outbufs :: "byte list list"
  c_numFreeOutBuf :: u32
  c_minNumFreeOutBuf :: u32
  c_lastReceivedSeqNum :: u32
  c_lastReportedSeqNum :: u32
  c_curFreeBufIdx :: u32
  c_sendStat :: CStatDelaysCalc
  c_faultAllocTime :: u32
  c_numRcvPkt :: u32
  c_socketOpen :: bool
  c_inflight :: "nat list"
  c_peerIntfName :: "byte list"

text \<open>Parameters of the notifications; character arrays are their bytes up to the terminator.\<close>

record param_connected_s =
  pc_ver :: byte
  pc_netId :: u32
  pc_apcId :: ap_intf_id_t
  pc_name :: "byte list"
  pc_cmdFlags :: u32
  pc_hdrFlags :: byte
  pc_mySeq :: u32
  pc_yourSeq :: u32
  pc_version :: "byte list"

record param_disconnected_s =
  pd_flags :: stopflags_t
  pd_reason :: apc_stop_reason_t
  pd_maxAllocOutPkt :: u32

record param_received_s =
  pr_apcId :: ap_intf_id_t
  pr_flags :: byte
  pr_mySeq :: u32
  pr_yourSeq :: u32
  pr_type :: apc_msg_type_t

datatype conn_out =
    SockWrite "byte list"
  | SockRead
  | SockClose
  | NotifStarted
  | NotifConnected param_connected_s
  | NotifDisconnected param_disconnected_s
  | NotifReceived param_received_s "byte list"

record conn_env =
  e_now :: nat
  e_end :: nat
  e_wakes :: "((CAPCConnector \<Rightarrow> CAPCConnector) \<times> bool) list"
  e_writeOk :: bool
  e_readOk :: bool
  e_timerOk :: bool

text \<open>The constructor; \<^verbatim>\<open>kaTimeout * 2\<close> is 32-bit arithmetic, milliseconds become microseconds.\<close>

definition new_CAPCConnector :: "init_param_t \<Rightarrow> CAPCConnector" where
  "new_CAPCConnector p =
     (let timer = (if ip_kaTimeout p > 0 then Some (createKATimer (ip_kaTimeout p)) else None) in
      \<lparr>c_apcName = ip_apcConnect p, c_swVersion = ip_swVersion p, c_hasNotif = ip_hasNotif p,
       c_serializer = new_CAPCSerializer APC_MAX_MSG_SIZE, c_intfId = APINTFID_EMPTY, c_isWorking = False,
       c_isConnected = False, c_forceDisconnect = False, c_kaTxTimer = timer, c_kaRxTimer = timer,
       c_unconfirmedInpPkt = ip_unconfirmedInpPkt p,
       c_txTimeout = unat (ip_kaTimeout p div 4) * 1000, c_rxTimeout = unat (ip_kaTimeout p * 2) * 1000,
       c_outbufs = replicate (unat APC_NUM_OUT_BUFS) (replicate APC_MAX_MSG_SIZE 0),
       c_numFreeOutBuf = APC_NUM_OUT_BUFS, c_minNumFreeOutBuf = APC_NUM_OUT_BUFS,
       c_lastReceivedSeqNum = 0, c_lastReportedSeqNum = 0, c_curFreeBufIdx = 0,
       c_sendStat = stat_clear new_CStatDelaysCalc, c_faultAllocTime = 0, c_numRcvPkt = 0,
       c_socketOpen = True, c_inflight = [], c_peerIntfName = []\<rparr>)"

section \<open>Output buffers\<close>

definition incrNumFreeBuf_p :: "CAPCConnector \<Rightarrow> CAPCConnector" where
  "incrNumFreeBuf_p c =
     (if c_numFreeOutBuf c < APC_NUM_OUT_BUFS then c\<lparr>c_numFreeOutBuf := c_numFreeOutBuf c + 1\<rparr> else c)"

definition freeBuf_p :: "CAPCConnector \<Rightarrow> CAPCConnector" where
  "freeBuf_p c = incrNumFreeBuf_p c"

definition returnBuf_p :: "CAPCConnector \<Rightarrow> CAPCConnector" where
  "returnBuf_p c =
     (let c = incrNumFreeBuf_p c;
          c = (if c_curFreeBufIdx c = 0 then c\<lparr>c_curFreeBufIdx := APC_NUM_OUT_BUFS\<rparr> else c)
      in c\<lparr>c_curFreeBufIdx := c_curFreeBufIdx c - 1\<rparr>)"

text \<open>
  The wait loop of \<^verbatim>\<open>getFreeBuf_p\<close>: each wake-up is what other threads did to the connector while
  the lock was released, and whether the waiting time is over.  The unused wake-ups are returned.
\<close>

fun getFreeBuf_wait ::
  "((CAPCConnector \<Rightarrow> CAPCConnector) \<times> bool) list \<Rightarrow> bool \<Rightarrow> CAPCConnector
     \<Rightarrow> CAPCConnector \<times> ((CAPCConnector \<Rightarrow> CAPCConnector) \<times> bool) list" where
  "getFreeBuf_wait [] allow c = (c, [])"
| "getFreeBuf_wait ((f, elapsed) # ws) allow c =
     (if c_numFreeOutBuf c = 0 \<and> (c_isWorking c \<or> allow)
      then if elapsed then (f c, ws) else getFreeBuf_wait ws allow (f c)
      else (c, (f, elapsed) # ws))"

definition getFreeBuf_p ::
  "((CAPCConnector \<Rightarrow> CAPCConnector) \<times> bool) list \<Rightarrow> bool \<Rightarrow> CAPCConnector
     \<Rightarrow> CAPCConnector \<times> ((CAPCConnector \<Rightarrow> CAPCConnector) \<times> bool) list \<times> nat option" where
  "getFreeBuf_p wakes allowIfNotWorking c =
     (let (c, wakes) = getFreeBuf_wait wakes allowIfNotWorking c
      in if c_numFreeOutBuf c = 0 \<or> (\<not> c_isWorking c \<and> \<not> allowIfNotWorking) then (c, wakes, None)
         else
           let pBuf = unat (c_curFreeBufIdx c);
               c = c\<lparr>c_numFreeOutBuf := c_numFreeOutBuf c - 1\<rparr>;
               c = (if c_numFreeOutBuf c < c_minNumFreeOutBuf c
                    then c\<lparr>c_minNumFreeOutBuf := c_numFreeOutBuf c\<rparr> else c);
               c = c\<lparr>c_curFreeBufIdx := (c_curFreeBufIdx c + 1) AND APC_NUM_OUT_BUFS_MASK\<rparr>
           in (c, wakes, Some pBuf))"

section \<open>Sending\<close>

text \<open>\<^const>\<open>None\<close>: a buffer index or a copy outside its array, or a failed assertion.\<close>

definition sendData ::
  "conn_env \<Rightarrow> CAPCConnector \<Rightarrow> apc_msg_type_t \<Rightarrow> byte \<Rightarrow> u32 \<Rightarrow> byte list option \<Rightarrow> u16
     \<Rightarrow> byte list option \<Rightarrow> u16 \<Rightarrow> (CAPCConnector \<times> apc_error_t \<times> conn_out list) option" where
  "sendData e c type flags mySeq payload1 size1 payload2 size2 =
     (if c_isWorking c = False \<or> (\<not> c_isConnected c \<and> (type \<noteq> APC_CONNECT \<and> type \<noteq> APC_KA))
      then Some (c, APC_ERR_NOTCONNECT, [])
      else case getFreeBuf_p (e_wakes e) False c of
        (c, _, None) \<Rightarrow>
          Some (c\<lparr>c_faultAllocTime := word_of_int (int (e_end e) - int (e_now e))\<rparr>, APC_ERR_OUTBUFOVERFLOW, [])
      | (c, _, Some idx) \<Rightarrow>
          if \<not> idx < length (c_outbufs c) then None
          else case prepMsg (c_outbufs c ! idx) APC_MAX_MSG_SIZE type flags mySeq (c_lastReceivedSeqNum c)
                      payload1 (unat size1) payload2 (unat size2) of
            None \<Rightarrow> None
          | Some (buf, msgSize, res) \<Rightarrow>
              let c = c\<lparr>c_outbufs := (c_outbufs c)[idx := buf]\<rparr>
              in if res \<noteq> APC_OK then Some (returnBuf_p c, APC_ERR_PKTSERIALIZATION, [])
                 else if \<not> e_writeOk e then Some (c, APC_ERR_ASYNC_OPERATION, [])
                 else Some (c\<lparr>c_inflight := c_inflight c @ [idx],
                              c_sendStat := addEvent (c_sendStat c) (int (e_end e) - int (e_now e)),
                              c_lastReportedSeqNum := c_lastReceivedSeqNum c\<rparr>,
                            APC_OK, [SockWrite (take msgSize buf)]))"

definition send_ka_p :: "conn_env \<Rightarrow> CAPCConnector \<Rightarrow> (CAPCConnector \<times> apc_error_t \<times> conn_out list) option" where
  "send_ka_p e c = sendData e c APC_KA APC_HDR_FLAGS_NOTRACK 0 None 0 None 0"

text \<open>\<^verbatim>\<open>strncpy(dst, src, n); dst[n - 1] = 0\<close> for a string without embedded terminators.\<close>

definition strncpy_z :: "byte list \<Rightarrow> nat \<Rightarrow> byte list" where
  "strncpy_z src n =
     (let s = take (n - 1) (takeWhile (\<lambda>b. b \<noteq> 0) src) in s @ replicate (n - length s) 0)"

definition connect_msg :: "byte list \<Rightarrow> byte list \<Rightarrow> ap_intf_id_t \<Rightarrow> byte \<Rightarrow> u32 \<Rightarrow> u32 \<Rightarrow> byte list" where
  "connect_msg apcName swVersion intfId gpsState netId flags =
     [APC_PROTO_VER] @ le_bytes 4 flags @ strncpy_z apcName 32 @ le_bytes 4 intfId @ [gpsState]
     @ le_bytes 4 netId @ strncpy_z swVersion SIZE_STR_VER"

definition connect ::
  "conn_env \<Rightarrow> CAPCConnector \<Rightarrow> ap_intf_id_t \<Rightarrow> u32 \<Rightarrow> u32 \<Rightarrow> byte \<Rightarrow> u32 \<Rightarrow> u32
     \<Rightarrow> (CAPCConnector \<times> apc_error_t \<times> conn_out list) option" where
  "connect e c intfId mySeq yourSeq gpsState netId flags =
     (let c = c\<lparr>c_intfId := intfId, c_lastReceivedSeqNum := yourSeq, c_lastReportedSeqNum := yourSeq\<rparr>;
          conMsg = connect_msg (c_apcName c) (c_swVersion c) intfId gpsState netId flags
      in sendData e c APC_CONNECT 0 mySeq (Some conMsg) (word_of_nat sizeof_apc_msg_connect_s) None 0)"

section \<open>Start and stop\<close>

definition async_read_p :: "conn_env \<Rightarrow> apc_error_t \<times> conn_out list" where
  "async_read_p e = (if e_readOk e then (APC_OK, [SockRead]) else (APC_ERR_ASYNC_OPERATION, []))"

definition conn_start :: "conn_env \<Rightarrow> CAPCConnector \<Rightarrow> CAPCConnector \<times> apc_error_t \<times> conn_out list" where
  "conn_start e c =
     (let out = (if c_hasNotif c then [NotifStarted] else []);
          c = c\<lparr>c_isWorking := True\<rparr>;
          (c, res) = (case c_kaRxTimer c of None \<Rightarrow> (c, APC_OK)
                      | Some t \<Rightarrow> let (t, r) = startTimer (e_now e) (e_timerOk e) t in (c\<lparr>c_kaRxTimer := Some t\<rparr>, r))
      in if res \<noteq> APC_OK then (c, res, out)
         else let (res, rd) = async_read_p e in (c, res, out @ rd))"

text \<open>\<^verbatim>\<open>for (ii = 0; ii < APC_NUM_OUT_BUFS && getFreeBuf_p(lock, true) != NULL; ii++);\<close>\<close>

fun wait_all_bufs ::
  "nat \<Rightarrow> ((CAPCConnector \<Rightarrow> CAPCConnector) \<times> bool) list \<Rightarrow> CAPCConnector \<Rightarrow> CAPCConnector" where
  "wait_all_bufs 0 wakes c = c"
| "wait_all_bufs (Suc n) wakes c =
     (case getFreeBuf_p wakes True c of
        (c, wakes, None) \<Rightarrow> c
      | (c, wakes, Some _) \<Rightarrow> wait_all_bufs n wakes c)"

definition conn_stop ::
  "conn_env \<Rightarrow> CAPCConnector \<Rightarrow> apc_stop_reason_t \<Rightarrow> apc_error_t \<Rightarrow> stopflags_t \<Rightarrow> bool \<Rightarrow> bool
     \<Rightarrow> CAPCConnector \<times> conn_out list" where
  "conn_stop e c reason err stopFlags isFinishWriting isSendNotif =
     (if c_isWorking c = False then (c, [])
      else
        let c = c\<lparr>c_isWorking := False\<rparr>;
            c = (if isFinishWriting then wait_all_bufs (unat APC_NUM_OUT_BUFS) (e_wakes e) c else c);
            c = c\<lparr>c_kaTxTimer := None, c_kaRxTimer := None\<rparr>;
            closed = (if c_socketOpen c then [SockClose] else []);
            c = c\<lparr>c_socketOpen := False, c_isConnected := False\<rparr>
        in if isSendNotif \<and> c_hasNotif c then
             let stopFlags = (if c_forceDisconnect c then STOP_FL_DISCONNECT else stopFlags)
             in (c, closed @ [NotifDisconnected \<lparr>pd_flags = stopFlags, pd_reason = reason,
                   pd_maxAllocOutPkt = APC_NUM_OUT_BUFS - c_minNumFreeOutBuf c\<rparr>])
           else (c, closed))"

definition disconnect :: "conn_env \<Rightarrow> conn_env \<Rightarrow> CAPCConnector \<Rightarrow> (CAPCConnector \<times> conn_out list) option" where
  "disconnect e e' c =
     (let c = c\<lparr>c_forceDisconnect := True\<rparr>
      in case sendData e c APC_DISCONNECT APC_HDR_FLAGS_NOTRACK 0 None 0 None 0 of None \<Rightarrow> None
         | Some (c, _, out) \<Rightarrow>
             (case conn_stop e' c APC_STOP_CLOSE APC_OK STOP_FL_DISCONNECT True True of
                (c, out') \<Rightarrow> Some (c, out @ out')))"

section \<open>Timer and write callbacks\<close>

definition ka_timeout_rx_p :: "conn_env \<Rightarrow> CAPCConnector \<Rightarrow> nat \<Rightarrow> CAPCConnector \<times> bool \<times> conn_out list" where
  "ka_timeout_rx_p e c lastAction =
     (if int (e_now e) - int lastAction \<ge> int (c_rxTimeout c) then
        case conn_stop e c APC_STOP_TIMEOUT APC_OK STOP_FL_OFFLINE False True of (c, out) \<Rightarrow> (c, False, out)
      else (c, True, []))"

definition ka_timeout_tx_p ::
  "conn_env \<Rightarrow> CAPCConnector \<Rightarrow> nat \<Rightarrow> (CAPCConnector \<times> bool \<times> conn_out list) option" where
  "ka_timeout_tx_p e c lastAction =
     (if int (e_now e) - int lastAction \<ge> int (c_txTimeout c) then
        case send_ka_p e c of None \<Rightarrow> None
        | Some (c, res, out) \<Rightarrow>
            if res \<noteq> APC_OK then
              case conn_stop e c APC_STOP_WRITE res STOP_FL_OFFLINE False True of (c, out') \<Rightarrow> Some (c, False, out @ out')
            else Some (c, True, out)
      else Some (c, True, []))"

text \<open>The socket completes the oldest write.\<close>

definition handle_write_p :: "conn_env \<Rightarrow> CAPCConnector \<Rightarrow> bool \<Rightarrow> CAPCConnector" where
  "handle_write_p e c error =
     (let c = c\<lparr>c_inflight := tl (c_inflight c)\<rparr>
      in if error then freeBuf_p c
         else freeBuf_p (c\<lparr>c_kaTxTimer := map_option (recordActivity (e_now e)) (c_kaTxTimer c)\<rparr>))"

section \<open>Receiving\<close>

text \<open>
  The fields of \<^verbatim>\<open>apc_msg_connect_s\<close> in a payload of at least its size.  The peer name is read as a
  C string from the start of \<^verbatim>\<open>identity\<close>; the model stops at the end of the payload where the code
  would go on to the next zero byte.
\<close>

definition connect_param :: "rx_msg \<Rightarrow> param_connected_s" where
  "connect_param msg =
     (let pl = rx_payload msg in
      \<lparr>pc_ver = pl ! 0, pc_netId = le_word (bytes_at 42 4 pl), pc_apcId = le_word (bytes_at 37 4 pl),
       pc_name = takeWhile (\<lambda>b. b \<noteq> 0) (take APC_CONNECTOR_NAME_LENGTH (bytes_at 5 32 pl)),
       pc_cmdFlags = le_word (bytes_at 1 4 pl), pc_hdrFlags = rx_flags msg, pc_mySeq = rx_mySeq msg,
       pc_yourSeq = rx_yourSeq msg,
       pc_version = takeWhile (\<lambda>b. b \<noteq> 0) (take (SIZE_STR_VER - 1) (bytes_at 46 SIZE_STR_VER pl))\<rparr>)"

text \<open>Lines 573 and 574.\<close>

definition note_received :: "CAPCConnector \<Rightarrow> u32 \<Rightarrow> CAPCConnector" where
  "note_received c mySeq = (if mySeq > c_lastReceivedSeqNum c then c\<lparr>c_lastReceivedSeqNum := mySeq\<rparr> else c)"

definition conn_messageReceived ::
  "conn_env \<Rightarrow> ap_intf_id_t \<Rightarrow> (CAPCConnector \<times> conn_out list) rx_handler" where
  "conn_messageReceived e apcId = (\<lambda>(c, out) msg.
     (let type = rx_type msg in
      if \<not> c_isConnected c \<and> type \<noteq> APC_CONNECT \<and> type \<noteq> APC_DISCONNECT \<and> type \<noteq> APC_KA
      then ((c, out), APC_ERR_PROTOCOL)
      else
        let c = c\<lparr>c_numRcvPkt := c_numRcvPkt c + 1\<rparr> in
        if type = APC_CONNECT then
          let c = c\<lparr>c_isConnected := True\<rparr>;
              (c, out) =
                (if c_hasNotif c then
                   (c\<lparr>c_peerIntfName := takeWhile (\<lambda>b. b \<noteq> 0) (drop 5 (rx_payload msg))\<rparr>,
                    out @ [NotifConnected (connect_param msg)])
                 else (c, out));
              (c, res) = (case c_kaTxTimer c of None \<Rightarrow> (c, APC_OK)
                          | Some t \<Rightarrow> let (t, r) = startTimer (e_now e) (e_timerOk e) t
                                      in (c\<lparr>c_kaTxTimer := Some t\<rparr>, r))
          in if res \<noteq> APC_OK then ((c, out), res)
             else ((note_received c (rx_mySeq msg), out), APC_OK)
        else if type = APC_DISCONNECT then ((note_received c (rx_mySeq msg), out), APC_STOP_CONNECTOR)
        else
          let out =
                (if c_hasNotif c then
                   out @ [NotifReceived \<lparr>pr_apcId = apcId, pr_flags = rx_flags msg, pr_mySeq = rx_mySeq msg,
                            pr_yourSeq = rx_yourSeq msg, pr_type = type\<rparr> (rx_payload msg)]
                 else out)
          in ((note_received c (rx_mySeq msg), out), APC_OK)))"

text \<open>Lines 437 to 443: schedule the next read, acknowledge by a keep-alive if too many packets are unreported.\<close>

definition handle_read_next ::
  "conn_env \<Rightarrow> CAPCConnector \<Rightarrow> (CAPCConnector \<times> conn_out list) option" where
  "handle_read_next e c =
     (let (res, rd) = async_read_p e in
      case (if res = APC_OK \<and> c_lastReceivedSeqNum c - c_lastReportedSeqNum c > c_unconfirmedInpPkt c
            then send_ka_p e c else Some (c, res, [])) of
        None \<Rightarrow> None
      | Some (c, res, ka) \<Rightarrow>
          if res \<noteq> APC_OK then
            case conn_stop e c APC_STOP_READ res STOP_FL_OFFLINE False True of (c, out) \<Rightarrow> Some (c, rd @ ka @ out)
          else Some (c, rd @ ka))"

text \<open>\<^verbatim>\<open>data\<close> are the first \<^verbatim>\<open>len\<close> bytes of the input buffer.\<close>

definition handle_read_p ::
  "conn_env \<Rightarrow> CAPCConnector \<Rightarrow> bool \<Rightarrow> byte list \<Rightarrow> (CAPCConnector \<times> conn_out list) option" where
  "handle_read_p e c error data =
     (if error then Some (conn_stop e c APC_STOP_READ APC_OK STOP_FL_OFFLINE False True)
      else if length data > 0 then
        case dataReceived (conn_messageReceived e (c_intfId c)) (c_serializer c) (c, []) data of
          None \<Rightarrow> None
        | Some (s, (c, out), res) \<Rightarrow>
            let c = c\<lparr>c_serializer := s\<rparr> in
            if res \<noteq> APC_OK then
              let (c, out') =
                (if res = APC_STOP_CONNECTOR then conn_stop e c APC_DISCONNECT_MSG res STOP_FL_DISCONNECT False True
                 else conn_stop e c APC_STOP_PKTPARSE res STOP_FL_OFFLINE False True)
              in Some (c, out @ out')
            else if \<not> c_isWorking c then Some (c, out)
            else
              let c = c\<lparr>c_kaRxTimer := map_option (recordActivity (e_now e)) (c_kaRxTimer c)\<rparr>
              in map_option (\<lambda>(c, out'). (c, out @ out')) (handle_read_next e c)
      else handle_read_next e c)"

section \<open>Queries\<close>

record conn_property_t =
  prop_isConnected :: bool
  prop_intfId :: ap_intf_id_t
  prop_localName :: "byte list"
  prop_peerName :: "byte list"
  prop_curAllocOutBuf :: u16
  prop_maxAllocOutBuf :: u16
  prop_numReceivedPkt :: u32
  prop_sendStat :: statdelays_s

definition getProperty :: "CAPCConnector \<Rightarrow> conn_property_t" where
  "getProperty c = \<lparr>prop_isConnected = True, prop_intfId = c_intfId c, prop_localName = c_apcName c,
     prop_peerName = c_peerIntfName c, prop_curAllocOutBuf = ucast (APC_NUM_OUT_BUFS - c_numFreeOutBuf c),
     prop_maxAllocOutBuf = ucast (APC_NUM_OUT_BUFS - c_minNumFreeOutBuf c),
     prop_numReceivedPkt = c_numRcvPkt c, prop_sendStat = getStat (c_sendStat c)\<rparr>"

definition getAPCCStatistics :: "CAPCConnector \<Rightarrow> statdelays_s \<times> u32 \<times> u32" where
  "getAPCCStatistics c = (getStat (c_sendStat c), c_faultAllocTime c, c_numRcvPkt c)"

definition conn_clearStats :: "CAPCConnector \<Rightarrow> CAPCConnector" where
  "conn_clearStats c = c\<lparr>c_sendStat := stat_clear (c_sendStat c), c_faultAllocTime := 0, c_numRcvPkt := 0\<rparr>"

section \<open>Output buffer accounting\<close>

text \<open>
  While the connector works, the buffers handed to the socket are the ones before the index of
  the next free buffer, in order, and all others are free.
\<close>

definition bufs_inv :: "CAPCConnector \<Rightarrow> bool" where
  "bufs_inv c \<longleftrightarrow> length (c_outbufs c) = 2 \<and> (\<forall>b \<in> set (c_outbufs c). length b = APC_MAX_MSG_SIZE)
     \<and> (c_numFreeOutBuf c, c_curFreeBufIdx c, c_inflight c)
        \<in> {(2, 0, []), (2, 1, []), (1, 1, [0]), (1, 0, [1]), (0, 0, [0, 1]), (0, 1, [1, 0])}"

lemmas buf_defs = APC_NUM_OUT_BUFS_def APC_NUM_OUT_BUFS_MASK_def incrNumFreeBuf_p_def

text \<open>Taking a buffer and handing it to the socket; completion of the oldest write.\<close>

definition take_buf :: "CAPCConnector \<Rightarrow> CAPCConnector \<times> nat option" where
  "take_buf c = (case getFreeBuf_p [] True c of (c', _, None) \<Rightarrow> (c', None)
     | (c', _, Some i) \<Rightarrow> (c'\<lparr>c_inflight := c_inflight c' @ [i]\<rparr>, Some i))"

definition complete_buf :: "CAPCConnector \<Rightarrow> CAPCConnector" where
  "complete_buf c = freeBuf_p (c\<lparr>c_inflight := tl (c_inflight c)\<rparr>)"

definition grab :: "CAPCConnector \<Rightarrow> CAPCConnector" where
  "grab c =
     (let c = c\<lparr>c_numFreeOutBuf := c_numFreeOutBuf c - 1\<rparr>;
          c = (if c_numFreeOutBuf c < c_minNumFreeOutBuf c
               then c\<lparr>c_minNumFreeOutBuf := c_numFreeOutBuf c\<rparr> else c)
      in c\<lparr>c_curFreeBufIdx := (c_curFreeBufIdx c + 1) AND APC_NUM_OUT_BUFS_MASK\<rparr>)"

lemma getFreeBuf_p_grab:
  "getFreeBuf_p ws allow c =
     (case getFreeBuf_wait ws allow c of (w, ws') \<Rightarrow>
        if c_numFreeOutBuf w = 0 \<or> (\<not> c_isWorking w \<and> \<not> allow) then (w, ws', None)
        else (grab w, ws', Some (unat (c_curFreeBufIdx w))))"
  unfolding getFreeBuf_p_def grab_def Let_def ..

lemma grab_simps [simp]:
  "c_outbufs (grab c) = c_outbufs c" "c_inflight (grab c) = c_inflight c" "c_isWorking (grab c) = c_isWorking c"
  "c_lastReceivedSeqNum (grab c) = c_lastReceivedSeqNum c" "c_isConnected (grab c) = c_isConnected c"
  "c_lastReportedSeqNum (grab c) = c_lastReportedSeqNum c" "c_unconfirmedInpPkt (grab c) = c_unconfirmedInpPkt c"
  "c_hasNotif (grab c) = c_hasNotif c" "c_numFreeOutBuf (grab c) = c_numFreeOutBuf c - 1"
  "c_curFreeBufIdx (grab c) = (c_curFreeBufIdx c + 1) AND APC_NUM_OUT_BUFS_MASK"
  by (simp_all add: grab_def Let_def)

lemma bufs_inv_outs:
  assumes "bufs_inv c"
  shows "length (c_outbufs c) = 2" "\<forall>b \<in> set (c_outbufs c). length b = APC_MAX_MSG_SIZE"
  using assms by (auto simp: bufs_inv_def)

lemma bufs_inv_cases:
  assumes "bufs_inv c"
  obtains "c_numFreeOutBuf c = 2" "c_curFreeBufIdx c = 0" "c_inflight c = []"
    | "c_numFreeOutBuf c = 2" "c_curFreeBufIdx c = 1" "c_inflight c = []"
    | "c_numFreeOutBuf c = 1" "c_curFreeBufIdx c = 1" "c_inflight c = [0]"
    | "c_numFreeOutBuf c = 1" "c_curFreeBufIdx c = 0" "c_inflight c = [1]"
    | "c_numFreeOutBuf c = 0" "c_curFreeBufIdx c = 0" "c_inflight c = [0, 1]"
    | "c_numFreeOutBuf c = 0" "c_curFreeBufIdx c = 1" "c_inflight c = [1, 0]"
proof -
  have "(c_numFreeOutBuf c, c_curFreeBufIdx c, c_inflight c)
        \<in> {(2, 0, []), (2, 1, []), (1, 1, [0]), (1, 0, [1]), (0, 0, [0, 1]), (0, 1, [1, 0])}"
    using assms unfolding bufs_inv_def by (elim conjE)
  then show thesis using that by (elim insertE emptyE) (simp_all only: prod.inject)
qed

lemma grab_bufs:
  assumes "bufs_inv c" and "c_numFreeOutBuf c \<noteq> 0"
  shows "unat (c_curFreeBufIdx c) < 2" and "unat (c_curFreeBufIdx c) \<notin> set (c_inflight c)"
    and "bufs_inv ((grab c)\<lparr>c_inflight := c_inflight c @ [unat (c_curFreeBufIdx c)]\<rparr>)"
    and "bufs_inv (returnBuf_p (grab c))"
proof -
  note outs = bufs_inv_outs[OF assms(1)]
  show "unat (c_curFreeBufIdx c) < 2" "unat (c_curFreeBufIdx c) \<notin> set (c_inflight c)"
    using assms(2) by (cases rule: bufs_inv_cases[OF assms(1)]; simp)+
  show "bufs_inv ((grab c)\<lparr>c_inflight := c_inflight c @ [unat (c_curFreeBufIdx c)]\<rparr>)"
    using assms(2) by (cases rule: bufs_inv_cases[OF assms(1)]; simp add: bufs_inv_def outs buf_defs)
  show "bufs_inv (returnBuf_p (grab c))"
    using assms(2) by (cases rule: bufs_inv_cases[OF assms(1)]; simp add: bufs_inv_def outs buf_defs returnBuf_p_def Let_def)
qed

interpretation out_ring: buffer_pool take_buf complete_buf c_inflight bufs_inv 2
proof
  fix s assume inv: "bufs_inv s"
  show "length (c_inflight s) \<le> 2" by (cases rule: bufs_inv_cases[OF inv]; simp)
  show "\<exists>s' i. take_buf s = (s', Some i) \<and> i < 2 \<and> i \<notin> set (c_inflight s)
      \<and> c_inflight s' = c_inflight s @ [i] \<and> bufs_inv s'" if "length (c_inflight s) < 2"
  proof -
    have "c_numFreeOutBuf s \<noteq> 0" using that by (cases rule: bufs_inv_cases[OF inv]; simp)
    then show ?thesis using grab_bufs[OF inv] by (simp add: take_buf_def getFreeBuf_p_grab)
  qed
  show "take_buf s = (s, None)" if "length (c_inflight s) = 2"
    using that by (cases rule: bufs_inv_cases[OF inv]; simp add: take_buf_def getFreeBuf_p_grab)
  show "c_inflight (complete_buf s) = tl (c_inflight s) \<and> bufs_inv (complete_buf s)" if "c_inflight s \<noteq> []"
    using that bufs_inv_outs[OF inv]
    by (cases rule: bufs_inv_cases[OF inv]; simp add: complete_buf_def freeBuf_p_def bufs_inv_def buf_defs)
qed

lemma new_CAPCConnector_bufs: "bufs_inv (new_CAPCConnector p)"
  by (simp add: bufs_inv_def new_CAPCConnector_def Let_def buf_defs)

definition wakes_keep :: "(CAPCConnector \<Rightarrow> bool) \<Rightarrow> conn_env \<Rightarrow> bool" where
  "wakes_keep P e \<longleftrightarrow> (\<forall>(f, _) \<in> set (e_wakes e). \<forall>c. P c \<longrightarrow> P (f c))"

lemma getFreeBuf_wait_keeps:
  assumes "\<And>f b c. (f, b) \<in> set ws \<Longrightarrow> P c \<Longrightarrow> P (f c)" and "P c"
  shows "P (fst (getFreeBuf_wait ws allow c))"
  using assms by (induction ws allow c rule: getFreeBuf_wait.induct) auto

lemma prepMsg_length:
  assumes "prepMsg msg maxSize type flags mySeq yourSeq p1 s1 p2 s2 = Some (msg', n, res)" "length msg = maxSize"
  shows "length msg' = maxSize"
proof -
  have mem: "memcpy_at off src dst = Some dst' \<Longrightarrow> length dst' = length dst" for off and src dst dst' :: "byte list"
    by (auto simp: memcpy_at_def split: if_splits)
  have copy: "copy_payload off p sz dst = Some dst' \<Longrightarrow> length dst' = length dst" for off p sz and dst dst' :: "byte list"
    by (auto simp: copy_payload_def split: if_splits option.splits dest: mem)
  have over: "length (overwrite H (fst (convert k ty (bytes_at H m b))) b) = length b" if "H + m \<le> length b"
    for H m k ty and b :: "byte list"
    using that by simp
  show ?thesis
    using assms
    by (auto simp: prepMsg_def Let_def case_prod_beta over split: if_splits option.splits dest!: mem copy)
qed

text \<open>What \<^verbatim>\<open>sendData\<close> does once the guard is passed, in terms of the connector after the wait.\<close>

abbreviation waited :: "conn_env \<Rightarrow> CAPCConnector \<Rightarrow> CAPCConnector" where
  "waited e c \<equiv> fst (getFreeBuf_wait (e_wakes e) False c)"

definition guard_open :: "CAPCConnector \<Rightarrow> apc_msg_type_t \<Rightarrow> bool" where
  "guard_open c type \<longleftrightarrow> c_isWorking c \<and> (c_isConnected c \<or> type = APC_CONNECT \<or> type = APC_KA)"

lemma guard_closed:
  "guard_open c type \<Longrightarrow>
   (c_isWorking c = False \<or> (\<not> c_isConnected c \<and> (type \<noteq> APC_CONNECT \<and> type \<noteq> APC_KA))) = False"
  by (auto simp: guard_open_def)

lemma sendData_guard:
  "\<not> guard_open c type \<Longrightarrow> sendData e c type flags mySeq p1 s1 p2 s2 = Some (c, APC_ERR_NOTCONNECT, [])"
  by (auto simp: sendData_def guard_open_def)

lemma sendData_no_buffer:
  assumes "guard_open c type" and "c_numFreeOutBuf (waited e c) = 0 \<or> \<not> c_isWorking (waited e c)"
  shows "\<exists>t. sendData e c type flags mySeq p1 s1 p2 s2
     = Some ((waited e c)\<lparr>c_faultAllocTime := t\<rparr>, APC_ERR_OUTBUFOVERFLOW, [])"
proof -
  have get: "getFreeBuf_p (e_wakes e) False c = (waited e c, snd (getFreeBuf_wait (e_wakes e) False c), None)"
    using assms(2) by (cases "getFreeBuf_wait (e_wakes e) False c") (simp add: getFreeBuf_p_grab)
  show ?thesis
    unfolding sendData_def guard_closed[OF assms(1)] get if_False prod.case option.case by blast
qed

lemma sendData_with_buffer:
  assumes "guard_open c type" and "c_numFreeOutBuf (waited e c) \<noteq> 0" and "c_isWorking (waited e c)"
    and "bufs_inv (waited e c)"
  defines "w \<equiv> waited e c"
  defines "i \<equiv> unat (c_curFreeBufIdx w)"
  shows "sendData e c type flags mySeq p1 s1 p2 s2 =
     (case prepMsg (c_outbufs w ! i) APC_MAX_MSG_SIZE type flags mySeq (c_lastReceivedSeqNum w)
             p1 (unat s1) p2 (unat s2) of
        None \<Rightarrow> None
      | Some (buf, msgSize, res) \<Rightarrow>
          let c = (grab w)\<lparr>c_outbufs := (c_outbufs w)[i := buf]\<rparr>
          in if res \<noteq> APC_OK then Some (returnBuf_p c, APC_ERR_PKTSERIALIZATION, [])
             else if \<not> e_writeOk e then Some (c, APC_ERR_ASYNC_OPERATION, [])
             else Some (c\<lparr>c_inflight := c_inflight c @ [i],
                          c_sendStat := addEvent (c_sendStat c) (int (e_end e) - int (e_now e)),
                          c_lastReportedSeqNum := c_lastReceivedSeqNum c\<rparr>,
                        APC_OK, [SockWrite (take msgSize buf)]))"
proof -
  have get: "getFreeBuf_p (e_wakes e) False c = (grab w, snd (getFreeBuf_wait (e_wakes e) False c), Some i)"
    using assms(2,3)
    by (cases "getFreeBuf_wait (e_wakes e) False c") (simp add: getFreeBuf_p_grab w_def i_def)
  have i: "(\<not> i < length (c_outbufs w)) = False"
    using grab_bufs(1)[OF assms(4,2)] bufs_inv_outs(1)[OF assms(4)] by (simp add: i_def w_def)
  show ?thesis
    unfolding sendData_def guard_closed[OF assms(1)] get if_False prod.case option.case grab_simps i ..
qed

text \<open>Every outcome of \<^verbatim>\<open>sendData\<close>: which results are possible and what they change.\<close>

lemma sendData_cases:
  assumes "sendData e c type flags mySeq p1 s1 p2 s2 = Some (c', res, out)" and "bufs_inv (waited e c)"
  obtains (not_connected) "\<not> guard_open c type" "res = APC_ERR_NOTCONNECT" "out = []" "c' = c"
    | (no_buffer) t where "guard_open c type" "res = APC_ERR_OUTBUFOVERFLOW" "out = []"
        "c' = (waited e c)\<lparr>c_faultAllocTime := t\<rparr>"
    | (serialization) buf where "guard_open c type" "res = APC_ERR_PKTSERIALIZATION" "out = []"
        "c' = returnBuf_p ((grab (waited e c))\<lparr>c_outbufs := (c_outbufs (waited e c))[unat (c_curFreeBufIdx (waited e c)) := buf]\<rparr>)"
        "length buf = APC_MAX_MSG_SIZE" "c_numFreeOutBuf (waited e c) \<noteq> 0"
    | (async_error) "guard_open c type" "res = APC_ERR_ASYNC_OPERATION" "out = []" "\<not> e_writeOk e"
    | (sent) buf n st where "guard_open c type" "res = APC_OK" "out = [SockWrite (take n buf)]"
        "prepMsg (c_outbufs (waited e c) ! unat (c_curFreeBufIdx (waited e c))) APC_MAX_MSG_SIZE type flags mySeq
           (c_lastReceivedSeqNum (waited e c)) p1 (unat s1) p2 (unat s2) = Some (buf, n, APC_OK)"
        "c' = (grab (waited e c))\<lparr>c_outbufs := (c_outbufs (waited e c))[unat (c_curFreeBufIdx (waited e c)) := buf],
           c_inflight := c_inflight (waited e c) @ [unat (c_curFreeBufIdx (waited e c))],
           c_sendStat := st, c_lastReportedSeqNum := c_lastReceivedSeqNum (waited e c)\<rparr>"
        "length buf = APC_MAX_MSG_SIZE" "c_numFreeOutBuf (waited e c) \<noteq> 0" "c_isWorking (waited e c)" "e_writeOk e"
proof (cases "guard_open c type")
  case False
  then show thesis
    using assms(1) unfolding sendData_guard[OF False] by (intro not_connected) simp_all
next
  case True
  show thesis
  proof (cases "c_numFreeOutBuf (waited e c) = 0 \<or> \<not> c_isWorking (waited e c)")
    case none: True
    then obtain t where "sendData e c type flags mySeq p1 s1 p2 s2
        = Some ((waited e c)\<lparr>c_faultAllocTime := t\<rparr>, APC_ERR_OUTBUFOVERFLOW, [])"
      using sendData_no_buffer[OF True none] by metis
    then show thesis using assms(1) by (intro no_buffer[OF True, of t]) simp_all
  next
    case False
    then have f: "c_numFreeOutBuf (waited e c) \<noteq> 0" "c_isWorking (waited e c)" by auto
    let ?i = "unat (c_curFreeBufIdx (waited e c))"
    note eq = sendData_with_buffer[OF True f assms(2), of flags mySeq p1 s1 p2 s2]
    obtain buf n r where prep: "prepMsg (c_outbufs (waited e c) ! ?i) APC_MAX_MSG_SIZE type flags mySeq
        (c_lastReceivedSeqNum (waited e c)) p1 (unat s1) p2 (unat s2) = Some (buf, n, r)"
    proof (cases "prepMsg (c_outbufs (waited e c) ! ?i) APC_MAX_MSG_SIZE type flags mySeq
        (c_lastReceivedSeqNum (waited e c)) p1 (unat s1) p2 (unat s2)")
      case None
      then show thesis using assms(1) unfolding eq by simp
    next
      case (Some x)
      then show thesis using that by (cases x) blast
    qed
    note eq' = eq[unfolded prep option.case prod.case Let_def]
    have "?i < 2" using grab_bufs(1)[OF assms(2) f(1)] .
    then have len: "length buf = APC_MAX_MSG_SIZE"
      using prepMsg_length[OF prep] bufs_inv_outs[OF assms(2)] by simp
    show thesis
    proof (cases "r = APC_OK")
      case False
      then show thesis
        using assms(1) unfolding eq' by (intro serialization[OF True _ _ _ len f(1)]) simp_all
    next
      case ok: True
      show thesis
      proof (cases "e_writeOk e")
        case False
        then show thesis using assms(1) ok unfolding eq' by (intro async_error[OF True]) simp_all
      next
        case w: True
        have "c' = (grab (waited e c))\<lparr>c_outbufs := (c_outbufs (waited e c))[?i := buf],
            c_inflight := c_inflight (waited e c) @ [?i],
            c_sendStat := addEvent (c_sendStat ((grab (waited e c))\<lparr>c_outbufs := (c_outbufs (waited e c))[?i := buf]\<rparr>))
              (int (e_end e) - int (e_now e)), c_lastReportedSeqNum := c_lastReceivedSeqNum (waited e c)\<rparr>"
          "res = APC_OK" "out = [SockWrite (take n buf)]"
          using assms(1) ok w unfolding eq' by simp_all
        note sent_eq = this
        show thesis by (rule sent[OF True sent_eq(2,3) prep[unfolded ok] sent_eq(1) len f w])
      qed
    qed
  qed
qed

lemma bufs_inv_update:
  assumes "bufs_inv c" and "length buf = APC_MAX_MSG_SIZE"
  shows "bufs_inv (c\<lparr>c_outbufs := (c_outbufs c)[i := buf]\<rparr>)"
  using assms set_update_subset_insert[of "c_outbufs c" i buf] by (auto simp: bufs_inv_def)

lemma returnBuf_p_outbufs:
  "returnBuf_p (c\<lparr>c_outbufs := bs\<rparr>) = (returnBuf_p c)\<lparr>c_outbufs := bs\<rparr>" "c_outbufs (returnBuf_p c) = c_outbufs c"
  by (simp_all add: returnBuf_p_def incrNumFreeBuf_p_def Let_def)

lemma bufs_inv_cong:
  assumes "c_outbufs c' = c_outbufs c" "c_numFreeOutBuf c' = c_numFreeOutBuf c"
    "c_curFreeBufIdx c' = c_curFreeBufIdx c" "c_inflight c' = c_inflight c"
  shows "bufs_inv c' = bufs_inv c"
  by (simp add: bufs_inv_def assms)

lemma sendData_bufs:
  assumes "sendData e c type flags mySeq p1 s1 p2 s2 = Some (c', res, out)"
    and "bufs_inv c" and "wakes_keep bufs_inv e" and "e_writeOk e"
  shows "bufs_inv c'"
proof -
  have w: "bufs_inv (waited e c)"
    by (rule getFreeBuf_wait_keeps) (use assms in \<open>auto simp: wakes_keep_def\<close>)
  from assms(1) w show ?thesis
  proof (cases rule: sendData_cases)
    case (no_buffer t)
    then show ?thesis using w by (subst bufs_inv_cong[of _ "waited e c"]) simp_all
  next
    case (serialization buf)
    then show ?thesis
      using grab_bufs(4)[OF w] bufs_inv_update[of "returnBuf_p (grab (waited e c))" buf]
      by (simp add: returnBuf_p_outbufs)
  next
    case (sent buf n st)
    have "bufs_inv ((grab (waited e c))\<lparr>c_inflight := c_inflight (waited e c) @ [unat (c_curFreeBufIdx (waited e c))],
        c_outbufs := (c_outbufs (waited e c))[unat (c_curFreeBufIdx (waited e c)) := buf]\<rparr>)"
      using bufs_inv_update[OF grab_bufs(3)[OF w sent(7)] sent(6)] by simp
    then show ?thesis using sent(5) by (subst bufs_inv_cong) simp_all
  qed (use assms in simp_all)
qed

lemma sendData_total:
  assumes "bufs_inv (waited e c)"
    and "case p1 of None \<Rightarrow> s1 = 0 | Some b \<Rightarrow> unat s1 \<le> length b"
    and "case p2 of None \<Rightarrow> s2 = 0 | Some b \<Rightarrow> unat s2 \<le> length b"
  shows "\<exists>c' res out. sendData e c type flags mySeq p1 s1 p2 s2 = Some (c', res, out)"
proof (cases "guard_open c type")
  case False
  then show ?thesis by (simp add: sendData_guard)
next
  case True
  show ?thesis
  proof (cases "c_numFreeOutBuf (waited e c) = 0 \<or> \<not> c_isWorking (waited e c)")
    case none: True
    then show ?thesis using sendData_no_buffer[OF True none] by metis
  next
    case False
    then have f: "c_numFreeOutBuf (waited e c) \<noteq> 0" "c_isWorking (waited e c)" by auto
    let ?i = "unat (c_curFreeBufIdx (waited e c))"
    have "length (c_outbufs (waited e c) ! ?i) = APC_MAX_MSG_SIZE"
      using grab_bufs(1)[OF assms(1) f(1)] bufs_inv_outs[OF assms(1)] by simp
    moreover have "case p1 of None \<Rightarrow> unat s1 = 0 | Some b \<Rightarrow> unat s1 \<le> length b"
      "case p2 of None \<Rightarrow> unat s2 = 0 | Some b \<Rightarrow> unat s2 \<le> length b"
      using assms(2,3) by (auto split: option.splits)
    ultimately obtain buf n r where "prepMsg (c_outbufs (waited e c) ! ?i) APC_MAX_MSG_SIZE type flags mySeq
        (c_lastReceivedSeqNum (waited e c)) p1 (unat s1) p2 (unat s2) = Some (buf, n, r)"
      using prepMsg_total by metis
    then show ?thesis
      unfolding sendData_with_buffer[OF True f assms(1)] by (simp add: Let_def)
  qed
qed

text \<open>The successful send: the wire image of the message, carrying the last received number.\<close>

definition ptr_bytes :: "byte list option \<Rightarrow> byte list" where
  "ptr_bytes p = (case p of None \<Rightarrow> [] | Some b \<Rightarrow> b)"

lemma prepMsg_ptr:
  "s1 \<le> length (ptr_bytes p1) \<Longrightarrow> s2 \<le> length (ptr_bytes p2) \<Longrightarrow>
   prepMsg msg n type flags mySeq yourSeq p1 s1 p2 s2
     = prepMsg msg n type flags mySeq yourSeq (Some (ptr_bytes p1)) s1 (Some (ptr_bytes p2)) s2"
proof -
  assume s: "s1 \<le> length (ptr_bytes p1)" "s2 \<le> length (ptr_bytes p2)"
  have copy: "copy_payload off p s = copy_payload off (Some (ptr_bytes p)) s" if "s \<le> length (ptr_bytes p)" for off p s
    using that by (cases p) (auto simp: ptr_bytes_def copy_payload_def)
  have "(s1 = 0 \<or> p1 \<noteq> None) = True" "(s2 = 0 \<or> p2 \<noteq> None) = True"
    using s by (auto simp: ptr_bytes_def split: option.splits)
  then show ?thesis
    unfolding prepMsg_def copy[OF s(1)] copy[OF s(2)] by simp
qed

lemma sendData_wire:
  assumes "bufs_inv (waited e c)" "guard_open c type" "c_numFreeOutBuf (waited e c) \<noteq> 0" "c_isWorking (waited e c)"
    "e_writeOk e" and s: "unat s1 \<le> length (ptr_bytes p1)" "unat s2 \<le> length (ptr_bytes p2)"
    and m: "m = \<lparr>rx_type = type, rx_flags = flags, rx_mySeq = mySeq, rx_yourSeq = c_lastReceivedSeqNum (waited e c),
     rx_payload = take (unat s1) (ptr_bytes p1) @ take (unat s2) (ptr_bytes p2)\<rparr>"
    and ok: "sendable APC_MAX_MSG_SIZE m"
  shows "\<exists>c'. sendData e c type flags mySeq p1 s1 p2 s2 = Some (c', APC_OK, [SockWrite (wire_bytes m)])
     \<and> c_lastReportedSeqNum c' = c_lastReceivedSeqNum (waited e c) \<and> c_lastReceivedSeqNum c' = c_lastReceivedSeqNum (waited e c)"
proof -
  let ?i = "unat (c_curFreeBufIdx (waited e c))"
  have len: "length (c_outbufs (waited e c) ! ?i) = APC_MAX_MSG_SIZE"
    using grab_bufs(1)[OF assms(1,3)] bufs_inv_outs[OF assms(1)] by simp
  obtain buf where buf: "prepMsg (c_outbufs (waited e c) ! ?i) APC_MAX_MSG_SIZE type flags mySeq
      (c_lastReceivedSeqNum (waited e c)) p1 (unat s1) p2 (unat s2) = Some (buf, length (wire_bytes m), APC_OK)"
    "take (length (wire_bytes m)) buf = wire_bytes m"
    using prepMsg_wire[OF len s ok, of type flags mySeq "c_lastReceivedSeqNum (waited e c)"] prepMsg_ptr[OF s] m
    by auto
  show ?thesis
    unfolding sendData_with_buffer[OF assms(2,3,4,1)] buf(1) using assms(5) buf(2) by (simp add: Let_def)
qed

text \<open>A quiet environment and a connector that has just been started, for concrete examples.\<close>

definition quiet_env :: conn_env where
  "quiet_env = \<lparr>e_now = 0, e_end = 0, e_wakes = [], e_writeOk = True, e_readOk = True, e_timerOk = True\<rparr>"

definition demo_conn :: CAPCConnector where
  "demo_conn = (new_CAPCConnector \<lparr>ip_apcConnect = [0x41], ip_hasNotif = True, ip_kaTimeout = 0, ip_freeBufTimeout = 0,
     ip_unconfirmedInpPkt = 3, ip_swVersion = []\<rparr>)\<lparr>c_isWorking := True\<rparr>"

lemma quiet_env_simps [simp]:
  "e_now quiet_env = 0" "e_end quiet_env = 0" "e_wakes quiet_env = []" "e_writeOk quiet_env" "e_readOk quiet_env"
  "e_timerOk quiet_env"
  by (simp_all add: quiet_env_def)

lemma quiet_env_keep: "wakes_keep P quiet_env"
  by (simp add: wakes_keep_def)

lemma demo_conn_simps:
  "bufs_inv demo_conn" "c_isWorking demo_conn" "c_hasNotif demo_conn" "c_lastReceivedSeqNum demo_conn = 0"
  "ser_rel APC_MAX_MSG_SIZE (c_serializer demo_conn) []" "c_numFreeOutBuf demo_conn = 2" "\<not> c_isConnected demo_conn"
  using new_CAPCSerializer_rel[of APC_MAX_MSG_SIZE]
  by (simp_all add: demo_conn_def new_CAPCConnector_def Let_def bufs_inv_def buf_defs wire_simps apc_const_defs)

section \<open>Properties of the connector\<close>

lemma wait_all_bufs_keeps:
  assumes "\<And>f b c. (f, b) \<in> set ws \<Longrightarrow> P c \<Longrightarrow> P (f c)" and "\<And>c. P c \<Longrightarrow> P (grab c)" and "P c"
  shows "P (wait_all_bufs n ws c)"
  using assms(1,3)
proof (induction n arbitrary: ws c)
  case (Suc n)
  obtain w ws' where w: "getFreeBuf_wait ws True c = (w, ws')" by fastforce
  have "set (snd (getFreeBuf_wait vs a d)) \<subseteq> set vs" for vs a d
    by (induction vs a d rule: getFreeBuf_wait.induct) auto
  then have sub: "set ws' \<subseteq> set ws" using w by (metis snd_conv)
  have "P w" using getFreeBuf_wait_keeps[of ws P c True] Suc.prems w by simp
  then have "P (wait_all_bufs n ws' (grab w))"
    using Suc.IH[of ws' "grab w"] Suc.prems(1) sub assms(2)[of w] by blast
  then show ?case using \<open>P w\<close> by (simp add: getFreeBuf_p_grab w)
qed simp

lemma conn_stop_idle: "\<not> c_isWorking c \<Longrightarrow> conn_stop e c reason err fl fw sn = (c, [])"
  by (simp add: conn_stop_def)

lemma conn_stop_working:
  assumes "c_isWorking c" and "c_hasNotif c" and "wakes_keep (\<lambda>x. \<not> c_isWorking x \<and> c_hasNotif x) e \<or> \<not> fw"
  shows "\<not> c_isWorking (fst (conn_stop e c reason err fl fw sn))"
    and "\<not> c_isConnected (fst (conn_stop e c reason err fl fw sn))"
    and "\<exists>pre. set pre \<subseteq> {SockClose} \<and> (\<exists>f n. snd (conn_stop e c reason err fl fw True) =
       pre @ [NotifDisconnected \<lparr>pd_flags = f, pd_reason = reason, pd_maxAllocOutPkt = n\<rparr>])"
proof -
  define w where "w = (if fw then wait_all_bufs (unat APC_NUM_OUT_BUFS) (e_wakes e) (c\<lparr>c_isWorking := False\<rparr>)
     else c\<lparr>c_isWorking := False\<rparr>)"
  have "\<not> c_isWorking w \<and> c_hasNotif w"
  proof (cases fw)
    case True
    have "\<not> c_isWorking (wait_all_bufs (unat APC_NUM_OUT_BUFS) (e_wakes e) (c\<lparr>c_isWorking := False\<rparr>))
      \<and> c_hasNotif (wait_all_bufs (unat APC_NUM_OUT_BUFS) (e_wakes e) (c\<lparr>c_isWorking := False\<rparr>))"
      by (rule wait_all_bufs_keeps[where P = "\<lambda>x. \<not> c_isWorking x \<and> c_hasNotif x"])
        (use assms True in \<open>auto simp: wakes_keep_def\<close>)
    then show ?thesis by (simp add: w_def True)
  qed (use assms in \<open>simp add: w_def\<close>)
  note w = this
  show "\<not> c_isWorking (fst (conn_stop e c reason err fl fw sn))"
    "\<not> c_isConnected (fst (conn_stop e c reason err fl fw sn))"
    using w assms(1) by (simp_all add: conn_stop_def Let_def w_def[symmetric])
  show "\<exists>pre. set pre \<subseteq> {SockClose} \<and> (\<exists>f n. snd (conn_stop e c reason err fl fw True) =
       pre @ [NotifDisconnected \<lparr>pd_flags = f, pd_reason = reason, pd_maxAllocOutPkt = n\<rparr>])"
    using w assms(1)
    by (intro exI[of _ "if c_socketOpen w then [SockClose] else []"])
      (auto simp: conn_stop_def Let_def w_def[symmetric])
qed

lemma conn_stop_now_working [simp]: "\<not> c_isWorking (fst (conn_stop e c reason err fl False sn))"
  by (simp add: conn_stop_def Let_def)



text \<open>
  A connector reports its end once: stopping a working connector closes it, ends with exactly one
  disconnect notification that carries the reason, and after that neither a second stop nor a send has
  any effect, so no session can be reported lost twice.
\<close>

lemma conn_stop_once:
  assumes "c_isWorking c" and "c_hasNotif c" and "wakes_keep (\<lambda>x. \<not> c_isWorking x \<and> c_hasNotif x) e"
  shows "(\<exists>pre f n. snd (conn_stop e c reason err fl fw True) =
        pre @ [NotifDisconnected \<lparr>pd_flags = f, pd_reason = reason, pd_maxAllocOutPkt = n\<rparr>]
        \<and> set pre \<subseteq> {SockClose})
    \<and> conn_stop e2 (fst (conn_stop e c reason err fl fw True)) reason2 err2 fl2 fw2 True
        = (fst (conn_stop e c reason err fl fw True), [])
    \<and> sendData e2 (fst (conn_stop e c reason err fl fw True)) type flags mySeq p1 s1 p2 s2
        = Some (fst (conn_stop e c reason err fl fw True), APC_ERR_NOTCONNECT, [])"
proof -
  have "\<not> c_isWorking (fst (conn_stop e c reason err fl fw True))"
    using conn_stop_working(1)[OF assms(1,2)] assms(3) by blast
  then show ?thesis
    using conn_stop_working(3)[OF assms(1,2), of e fw reason err fl] assms(3)
    by (auto simp: conn_stop_idle sendData_guard guard_open_def)
qed

lemma conn_stop_once_example:
  "\<exists>pre f n. snd (conn_stop quiet_env demo_conn APC_STOP_READ APC_OK STOP_FL_OFFLINE True True) =
        pre @ [NotifDisconnected \<lparr>pd_flags = f, pd_reason = APC_STOP_READ, pd_maxAllocOutPkt = n\<rparr>]
        \<and> set pre \<subseteq> {SockClose}"
  using conn_stop_once[OF demo_conn_simps(2,3) quiet_env_keep] by blast

lemma conn_messageReceived_fields:
  "c_outbufs (fst (fst (conn_messageReceived e i (c, out) m))) = c_outbufs c"
  "c_numFreeOutBuf (fst (fst (conn_messageReceived e i (c, out) m))) = c_numFreeOutBuf c"
  "c_curFreeBufIdx (fst (fst (conn_messageReceived e i (c, out) m))) = c_curFreeBufIdx c"
  "c_inflight (fst (fst (conn_messageReceived e i (c, out) m))) = c_inflight c"
  by (simp_all add: conn_messageReceived_def Let_def note_received_def case_prod_beta split: option.split)

lemma conn_messageReceived_bufs:
  "bufs_inv (fst h) \<Longrightarrow> bufs_inv (fst (fst (conn_messageReceived e i h m)))"
  by (cases h) (simp add: bufs_inv_cong[OF conn_messageReceived_fields])

lemma waited_bufs: "bufs_inv c \<Longrightarrow> wakes_keep bufs_inv e \<Longrightarrow> bufs_inv (waited e c)"
  by (rule getFreeBuf_wait_keeps) (auto simp: wakes_keep_def)

definition ack_bound :: "CAPCConnector \<Rightarrow> bool" where
  "ack_bound c \<longleftrightarrow> c_lastReceivedSeqNum c - c_lastReportedSeqNum c \<le> c_unconfirmedInpPkt c"

lemma handle_read_next_ack:
  assumes "bufs_inv c" and "wakes_keep bufs_inv e"
  shows "\<exists>c' out. handle_read_next e c = Some (c', out) \<and> (c_isWorking c' \<longrightarrow> ack_bound c')"
proof (cases "e_readOk e \<and> c_lastReceivedSeqNum c - c_lastReportedSeqNum c > c_unconfirmedInpPkt c")
  case False
  obtain c1 out1 where stop: "conn_stop e c APC_STOP_READ APC_ERR_ASYNC_OPERATION STOP_FL_OFFLINE False True = (c1, out1)"
    "\<not> c_isWorking c1" by (metis conn_stop_now_working prod.collapse)
  show ?thesis
    using False stop
    by (cases "e_readOk e") (auto simp: handle_read_next_def async_read_p_def ack_bound_def)
next
  case True
  note w = waited_bufs[OF assms]
  obtain c1 res ka where ka: "send_ka_p e c = Some (c1, res, ka)"
    using sendData_total[OF w, of 0 None 0 None APC_KA APC_HDR_FLAGS_NOTRACK 0] unfolding send_ka_p_def by auto
  have next_eq: "handle_read_next e c =
      (if res \<noteq> APC_OK then
         case conn_stop e c1 APC_STOP_READ res STOP_FL_OFFLINE False True of (c, out) \<Rightarrow> Some (c, [SockRead] @ ka @ out)
       else Some (c1, [SockRead] @ ka))"
    using True ka by (simp add: handle_read_next_def async_read_p_def)
  show ?thesis
  proof (cases "res = APC_OK")
    case False
    then show ?thesis by (simp add: next_eq case_prod_beta)
  next
    case ok: True
    have "ack_bound c1"
      using ka[unfolded send_ka_p_def ok] w by (cases rule: sendData_cases) (simp_all add: ack_bound_def)
    then show ?thesis using ok by (simp add: next_eq)
  qed
qed

lemma sizeof_le_max: "sizeof_apc_hdr_s \<le> APC_MAX_MSG_SIZE" "APC_MAX_MSG_SIZE < 2 ^ 64"
  by (simp_all add: wire_simps apc_const_defs)



end
