(* ===== verification/Notif_Thread.thy ===== *)
theory Notif_Thread
  imports APC_Connector
begin

text \<open>
  The thread that hands the notifications of the connectors to their owner
  (\<^verbatim>\<open>APCCntrlNotifThread.h\<close>, \<^verbatim>\<open>APCCntrlNotifThread.cpp\<close>).

  Producers append notifications under the lock; the thread takes them from the other end, calls the owner and
  keeps the notification object for reuse.  A notification object belongs to one list at a time, so the lists hold
  the objects themselves.  A section under the lock is one step; the thread has a position between its
  steps.  Connectors are named by numbers.  \<^const>\<open>None\<close> stands for a failed assertion, a read outside the payload vector or
  a read of another member of the parameter union than the one written.
\<close>

section \<open>Notifications\<close>

datatype apc_notiftype_t = NT_NA | NT_START | NT_CONNECT | NT_DISCONNECT | NT_MSGRCVD | NT_TERMINATE

datatype notif_param =
    UNone
  | UConnect param_connected_s
  | UDisconnect param_disconnected_s
  | UMsg param_received_s

record apcnotif_t =
  nf_type :: apc_notiftype_t
  nf_apc :: "nat option"
  nf_payload :: "byte list"
  nf_payloadSize :: u32
  nf_param :: notif_param

definition new_apcnotif_t :: apcnotif_t where
  "new_apcnotif_t = \<lparr>nf_type = NT_NA, nf_apc = None, nf_payload = [], nf_payloadSize = 0, nf_param = UNone\<rparr>"

text \<open>The calls on the owner's notification interface.\<close>

datatype notif_call =
    apcStarted nat
  | apcConnected nat param_connected_s
  | apcDisconnected nat param_disconnected_s
  | messageReceived param_received_s "byte list"

datatype thread_pos = NoThread | Starting | AtLoop | Waiting | Woken | Holding apcnotif_t | Finished

record CAPCCtrlNotifThread =
  nt_apcNotifQ :: "apcnotif_t list"
  nt_freeApcNotif :: "apcnotif_t list"
  nt_thread :: thread_pos
  nt_hasExtrn :: bool
  nt_isWork :: bool

definition new_CAPCCtrlNotifThread :: CAPCCtrlNotifThread where
  "new_CAPCCtrlNotifThread =
     \<lparr>nt_apcNotifQ = [], nt_freeApcNotif = [], nt_thread = NoThread, nt_hasExtrn = False, nt_isWork = False\<rparr>"

definition notif_init :: "bool \<Rightarrow> CAPCCtrlNotifThread \<Rightarrow> CAPCCtrlNotifThread option" where
  "notif_init hasExtrn t =
     (if nt_thread t \<noteq> NoThread then None else Some (t\<lparr>nt_hasExtrn := hasExtrn, nt_isWork := False\<rparr>))"

section \<open>Notification objects\<close>

definition newNotif_p :: "CAPCCtrlNotifThread \<Rightarrow> CAPCCtrlNotifThread \<times> apcnotif_t" where
  "newNotif_p t =
     (if nt_freeApcNotif t = [] then (t, new_apcnotif_t)
      else (t\<lparr>nt_freeApcNotif := butlast (nt_freeApcNotif t)\<rparr>, List.last (nt_freeApcNotif t)))"

definition freeNotif_p :: "apcnotif_t \<Rightarrow> CAPCCtrlNotifThread \<Rightarrow> CAPCCtrlNotifThread" where
  "freeNotif_p n t =
     t\<lparr>nt_freeApcNotif := nt_freeApcNotif t @ [n\<lparr>nf_apc := None, nf_type := NT_NA\<rparr>]\<rparr>"

text \<open>\<^verbatim>\<open>m_signal.notify_all()\<close>: a waiting thread goes on when it gets the lock.\<close>

definition notify_all :: "CAPCCtrlNotifThread \<Rightarrow> CAPCCtrlNotifThread" where
  "notify_all t = (if nt_thread t = Waiting then t\<lparr>nt_thread := Woken\<rparr> else t)"

definition insertNotif_p :: "apcnotif_t \<Rightarrow> CAPCCtrlNotifThread \<Rightarrow> CAPCCtrlNotifThread" where
  "insertNotif_p n t =
     (let isEmpty = (nt_apcNotifQ t = []);
          t = t\<lparr>nt_apcNotifQ := n # nt_apcNotifQ t\<rparr>
      in if isEmpty then notify_all t else t)"

section \<open>Producers\<close>

definition notif_apcStarted :: "nat \<Rightarrow> CAPCCtrlNotifThread \<Rightarrow> CAPCCtrlNotifThread" where
  "notif_apcStarted pAPC t =
     (if \<not> nt_isWork t then t
      else let (t, n) = newNotif_p t
           in insertNotif_p (n\<lparr>nf_type := NT_START, nf_apc := Some pAPC\<rparr>) t)"

definition notif_apcConnected ::
  "nat \<Rightarrow> param_connected_s \<Rightarrow> CAPCCtrlNotifThread \<Rightarrow> CAPCCtrlNotifThread" where
  "notif_apcConnected pAPC param t =
     (if \<not> nt_isWork t then t
      else let (t, n) = newNotif_p t
           in insertNotif_p (n\<lparr>nf_type := NT_CONNECT, nf_apc := Some pAPC, nf_param := UConnect param\<rparr>) t)"

definition notif_apcDisconnected ::
  "nat \<Rightarrow> param_disconnected_s \<Rightarrow> CAPCCtrlNotifThread \<Rightarrow> CAPCCtrlNotifThread" where
  "notif_apcDisconnected pAPC param t =
     (if \<not> nt_isWork t then t
      else let (t, n) = newNotif_p t
           in insertNotif_p (n\<lparr>nf_type := NT_DISCONNECT, nf_apc := Some pAPC, nf_param := UDisconnect param\<rparr>) t)"

definition vec_resize :: "nat \<Rightarrow> byte list \<Rightarrow> byte list" where
  "vec_resize k v = take k v @ replicate (k - length v) 0"

text \<open>
  The payload grows in steps of 32 bytes and never shrinks; \<^verbatim>\<open>size & ~0x1F\<close> is computed
  after promotion to a 32-bit integer.
\<close>

definition store_payload :: "byte list \<Rightarrow> byte list \<Rightarrow> u16 \<Rightarrow> byte list option" where
  "store_payload v pPayload psize =
     (if psize > 0 then
        let v = (if unat psize > length v then vec_resize (unat (((ucast psize :: u32) AND NOT 0x1F) + 0x20)) v else v)
        in if unat psize \<le> length pPayload then memcpy_at 0 (take (unat psize) pPayload) v else None
      else Some v)"

definition notif_messageReceived ::
  "param_received_s \<Rightarrow> byte list \<Rightarrow> u16 \<Rightarrow> CAPCCtrlNotifThread \<Rightarrow> CAPCCtrlNotifThread option" where
  "notif_messageReceived param pPayload psize t =
     (if \<not> nt_isWork t then Some t
      else let (t, n) = newNotif_p t
           in map_option
                (\<lambda>v. insertNotif_p (n\<lparr>nf_type := NT_MSGRCVD, nf_param := UMsg param, nf_payload := v,
                                     nf_payloadSize := ucast psize\<rparr>) t)
                (store_payload (nf_payload n) pPayload psize))"

definition sendStopSignal_p :: "CAPCCtrlNotifThread \<Rightarrow> CAPCCtrlNotifThread" where
  "sendStopSignal_p t =
     (let (t, n) = newNotif_p t
      in notify_all (t\<lparr>nt_apcNotifQ := nt_apcNotifQ t @ [n\<lparr>nf_type := NT_TERMINATE\<rparr>]\<rparr>))"

section \<open>The thread\<close>

text \<open>The switch on the type of the notification.\<close>

definition notif_dispatch :: "apcnotif_t \<Rightarrow> notif_call list option" where
  "notif_dispatch n = (case nf_type n of
      NT_START \<Rightarrow> (case nf_apc n of Some a \<Rightarrow> Some [apcStarted a] | None \<Rightarrow> None)
    | NT_CONNECT \<Rightarrow>
        (case (nf_apc n, nf_param n) of (Some a, UConnect p) \<Rightarrow> Some [apcConnected a p] | _ \<Rightarrow> None)
    | NT_DISCONNECT \<Rightarrow>
        (case (nf_apc n, nf_param n) of (Some a, UDisconnect p) \<Rightarrow> Some [apcDisconnected a p] | _ \<Rightarrow> None)
    | NT_MSGRCVD \<Rightarrow>
        (case nf_param n of
           UMsg p \<Rightarrow> if unat (nf_payloadSize n) \<le> length (nf_payload n)
                     then Some [messageReceived p (take (unat (nf_payloadSize n)) (nf_payload n))] else None
         | _ \<Rightarrow> None)
    | _ \<Rightarrow> Some [])"

text \<open>Lines 80 to 88: the last notification of the list is taken.\<close>

definition thread_take :: "CAPCCtrlNotifThread \<Rightarrow> CAPCCtrlNotifThread" where
  "thread_take t =
     (let n = List.last (nt_apcNotifQ t);
          t = t\<lparr>nt_apcNotifQ := butlast (nt_apcNotifQ t)\<rparr>
      in if nf_type n = NT_TERMINATE
         then (freeNotif_p n (t\<lparr>nt_isWork := False\<rparr>))\<lparr>nt_thread := Finished\<rparr>
         else t\<lparr>nt_thread := Holding n\<rparr>)"

definition threadFun :: "CAPCCtrlNotifThread \<Rightarrow> (CAPCCtrlNotifThread \<times> notif_call list) option" where
  "threadFun t = (case nt_thread t of
      Starting \<Rightarrow> Some (t\<lparr>nt_isWork := True, nt_thread := AtLoop\<rparr>, [])
    | AtLoop \<Rightarrow>
        Some (if nt_apcNotifQ t = [] then t\<lparr>nt_thread := Waiting\<rparr> else thread_take t, [])
    | Woken \<Rightarrow>
        Some (if nt_apcNotifQ t = [] then t\<lparr>nt_thread := AtLoop\<rparr> else thread_take t, [])
    | Holding n \<Rightarrow>
        (case (if nt_hasExtrn t then notif_dispatch n else Some []) of
           None \<Rightarrow> None
         | Some calls \<Rightarrow> Some ((freeNotif_p n t)\<lparr>nt_thread := AtLoop\<rparr>, calls))
    | _ \<Rightarrow> Some (t, []))"

section \<open>Start and stop\<close>

text \<open>\<^verbatim>\<open>began\<close>: the new thread made its first step while \<^verbatim>\<open>start\<close> waited (up to ten seconds).\<close>

definition notif_start :: "bool \<Rightarrow> CAPCCtrlNotifThread \<Rightarrow> (CAPCCtrlNotifThread \<times> apc_error_t) option" where
  "notif_start began t =
     (if nt_thread t \<noteq> NoThread then None
      else let t = t\<lparr>nt_thread := Starting\<rparr>;
               t = (if began \<and> \<not> nt_isWork t then t\<lparr>nt_isWork := True, nt_thread := AtLoop\<rparr> else t)
           in if \<not> nt_isWork t then Some (t, APC_ERR_STATE) else Some (t, APC_OK))"

text \<open>\<^verbatim>\<open>join\<close>: the thread runs to its end; \<^verbatim>\<open>fuel\<close> bounds the number of its steps.\<close>

fun thread_join :: "nat \<Rightarrow> CAPCCtrlNotifThread \<Rightarrow> (CAPCCtrlNotifThread \<times> notif_call list) option" where
  "thread_join 0 t = (if nt_thread t = Finished then Some (t, []) else None)"
| "thread_join (Suc fuel) t =
     (if nt_thread t = Finished then Some (t, [])
      else case threadFun t of None \<Rightarrow> None
           | Some (t, calls) \<Rightarrow> map_option (\<lambda>(t, calls'). (t, calls @ calls')) (thread_join fuel t))"

definition notif_stop :: "nat \<Rightarrow> CAPCCtrlNotifThread \<Rightarrow> (CAPCCtrlNotifThread \<times> notif_call list) option" where
  "notif_stop fuel t =
     (case (if nt_thread t \<noteq> NoThread
            then map_option (\<lambda>(t, calls). (t\<lparr>nt_thread := NoThread\<rparr>, calls)) (thread_join fuel (sendStopSignal_p t))
            else Some (t, [])) of
        None \<Rightarrow> None
      | Some (t, calls) \<Rightarrow> Some (t\<lparr>nt_apcNotifQ := [], nt_freeApcNotif := []\<rparr>, calls))"


section \<open>The notification service\<close>

text \<open>What the producers ask for, and what else may happen besides posts and steps of the thread.\<close>

fun notif_post :: "notif_call \<Rightarrow> CAPCCtrlNotifThread \<Rightarrow> CAPCCtrlNotifThread option" where
  "notif_post (apcStarted a) t = Some (notif_apcStarted a t)"
| "notif_post (apcConnected a p) t = Some (notif_apcConnected a p t)"
| "notif_post (apcDisconnected a p) t = Some (notif_apcDisconnected a p t)"
| "notif_post (messageReceived p pl) t = notif_messageReceived p pl (word_of_nat (length pl)) t"

fun notif_valid :: "notif_call \<Rightarrow> bool" where
  "notif_valid (messageReceived p pl) \<longleftrightarrow> length pl < 2 ^ 16"
| "notif_valid _ \<longleftrightarrow> True"

datatype notif_other = StopSignal | SpuriousWake

fun notif_ctl :: "notif_other \<Rightarrow> CAPCCtrlNotifThread \<Rightarrow> CAPCCtrlNotifThread" where
  "notif_ctl StopSignal t = sendStopSignal_p t"
| "notif_ctl SpuriousWake t = notify_all t"

fun held :: "thread_pos \<Rightarrow> apcnotif_t list" where
  "held (Holding n) = [n]"
| "held _ = []"

definition notif_todo :: "CAPCCtrlNotifThread \<Rightarrow> apcnotif_t list" where
  "notif_todo t = held (nt_thread t) @ rev (nt_apcNotifQ t)"

definition notif_pending :: "CAPCCtrlNotifThread \<Rightarrow> notif_call list" where
  "notif_pending t = concat (map (the \<circ> notif_dispatch) (notif_todo t))"

definition notif_inv :: "CAPCCtrlNotifThread \<Rightarrow> bool" where
  "notif_inv t \<longleftrightarrow> list_all (\<lambda>n. notif_dispatch n \<noteq> None) (notif_todo t)
     \<and> (nt_thread t = Waiting \<longrightarrow> nt_apcNotifQ t = []) \<and> nt_hasExtrn t"

lemma newNotif_p_simps [simp]:
  "nt_apcNotifQ (fst (newNotif_p t)) = nt_apcNotifQ t" "nt_thread (fst (newNotif_p t)) = nt_thread t"
  "nt_hasExtrn (fst (newNotif_p t)) = nt_hasExtrn t" "nt_isWork (fst (newNotif_p t)) = nt_isWork t"
  by (simp_all add: newNotif_p_def)

lemma notify_all_simps [simp]:
  "nt_apcNotifQ (notify_all t) = nt_apcNotifQ t" "nt_hasExtrn (notify_all t) = nt_hasExtrn t"
  "held (nt_thread (notify_all t)) = held (nt_thread t)" "nt_thread (notify_all t) \<noteq> Waiting"
  "notif_todo (notify_all t) = notif_todo t" "nt_isWork (notify_all t) = nt_isWork t"
  by (simp_all add: notify_all_def notif_todo_def)

lemma freeNotif_p_simps [simp]:
  "nt_apcNotifQ (freeNotif_p n t) = nt_apcNotifQ t" "nt_hasExtrn (freeNotif_p n t) = nt_hasExtrn t"
  "nt_isWork (freeNotif_p n t) = nt_isWork t"
  by (simp_all add: freeNotif_p_def)

lemma insertNotif_p_todo:
  "notif_todo (insertNotif_p n t) = notif_todo t @ [n]"
  "nt_hasExtrn (insertNotif_p n t) = nt_hasExtrn t"
  by (simp_all add: insertNotif_p_def Let_def notif_todo_def)

lemma insertNotif_p_waiting:
  "(nt_thread t = Waiting \<longrightarrow> nt_apcNotifQ t = []) \<Longrightarrow> nt_thread (insertNotif_p n t) \<noteq> Waiting"
  by (auto simp: insertNotif_p_def Let_def notify_all_def)

lemma notif_todo_new [simp]: "notif_todo (fst (newNotif_p t)) = notif_todo t"
  by (simp add: notif_todo_def)

text \<open>Inserting a notification that stands for one call appends the call.\<close>

lemma insertNotif_p_posts:
  assumes "notif_inv t" and "notif_dispatch n = Some [m]"
  shows "notif_inv (insertNotif_p n (fst (newNotif_p t)))
    \<and> notif_pending (insertNotif_p n (fst (newNotif_p t))) = notif_pending t @ [m]"
  using assms insertNotif_p_waiting[of "fst (newNotif_p t)" n]
  by (simp add: notif_inv_def notif_pending_def insertNotif_p_todo)

lemma grow_covers: "unat s < unat (((ucast (s :: u16) :: u32) AND NOT 0x1F) + 0x20)"
proof -
  let ?w = "ucast s :: u32"
  have w: "unat ?w = unat s" by (simp add: unat_ucast_up)
  have split: "(?w AND NOT 0x1F) + (?w AND 0x1F) = ?w"
    by (subst disjunctive_add) (auto simp: bit_simps intro!: bit_word_eqI)
  have small: "unat (?w AND 0x1F) \<le> 0x1F" using word_and_le1[of ?w "0x1F"] by (simp add: word_le_nat_alt)
  have up: "unat (?w AND NOT 0x1F) \<le> unat ?w" using word_and_le2[of ?w "NOT 0x1F"] by (simp add: word_le_nat_alt)
  have s: "unat s < 2 ^ 16" using unsigned_less[of s] by simp
  have "unat ?w = unat (?w AND NOT 0x1F) + unat (?w AND 0x1F)"
    by (subst split[symmetric], rule unat_add_lem[THEN iffD1]) (use small up w s in simp)
  moreover have "unat ((?w AND NOT 0x1F) + 0x20) = unat (?w AND NOT 0x1F) + 0x20"
    by (subst unat_add_lem[THEN iffD1]) (use up w s in simp_all)
  ultimately show ?thesis using small w by linarith
qed

lemma store_payload_ok:
  assumes "length pl < 2 ^ 16"
  obtains v where "store_payload v0 pl (word_of_nat (length pl)) = Some v"
    and "length pl \<le> length v" and "take (length pl) v = pl"
proof -
  have n: "unat (word_of_nat (length pl) :: u16) = length pl"
    using assms by (simp add: unat_of_nat take_bit_eq_mod)
  show thesis
  proof (cases "pl = []")
    case True
    then show ?thesis using that[of v0] by (simp add: store_payload_def)
  next
    case False
    let ?s = "word_of_nat (length pl) :: u16"
    let ?v = "if length pl > length v0 then vec_resize (unat (((ucast ?s :: u32) AND NOT 0x1F) + 0x20)) v0 else v0"
    have "?s > 0" using n False by (metis length_greater_0_conv unat_gt_0 word_neq_0_conv)
    moreover have le: "length pl \<le> length ?v"
      using grow_covers[of ?s] n by (auto simp: vec_resize_def)
    ultimately have "store_payload v0 pl ?s = Some (overwrite 0 pl ?v)"
      by (simp add: store_payload_def n memcpy_at_def Let_def)
    then show ?thesis using that le by (metis add_0 length_overwrite take_overwrite_0)
  qed
qed

lemma notif_post_accepted:
  assumes inv: "notif_inv t" and "notif_valid m" and "nt_isWork t"
  shows "\<exists>t'. notif_post m t = Some t' \<and> notif_inv t' \<and> notif_pending t' = notif_pending t @ [m]"
proof (cases m)
  case (messageReceived p pl)
  obtain v where v: "store_payload (nf_payload (snd (newNotif_p t))) pl (word_of_nat (length pl)) = Some v"
      "length pl \<le> length v" "take (length pl) v = pl"
    using store_payload_ok[of pl] assms(2) messageReceived by auto
  let ?n = "(snd (newNotif_p t))\<lparr>nf_type := NT_MSGRCVD, nf_param := UMsg p, nf_payload := v,
      nf_payloadSize := ucast (word_of_nat (length pl) :: u16)\<rparr>"
  have "length pl < 2 ^ 16" using assms(2) messageReceived by simp
  then have "unat (ucast (word_of_nat (length pl) :: u16) :: u32) = length pl"
    by (simp add: unat_ucast_up unat_of_nat take_bit_eq_mod)
  then have "notif_dispatch ?n = Some [m]"
    using v(2,3) messageReceived by (simp add: notif_dispatch_def)
  moreover have "notif_post m t = Some (insertNotif_p ?n (fst (newNotif_p t)))"
    using v(1) messageReceived assms(3) by (simp add: notif_messageReceived_def case_prod_beta)
  ultimately show ?thesis using insertNotif_p_posts[OF inv] by simp
next
  case (apcStarted a)
  then show ?thesis
    using insertNotif_p_posts[OF inv, of "(snd (newNotif_p t))\<lparr>nf_type := NT_START, nf_apc := Some a\<rparr>" m] assms(3)
    by (simp add: notif_apcStarted_def case_prod_beta notif_dispatch_def)
next
  case (apcConnected a p)
  then show ?thesis
    using insertNotif_p_posts[OF inv, of "(snd (newNotif_p t))\<lparr>nf_type := NT_CONNECT, nf_apc := Some a,
        nf_param := UConnect p\<rparr>" m] assms(3)
    by (simp add: notif_apcConnected_def case_prod_beta notif_dispatch_def)
next
  case (apcDisconnected a p)
  then show ?thesis
    using insertNotif_p_posts[OF inv, of "(snd (newNotif_p t))\<lparr>nf_type := NT_DISCONNECT, nf_apc := Some a,
        nf_param := UDisconnect p\<rparr>" m] assms(3)
    by (simp add: notif_apcDisconnected_def case_prod_beta notif_dispatch_def)
qed

lemma notif_post_refused: "\<not> nt_isWork t \<Longrightarrow> notif_post m t = Some t"
  by (cases m) (simp_all add: notif_apcStarted_def notif_apcConnected_def notif_apcDisconnected_def
      notif_messageReceived_def)

text \<open>A step that takes a notification moves it from the list into the hands of the thread.\<close>

lemma thread_take_ok:
  assumes "list_all (\<lambda>n. notif_dispatch n \<noteq> None) (rev (nt_apcNotifQ t))" and "nt_apcNotifQ t \<noteq> []"
  shows "list_all (\<lambda>n. notif_dispatch n \<noteq> None) (notif_todo (thread_take t))
    \<and> nt_thread (thread_take t) \<noteq> Waiting \<and> nt_hasExtrn (thread_take t) = nt_hasExtrn t
    \<and> notif_pending (thread_take t) = concat (map (the \<circ> notif_dispatch) (rev (nt_apcNotifQ t)))"
proof -
  obtain q n where "nt_apcNotifQ t = q @ [n]" using assms(2) by (metis append_butlast_last_id)
  then show ?thesis
    using assms(1) by (simp add: thread_take_def notif_todo_def notif_pending_def notif_dispatch_def Let_def)
qed

lemma threadFun_ok:
  assumes "notif_inv t"
  shows "\<exists>t' out. threadFun t = Some (t', out) \<and> notif_inv t' \<and> notif_pending t = out @ notif_pending t'"
proof -
  note inv = assms[unfolded notif_inv_def notif_todo_def]
  have looping: "\<exists>t' out. Some (if nt_apcNotifQ t = [] then t\<lparr>nt_thread := p\<rparr> else thread_take t, []) = Some (t', out)
      \<and> notif_inv t' \<and> notif_pending t = out @ notif_pending t'"
    if "held (nt_thread t) = []" "held p = []" for p
    using inv that thread_take_ok[of t] by (auto simp: notif_inv_def notif_todo_def notif_pending_def)
  show ?thesis
  proof (cases "nt_thread t")
    case AtLoop
    then show ?thesis using looping[of Waiting] by (simp add: threadFun_def)
  next
    case Woken
    then show ?thesis using looping[of AtLoop] by (simp add: threadFun_def)
  next
    case (Holding n)
    then obtain calls where "notif_dispatch n = Some calls" using inv by auto
    then show ?thesis using inv Holding
      by (auto simp: threadFun_def notif_inv_def notif_todo_def notif_pending_def)
  qed (use inv in \<open>auto simp: threadFun_def notif_inv_def notif_todo_def notif_pending_def\<close>)
qed

lemma notif_ctl_ok:
  assumes "notif_inv t"
  shows "notif_inv (notif_ctl c t) \<and> notif_pending (notif_ctl c t) = notif_pending t"
proof (cases c)
  case StopSignal
  have "notif_dispatch (n\<lparr>nf_type := NT_TERMINATE\<rparr>) = Some []" for n by (simp add: notif_dispatch_def)
  then show ?thesis
    using assms StopSignal
    by (simp add: sendStopSignal_p_def case_prod_beta notif_inv_def notif_pending_def notif_todo_def)
next
  case SpuriousWake
  then show ?thesis using assms by (simp add: notif_inv_def notif_pending_def)
qed

interpretation notif_service: message_service notif_post threadFun notif_ctl nt_isWork notif_valid notif_pending notif_inv
  by unfold_locales (use notif_post_accepted notif_post_refused threadFun_ok notif_ctl_ok in blast)+

section \<open>Properties\<close>

definition started_thread :: CAPCCtrlNotifThread where
  "started_thread = new_CAPCCtrlNotifThread\<lparr>nt_thread := AtLoop, nt_hasExtrn := True, nt_isWork := True\<rparr>"

lemma notif_start_started:
  "Option.bind (notif_init True new_CAPCCtrlNotifThread) (notif_start True) = Some (started_thread, APC_OK)"
  by (simp add: notif_init_def notif_start_def new_CAPCCtrlNotifThread_def started_thread_def Let_def)

lemma started_thread_inv: "notif_inv started_thread" "notif_pending started_thread = []"
  by (simp_all add: notif_inv_def notif_todo_def notif_pending_def started_thread_def new_CAPCCtrlNotifThread_def)

text \<open>
  Claim C22.  After a successful start, whatever the producers post, however their posts interleave with the steps of
  the thread, with stop signals and with spurious wake-ups: no step fails, the owner is called with exactly the
  accepted notifications in the order of their posting (payload bytes included, although notification objects are
  reused), the calls not yet made are the ones still queued or in hand, and the thread never sleeps on a queue that is not empty.\<close>

theorem notif_delivers_in_order:
  assumes "Option.bind (notif_init True new_CAPCCtrlNotifThread) (notif_start True) = Some (t0, APC_OK)"
    and "\<And>m. Post m \<in> set evs \<Longrightarrow> notif_valid m"
  shows "\<exists>t acc calls. service_run notif_post threadFun notif_ctl nt_isWork evs t0 = Some (t, acc, calls)
    \<and> acc = calls @ notif_pending t \<and> (nt_thread t = Waiting \<longrightarrow> notif_pending t = [])"
proof -
  have "t0 = started_thread" using assms(1) notif_start_started by simp
  then obtain t acc calls where
      r: "service_run notif_post threadFun notif_ctl nt_isWork evs t0 = Some (t, acc, calls)"
      and i: "notif_inv t" and "acc = calls @ notif_pending t"
    using notif_service.service_fifo[of t0 evs] started_thread_inv assms(2) by auto
  moreover have "nt_thread t = Waiting \<Longrightarrow> notif_pending t = []"
    using i by (simp add: notif_inv_def notif_pending_def notif_todo_def)
  ultimately show ?thesis by blast
qed

theorem notif_delivers_in_order_witness:
  "\<exists>t acc calls.
     service_run notif_post threadFun notif_ctl nt_isWork [Serve, Post (apcStarted 7), Serve, Serve] started_thread
       = Some (t, acc, calls) \<and> acc = calls @ notif_pending t"
  using notif_delivers_in_order[OF notif_start_started, of "[Serve, Post (apcStarted 7), Serve, Serve]"] by auto

text \<open>After the stop signal the thread ends within three of its steps.\<close>

lemma thread_join_Finished: "nt_thread t = Finished \<Longrightarrow> thread_join fuel t = Some (t, [])"
  by (cases fuel) simp_all

lemma thread_take_terminate:
  assumes "nt_apcNotifQ t = q @ [n]" "nf_type n = NT_TERMINATE"
  shows "nt_thread (thread_take t) = Finished" "nt_apcNotifQ (thread_take t) = q"
  using assms by (simp_all add: thread_take_def Let_def)

lemma thread_join_terminates:
  assumes inv: "notif_inv t" and q: "nt_apcNotifQ t = q @ [n]" "nf_type n = NT_TERMINATE"
    and "nt_thread t \<noteq> NoThread"
  shows "\<exists>t' calls. thread_join 3 t = Some (t', calls) \<and> nt_thread t' = Finished
    \<and> (nt_thread t \<noteq> Finished \<longrightarrow> calls = concat (map (the \<circ> notif_dispatch) (held (nt_thread t))))"
proof -
  have at: "\<exists>t'. thread_join (Suc k) s = Some (t', []) \<and> nt_thread t' = Finished"
    if "nt_thread s = AtLoop" "nt_apcNotifQ s = q @ [n]" for s k
    using that thread_take_terminate[OF that(2) q(2)] by (simp add: threadFun_def thread_join_Finished)
  have three: "thread_join 3 t = thread_join (Suc (Suc (Suc 0))) t" by (simp add: numeral_3_eq_3)
  show ?thesis
  proof (cases "nt_thread t")
    case Starting
    then show ?thesis using at[of "t\<lparr>nt_isWork := True, nt_thread := AtLoop\<rparr>" 1] q unfolding three
      by (auto simp: threadFun_def)
  next
    case AtLoop
    then show ?thesis using at[of t "Suc (Suc 0)"] q unfolding three by auto
  next
    case Waiting
    then show ?thesis using inv q by (simp add: notif_inv_def)
  next
    case Woken
    then show ?thesis using q thread_take_terminate[OF q] unfolding three
      by (auto simp: threadFun_def thread_join_Finished)
  next
    case (Holding m)
    then obtain calls where "notif_dispatch m = Some calls" using inv by (auto simp: notif_inv_def notif_todo_def)
    then show ?thesis using at[of "(freeNotif_p m t)\<lparr>nt_thread := AtLoop\<rparr>" 1] q Holding inv unfolding three
      by (auto simp: threadFun_def notif_inv_def)
  next
    case Finished
    then show ?thesis by (simp add: thread_join_Finished)
  qed (use assms in simp)
qed

lemma dispatch_one: "notif_dispatch n = Some calls \<Longrightarrow> length calls \<le> 1"
  by (auto simp: notif_dispatch_def split: apc_notiftype_t.splits option.splits notif_param.splits if_splits)

lemma notif_stop_ends:
  assumes "notif_inv t"
  shows "\<exists>t' calls. notif_stop 3 t = Some (t', calls) \<and> nt_thread t' = NoThread \<and> nt_apcNotifQ t' = []
    \<and> nt_freeApcNotif t' = [] \<and> length calls \<le> 1 \<and> (\<exists>rest. calls @ rest = notif_pending t)"
proof -
  let ?u = "sendStopSignal_p t"
  have u: "notif_inv ?u" using notif_ctl_ok[OF assms, of StopSignal] by simp
  obtain n where q: "nt_apcNotifQ ?u = nt_apcNotifQ t @ [n]" "nf_type n = NT_TERMINATE"
    by (simp add: sendStopSignal_p_def case_prod_beta)
  have h: "held (nt_thread ?u) = held (nt_thread t)" by (simp add: sendStopSignal_p_def case_prod_beta)
  show ?thesis
  proof (cases "nt_thread t = NoThread")
    case True
    then show ?thesis by (auto simp: notif_stop_def)
  next
    case False
    then have "nt_thread ?u \<noteq> NoThread" by (simp add: sendStopSignal_p_def case_prod_beta notify_all_def)
    from thread_join_terminates[OF u q this] obtain t' calls where
        j: "thread_join 3 ?u = Some (t', calls)" "nt_thread t' = Finished"
          "nt_thread ?u \<noteq> Finished \<Longrightarrow> calls = concat (map (the \<circ> notif_dispatch) (held (nt_thread t)))"
      using h by auto
    have c: "calls = concat (map (the \<circ> notif_dispatch) (held (nt_thread t)))"
      using j thread_join_Finished[of ?u 3] h by (cases "nt_thread ?u = Finished") (metis Pair_inject concat.simps(1)
        held.simps list.map_disc_iff option.inject)+
    moreover have "length (concat (map (the \<circ> notif_dispatch) (held (nt_thread t)))) \<le> 1"
      using assms dispatch_one by (cases "nt_thread t") (auto simp: notif_inv_def notif_todo_def)
    ultimately have "length calls \<le> 1" "\<exists>rest. calls @ rest = notif_pending t"
      by (auto simp: notif_pending_def notif_todo_def)
    then show ?thesis using j(1) False by (simp add: notif_stop_def)
  qed
qed

text \<open>
  Claim C23.  In every state the started service can reach, stopping ends the thread within three of its own steps, wherever it
  is (also asleep): it makes at most the call it has in hand, so the owner has seen a prefix of the accepted
  notifications, everything still queued is dropped, and both lists are emptied.\<close>

theorem notif_stop_terminates:
  assumes "\<And>m. Post m \<in> set evs \<Longrightarrow> notif_valid m"
    and "service_run notif_post threadFun notif_ctl nt_isWork evs started_thread = Some (t, acc, calls)"
  shows "\<exists>t' calls' rest. notif_stop 3 t = Some (t', calls') \<and> nt_thread t' = NoThread \<and> nt_apcNotifQ t' = []
    \<and> nt_freeApcNotif t' = [] \<and> length calls' \<le> 1 \<and> acc = calls @ calls' @ rest"
proof -
  have "notif_inv t" "acc = calls @ notif_pending t"
    using notif_service.service_fifo[OF started_thread_inv(1), of evs] assms started_thread_inv(2) by auto
  then show ?thesis using notif_stop_ends[of t] by metis
qed

theorem notif_stop_terminates_witness:
  "\<exists>t acc calls t' calls' rest.
     service_run notif_post threadFun notif_ctl nt_isWork [Post (apcStarted 7), Serve, Post (apcStarted 8)] started_thread
       = Some (t, acc, calls) \<and> notif_stop 3 t = Some (t', calls') \<and> acc = calls @ calls' @ rest"
proof -
  let ?evs = "[Post (apcStarted 7), Serve, Post (apcStarted 8)]"
  obtain t acc calls where
    r: "service_run notif_post threadFun notif_ctl nt_isWork ?evs started_thread = Some (t, acc, calls)"
    by (auto simp: threadFun_def notif_apcStarted_def started_thread_def new_CAPCCtrlNotifThread_def
        insertNotif_p_def newNotif_p_def notify_all_def thread_take_def new_apcnotif_t_def)
  then show ?thesis using notif_stop_terminates[OF _ r] by fastforce
qed

end
