(* ===== verification/APC_Client.thy ===== *)
theory APC_Client
  imports APC_Cache Notif_Thread
begin

text \<open>
  The client side of the session with the manager (\<^verbatim>\<open>APCClient.h\<close>, \<^verbatim>\<open>APCClient.cpp\<close>) and the thread that
  runs its asynchronous operations (\<^verbatim>\<open>IOSrvThread.cpp\<close>).

  The client keeps the connectors it created in a list; a shared pointer to a connector is its
  position.  An operation under the lock is one function; it returns the new client, its result and the calls it
  makes: on the socket and the notification thread through a connector, on the timer and on the owner of the client.  The
  environment of a call says what the operating system does: clock, name resolution and connection,
  timers, and one connector environment for each call the operation makes on a connector.
\<close>

section \<open>IO service thread\<close>

record CIOSrvThread =
  io_hasSrv :: bool
  io_liveTimer :: bool
  io_barrier :: bool
  io_thread :: bool

definition new_CIOSrvThread :: CIOSrvThread where
  "new_CIOSrvThread = \<lparr>io_hasSrv = False, io_liveTimer = False, io_barrier = False, io_thread = False\<rparr>"

definition startIOSrvThread :: "CIOSrvThread \<Rightarrow> CIOSrvThread \<times> apc_error_t" where
  "startIOSrvThread s =
     (if io_hasSrv s \<or> io_liveTimer s \<or> io_barrier s \<or> io_thread s then (s, APC_ERR_INIT)
      else (s\<lparr>io_hasSrv := True, io_liveTimer := True, io_barrier := True, io_thread := True\<rparr>, APC_OK))"

definition stopIOSrvThread :: "CIOSrvThread \<Rightarrow> CIOSrvThread" where
  "stopIOSrvThread s = s\<lparr>io_barrier := False, io_thread := False, io_liveTimer := False, io_hasSrv := False\<rparr>"

section \<open>Client state\<close>

datatype apcclient_state_t =
  APCCLIENT_STATE_INIT | APCCLIENT_STATE_ONLINE | APCCLIENT_STATE_OFFLINE | APCCLIENT_STATE_DISCONNECT

text \<open>The calls on the owner of the client (\<^verbatim>\<open>IAPCClientNotif\<close>).\<close>

datatype IAPCClientNotif =
    in_connected "byte list" u32
  | in_disconnected apc_stop_reason_t
  | in_dataRx ap_intf_sendhdr_t "byte list"
  | in_resume
  | in_pause
  | in_offline apc_stop_reason_t
  | in_online
  | in_resetAP
  | in_disconnectAP
  | in_getTime

datatype client_out =
    ConnOut nat conn_out
  | UserCall IAPCClientNotif
  | TimerWait u32
  | TimerCancel

record open_param_t =
  op_hasInput :: bool
  op_intfName :: "byte list"

record start_param_t =
  sp_host :: "byte list"
  sp_port :: u16
  sp_kaTimeout :: u32
  sp_freeBufTimeout :: u32
  sp_reconnectionDelayMsec :: u32
  sp_disconnectTimeoutMsec :: u32

definition TIME_EMPTY :: nat where "TIME_EMPTY = 0"

text \<open>\<^verbatim>\<open>cl_reconnectTimer\<close> is \<^const>\<open>None\<close> for a null pointer, else whether a wait is pending.\<close>

record CAPCClient =
  cl_state :: apcclient_state_t
  cl_intfId :: ap_intf_id_t
  cl_pConnector :: "nat option"
  cl_cache :: CAPCCache
  cl_lastRxSeqNum :: u32
  cl_host :: "byte list"
  cl_port :: u16
  cl_kaTimeout :: u32
  cl_freeBufTimeout :: u32
  cl_intfName :: "byte list"
  cl_hasInput :: bool
  cl_ioSrvThread :: CIOSrvThread
  cl_reconnectTimer :: "bool option"
  cl_disconnectTime :: nat
  cl_reconnectionDelayMsec :: u32
  cl_disconnectTimeoutMsec :: u32
  cl_currentGpsState :: ap_int_gpslockstat_t
  cl_netId :: u32
  cl_conns :: "CAPCConnector list"

record client_env =
  ce_now :: nat
  ce_conn :: "nat \<Rightarrow> conn_env"
  ce_resetOk :: bool
  ce_ipOk :: bool
  ce_timerOk :: bool
  ce_swVersion :: "byte list"

type_synonym 'r client_res = "(CAPCClient, 'r, client_out) outcome"

definition new_CAPCClient :: "u32 \<Rightarrow> CAPCClient" where
  "new_CAPCClient cacheSize =
     \<lparr>cl_state = APCCLIENT_STATE_INIT, cl_intfId = APINTFID_EMPTY, cl_pConnector = None,
      cl_cache = new_CAPCCache cacheSize, cl_lastRxSeqNum = 0, cl_host = [], cl_port = 0, cl_kaTimeout = 0,
      cl_freeBufTimeout = 0, cl_intfName = [], cl_hasInput = False, cl_ioSrvThread = new_CIOSrvThread,
      cl_reconnectTimer = None, cl_disconnectTime = TIME_EMPTY, cl_reconnectionDelayMsec = 0,
      cl_disconnectTimeoutMsec = 0, cl_currentGpsState = APINTF_GPS_NOLOCK, cl_netId = 0, cl_conns = []\<rparr>"

definition gps_byte :: "ap_int_gpslockstat_t \<Rightarrow> byte" where
  "gps_byte g = (case g of APINTF_GPS_LOCK \<Rightarrow> 0 | APINTF_GPS_NOLOCK \<Rightarrow> 1)"

definition user_call :: "CAPCClient \<Rightarrow> IAPCClientNotif \<Rightarrow> client_out list" where
  "user_call cl u = (if cl_hasInput cl then [UserCall u] else [])"

section \<open>Calls on a connector\<close>

definition on_conn ::
  "nat \<Rightarrow> (CAPCConnector \<Rightarrow> (CAPCConnector \<times> 'r \<times> conn_out list) option) \<Rightarrow> CAPCClient \<Rightarrow> 'r client_res" where
  "on_conn i f cl =
     (if i < length (cl_conns cl) then
        case f (cl_conns cl ! i) of None \<Rightarrow> None
        | Some (c, r, out) \<Rightarrow> Some (cl\<lparr>cl_conns := (cl_conns cl)[i := c]\<rparr>, r, map (ConnOut i) out)
      else None)"

text \<open>\<^verbatim>\<open>pAPC->stop(reason, err, flags)\<close> with its defaults: finish writing, send the notification.\<close>

definition stop_conn ::
  "conn_env \<Rightarrow> nat \<Rightarrow> apc_stop_reason_t \<Rightarrow> apc_error_t \<Rightarrow> stopflags_t \<Rightarrow> CAPCClient \<Rightarrow> unit client_res" where
  "stop_conn e i reason err fl cl =
     on_conn i (\<lambda>c. case conn_stop e c reason err fl True True of (c, out) \<Rightarrow> Some (c, (), out)) cl"

section \<open>Timer and IP connection\<close>

definition client_startTimer_p :: "client_env \<Rightarrow> CAPCClient \<Rightarrow> apc_error_t client_res" where
  "client_startTimer_p e cl =
     (if ce_timerOk e
      then Some (cl\<lparr>cl_reconnectTimer := Some True\<rparr>, APC_OK, [TimerWait (cl_reconnectionDelayMsec cl)])
      else Some (cl\<lparr>cl_reconnectTimer := Some False\<rparr>, APC_ERR_ASYNC_OPERATION, []))"

definition client_stopTimer_p :: "CAPCClient \<Rightarrow> unit client_res" where
  "client_stopTimer_p cl =
     (if cl_reconnectTimer cl = None then Some (cl, (), [])
      else Some (cl\<lparr>cl_reconnectTimer := None\<rparr>, (), [TimerCancel]))"

text \<open>\<^verbatim>\<open>(uint32_t)(m_cache.getCacheSize() * 0.75)\<close>: the product is exact in double precision.\<close>

definition ipConnect_p :: "client_env \<Rightarrow> CAPCClient \<Rightarrow> CAPCClient \<times> nat option" where
  "ipConnect_p e cl =
     (let connectorParam =
            \<lparr>ip_apcConnect = cl_intfName cl, ip_hasNotif = True, ip_kaTimeout = cl_kaTimeout cl,
             ip_freeBufTimeout = cl_freeBufTimeout cl,
             ip_unconfirmedInpPkt = word_of_nat (3 * unat (cache_size (cl_cache cl)) div 4),
             ip_swVersion = ce_swVersion e\<rparr>
      in if ce_ipOk e
         then (cl\<lparr>cl_conns := cl_conns cl @ [new_CAPCConnector connectorParam]\<rparr>, Some (length (cl_conns cl)))
         else (cl, None))"

section \<open>Sending\<close>

text \<open>
  \<^verbatim>\<open>seqNum0\<close> is the value of the local variable \<^verbatim>\<open>seqNum\<close> before the cache writes it: it
  is not initialised.
\<close>

definition client_sendData_p ::
  "client_env \<Rightarrow> u32 \<Rightarrow> CAPCClient \<Rightarrow> apc_msg_type_t \<Rightarrow> byte list option \<Rightarrow> u16 \<Rightarrow> byte list option \<Rightarrow> u16
     \<Rightarrow> apc_error_t client_res" where
  "client_sendData_p e seqNum0 cl type payload1 size1 payload2 size2 =
     (if cl_state cl = APCCLIENT_STATE_DISCONNECT then Some (cl, APC_ERR_DISCONNECT, [])
      else if cl_state cl = APCCLIENT_STATE_OFFLINE then Some (cl, APC_ERR_OFFLINE, [])
      else if cl_state cl \<noteq> APCCLIENT_STATE_ONLINE then Some (cl, APC_ERR_NOTCONNECT, [])
      else case cl_pConnector cl of None \<Rightarrow> Some (cl, APC_ERR_STATE, [])
      | Some i \<Rightarrow>
         (case addPacket (cl_cache cl) type payload1 (ucast size1) payload2 (ucast size2) of None \<Rightarrow> None
          | Some (cache, _, q) \<Rightarrow>
              let seqNum = (case q of None \<Rightarrow> seqNum0 | Some s \<Rightarrow> s) in
              and_then
                (on_conn i (\<lambda>c. sendData (ce_conn e 0) c type 0 seqNum payload1 size1 payload2 size2)
                   (cl\<lparr>cl_cache := cache\<rparr>))
                (\<lambda>cl res.
                   and_then
                     (if res = APC_ERR_PKTSERIALIZATION then
                        stop_conn (ce_conn e 1) i APC_STOP_WRITE res STOP_FL_DISCONNECT cl
                      else if res \<noteq> APC_OK then
                        stop_conn (ce_conn e 1) i APC_STOP_WRITE res STOP_FL_OFFLINE cl
                      else Some (cl, (), []))
                     (\<lambda>cl _. Some (cl, res, [])))))"

text \<open>The 32-bit length is narrowed to the 16 bits of \<^verbatim>\<open>sendData_p\<close>.\<close>

definition client_sendData :: "client_env \<Rightarrow> u32 \<Rightarrow> CAPCClient \<Rightarrow> byte list \<Rightarrow> u32 \<Rightarrow> apc_error_t client_res" where
  "client_sendData e seqNum0 cl payload payloadLength =
     client_sendData_p e seqNum0 cl APC_NET_RX (Some payload) (ucast payloadLength) None 0"

definition sendTxDone :: "client_env \<Rightarrow> u32 \<Rightarrow> CAPCClient \<Rightarrow> ap_intf_txdone_t \<Rightarrow> apc_error_t client_res" where
  "sendTxDone e seqNum0 cl p =
     (let cmdParam = le_bytes 2 (td_txDoneId p) @ [case td_status p of APINTF_TXDONE_OK \<Rightarrow> 0 | APINTF_TXDONE_ERR \<Rightarrow> 1]
      in client_sendData_p e seqNum0 cl APC_NET_TXDONE (Some cmdParam) (word_of_nat sizeof_apc_msg_net_txdone_s) None 0)"

definition sendTimeMap :: "client_env \<Rightarrow> u32 \<Rightarrow> CAPCClient \<Rightarrow> ap_time_map_t \<Rightarrow> apc_error_t client_res" where
  "sendTimeMap e seqNum0 cl p =
     (let cmdParam = le_bytes 8 (tm_timeSec p) @ le_bytes 4 (tm_timeUsec p) @ le_bytes 8 (tm_asn p)
                     @ le_bytes 2 (tm_asnOffset p)
      in client_sendData_p e seqNum0 cl APC_TIME_MAP (Some cmdParam) (word_of_nat sizeof_apc_msg_timemap_s) None 0)"

definition sendApLost :: "client_env \<Rightarrow> u32 \<Rightarrow> CAPCClient \<Rightarrow> apc_error_t client_res" where
  "sendApLost e seqNum0 cl = client_sendData_p e seqNum0 cl APC_AP_LOST None 0 None 0"

definition sendResume :: "client_env \<Rightarrow> u32 \<Rightarrow> CAPCClient \<Rightarrow> apc_error_t client_res" where
  "sendResume e seqNum0 cl = client_sendData_p e seqNum0 cl APC_NET_TX_RESUME None 0 None 0"

definition sendPause :: "client_env \<Rightarrow> u32 \<Rightarrow> CAPCClient \<Rightarrow> apc_error_t client_res" where
  "sendPause e seqNum0 cl = client_sendData_p e seqNum0 cl APC_NET_TX_PAUSE None 0 None 0"

definition sendGpsLock :: "CAPCClient \<Rightarrow> ap_int_gpslockstat_t \<Rightarrow> apc_error_t client_res" where
  "sendGpsLock cl g = Some (cl\<lparr>cl_currentGpsState := g\<rparr>, APC_OK, [])"

section \<open>Open, start, stop, close\<close>

text \<open>Start a new connector, ask for a session; on an error the connector is stopped.\<close>

definition open_conn ::
  "client_env \<Rightarrow> nat \<Rightarrow> u32 \<Rightarrow> u32 \<Rightarrow> stopflags_t \<Rightarrow> CAPCClient \<Rightarrow> apc_error_t client_res" where
  "open_conn e i mySeq yourSeq fl cl =
     and_then
       (and_then (on_conn i (\<lambda>c. Some (conn_start (ce_conn e 0) c)) cl)
          (\<lambda>cl res.
             if res = APC_OK
             then on_conn i (\<lambda>c. connect (ce_conn e 1) c (cl_intfId cl) mySeq yourSeq
                                   (gps_byte (cl_currentGpsState cl)) 0 0) cl
             else Some (cl, res, [])))
       (\<lambda>cl res.
          if res \<noteq> APC_OK
          then and_then (stop_conn (ce_conn e 2) i APC_STOP_CREATE res fl cl) (\<lambda>cl _. Some (cl, res, []))
          else Some (cl, res, []))"

definition client_open ::
  "bool \<Rightarrow> open_param_t \<Rightarrow> CAPCClient \<Rightarrow> CAPCCtrlNotifThread
     \<Rightarrow> (CAPCClient \<times> CAPCCtrlNotifThread \<times> apc_error_t) option" where
  "client_open began p cl t =
     (let cl = cl\<lparr>cl_hasInput := op_hasInput p, cl_intfName := op_intfName p\<rparr>
      in case notif_init True t of None \<Rightarrow> None
         | Some t \<Rightarrow> map_option (\<lambda>(t, res). (cl, t, res)) (notif_start began t))"

definition client_start :: "client_env \<Rightarrow> start_param_t \<Rightarrow> CAPCClient \<Rightarrow> apc_error_t client_res" where
  "client_start e p cl =
     (if cl_pConnector cl \<noteq> None then Some (cl, APC_ERR_STATE, [])
      else if \<not> ce_resetOk e then Some (cl, APC_ERR_INIT, [])
      else
        let (io, res) = startIOSrvThread (cl_ioSrvThread cl);
            cl = cl\<lparr>cl_ioSrvThread := io\<rparr>
        in if res \<noteq> APC_OK then Some (cl, res, [])
           else
             let cl = cl\<lparr>cl_port := sp_port p, cl_host := sp_host p, cl_kaTimeout := sp_kaTimeout p,
                         cl_freeBufTimeout := sp_freeBufTimeout p,
                         cl_reconnectionDelayMsec := sp_reconnectionDelayMsec p,
                         cl_disconnectTimeoutMsec := sp_disconnectTimeoutMsec p\<rparr>
             in if \<not> (cl_disconnectTimeoutMsec cl = 0
                      \<or> (cl_disconnectTimeoutMsec cl \<noteq> 0 \<and> cl_reconnectionDelayMsec cl \<noteq> 0)) then None
                else
                  let cl = cl\<lparr>cl_state := APCCLIENT_STATE_INIT, cl_intfId := APINTFID_EMPTY, cl_lastRxSeqNum := 0,
                              cl_cache := cache_clear (cl_cache cl)\<rparr>
                  in case ipConnect_p e cl of
                       (cl, None) \<Rightarrow> Some (cl, APC_ERR_INIT, [])
                     | (cl, Some i) \<Rightarrow> open_conn e i 0 0 STOP_FL_DISCONNECT cl)"

text \<open>\<^verbatim>\<open>during\<close> is what other threads do to the client while \<^verbatim>\<open>stop\<close> waits for the end of the connector.\<close>

definition client_stop :: "client_env \<Rightarrow> (CAPCClient \<Rightarrow> CAPCClient) \<Rightarrow> CAPCClient \<Rightarrow> unit client_res" where
  "client_stop e during cl =
     and_then (client_stopTimer_p cl)
       (\<lambda>cl _.
          let cl = cl\<lparr>cl_disconnectTime := TIME_EMPTY, cl_state := APCCLIENT_STATE_DISCONNECT\<rparr> in
          and_then
            (case cl_pConnector cl of None \<Rightarrow> Some (cl, (), [])
             | Some i \<Rightarrow>
                 map_option (\<lambda>(cl, _, out). (during cl, (), out))
                   (on_conn i (\<lambda>c. map_option (\<lambda>(c, out). (c, (), out)) (disconnect (ce_conn e 0) (ce_conn e 1) c)) cl))
            (\<lambda>cl _.
               let cl = cl\<lparr>cl_pConnector := None\<rparr>;
                   cl = cl\<lparr>cl_ioSrvThread := stopIOSrvThread (cl_ioSrvThread cl), cl_cache := cache_clear (cl_cache cl)\<rparr>
               in Some (cl, (), [])))"

definition client_close ::
  "client_env \<Rightarrow> (CAPCClient \<Rightarrow> CAPCClient) \<Rightarrow> nat \<Rightarrow> CAPCClient \<Rightarrow> CAPCCtrlNotifThread
     \<Rightarrow> (CAPCClient \<times> CAPCCtrlNotifThread \<times> client_out list \<times> notif_call list) option" where
  "client_close e during fuel cl t =
     (case client_stop e during cl of None \<Rightarrow> None
      | Some (cl, _, out) \<Rightarrow> map_option (\<lambda>(t, calls). (cl, t, out, calls)) (notif_stop fuel t))"

section \<open>Notifications of the connector\<close>

text \<open>The fields of \<^verbatim>\<open>apc_msg_net_tx_s\<close> in front of the data.\<close>

definition client_sendhdr :: "byte list \<Rightarrow> ap_intf_sendhdr_t" where
  "client_sendhdr pl =
     \<lparr>sh_priority = (if pl ! 0 = 0 then APINTF_LOW else if pl ! 0 = 1 then APINTF_MED
                    else if pl ! 0 = 2 then APINTF_HI else if pl ! 0 = 3 then APINTF_CMD else APINTF_LOW),
      sh_isTxDoneRequested = (le_word (bytes_at 1 2 pl) \<noteq> APC_NETTX_NOTXDONE),
      sh_txDoneId = le_word (bytes_at 1 2 pl),
      sh_isLinkInfoSpecified = ((pl ! 3 AND APC_NETTX_FL_USETXINFO) = APC_NETTX_FL_USETXINFO),
      sh_frId = pl ! 4, sh_slot = le_word (bytes_at 5 4 pl), sh_offset = pl ! 9, sh_dst = le_word (bytes_at 10 2 pl)\<rparr>"

definition client_messageReceived :: "param_received_s \<Rightarrow> byte list \<Rightarrow> CAPCClient \<Rightarrow> unit client_res" where
  "client_messageReceived param pl cl =
     (let cl = cl\<lparr>cl_cache := fst (confirmedSeqNum (cl_cache cl) (pr_yourSeq param) False)\<rparr>;
          cl = (if pr_flags param AND APC_HDR_FLAGS_NOTRACK = 0 then cl\<lparr>cl_lastRxSeqNum := pr_mySeq param\<rparr> else cl);
          type = pr_type param
      in if \<not> cl_hasInput cl then Some (cl, (), [])
         else if type = APC_NET_TX then
           (if length pl < sizeof_apc_msg_net_tx_s then None
            else Some (cl, (), [UserCall (in_dataRx (client_sendhdr pl) (drop sizeof_apc_msg_net_tx_s pl))]))
         else if type = APC_NET_TX_PAUSE then Some (cl, (), [UserCall in_pause])
         else if type = APC_NET_TX_RESUME then Some (cl, (), [UserCall in_resume])
         else if type = APC_RESET_AP then Some (cl, (), [UserCall in_resetAP])
         else if type = APC_DISCONNECT_AP then Some (cl, (), [UserCall in_disconnectAP])
         else if type = APC_GET_TIME then Some (cl, (), [UserCall in_getTime])
         else Some (cl, (), []))"

definition client_apcStarted :: "nat \<Rightarrow> CAPCClient \<Rightarrow> unit client_res" where
  "client_apcStarted i cl = Some (cl\<lparr>cl_pConnector := Some i\<rparr>, (), [])"

text \<open>
  One packet of the replay: a call on the current connector, which is \<^const>\<open>None\<close> when there is no connector.  The number of calls made so
  far selects the environment of the call.
\<close>

definition replay_send ::
  "client_env \<Rightarrow> (CAPCClient \<times> nat \<times> client_out list) option \<Rightarrow> apc_cache_pkt_s
     \<Rightarrow> (CAPCClient \<times> nat \<times> client_out list) option \<times> apc_error_t" where
  "replay_send e h pkt =
     (case h of None \<Rightarrow> (None, APC_ERR_STATE)
      | Some (cl, k, out) \<Rightarrow>
          (case cl_pConnector cl of None \<Rightarrow> (None, APC_ERR_STATE)
           | Some i \<Rightarrow>
               (case on_conn i (\<lambda>c. sendData (ce_conn e k) c (m_type pkt) 0 (m_seqNumb pkt) (Some (m_payload pkt))
                                     (ucast (m_size pkt)) None 0) cl of
                  None \<Rightarrow> (None, APC_ERR_STATE)
                | Some (cl, res, out') \<Rightarrow> (Some (cl, Suc k, out @ out'), res))))"

text \<open>The loop gets one step more than there are packets in the cache.\<close>

definition replay_cache :: "client_env \<Rightarrow> u32 \<Rightarrow> CAPCClient \<Rightarrow> apc_error_t client_res" where
  "replay_cache e yourSeq cl =
     (let cache = prepForGet (fst (confirmedSeqNum (cl_cache cl) yourSeq True))
      in case replay_loop (Suc (unat (m_numPackets cache))) getNextPacket (replay_send e) cache (Some (cl, 0, [])) of
           Some (cache, Some (cl, k, out), res) \<Rightarrow> Some (cl\<lparr>cl_cache := cache\<rparr>, res, out)
         | _ \<Rightarrow> None)"

definition client_apcConnected ::
  "client_env \<Rightarrow> conn_env \<Rightarrow> nat \<Rightarrow> param_connected_s \<Rightarrow> CAPCClient \<Rightarrow> unit client_res" where
  "client_apcConnected e es i param cl =
     (if pc_ver param \<noteq> APC_PROTO_VER then stop_conn es i APC_STOP_VER APC_ERR_PROTOCOL STOP_FL_DISCONNECT cl
      else if pc_apcId param = APINTFID_EMPTY
              \<or> (cl_intfId cl \<noteq> APINTFID_EMPTY \<and> pc_apcId param \<noteq> cl_intfId cl)
      then stop_conn es i APC_STOP_RECONNECTION APC_ERR_PROTOCOL STOP_FL_DISCONNECT cl
      else
        let isNewConnection = (cl_intfId cl = APINTFID_EMPTY) in
        and_then (client_stopTimer_p cl)
          (\<lambda>cl _.
             let cl = cl\<lparr>cl_disconnectTime := TIME_EMPTY, cl_intfId := pc_apcId param, cl_netId := pc_netId param\<rparr>;
                 cl = (if pc_hdrFlags param AND APC_HDR_FLAGS_NOTRACK = 0
                       then cl\<lparr>cl_lastRxSeqNum := pc_mySeq param\<rparr> else cl)
             in and_then
                  (if \<not> isNewConnection then replay_cache e (pc_yourSeq param) cl else Some (cl, APC_OK, []))
                  (\<lambda>cl res.
                     if res = APC_OK then
                       let cl = cl\<lparr>cl_state := APCCLIENT_STATE_ONLINE\<rparr>
                       in Some (cl, (), user_call cl (if isNewConnection
                                                      then in_connected (pc_name param) (pc_cmdFlags param) else in_online))
                     else if res = APC_ERR_PKTSERIALIZATION
                     then stop_conn es i APC_STOP_RECONNECTION res STOP_FL_DISCONNECT cl
                     else stop_conn es i APC_STOP_RECONNECTION res STOP_FL_OFFLINE cl)))"

definition client_apcDisconnected ::
  "client_env \<Rightarrow> nat \<Rightarrow> param_disconnected_s \<Rightarrow> CAPCClient \<Rightarrow> unit client_res" where
  "client_apcDisconnected e i param cl =
     (let cl = cl\<lparr>cl_pConnector := None\<rparr>;
          isImmediately = (pd_flags param = STOP_FL_DISCONNECT \<or> cl_intfId cl = APINTFID_EMPTY
                           \<or> cl_disconnectTimeoutMsec cl = 0);
          isSendNotif = (isImmediately \<or> cl_state cl \<noteq> APCCLIENT_STATE_OFFLINE);
          cl = cl\<lparr>cl_state := (if isImmediately then APCCLIENT_STATE_DISCONNECT else APCCLIENT_STATE_OFFLINE)\<rparr>
      in and_then (client_stopTimer_p cl)
           (\<lambda>cl _.
              and_then
                (if isImmediately then Some (cl\<lparr>cl_disconnectTime := TIME_EMPTY\<rparr>, APC_OK, [])
                 else
                   let cl = (if cl_disconnectTime cl = TIME_EMPTY
                             then cl\<lparr>cl_disconnectTime := ce_now e + unat (cl_disconnectTimeoutMsec cl) * 1000\<rparr> else cl)
                   in client_startTimer_p e cl)
                (\<lambda>cl _.
                   Some (cl, (), if isSendNotif
                                 then user_call cl (if isImmediately then in_disconnected (pd_reason param)
                                                    else in_offline (pd_reason param))
                                 else []))))"

section \<open>Reconnection\<close>

definition reconnect_p :: "client_env \<Rightarrow> CAPCClient \<Rightarrow> unit client_res" where
  "reconnect_p e cl =
     (if cl_pConnector cl \<noteq> None then Some (cl, (), [])
      else case ipConnect_p e cl of
        (cl, None) \<Rightarrow> and_then (client_startTimer_p e cl) (\<lambda>cl _. Some (cl, (), []))
      | (cl, Some i) \<Rightarrow>
          and_then
            (open_conn e i (getLastSent (cl_cache cl)) (cl_lastRxSeqNum cl) STOP_FL_OFFLINE
               (cl\<lparr>cl_reconnectTimer := None\<rparr>))
            (\<lambda>cl _. Some (cl, (), [])))"

definition disconnect_p :: "client_env \<Rightarrow> CAPCClient \<Rightarrow> bool client_res" where
  "disconnect_p e cl =
     (case cl_pConnector cl of
        Some i \<Rightarrow> and_then (stop_conn (ce_conn e 0) i APC_STOP_RECONNECTION APC_OK STOP_FL_DISCONNECT cl)
                    (\<lambda>cl _. Some (cl, False, []))
      | None \<Rightarrow>
          and_then (client_stopTimer_p (cl\<lparr>cl_state := APCCLIENT_STATE_DISCONNECT\<rparr>))
            (\<lambda>cl _. Some (cl\<lparr>cl_disconnectTime := TIME_EMPTY\<rparr>, True, [])))"

text \<open>When the timer expires its wait is over before the handler runs.\<close>

definition reconnectTimerFun_p :: "client_env \<Rightarrow> bool \<Rightarrow> CAPCClient \<Rightarrow> unit client_res" where
  "reconnectTimerFun_p e error cl =
     (if error then Some (cl, (), [])
      else
        let cl = cl\<lparr>cl_reconnectTimer := map_option (\<lambda>_. False) (cl_reconnectTimer cl)\<rparr> in
        if cl_state cl = APCCLIENT_STATE_DISCONNECT then Some (cl, (), [])
        else
          and_then (if ce_now e < cl_disconnectTime cl
                    then and_then (reconnect_p e cl) (\<lambda>cl _. Some (cl, False, []))
                    else disconnect_p e cl)
            (\<lambda>cl isSendNotif. Some (cl, (), if isSendNotif then user_call cl (in_disconnected APC_STOP_TIMEOUT) else [])))"

section \<open>Queries\<close>

definition client_isConnected :: "CAPCClient \<Rightarrow> bool" where
  "client_isConnected cl = (case cl_pConnector cl of None \<Rightarrow> False
     | Some i \<Rightarrow> i < length (cl_conns cl) \<and> c_isWorking (cl_conns cl ! i))"

definition getCachedPkts :: "CAPCClient \<Rightarrow> u32" where
  "getCachedPkts cl = getNumCachedPkts (cl_cache cl)"

end
