(* ===== verification/Common_Util.thy ===== *)
theory Common_Util
  imports APB_Prelude "HOL-Library.Char_ord"
begin

text \<open>
  Helper functions of \<^verbatim>\<open>common/common.cpp\<close>: hexadecimal texts, steps on a ring, MAC addresses and absolute slot numbers.
  A function that would read or write outside of a buffer, or divide by zero, returns \<^const>\<open>None\<close>.
\<close>

section \<open>Hexadecimal digits\<close>

definition hexCh2bin :: "char \<Rightarrow> byte" where
  "hexCh2bin ch =
     (if CHR ''0'' \<le> ch \<and> ch \<le> CHR ''9'' then word_of_nat (of_char ch - of_char CHR ''0'')
      else if CHR ''a'' \<le> ch \<and> ch \<le> CHR ''f'' then word_of_nat (of_char ch - of_char CHR ''a'' + 10)
      else if CHR ''A'' \<le> ch \<and> ch \<le> CHR ''F'' then word_of_nat (of_char ch - of_char CHR ''A'' + 10)
      else 0xFF)"

text \<open>
  \<^verbatim>\<open>hexStr2bin\<close> reads the text from its end; digits fill the result from its last byte, low half first.  The state of the
  loop is the index, the half of the byte, the delimiter flag and the result.
\<close>

fun hexStr2bin_loop :: "char list \<Rightarrow> u32 \<Rightarrow> nat \<Rightarrow> bool \<Rightarrow> byte list \<Rightarrow> (bool \<times> byte list) option" where
  "hexStr2bin_loop [] idx subIdx isDelimiter pRes = Some (True, pRes)"
| "hexStr2bin_loop (ch # rest) idx subIdx isDelimiter pRes =
     (if (ch = CHR ''-'' \<or> ch = CHR '':'') \<and> \<not> isDelimiter then hexStr2bin_loop rest idx 2 True pRes
      else
        let nn = hexCh2bin ch in
        if nn \<noteq> 0xFF then
          if subIdx = 2 \<and> idx = 0 then Some (False, pRes)
          else
            let (subIdx, idx) = (if subIdx = 2 then (0, idx - 1) else (subIdx, idx));
                nn = (if subIdx = 1 then push_bit 4 nn else nn)
            in if unat idx < length pRes
               then hexStr2bin_loop rest idx (subIdx + 1) False (pRes[unat idx := pRes ! unat idx OR nn])
               else None
        else Some (False, pRes))"

definition hexStr2bin :: "string \<Rightarrow> u32 \<Rightarrow> (bool \<times> byte list) option" where
  "hexStr2bin str sz = hexStr2bin_loop (rev str) (sz - 1) 0 False (replicate (unat sz) 0)"

text \<open>\<^verbatim>\<open>isspace\<close>, \<^verbatim>\<open>isdigit\<close>, \<^verbatim>\<open>isxdigit\<close> and \<^verbatim>\<open>tolower\<close> of the C locale.\<close>

definition isspace :: "char \<Rightarrow> bool" where
  "isspace c \<longleftrightarrow> (of_char c :: nat) = 32 \<or> 9 \<le> (of_char c :: nat) \<and> (of_char c :: nat) \<le> 13"

definition isdigit :: "char \<Rightarrow> bool" where
  "isdigit c \<longleftrightarrow> CHR ''0'' \<le> c \<and> c \<le> CHR ''9''"

definition isxdigit :: "char \<Rightarrow> bool" where
  "isxdigit c \<longleftrightarrow> isdigit c \<or> CHR ''a'' \<le> c \<and> c \<le> CHR ''f'' \<or> CHR ''A'' \<le> c \<and> c \<le> CHR ''F''"

definition tolower :: "char \<Rightarrow> char" where
  "tolower c = (if CHR ''A'' \<le> c \<and> c \<le> CHR ''Z'' then char_of (of_char c + 32 :: nat) else c)"

definition toupper :: "char \<Rightarrow> char" where
  "toupper c = (if CHR ''a'' \<le> c \<and> c \<le> CHR ''z'' then char_of (of_char c - 32 :: nat) else c)"

text \<open>The loop of \<^verbatim>\<open>hexToBin\<close>; the end of the list is the terminating null character.\<close>

fun hexToBin_loop :: "char list \<Rightarrow> nat \<Rightarrow> nat \<Rightarrow> bool \<Rightarrow> byte list \<Rightarrow> nat \<times> byte list" where
  "hexToBin_loop [] idx nn wasDigit pRes = (if wasDigit then (idx + 1, pRes) else (0, pRes))"
| "hexToBin_loop (c # str) idx nn wasDigit pRes =
     (let isDigit = isxdigit c in
      if \<not> ((wasDigit \<and> (isspace c \<or> c = CHR ''-'' \<or> c = CHR '':'')) \<or> isDigit) then (0, pRes)
      else
        let (idx, nn) = (if \<not> isDigit \<or> nn = 2 then (idx + 1, 0) else (idx, nn)) in
        if isDigit then
          if \<not> idx < length pRes then (0, pRes)
          else
            let numb = (if isdigit c then of_char c - of_char CHR ''0'' else of_char (tolower c) - of_char CHR ''a'' + 10)
            in hexToBin_loop str idx (nn + 1) True (pRes[idx := push_bit 4 (pRes ! idx) + word_of_nat numb])
        else if c \<noteq> CHR ''-'' \<and> c \<noteq> CHR '':'' then (idx, pRes)
        else hexToBin_loop str idx nn False pRes)"

definition hexToBin :: "string \<Rightarrow> nat \<Rightarrow> nat \<times> byte list" where
  "hexToBin str len = hexToBin_loop (dropWhile isspace str) 0 0 False (replicate len 0)"

section \<open>Steps on a ring\<close>

text \<open>Negating the least 32-bit number is undefined, as is a remainder by zero.\<close>

definition getNext :: "u32 \<Rightarrow> int \<Rightarrow> u32 \<Rightarrow> u32 option" where
  "getNext val delta maxVal =
     (if delta = - (2 ^ 31) then None
      else
        let isNegative = delta < 0;
            d = word_of_int (if isNegative then - delta else delta)
        in if (d > maxVal \<or> val > maxVal) \<and> maxVal = 0 then None
           else
             let d = (if d > maxVal then d mod maxVal else d);
                 val = (if isNegative then (if d > val then val + maxVal else val) - d
                        else let v = val + d in if v \<ge> maxVal then v - maxVal else v)
             in Some (if val > maxVal then val mod maxVal else val))"

section \<open>MAC addresses\<close>

definition MAC_LENGTH :: nat where "MAC_LENGTH = 8"

definition isMacEqu :: "byte list \<Rightarrow> byte list \<Rightarrow> bool" where
  "isMacEqu mac1 mac2 \<longleftrightarrow> take MAC_LENGTH mac1 = take MAC_LENGTH mac2"

definition setMacBroadcast :: "byte list" where "setMacBroadcast = replicate MAC_LENGTH 0xFF"
definition setMacEmpty :: "byte list" where "setMacEmpty = replicate MAC_LENGTH 0"

definition isMacBroadcast :: "byte list \<Rightarrow> bool" where
  "isMacBroadcast mac = isMacEqu mac [0xFF, 0xFF, 0xFF, 0xFF, 0xFF, 0xFF, 0xFF, 0xFF]"

definition isMacEmpty :: "byte list \<Rightarrow> bool" where
  "isMacEmpty mac = isMacEqu mac [0, 0, 0, 0, 0, 0, 0, 0]"

definition copyMac :: "byte list \<Rightarrow> byte list" where
  "copyMac src = take MAC_LENGTH src"

section \<open>Absolute slot numbers\<close>

text \<open>\<^verbatim>\<open>asn_t\<close> is a signed 64-bit integer; its bits are kept.\<close>

definition ntoh_asn :: "byte list \<Rightarrow> u32 \<Rightarrow> u64 option" where
  "ntoh_asn netAsn netAsnSize =
     (let asnSize = min (unat netAsnSize) 8 in
      if length netAsn < asnSize then None
      else Some (foldl (\<lambda>result b. push_bit 8 result + ucast b) 0 (take asnSize netAsn)))"

fun hton_asn_loop :: "nat \<Rightarrow> u64 \<Rightarrow> byte list \<Rightarrow> byte list" where
  "hton_asn_loop 0 v netAsn = netAsn"
| "hton_asn_loop (Suc i) v netAsn = hton_asn_loop i (drop_bit 8 v) (netAsn[i := ucast (v AND 0xFF)])"

definition hton_asn :: "u64 \<Rightarrow> byte list \<Rightarrow> u32 \<Rightarrow> byte list option" where
  "hton_asn hostAsn netAsn netAsnSize =
     (let asnSize = min (unat netAsnSize) 8 in
      if length netAsn < asnSize then None else Some (hton_asn_loop asnSize hostAsn netAsn))"

section \<open>Random numbers\<close>

text \<open>The result of \<^verbatim>\<open>rand()\<close>, at most \<open>RAND_MAX\<close>, is an argument.\<close>

definition RAND_MAX :: nat where "RAND_MAX = 2147483647"

definition getRand :: "nat \<Rightarrow> u32 \<Rightarrow> nat" where
  "getRand rand maxVal = (if maxVal < 2 then 0 else rand div (RAND_MAX div unat maxVal + 1))"

section \<open>Properties\<close>

lemma getRand_less:
  assumes "rand \<le> RAND_MAX" and "2 \<le> maxVal"
  shows "getRand rand maxVal < unat maxVal"
proof -
  have m: "0 < unat maxVal" "\<not> maxVal < 2" using assms(2) by (auto simp: word_le_nat_alt not_less)
  have "RAND_MAX < unat maxVal * (RAND_MAX div unat maxVal + 1)"
    using dividend_less_times_div[OF m(1), of RAND_MAX] by simp
  then show ?thesis
    using assms(1) m(2) by (simp add: getRand_def less_mult_imp_div_less)
qed

text \<open>Going round a ring.\<close>

lemma uint_add_small: "uint a + uint b < 2 ^ 32 \<Longrightarrow> uint (a + b) = uint a + uint b" for a b :: u32
  by (simp add: uint_word_ariths)

lemma uint_sub_small: "uint b \<le> uint a \<Longrightarrow> uint (a - b) = uint a - uint b" for a b :: u32
proof -
  assume "uint b \<le> uint a"
  moreover have "uint a < 2 ^ 32" using unsigned_less[of a] by simp
  moreover have "0 \<le> uint b" by simp
  ultimately have "0 \<le> uint a - uint b" "uint a - uint b < 2 ^ 32" by linarith+
  then show ?thesis by (simp only: uint_word_ariths) simp
qed

lemma getNext_ring:
  assumes "val < maxVal" and "unat maxVal \<le> 2 ^ 31" and "- (2 ^ 31) < delta" and "delta < 2 ^ 31"
  shows "getNext val delta maxVal = Some (word_of_int ((uint val + delta) mod uint maxVal))"
proof -
  define v m D where "v = uint val" and "m = uint maxVal" and "D = \<bar>delta\<bar>"
  define d :: u32 where "d = word_of_int D"
  define d' where "d' = (if d > maxVal then d mod maxVal else d)"
  define down up where "down = (if d' > val then val + maxVal else val) - d'"
    and "up = (if val + d' \<ge> maxVal then val + d' - maxVal else val + d')"
  have v: "0 \<le> v" "v < m" using assms(1) by (simp_all add: v_def m_def word_less_def)
  have "int (unat maxVal) \<le> int (2 ^ 31)" using assms(2) by (simp only: of_nat_le_iff)
  then have m: "m \<le> 2 ^ 31" by (simp add: m_def)
  have D: "0 \<le> D" "D < 2 ^ 31" using assms(3,4) by (simp_all add: D_def)
  have d: "uint d = D" using D by (simp add: d_def uint_word_of_int take_bit_int_eq_self)
  define e where "e = uint d'"
  have e: "e = (if D > m then D mod m else D)"
    unfolding e_def d'_def word_less_def m_def using d by (simp add: uint_mod_distrib)
  have em: "0 \<le> e" "e \<le> m" "e mod m = D mod m" using v D less_imp_le[OF pos_mod_bound[of m D]] by (simp_all add: e)
  have nz: "maxVal \<noteq> 0" using assms(1) by auto
  have val: "getNext val delta maxVal =
      (let w = if delta < 0 then down else up in Some (if w > maxVal then w mod maxVal else w))"
    using assms(3) nz unfolding getNext_def Let_def down_def up_def d'_def d_def D_def abs_if by (simp split del: if_split)
  have res: ?thesis if "uint w = r" "0 \<le> r" "r < m" "r mod m = (v + delta) mod m" "w = (if delta < 0 then down else up)" for w r
  proof -
    have "\<not> w > maxVal" using that(1,3) by (simp add: word_less_def m_def)
    moreover have "word_of_int ((v + delta) mod m) = w" using that(1-4) word_of_int_uint[of w] by simp
    ultimately show ?thesis unfolding val Let_def that(5)[symmetric] by (simp add: v_def m_def)
  qed
  show ?thesis
  proof (cases "delta < 0")
    case True
    let ?r = "(if e > v then v + m else v) - e"
    have "uint (if d' > val then val + maxVal else val) = (if e > v then v + m else v)"
      using uint_add_small[of val maxVal] v m unfolding word_less_def e_def v_def m_def by simp
    then have "uint down = ?r"
      unfolding down_def using uint_sub_small[of d' "if d' > val then val + maxVal else val"] em v
      by (simp add: e_def split: if_splits)
    moreover have "?r mod m = (v + delta) mod m"
      using em(3) mod_diff_right_eq[of v e m] mod_diff_right_eq[of v D m] True by (simp add: D_def diff_add_eq[symmetric])
    ultimately show ?thesis using res[of down ?r] True em v by simp
  next
    case False
    let ?r = "if v + e \<ge> m then v + e - m else v + e"
    have a: "uint (val + d') = v + e" using uint_add_small[of val d'] v m em by (simp add: v_def e_def)
    then have "uint up = ?r"
      unfolding up_def word_le_def using uint_sub_small[of maxVal "val + d'"] by (simp add: m_def)
    moreover have "?r mod m = (v + delta) mod m"
      using em(3) mod_add_right_eq[of v e m] mod_add_right_eq[of v D m] False by (simp add: D_def)
    ultimately show ?thesis using res[of up ?r] False em v by simp
  qed
qed

lemma hton_asn_loop_eq:
  "n \<le> length buf \<Longrightarrow> hton_asn_loop n v buf = rev (le_bytes n v) @ drop n buf"
proof (induction n arbitrary: v buf)
  case (Suc n)
  have ff: "(0xFF :: u64) = mask 8" by (simp add: mask_eq_exp_minus_1)
  have "ucast (v AND 0xFF) = (ucast v :: byte)"
    unfolding ff by (rule bit_eqI) (simp del: mask_numeral add: bit_simps)
  then show ?case
    using Suc by (simp add: drop_update_swap Cons_nth_drop_Suc[symmetric] list_update_append)
qed simp

lemma foldl_bytes: "foldl (\<lambda>result b. push_bit 8 result + ucast b) 0 bs = (le_word (rev bs) :: u64)"
proof (induction bs rule: rev_induct)
  case (snoc b bs)
  have "push_bit 8 w + ucast b = (ucast b OR push_bit 8 w :: u64)" for w
    by (subst add.commute, rule disjunctive_add) (auto simp: bit_simps dest: bit_imp_le_length)
  then show ?case using snoc by simp
qed simp

lemma asn_roundtrip:
  assumes "unat k \<le> 8" and "unat k \<le> length buf"
  shows "\<exists>netAsn. hton_asn v buf k = Some netAsn \<and> length netAsn = length buf \<and> ntoh_asn netAsn k = Some (take_bit (8 * unat k) v)"
  using assms by (simp add: hton_asn_def ntoh_asn_def Let_def hton_asn_loop_eq foldl_bytes le_word_le_bytes)

section \<open>Hexadecimal texts\<close>

definition hex_digit :: "byte \<Rightarrow> char" where
  "hex_digit d = (if d < 10 then char_of (unat d + 48) else char_of (unat d + 87))"

definition hex_byte :: "byte \<Rightarrow> string" where
  "hex_byte b = [hex_digit (drop_bit 4 b), hex_digit (b AND 0xF)]"

fun hex_text :: "string \<Rightarrow> byte list \<Rightarrow> string" where
  "hex_text sep [] = []"
| "hex_text sep [b] = hex_byte b"
| "hex_text sep (b # bs) = hex_byte b @ sep @ hex_text sep bs"

lemma all_bytes: "(\<And>n. n < 256 \<Longrightarrow> P (word_of_nat n :: byte)) \<Longrightarrow> P b"
proof -
  assume *: "\<And>n. n < 256 \<Longrightarrow> P (word_of_nat n :: byte)"
  have "unat b < 2 ^ LENGTH(8)" by (rule unsigned_less)
  then have "P (word_of_nat (unat b))" by (intro *) simp
  then show "P b" by simp
qed

lemma digit_values:
  assumes "d < 16"
  shows "hexCh2bin (hex_digit d) = d" "isxdigit (hex_digit d)" "\<not> isspace (hex_digit d)"
    "hex_digit d \<noteq> CHR ''-''" "hex_digit d \<noteq> CHR '':''"
    "(if isdigit (hex_digit d) then of_char (hex_digit d) - of_char CHR ''0''
      else of_char (tolower (hex_digit d)) - of_char CHR ''a'' + 10) = unat d"
proof -
  have "d \<in> set (map word_of_nat [0..<16])"
  proof -
    have "unat d < 16" using assms by (simp add: word_less_nat_alt)
    then show ?thesis unfolding set_map by (intro image_eqI[of _ _ "unat d"]) simp_all
  qed
  moreover have "list_all (\<lambda>d. hexCh2bin (hex_digit d) = d \<and> isxdigit (hex_digit d) \<and> \<not> isspace (hex_digit d)
     \<and> hex_digit d \<noteq> CHR ''-'' \<and> hex_digit d \<noteq> CHR '':'' \<and>
     (if isdigit (hex_digit d) then of_char (hex_digit d) - of_char CHR ''0''
      else of_char (tolower (hex_digit d)) - of_char CHR ''a'' + 10) = unat d) (map word_of_nat [0..<16])"
    by code_simp
  ultimately show "hexCh2bin (hex_digit d) = d" "isxdigit (hex_digit d)" "\<not> isspace (hex_digit d)"
    "hex_digit d \<noteq> CHR ''-''" "hex_digit d \<noteq> CHR '':''"
    "(if isdigit (hex_digit d) then of_char (hex_digit d) - of_char CHR ''0''
      else of_char (tolower (hex_digit d)) - of_char CHR ''a'' + 10) = unat d"
    unfolding list_all_iff by blast+
qed

lemma nibbles: "drop_bit 4 b < 16" "b AND 0xF < 16"
  "push_bit 4 (drop_bit 4 b) + (b AND 0xF) = b" "(b AND 0xF) OR push_bit 4 (drop_bit 4 b) = b" for b :: byte
proof -
  have f: "(0xF :: byte) = mask 4" by (simp add: mask_eq_exp_minus_1)
  show "drop_bit 4 b < 16"
  proof -
    have "unat b < 2 ^ LENGTH(8)" by (rule unsigned_less)
    then have "unat b div 2 ^ 4 < 16" by simp
    moreover have "unat (drop_bit 4 b) = unat b div 2 ^ 4" by (simp add: drop_bit_eq_div unat_div)
    ultimately show ?thesis by (simp add: word_less_nat_alt)
  qed
  have "unat (b AND 0xF) = unat b mod 2 ^ 4"
    unfolding f take_bit_eq_mask[symmetric] by (simp only: unsigned_take_bit_eq) (simp add: take_bit_eq_mod)
  then show "b AND 0xF < 16" by (simp add: word_less_nat_alt)
  show or: "(b AND 0xF) OR push_bit 4 (drop_bit 4 b) = b"
  proof (unfold f, rule bit_word_eqI)
    show "bit ((b AND mask 4) OR push_bit 4 (drop_bit 4 b)) n \<longleftrightarrow> bit b n" if "n < LENGTH(8)" for n
      using that by (cases "n < 4") (simp_all del: mask_numeral add: bit_simps)
  qed
  have "push_bit 4 (drop_bit 4 b) + (b AND 0xF) = (b AND 0xF) OR push_bit 4 (drop_bit 4 b)"
    unfolding f by (subst add.commute, rule disjunctive_add) (auto simp del: mask_numeral simp: bit_simps)
  then show "push_bit 4 (drop_bit 4 b) + (b AND 0xF) = b" using or by simp
qed

lemma digit_number: "(if isdigit (hex_digit d) then of_char (hex_digit d) - of_char CHR ''0''
      else of_char (tolower (hex_digit d)) - of_char CHR ''a'' + 10) = unat d" if "d < 16"
  using digit_values(6)[OF that] .

text \<open>One byte of a text in each of the two readers.\<close>

declare hexToBin_loop.simps(2) [simp del] hexStr2bin_loop.simps(2) [simp del]

lemma hexToBin_digit:
  assumes "d < 16" and "i = (if nn = 2 then Suc idx else idx)" and "n' = (if nn = 2 then 1 else Suc nn)" and "i < length pRes"
  shows "hexToBin_loop (hex_digit d # str) idx nn w pRes = hexToBin_loop str i n' True (pRes[i := push_bit 4 (pRes ! i) + d])"
  using assms(2-) digit_values(2)[OF assms(1)]
  unfolding hexToBin_loop.simps(2) Let_def digit_number[OF assms(1)] by (cases "nn = 2") simp_all

lemma hexToBin_byte:
  assumes "nn = 0 \<and> idx = k \<or> nn = 2 \<and> Suc idx = k" and "k < length pRes" and "pRes ! k = 0"
  shows "hexToBin_loop (hex_byte b @ rest) idx nn w pRes = hexToBin_loop rest k 2 True (pRes[k := b])"
proof -
  have "hexToBin_loop (hex_byte b @ rest) idx nn w pRes =
      hexToBin_loop (hex_digit (b AND 0xF) # rest) k 1 True (pRes[k := drop_bit 4 b])"
    unfolding hex_byte_def append.simps using assms hexToBin_digit[OF nibbles(1)[of b], of k nn idx 1] by auto
  also have "\<dots> = hexToBin_loop rest k 2 True (pRes[k := b])"
    using assms(2) nibbles(3)[of b] hexToBin_digit[OF nibbles(2)[of b], of k 1 k 2] by simp
  finally show ?thesis .
qed

definition hex_sep :: "string \<Rightarrow> bool" where
  "hex_sep sep \<longleftrightarrow> sep = [] \<or> sep = ''-'' \<or> sep = '':''"

lemma hexToBin_text:
  assumes "hex_sep sep" and "bs \<noteq> []" and "nn = 0 \<and> idx = k \<or> nn = 2 \<and> Suc idx = k"
    and "pRes = pre @ replicate n 0" and "length pre = k" and "length bs \<le> n"
  shows "hexToBin_loop (hex_text sep bs) idx nn w pRes = (k + length bs, pre @ bs @ replicate (n - length bs) 0)"
  using assms(2-)
proof (induction bs arbitrary: idx nn k w pRes pre n)
  case (Cons b bs)
  obtain m where n: "n = Suc m" using Cons.prems(5) by (cases n) simp_all
  have p: "k < length pRes" "pRes ! k = 0" "pRes[k := b] = (pre @ [b]) @ replicate m 0"
    using Cons.prems(3,4) n by (simp_all add: nth_append list_update_append)
  note byte = hexToBin_byte[OF Cons.prems(2) p(1,2), of b]
  show ?case
  proof (cases bs)
    case Nil
    then show ?thesis using byte[of "[]" w] p(3) n Cons.prems(4) by simp
  next
    case (Cons c cs)
    have tx: "hex_text sep (b # bs) = hex_byte b @ sep @ hex_text sep bs" using Cons by simp
    have IH: "hexToBin_loop (hex_text sep bs) i x w' (pRes[k := b]) = (Suc k + length bs, (pre @ [b]) @ bs @ replicate (m - length bs) 0)"
      if "x = 0 \<and> i = Suc k \<or> x = 2 \<and> Suc i = Suc k" for i x w'
      using Cons.IH[OF _ that p(3), of w'] Cons Cons.prems(4,5) n by simp
    show ?thesis
    proof (cases "sep = []")
      case True
      then show ?thesis unfolding tx byte using IH[of 2 k True] n by simp
    next
      case False
      then obtain s where s: "sep = [s]" "s = CHR ''-'' \<or> s = CHR '':''" using assms(1) by (auto simp: hex_sep_def)
      have "\<not> isxdigit s" using s(2) by (auto simp: isxdigit_def isdigit_def)
      then have "hexToBin_loop (sep @ hex_text sep bs) k 2 True (pRes[k := b]) = hexToBin_loop (hex_text sep bs) (Suc k) 0 False (pRes[k := b])"
        using s by (auto simp: hexToBin_loop.simps(2) Let_def)
      then show ?thesis unfolding tx byte using IH[of 0 "Suc k" False] n by simp
    qed
  qed
qed simp

lemma hexStr2bin_lo:
  assumes "d < 16" and "sub = 0 \<and> unat idx = i \<or> sub = 2 \<and> unat idx = Suc i" and "i < length pRes" and "pRes ! i = 0"
  shows "hexStr2bin_loop (hex_digit d # rest) idx sub del pRes = hexStr2bin_loop rest (word_of_nat i) 1 False (pRes[i := d])"
proof -
  have d: "d \<noteq> 0xFF" using assms(1) by auto
  have idx: "idx \<noteq> 0 \<and> unat (idx - 1) = i \<and> idx - 1 = word_of_nat i" if "sub = 2"
  proof -
    have "idx \<noteq> 0" "unat idx = Suc i" using assms(2) that by auto
    then have "unat (idx - 1) = i" using unat_minus_one[of idx] by simp
    then show ?thesis using \<open>idx \<noteq> 0\<close> by (auto simp flip: word_unat_eq_iff)
  qed
  then show ?thesis
    using assms(2-) d digit_values(1,4,5)[OF assms(1)] by (auto simp: hexStr2bin_loop.simps(2) Let_def)
qed

lemma hexStr2bin_hi:
  assumes "d < 16" and "unat idx < length pRes"
  shows "hexStr2bin_loop (hex_digit d # rest) idx 1 del pRes =
    hexStr2bin_loop rest idx 2 False (pRes[unat idx := pRes ! unat idx OR push_bit 4 d])"
proof -
  have "d \<noteq> 0xFF" using assms(1) by auto
  then show ?thesis
    using assms(2) digit_values(1,4,5)[OF assms(1)] by (simp add: hexStr2bin_loop.simps(2) numeral_2_eq_2)
qed

lemma hexStr2bin_byte:
  assumes "sub = 0 \<and> unat idx = i \<or> sub = 2 \<and> unat idx = Suc i" and "i < length pRes" and "pRes ! i = 0" and "i < 2 ^ 32"
  shows "hexStr2bin_loop (rev (hex_byte b) @ rest) idx sub del pRes = hexStr2bin_loop rest (word_of_nat i) 2 False (pRes[i := b])"
proof -
  have "unat (word_of_nat i :: u32) = i" using assms(4) by (simp add: unat_of_nat)
  then show ?thesis
    using hexStr2bin_lo[OF nibbles(2)[of b] assms(1-3)] hexStr2bin_hi[OF nibbles(1)[of b], of "word_of_nat i" "pRes[i := b AND 0xF]"]
      assms(2) nibbles(4)[of b]
    by (simp add: hex_byte_def)
qed

lemma hex_text_snoc: "hex_text sep (bs @ [b]) = (if bs = [] then [] else hex_text sep bs @ sep) @ hex_byte b"
  by (induction bs rule: hex_text.induct[of _ sep]) auto

lemma hexStr2bin_text:
  assumes "hex_sep sep" and "bs \<noteq> []"
    and "sub = 0 \<and> Suc (unat idx) = length bs \<or> sub = 2 \<and> unat idx = length bs"
    and "length bs < 2 ^ 32"
  shows "hexStr2bin_loop (rev (hex_text sep bs)) idx sub del (replicate (length bs) 0 @ post) = Some (True, bs @ post)"
  using assms(2-)
proof (induction bs arbitrary: idx sub del post rule: rev_induct)
  case (snoc b bs)
  let ?p = "replicate (length (bs @ [b])) 0 @ post" and ?q = "replicate (length bs) 0 @ b # post"
  have p: "length bs < length ?p" "?p ! length bs = 0" "?p[length bs := b] = ?q"
    by (simp_all add: nth_append list_update_append flip: replicate_append_same)
  have i: "sub = 0 \<and> unat idx = length bs \<or> sub = 2 \<and> unat idx = Suc (length bs)" using snoc.prems(2) by simp
  note byte = hexStr2bin_byte[OF i p(1,2), of b]
  show ?case
  proof (cases "bs = []")
    case True
    then show ?thesis using byte[of "[]" del] p(3) snoc.prems(3) by simp
  next
    case False
    have tx: "rev (hex_text sep (bs @ [b])) = rev (hex_byte b) @ rev sep @ rev (hex_text sep bs)"
      using False by (simp add: hex_text_snoc)
    have u: "unat (word_of_nat (length bs) :: u32) = length bs" using snoc.prems(3) by (simp add: unat_of_nat)
    have IH: "hexStr2bin_loop (rev (hex_text sep bs)) (word_of_nat (length bs)) 2 d ?q = Some (True, bs @ b # post)" for d
      using snoc.IH[OF False, of 2 "word_of_nat (length bs)" d "b # post"] u snoc.prems(3) by simp
    have "hexStr2bin_loop (rev sep @ rev (hex_text sep bs)) (word_of_nat (length bs)) 2 False ?q = Some (True, bs @ b # post)"
      using assms(1) IH[of True] IH[of False] by (auto simp: hex_sep_def hexStr2bin_loop.simps(2))
    then show ?thesis unfolding tx using byte[of "rev sep @ rev (hex_text sep bs)" del] p(3) snoc.prems(3) by simp
  qed
qed simp

lemma hex_text_roundtrip:
  assumes "hex_sep sep" and "bs \<noteq> []" and "length bs < 2 ^ 32"
  shows "hexStr2bin (hex_text sep bs) (word_of_nat (length bs)) = Some (True, bs)"
    and "hexToBin (hex_text sep bs) (length bs) = (length bs, bs)"
proof -
  have u: "unat (word_of_nat (length bs) :: u32) = length bs" using assms(3) by (simp add: unat_of_nat)
  then have "unat (word_of_nat (length bs) - 1 :: u32) = length bs - 1"
    using assms(2) unat_minus_one[of "word_of_nat (length bs) :: u32"] by (metis length_0_conv unat_0)
  then show "hexStr2bin (hex_text sep bs) (word_of_nat (length bs)) = Some (True, bs)"
    using hexStr2bin_text[OF assms(1,2) _ assms(3), of 0 "word_of_nat (length bs) - 1" False "[]"] u assms(2)
    by (simp add: hexStr2bin_def)
  have "dropWhile isspace (hex_text sep bs) = hex_text sep bs"
    using digit_values(3)[OF nibbles(1)] assms(2) by (induction sep bs rule: hex_text.induct) (simp_all add: hex_byte_def)
  then show "hexToBin (hex_text sep bs) (length bs) = (length bs, bs)"
    using hexToBin_text[OF assms(1,2), of 0 0 0 "replicate (length bs) 0" "[]" "length bs" False] by (simp add: hexToBin_def)
qed

end
