(* ===== verification/AP_Coupler.thy ===== *)
theory AP_Coupler
  imports APM_Transport APC_Client Common_Util "HOL-Library.Signed_Division"
begin

text \<open>
  The coupler (\<^verbatim>\<open>APCoupler.h\<close>, \<^verbatim>\<open>APCoupler.cpp\<close>): it hands packets, status and flow control from the
  access point to the manager and back, answers the access point's requests for the time, keeps the clock
  source of the access point as configured, and runs the state machine that brings the access point and
  the manager connection up again after either was lost.

  An operation returns the calls it makes on the transport, on the manager client, on the GPS client and on the
  watchdog.  The environment of a call gives what they answer, the clock and the leap second information of the system.
  Calls through a pointer that is null give \<^const>\<open>None\<close>.  Logging is left out.
\<close>

section \<open>Constants\<close>

named_theorems coup_defs "constants of the coupler"

definition MAX_NUM_RESET :: nat where [coup_defs]: "MAX_NUM_RESET = 3"
definition UTC_MIDNIGHT :: int where [coup_defs]: "UTC_MIDNIGHT = (23 * 60 + 59) * 60 + 59"
definition AP_BLACKOUT :: int where [coup_defs]: "AP_BLACKOUT = UTC_MIDNIGHT - 30"
definition LEAP_CHECK_TIME :: int where [coup_defs]: "LEAP_CHECK_TIME = UTC_MIDNIGHT - 180"
definition AP_BLACKOUT_DURATION :: int where [coup_defs]: "AP_BLACKOUT_DURATION = 60"

definition E_APM_BOOT :: u32 where [coup_defs]: "E_APM_BOOT = 0x1"
definition E_APM_REBOOT :: u32 where [coup_defs]: "E_APM_REBOOT = 0x2"
definition E_APM_LOST :: u32 where [coup_defs]: "E_APM_LOST = 0x4"
definition E_MNGR_CONNECT :: u32 where [coup_defs]: "E_MNGR_CONNECT = 0x8"
definition E_MNGR_DISCONNECT :: u32 where [coup_defs]: "E_MNGR_DISCONNECT = 0x10"
definition E_TIMEOUT :: u32 where [coup_defs]: "E_TIMEOUT = 0x20"
definition E_AP_RESET :: u32 where [coup_defs]: "E_AP_RESET = 0x40"
definition E_AP_DISCONNECT :: u32 where [coup_defs]: "E_AP_DISCONNECT = 0x80"
definition E_AP_END_BLACKOUT :: u32 where [coup_defs]: "E_AP_END_BLACKOUT = 0x100"
definition E_STOP :: u32 where [coup_defs]: "E_STOP = 0x200"

definition CLOCKSOURCR_NONE :: byte where [coup_defs]: "CLOCKSOURCR_NONE = 0xFF"
definition MIN_VERSION :: "u32 list" where [coup_defs]: "MIN_VERSION = [1, 4, 0, 81]"

section \<open>State\<close>

datatype gps_status_t = GPS_ST_NO_DEVICE | GPS_ST_NO_SYNC | GPS_ST_SYNC | GPS_ST_CONN_LOST

record SAPMInfo =
  ap_mac :: "byte list"
  ap_swVersion :: "byte list"
  ap_appVersion :: "byte list"
  ap_clksource :: byte
  ap_networkId :: u16
  ap_apState :: byte

record gps_info_t =
  gi_satellites_visible :: u16
  gi_satellites_used :: u16

text \<open>System times are in nanoseconds since the epoch; \<^verbatim>\<open>SYSTIME_EMPTY\<close> is the epoch.\<close>

definition SYSTIME_EMPTY :: int where "SYSTIME_EMPTY = 0"

record CAPCoupler =
  cp_apInfo :: SAPMInfo
  cp_host :: "byte list"
  cp_port :: u16
  cp_transport :: bool
  cp_mngrClient :: bool
  cp_gps :: bool
  cp_apConnected :: bool
  cp_hwResetTimeoutMsec :: u32
  cp_disconnectTimeoutShortMsec :: u32
  cp_disconnectTimeoutLongMsec :: u32
  cp_apClkSource :: EAPClockSource
  cp_client_start_param :: start_param_t
  cp_gpsd_conn :: bool
  cp_cur_gps_status :: gps_status_t
  cp_gps_info :: gps_info_t
  cp_events :: u32
  cp_smThread :: bool
  cp_blackoutStart :: int
  cp_hasWd :: bool
  cp_isIntClkSrc :: bool

definition new_SAPMInfo :: SAPMInfo where
  "new_SAPMInfo = \<lparr>ap_mac = replicate 8 0, ap_swVersion = replicate 5 0, ap_appVersion = replicate 5 0, ap_clksource = 0,
     ap_networkId = 0, ap_apState = 0\<rparr>"

text \<open>The parameters of the manager client and of the GPS are unset before \<^verbatim>\<open>open\<close>; they are arguments here.\<close>

definition new_CAPCoupler :: "start_param_t \<Rightarrow> bool \<Rightarrow> CAPCoupler" where
  "new_CAPCoupler sp0 gpsd0 =
     \<lparr>cp_apInfo = new_SAPMInfo, cp_host = [], cp_port = 0, cp_transport = False, cp_mngrClient = False, cp_gps = False,
      cp_apConnected = False, cp_hwResetTimeoutMsec = 0, cp_disconnectTimeoutShortMsec = 0, cp_disconnectTimeoutLongMsec = 0,
      cp_apClkSource = INTERNAL, cp_client_start_param = sp0, cp_gpsd_conn = gpsd0, cp_cur_gps_status = GPS_ST_NO_DEVICE,
      cp_gps_info = \<lparr>gi_satellites_visible = 0, gi_satellites_used = 0\<rparr>, cp_events = 0, cp_smThread = False,
      cp_blackoutStart = SYSTIME_EMPTY, cp_hasWd = False, cp_isIntClkSrc = False\<rparr>"

section \<open>Environment\<close>

text \<open>What \<^verbatim>\<open>ntp_gettime\<close> of the system answers, with the offset it reports.\<close>

datatype ntp_state = TIME_OK | TIME_INS | TIME_DEL | TIME_OOP | TIME_WAIT | TIME_ERROR

definition ntpGetLeapSecs :: "ntp_state \<times> u32 \<Rightarrow> u32" where
  "ntpGetLeapSecs r = (case r of (st, tai) \<Rightarrow> if st \<noteq> TIME_ERROR then tai else 0)"

definition ntpIsLeapDay :: "ntp_state \<times> u32 \<Rightarrow> bool" where
  "ntpIsLeapDay r = (case r of (st, tai) \<Rightarrow> \<not> (st = TIME_ERROR \<or> st = TIME_OK))"

text \<open>Callbacks are identified by a number; the error callback of the coupler is an external one for the transport.\<close>

definition CB_SetClkSrcResponse :: nat where "CB_SetClkSrcResponse = 0"
definition CB_SetClkSrcErrorResponse :: nat where "CB_SetClkSrcErrorResponse = 0"

datatype coup_out =
    TrInsert tr_request
  | TrHwReset
  | TrDisableJoin
  | TrEnableJoin u32
  | TrDisconnectAP bool
  | TrEnableAbort
  | TrDisableAbort
  | TrSetAPMState apm_flow_control_t
  | TrStop
  | ClStart start_param_t
  | ClStop
  | ClSendApLost
  | ClSendData "byte list"
  | ClSendTxDone ap_intf_txdone_t
  | ClSendTimeMap ap_time_map_t
  | ClSendGpsLock ap_int_gpslockstat_t
  | ClSendPause
  | ClSendResume
  | GpsStart
  | GpsStop
  | WdFatalStop
  | NodeStop

record coup_env =
  co_now :: int
  co_insert :: "tr_request \<Rightarrow> apc_error_t"
  co_portReady :: bool
  co_lastRspTime :: int
  co_ntp :: "ntp_state \<times> u32"
  co_utc :: "int \<times> int \<times> int"
  co_isConnected :: bool
  co_startResult :: apc_error_t
  co_netId :: u32
  co_clkSources :: "byte list"

type_synonym 'a coup_res = "(CAPCoupler, 'a, coup_out) outcome"

definition doing :: "coup_out list \<Rightarrow> CAPCoupler \<Rightarrow> unit coup_res" where
  "doing out c = Some (c, (), out)"

text \<open>A call on the transport, on the manager client or on the GPS through its pointer.\<close>

definition on_transport :: "coup_out list \<Rightarrow> CAPCoupler \<Rightarrow> unit coup_res" where
  "on_transport out c = (if cp_transport c then Some (c, (), out) else None)"

definition on_gps :: "coup_out list \<Rightarrow> CAPCoupler \<Rightarrow> unit coup_res" where
  "on_gps out c = (if cp_gps c then Some (c, (), out) else None)"

section \<open>Events of the state machine\<close>

definition sendEvent_p :: "u32 \<Rightarrow> CAPCoupler \<Rightarrow> unit coup_res" where
  "sendEvent_p ev c =
     and_then (if ev AND (E_MNGR_DISCONNECT OR E_APM_LOST OR E_APM_REBOOT OR E_AP_DISCONNECT OR E_AP_RESET) \<noteq> 0
               then on_transport [TrDisableJoin] c else doing [] c)
       (\<lambda>c _. doing [] (c\<lparr>cp_events := cp_events c OR ev\<rparr>))"

section \<open>Commands to the access point\<close>

definition insert_or :: "apc_error_t \<Rightarrow> coup_env \<Rightarrow> tr_request \<Rightarrow> CAPCoupler \<Rightarrow> apc_error_t coup_res" where
  "insert_or err e rq c = (if cp_transport c then Some (c, co_insert e rq, [TrInsert rq]) else Some (c, err, []))"

definition sendCmd ::
  "coup_env \<Rightarrow> byte \<Rightarrow> byte list \<Rightarrow> nat option \<Rightarrow> err_callback option \<Rightarrow> CAPCoupler \<Rightarrow> apc_error_t coup_res" where
  "sendCmd e cmdId data resCallback errRespCallback c =
     insert_or APC_ERR_INIT e \<lparr>rq_cmdId = cmdId, rq_data = data, rq_isHighPriority = False, rq_resCallback = resCallback,
       rq_errRespCallback = errRespCallback, rq_isSynch = False\<rparr> c"

text \<open>
  The bit field of the header holds the priority in its two low bits and the link control bit above them; the other
  fields are in network byte order.
\<close>

record dn_api_loc_apsend_ctrl_t =
  as_priority :: byte
  as_linkCtrl :: bool
  as_packetId :: u16
  as_frameId :: byte
  as_timeslot :: u32
  as_channel :: byte
  as_dest :: u16

definition apsend_hdr_bytes :: "dn_api_loc_apsend_ctrl_t \<Rightarrow> byte list" where
  "apsend_hdr_bytes h =
     [(as_priority h AND 3) OR (if as_linkCtrl h then 4 else 0)] @ le_bytes 2 (as_packetId h) @ [as_frameId h]
     @ le_bytes 4 (as_timeslot h) @ [as_channel h] @ le_bytes 2 (as_dest h)"

definition sendApSend ::
  "coup_env \<Rightarrow> dn_api_loc_apsend_ctrl_t \<Rightarrow> byte list \<Rightarrow> CAPCoupler \<Rightarrow> apc_error_t coup_res" where
  "sendApSend e hdr data c =
     (let hdr = hdr\<lparr>as_packetId := htons (as_packetId hdr), as_timeslot := htonl (as_timeslot hdr),
                    as_dest := htons (as_dest hdr)\<rparr>
      in insert_or APC_ERR_INIT e (plain_request DN_API_LOC_CMD_AP_SEND (apsend_hdr_bytes hdr @ data)) c)"

definition sendSetParam ::
  "coup_env \<Rightarrow> byte \<Rightarrow> byte list \<Rightarrow> nat option \<Rightarrow> err_callback option \<Rightarrow> CAPCoupler \<Rightarrow> apc_error_t coup_res" where
  "sendSetParam e paramId data resCallback errRespCallback c =
     insert_or APC_ERR_INIT e \<lparr>rq_cmdId = DN_API_LOC_CMD_SETPARAM, rq_data = paramId # data, rq_isHighPriority = False,
       rq_resCallback = resCallback, rq_errRespCallback = errRespCallback, rq_isSynch = False\<rparr> c"

definition sendSetApClkSource :: "coup_env \<Rightarrow> byte \<Rightarrow> bool \<Rightarrow> CAPCoupler \<Rightarrow> apc_error_t coup_res" where
  "sendSetApClkSource e clkSource isResetAP c =
     sendSetParam e DN_API_PARAM_AP_CLKSRC [clkSource] (if isResetAP then Some CB_SetClkSrcResponse else None)
       (Some (ExternErrorResponse CB_SetClkSrcErrorResponse)) c"

definition sendGetParam :: "coup_env \<Rightarrow> byte \<Rightarrow> CAPCoupler \<Rightarrow> apc_error_t coup_res" where
  "sendGetParam e paramId c = insert_or APC_OK e (plain_request DN_API_LOC_CMD_GETPARAM [paramId]) c"

definition sendGetApNetId where "sendGetApNetId e c = sendGetParam e DN_API_PARAM_NETID c"
definition sendGetApMoteInfo where "sendGetApMoteInfo e c = sendGetParam e DN_API_PARAM_MOTEINFO c"
definition sendGetApAppInfo where "sendGetApAppInfo e c = sendGetParam e DN_API_PARAM_APPINFO c"
definition sendGetApStatus where "sendGetApStatus e c = sendGetParam e DN_API_PARAM_AP_STATUS c"
definition sendGetNetId where "sendGetNetId e c = sendGetParam e DN_API_PARAM_NETID c"

definition sendGetApClkSource :: "coup_env \<Rightarrow> CAPCoupler \<Rightarrow> apc_error_t coup_res" where
  "sendGetApClkSource e c =
     sendGetParam e DN_API_PARAM_AP_CLKSRC (c\<lparr>cp_apInfo := (cp_apInfo c)\<lparr>ap_clksource := CLOCKSOURCR_NONE\<rparr>\<rparr>)"

text \<open>Seconds and microseconds of a system time; conversions between durations round towards zero.\<close>

definition sec_of :: "int \<Rightarrow> int" where "sec_of ns = ns sdiv 1000000000"
definition usec_of :: "int \<Rightarrow> int" where "usec_of ns = (ns - sec_of ns * 1000000000) sdiv 1000"

definition sendSetSystime :: "coup_env \<Rightarrow> byte \<Rightarrow> CAPCoupler \<Rightarrow> unit coup_res" where
  "sendSetSystime e seqNum c =
     (let seconds = (word_of_int (sec_of (co_now e)) :: u64) - ucast (ntpGetLeapSecs (co_ntp e));
          useconds = (word_of_int (usec_of (co_now e)) :: u32);
          sendTime = [DN_API_PARAM_TIME, seqNum] @ le_bytes 8 (CONVERT_LL HOST_TO_NET seconds)
                     @ le_bytes 4 (CONVERT_L HOST_TO_NET useconds)
      in if cp_transport c
         then doing [TrInsert \<lparr>rq_cmdId = DN_API_LOC_CMD_SETPARAM, rq_data = sendTime, rq_isHighPriority = True,
                       rq_resCallback = None, rq_errRespCallback = None, rq_isSynch = False\<rparr>] c
         else doing [] c)"

section \<open>Clock source\<close>

text \<open>At most a hundred looks, ten milliseconds apart, at a value that other threads set.\<close>

fun wait_clksource :: "nat \<Rightarrow> byte list \<Rightarrow> byte \<Rightarrow> byte" where
  "wait_clksource 0 vs v = v"
| "wait_clksource (Suc n) [] v = v"
| "wait_clksource (Suc n) (x # vs) v = (if v = CLOCKSOURCR_NONE then wait_clksource n vs x else v)"

definition set_clksource :: "byte \<Rightarrow> CAPCoupler \<Rightarrow> CAPCoupler" where
  "set_clksource v c = c\<lparr>cp_apInfo := (cp_apInfo c)\<lparr>ap_clksource := v\<rparr>\<rparr>"

definition setClockSource_p :: "coup_env \<Rightarrow> bool \<Rightarrow> CAPCoupler \<Rightarrow> unit coup_res" where
  "setClockSource_p e isIntClk c =
     (let cur = wait_clksource 100 (co_clkSources e) (ap_clksource (cp_apInfo c));
          c = set_clksource cur c
      in if cur = CLOCKSOURCR_NONE then on_transport [TrHwReset] c
         else if cp_apClkSource c = PPS \<and> cur = DN_API_AP_CLK_SOURCE_PPS then doing [] c
         else
           let clkSrc = (if cp_apClkSource c = PPS then DN_API_AP_CLK_SOURCE_PPS
                         else if cur \<noteq> DN_API_AP_CLK_SOURCE_AUTO then DN_API_AP_CLK_SOURCE_AUTO else CLOCKSOURCR_NONE)
           in and_then
                (if clkSrc \<noteq> CLOCKSOURCR_NONE then sendSetApClkSource e clkSrc True (set_clksource clkSrc c)
                 else
                   let isIntClk = (if cp_apClkSource c \<noteq> MNGRSET then cp_apClkSource c = INTERNAL else isIntClk);
                       v = (if isIntClk then DN_API_AP_CLK_SOURCE_INTERNAL else DN_API_AP_CLK_SOURCE_NETWORK)
                   in sendSetApClkSource e v False (set_clksource v c))
                (\<lambda>c _. doing [] c))"

definition handleSetClkSrcErrorResponse_p :: "byte \<Rightarrow> byte \<Rightarrow> CAPCoupler \<Rightarrow> unit coup_res" where
  "handleSetClkSrcErrorResponse_p cmdId rc c = doing (if cp_hasWd c then [WdFatalStop] else []) c"

definition handleSetClkSrcResponse_p :: "byte \<Rightarrow> byte list \<Rightarrow> CAPCoupler \<Rightarrow> unit coup_res" where
  "handleSetClkSrcResponse_p cmdId response c = on_transport [TrHwReset] c"

definition setClockSrource :: "EAPClockSource \<Rightarrow> CAPCoupler \<Rightarrow> unit coup_res" where
  "setClockSrource newClkSrc c =
     (if newClkSrc = cp_apClkSource c then doing [] c
      else on_transport [TrHwReset] (c\<lparr>cp_apClkSource := newClkSrc\<rparr>))"

text \<open>On failure the result parameter keeps its value.\<close>

definition clkSrcStringToEnum :: "string \<Rightarrow> EAPClockSource \<Rightarrow> EAPClockSource \<times> bool" where
  "clkSrcStringToEnum str clkSrc =
     (let str = map toupper str in
      if str = ''GPS'' then (PPS, True) else if str = ''AUTO'' then (MNGRSET, True) else (clkSrc, False))"

definition clkSrcEnumToString :: "EAPClockSource \<Rightarrow> string" where
  "clkSrcEnumToString clkSrc = (if clkSrc = PPS then ''GPS'' else if clkSrc = MNGRSET then ''AUTO'' else ''UNKNOWN'')"

section \<open>Calls of the manager client\<close>

definition coup_connected :: "coup_env \<Rightarrow> byte list \<Rightarrow> u32 \<Rightarrow> CAPCoupler \<Rightarrow> unit coup_res" where
  "coup_connected e server fl c =
     (let c = c\<lparr>cp_isIntClkSrc := (fl AND APC_FL_INTSYNCH_AP = APC_FL_INTSYNCH_AP)\<rparr>
      in and_then (setClockSource_p e (cp_isIntClkSrc c) c) (\<lambda>c _. sendEvent_p E_MNGR_CONNECT c))"

definition coup_disconnected :: "apc_stop_reason_t \<Rightarrow> CAPCoupler \<Rightarrow> unit coup_res" where
  "coup_disconnected reason c = sendEvent_p E_MNGR_DISCONNECT (c\<lparr>cp_isIntClkSrc := False\<rparr>)"

fun priority_bits :: "ap_intf_priority_t \<Rightarrow> byte" where
  "priority_bits APINTF_LOW = 0"
| "priority_bits APINTF_MED = 1"
| "priority_bits APINTF_HI = 2"
| "priority_bits APINTF_CMD = 3"

definition apsend_hdr :: "ap_intf_sendhdr_t \<Rightarrow> dn_api_loc_apsend_ctrl_t" where
  "apsend_hdr hdr = \<lparr>as_priority = priority_bits (sh_priority hdr), as_linkCtrl = sh_isLinkInfoSpecified hdr,
     as_packetId = sh_txDoneId hdr, as_frameId = sh_frId hdr, as_timeslot = sh_slot hdr, as_channel = sh_offset hdr,
     as_dest = sh_dst hdr\<rparr>"

definition coup_dataRx :: "coup_env \<Rightarrow> ap_intf_sendhdr_t \<Rightarrow> byte list \<Rightarrow> CAPCoupler \<Rightarrow> unit coup_res" where
  "coup_dataRx e hdr payload c = and_then (sendApSend e (apsend_hdr hdr) payload c) (\<lambda>c _. doing [] c)"

definition set_flow :: "apm_flow_control_t \<Rightarrow> CAPCoupler \<Rightarrow> unit coup_res" where
  "set_flow s c = doing (if cp_transport c then [TrSetAPMState s] else []) c"

definition coup_resume where "coup_resume c = set_flow APM_FLOW_NORMAL c"
definition coup_pause where "coup_pause c = set_flow APM_FLOW_PAUSE c"
definition coup_offline :: "apc_stop_reason_t \<Rightarrow> CAPCoupler \<Rightarrow> unit coup_res" where
  "coup_offline reason c = set_flow APM_FLOW_PAUSE c"
definition coup_online where "coup_online c = set_flow APM_FLOW_NORMAL c"
definition coup_resetAP where "coup_resetAP c = sendEvent_p E_AP_RESET c"
definition coup_disconnectAP where "coup_disconnectAP c = sendEvent_p E_AP_DISCONNECT c"

definition coup_getTime :: "CAPCoupler \<Rightarrow> unit coup_res" where
  "coup_getTime c =
     doing (if cp_transport c then [TrInsert (plain_request DN_API_LOC_CMD_GETPARAM [DN_API_PARAM_TIME])] else []) c"

definition mngr_notif :: "coup_env \<Rightarrow> IAPCClientNotif \<Rightarrow> CAPCoupler \<Rightarrow> unit coup_res" where
  "mngr_notif e n c = (case n of
      in_connected server fl \<Rightarrow> coup_connected e server fl c
    | in_disconnected reason \<Rightarrow> coup_disconnected reason c
    | in_dataRx hdr payload \<Rightarrow> coup_dataRx e hdr payload c
    | in_resume \<Rightarrow> coup_resume c
    | in_pause \<Rightarrow> coup_pause c
    | in_offline reason \<Rightarrow> coup_offline reason c
    | in_online \<Rightarrow> coup_online c
    | in_resetAP \<Rightarrow> coup_resetAP c
    | in_disconnectAP \<Rightarrow> coup_disconnectAP c
    | in_getTime \<Rightarrow> coup_getTime c)"

section \<open>Notifications of the access point\<close>

definition coup_handleAPLost :: "CAPCoupler \<Rightarrow> unit coup_res" where
  "coup_handleAPLost c =
     and_then (doing (if cp_mngrClient c then [ClSendApLost] else []) (c\<lparr>cp_apConnected := False\<rparr>))
       (\<lambda>c _. sendEvent_p E_APM_LOST c)"

definition set_apState :: "byte \<Rightarrow> CAPCoupler \<Rightarrow> CAPCoupler" where
  "set_apState v c = c\<lparr>cp_apInfo := (cp_apInfo c)\<lparr>ap_apState := v\<rparr>\<rparr>"

definition coup_handleAPBoot :: "coup_env \<Rightarrow> CAPCoupler \<Rightarrow> unit coup_res" where
  "coup_handleAPBoot e c =
     and_then (sendGetApClkSource e c) (\<lambda>c _.
     and_then (sendGetNetId e c) (\<lambda>c _.
     and_then (sendGetApMoteInfo e (c\<lparr>cp_apConnected := True\<rparr>)) (\<lambda>c _.
     and_then (sendGetApAppInfo e c) (\<lambda>c _.
     and_then (sendGetApStatus e c) (\<lambda>c _.
     and_then (sendEvent_p E_APM_BOOT c) (\<lambda>c _. doing [] (set_apState DN_API_ST_IDLE c)))))))"

definition coup_handleAPReboot :: "coup_env \<Rightarrow> CAPCoupler \<Rightarrow> unit coup_res" where
  "coup_handleAPReboot e c =
     and_then (sendGetApClkSource e c) (\<lambda>c _.
     and_then (sendGetNetId e c) (\<lambda>c _.
     and_then (sendGetApMoteInfo e (c\<lparr>cp_apConnected := True\<rparr>)) (\<lambda>c _.
     and_then (sendGetApAppInfo e c) (\<lambda>c _.
     and_then (sendEvent_p E_APM_REBOOT c) (\<lambda>c _. doing [] (set_apState DN_API_ST_IDLE c))))))"

definition coup_handleAPReceive :: "byte list \<Rightarrow> CAPCoupler \<Rightarrow> unit coup_res" where
  "coup_handleAPReceive data c = doing (if cp_mngrClient c then [ClSendData data] else []) c"

definition coup_handleEvent :: "coup_env \<Rightarrow> dn_api_loc_notif_events_t \<Rightarrow> CAPCoupler \<Rightarrow> unit coup_res" where
  "coup_handleEvent e ev c = and_then (sendGetApStatus e c) (\<lambda>c _. doing [] c)"

text \<open>Both readings of the clock in the blackout test are taken at the time of the call.\<close>

definition coup_handleReadyForTime :: "coup_env \<Rightarrow> byte \<Rightarrow> CAPCoupler \<Rightarrow> unit coup_res" where
  "coup_handleReadyForTime e seqNum c =
     (if cp_blackoutStart c \<noteq> SYSTIME_EMPTY \<and> co_now e > cp_blackoutStart c
         \<and> co_now e < cp_blackoutStart c + AP_BLACKOUT_DURATION * 1000000000 then doing [] c
      else
        let clk = ap_clksource (cp_apInfo c) in
        if clk = DN_API_AP_CLK_SOURCE_INTERNAL
           \<or> (clk = DN_API_AP_CLK_SOURCE_AUTO
              \<and> ((cp_apClkSource c = MNGRSET \<and> cp_isIntClkSrc c) \<or> cp_apClkSource c = INTERNAL))
        then sendSetSystime e 0 c
        else if clk = DN_API_AP_CLK_SOURCE_PPS then
          let c = (if \<not> cp_gpsd_conn c then c\<lparr>cp_cur_gps_status := GPS_ST_SYNC\<rparr> else c)
          in if cp_cur_gps_status c = GPS_ST_SYNC then sendSetSystime e seqNum c else doing [] c
        else doing [] c)"

definition coup_handleTXDone :: "dn_api_loc_notif_txdone_t \<Rightarrow> CAPCoupler \<Rightarrow> unit coup_res" where
  "coup_handleTXDone tx c =
     doing (if cp_mngrClient c
            then [ClSendTxDone \<lparr>td_txDoneId = txd_packetId tx,
                    td_status = (if txd_status tx = 0 then APINTF_TXDONE_OK else APINTF_TXDONE_ERR)\<rparr>] else []) c"

definition swver_bytes :: "dn_api_swver_t \<Rightarrow> byte list" where
  "swver_bytes v = [ver_major v, ver_minor v, ver_patch v] @ le_bytes 2 (ver_build v)"

definition coup_handleParamMacAddress :: "byte list \<Rightarrow> CAPCoupler \<Rightarrow> unit coup_res" where
  "coup_handleParamMacAddress mac c = doing [] (c\<lparr>cp_apInfo := (cp_apInfo c)\<lparr>ap_mac := mac\<rparr>\<rparr>)"

definition coup_handleParamMoteInfo :: "dn_api_swver_t \<Rightarrow> CAPCoupler \<Rightarrow> unit coup_res" where
  "coup_handleParamMoteInfo ver c = doing [] (c\<lparr>cp_apInfo := (cp_apInfo c)\<lparr>ap_swVersion := swver_bytes ver\<rparr>\<rparr>)"

text \<open>The loop over the four parts of the version: whether it finds the version too old.\<close>

fun too_old :: "u32 list \<Rightarrow> u32 list \<Rightarrow> bool" where
  "too_old (v # vs) (m # ms) = (if v > m then False else if v < m then True else too_old vs ms)"
| "too_old _ _ = False"

definition coup_handleParamAppInfo :: "dn_api_swver_t \<Rightarrow> CAPCoupler \<Rightarrow> unit coup_res" where
  "coup_handleParamAppInfo app c =
     (let c = c\<lparr>cp_apInfo := (cp_apInfo c)\<lparr>ap_appVersion := swver_bytes app\<rparr>\<rparr>;
          ver = [ucast (ver_major app), ucast (ver_minor app), ucast (ver_patch app), ucast (ntohs (ver_build app))]
      in doing (if too_old ver MIN_VERSION \<and> cp_hasWd c then [WdFatalStop] else []) c)"

definition coup_handleParamApStatus :: "byte \<Rightarrow> CAPCoupler \<Rightarrow> unit coup_res" where
  "coup_handleParamApStatus st c = doing [] (set_apState st c)"

definition coup_handleParamClkSrc :: "byte \<Rightarrow> CAPCoupler \<Rightarrow> unit coup_res" where
  "coup_handleParamClkSrc clk c =
     (let c = set_clksource clk c in
      if clk = DN_API_AP_CLK_SOURCE_PPS \<and> cp_apClkSource c = PPS
      then (if cp_gpsd_conn c then on_gps [GpsStart] c else doing [] c)
      else (if cp_gpsd_conn c then on_gps [GpsStop] c else doing [] c))"

definition coup_handleParamNetId :: "u16 \<Rightarrow> CAPCoupler \<Rightarrow> unit coup_res" where
  "coup_handleParamNetId netId c = doing [] (c\<lparr>cp_apInfo := (cp_apInfo c)\<lparr>ap_networkId := netId\<rparr>\<rparr>)"

definition coup_handleParamGetTime :: "coup_env \<Rightarrow> dn_api_rsp_get_time_t \<Rightarrow> CAPCoupler \<Rightarrow> unit coup_res" where
  "coup_handleParamGetTime e gt c =
     (if \<not> cp_transport c \<or> \<not> cp_mngrClient c then doing [] c
      else case ntoh_asn (gt_asn gt) (word_of_nat DN_ASN_SIZE) of None \<Rightarrow> None
      | Some apAsn \<Rightarrow>
          let systime = co_now e - (co_lastRspTime e sdiv 2) * 1000
          in doing [ClSendTimeMap \<lparr>tm_timeSec = word_of_int (sec_of systime), tm_timeUsec = word_of_int (usec_of systime),
                      tm_asn = apAsn, tm_asnOffset = gt_offset gt\<rparr>] c)"

definition coup_handleAPPause :: "CAPCoupler \<Rightarrow> unit coup_res" where
  "coup_handleAPPause c = doing (if cp_mngrClient c then [ClSendPause] else []) c"

definition coup_handleAPResume :: "CAPCoupler \<Rightarrow> unit coup_res" where
  "coup_handleAPResume c = doing (if cp_mngrClient c then [ClSendResume] else []) c"

definition apm_notif :: "coup_env \<Rightarrow> IAPMNotifHandler \<Rightarrow> CAPCoupler \<Rightarrow> unit coup_res" where
  "apm_notif e n c = (case n of
      handleAPReceive data \<Rightarrow> coup_handleAPReceive data c
    | handleEvent ev \<Rightarrow> coup_handleEvent e ev c
    | handleTimeIndication d \<Rightarrow> doing [] c
    | handleReadyForTime s \<Rightarrow> coup_handleReadyForTime e s c
    | handleTXDone tx \<Rightarrow> coup_handleTXDone tx c
    | handleParamMacAddress mac \<Rightarrow> coup_handleParamMacAddress mac c
    | handleParamMoteInfo v \<Rightarrow> coup_handleParamMoteInfo v c
    | handleParamAppInfo v \<Rightarrow> coup_handleParamAppInfo v c
    | handleParamClkSrc k \<Rightarrow> coup_handleParamClkSrc k c
    | handleParamNetId k \<Rightarrow> coup_handleParamNetId k c
    | handleParamGetTime gt \<Rightarrow> coup_handleParamGetTime e gt c
    | handleParamApStatus st \<Rightarrow> coup_handleParamApStatus st c
    | handleAPLost \<Rightarrow> coup_handleAPLost c
    | handleAPPause \<Rightarrow> coup_handleAPPause c
    | handleAPResume \<Rightarrow> coup_handleAPResume c
    | handleAPBoot \<Rightarrow> coup_handleAPBoot e c
    | handleAPReboot \<Rightarrow> coup_handleAPReboot e c
    | handleError cmdId rc \<Rightarrow> doing [] c)"

section \<open>GPS\<close>

text \<open>The status goes out as the four bytes of the enumeration.\<close>

fun gps_lock_number :: "ap_int_gpslockstat_t \<Rightarrow> u32" where
  "gps_lock_number APINTF_GPS_LOCK = 0"
| "gps_lock_number APINTF_GPS_NOLOCK = 1"

definition handleGPSStatusChanged :: "coup_env \<Rightarrow> gps_status_t \<Rightarrow> CAPCoupler \<Rightarrow> unit coup_res" where
  "handleGPSStatusChanged e newstatus c =
     (if \<not> cp_gpsd_conn c then doing [] c
      else
        let c = c\<lparr>cp_cur_gps_status := newstatus\<rparr> in
        if \<not> cp_transport c \<or> \<not> cp_mngrClient c then doing [] c
        else if ap_clksource (cp_apInfo c) = DN_API_AP_CLK_SOURCE_PPS \<and> co_portReady e then
          let st = (if cp_cur_gps_status c = GPS_ST_SYNC then APINTF_GPS_LOCK else APINTF_GPS_NOLOCK)
          in doing [ClSendGpsLock st,
                    TrInsert (plain_request DN_API_LOC_CMD_WRITE_GPS_STATUS (le_bytes 4 (gps_lock_number st)))] c
        else doing [] c)"

definition handleSatellitesUsedChanged :: "u16 \<Rightarrow> CAPCoupler \<Rightarrow> CAPCoupler" where
  "handleSatellitesUsedChanged used c = c\<lparr>cp_gps_info := (cp_gps_info c)\<lparr>gi_satellites_used := used\<rparr>\<rparr>"

definition handleSatellitesVisibleChanged :: "u16 \<Rightarrow> CAPCoupler \<Rightarrow> CAPCoupler" where
  "handleSatellitesVisibleChanged visible c = c\<lparr>cp_gps_info := (cp_gps_info c)\<lparr>gi_satellites_visible := visible\<rparr>\<rparr>"

section \<open>Leap seconds\<close>

definition secSinceMidnight_p :: "coup_env \<Rightarrow> int \<Rightarrow> bool \<Rightarrow> int" where
  "secSinceMidnight_p e utcSec borrowDay =
     (case co_utc e of (tm_hour, tm_min, tm_sec) \<Rightarrow>
        let res = utcSec - ((tm_hour * 60 + tm_min) * 60 + tm_sec)
        in if res \<le> 0 \<and> borrowDay then res + 24 * 60 * 60 else res)"

text \<open>The result is the number of seconds until the next check.\<close>

definition leapCheckingTimer_p :: "coup_env \<Rightarrow> bool \<Rightarrow> CAPCoupler \<Rightarrow> CAPCoupler \<times> int option" where
  "leapCheckingTimer_p e error c =
     (if error then (c, None)
      else
        (c\<lparr>cp_blackoutStart := (if ntpIsLeapDay (co_ntp e) then co_now e + secSinceMidnight_p e AP_BLACKOUT True * 1000000000
                                else SYSTIME_EMPTY)\<rparr>,
         Some (secSinceMidnight_p e LEAP_CHECK_TIME True)))"

end
