(* ===== verification/GPS_Client.thy ===== *)
theory GPS_Client
  imports AP_Coupler
begin

text \<open>
  The GPS client (\<^verbatim>\<open>GPS.h\<close>, \<^verbatim>\<open>GPS.cpp\<close>): a thread reads records from the GPS daemon and reports whether enough satellites have been
  in use for long enough.  What the daemon answers is an input; times are in seconds.
\<close>

section \<open>State\<close>

record CGPS =
  gp_running :: bool
  gp_thread :: bool
  gp_lastRecord :: bool
  gp_status :: gps_status_t
  gp_hasHandler :: bool
  gp_stable_start :: u64
  gp_used :: u16
  gp_visible :: u16
  gp_minSatellites :: u16
  gp_maxTimeToStable :: u32

definition new_CGPS :: "u16 \<Rightarrow> u32 \<Rightarrow> CGPS" where
  "new_CGPS minSat maxTime =
     \<lparr>gp_running = False, gp_thread = False, gp_lastRecord = False, gp_status = GPS_ST_NO_DEVICE, gp_hasHandler = False,
      gp_stable_start = 0, gp_used = 0, gp_visible = 0, gp_minSatellites = minSat, gp_maxTimeToStable = maxTime\<rparr>"

datatype gps_out =
    GpsStatusChanged gps_status_t
  | GpsVisibleChanged u16
  | GpsUsedChanged u16

type_synonym gps_step = "CGPS \<times> gps_out list"

section \<open>Notifications\<close>

text \<open>\<^verbatim>\<open>start\<close> sets the handler before the thread runs, so that the two calls without a check are safe.\<close>

definition setStatus :: "gps_status_t \<Rightarrow> CGPS \<Rightarrow> gps_step" where
  "setStatus newstatus g =
     (let g = (if newstatus = GPS_ST_SYNC then g else g\<lparr>gp_stable_start := 0\<rparr>);
          out = (if gp_status g \<noteq> newstatus \<and> gp_hasHandler g then [GpsStatusChanged newstatus] else [])
      in (g\<lparr>gp_status := newstatus\<rparr>, out))"

definition setSatellitesVisible :: "u16 \<Rightarrow> CGPS \<Rightarrow> gps_step" where
  "setSatellitesVisible visible g = (g\<lparr>gp_visible := visible\<rparr>, [GpsVisibleChanged visible])"

definition setSatellitesUsed :: "u16 \<Rightarrow> CGPS \<Rightarrow> gps_step" where
  "setSatellitesUsed used g = (g\<lparr>gp_used := used\<rparr>, [GpsUsedChanged used])"

section \<open>The reading thread\<close>

text \<open>Between two steps the thread is about to open the stream, or to wait for input, or it has ended.\<close>

datatype gps_place = GpsOpen | GpsWait | GpsEnd

text \<open>
  The daemon's answers: whether the stream could be opened; no input in time, a read error, or a record with the
  numbers of satellites.
\<close>

datatype gps_input = Stream bool | NoInput | ReadError | Record int int

text \<open>A complete record; the comparisons are between the record's integers and the stored 16-bit numbers.\<close>

definition take_record :: "u64 \<Rightarrow> int \<Rightarrow> int \<Rightarrow> CGPS \<Rightarrow> gps_step" where
  "take_record now used visible g =
     (let g = g\<lparr>gp_lastRecord := True\<rparr>;
          (g, out1) = (if uint (gp_visible g) \<noteq> visible then setSatellitesVisible (word_of_int visible) g else (g, []));
          (g, out2) = (if uint (gp_used g) \<noteq> used then setSatellitesUsed (word_of_int used) g else (g, []));
          (g, out3) =
            (if used \<ge> uint (gp_minSatellites g) then
               if gp_stable_start g = 0 then (g\<lparr>gp_stable_start := now\<rparr>, [])
               else if now - gp_stable_start g \<ge> ucast (gp_maxTimeToStable g) then setStatus GPS_ST_SYNC g
               else (g, [])
             else setStatus GPS_ST_NO_SYNC g)
      in (g, out1 @ out2 @ out3))"

definition gps_turn :: "gps_place \<Rightarrow> u64 \<Rightarrow> gps_input \<Rightarrow> CGPS \<Rightarrow> gps_place \<times> CGPS \<times> gps_out list" where
  "gps_turn p now i g = (case p of
      GpsEnd \<Rightarrow> (GpsEnd, g, [])
    | GpsOpen \<Rightarrow>
        if \<not> gp_running g then (GpsEnd, g\<lparr>gp_running := False\<rparr>, [])
        else (case i of
            Stream True \<Rightarrow> (GpsWait, g, [])
          | Stream False \<Rightarrow> (case setStatus GPS_ST_NO_DEVICE g of (g, out) \<Rightarrow> (GpsOpen, g, out))
          | _ \<Rightarrow> (GpsOpen, g, []))
    | GpsWait \<Rightarrow>
        if \<not> gp_running g then (GpsOpen, g\<lparr>gp_stable_start := 0\<rparr>, [])
        else (case i of
            NoInput \<Rightarrow>
              if gp_lastRecord g
              then (case setStatus GPS_ST_CONN_LOST (g\<lparr>gp_lastRecord := False\<rparr>) of (g, out) \<Rightarrow> (GpsWait, g, out))
              else (GpsWait, g, [])
          | ReadError \<Rightarrow>
              (case setStatus GPS_ST_CONN_LOST (g\<lparr>gp_lastRecord := False\<rparr>) of
                 (g, out) \<Rightarrow> (GpsOpen, g\<lparr>gp_stable_start := 0\<rparr>, out))
          | Record used visible \<Rightarrow> (case take_record now used visible g of (g, out) \<Rightarrow> (GpsWait, g, out))
          | Stream _ \<Rightarrow> (GpsWait, g, [])))"

text \<open>
  The thread function sets the running flag when the thread begins to run; \<^verbatim>\<open>start\<close> clears it before it creates the
  thread, \<^verbatim>\<open>stop\<close> clears it and waits for the thread.
\<close>

definition readGPSThreadFun_begin :: "CGPS \<Rightarrow> gps_place \<times> CGPS" where
  "readGPSThreadFun_begin g = (GpsOpen, g\<lparr>gp_running := True\<rparr>)"

definition gps_start :: "u16 \<Rightarrow> u32 \<Rightarrow> bool \<Rightarrow> CGPS \<Rightarrow> CGPS" where
  "gps_start minSat maxTime hasHandler g =
     g\<lparr>gp_minSatellites := minSat, gp_maxTimeToStable := maxTime, gp_hasHandler := hasHandler, gp_running := False,
       gp_thread := True\<rparr>"

definition gps_stop_signal :: "CGPS \<Rightarrow> CGPS" where
  "gps_stop_signal g = g\<lparr>gp_running := False\<rparr>"

definition gps_stop_joined :: "CGPS \<Rightarrow> CGPS" where
  "gps_stop_joined g = g\<lparr>gp_thread := False\<rparr>"

definition getStatus :: "CGPS \<Rightarrow> gps_status_t" where
  "getStatus g = gp_status g"

section \<open>Runs\<close>

definition gps_step_of :: "gps_place \<times> CGPS \<Rightarrow> u64 \<times> gps_input \<Rightarrow> (gps_place \<times> CGPS) \<times> gps_out list" where
  "gps_step_of s x = (case gps_turn (fst s) (fst x) (snd x) (snd s) of (p, g, out) \<Rightarrow> ((p, g), out))"

text \<open>Once the running flag is cleared, two turns end the thread.\<close>

lemma gps_stops:
  assumes "\<not> gp_running g"
  shows "fst (fst (run gps_step_of (p, g) [x, y])) = GpsEnd"
  using assms by (cases p) (simp_all add: run_simps gps_step_of_def gps_turn_def)

text \<open>
  But \<^verbatim>\<open>stop\<close> may come before the thread has begun to run: the thread then sets the flag again and never
  ends, and \<^verbatim>\<open>stop\<close> waits for it for ever.
\<close>

lemma gps_running_kept:
  "gp_running (snd (fst (gps_step_of (p, g) x))) = gp_running g \<or> fst (fst (gps_step_of (p, g) x)) = GpsEnd"
proof -
  have s: "gp_running (fst (setStatus st h)) = gp_running h" for st h by (simp add: setStatus_def Let_def)
  have r: "gp_running (fst (take_record n u v h)) = gp_running h" for n u v h
    by (simp add: take_record_def Let_def case_prod_beta s setSatellitesVisible_def setSatellitesUsed_def)
  show ?thesis
    by (cases p) (auto simp: gps_step_of_def gps_turn_def case_prod_beta s r split: gps_input.splits bool.splits)
qed

section \<open>When the signal counts as stable\<close>

text \<open>The states of the thread with the inputs it has seen, the latest last; the running flag may be cleared at any time.\<close>

inductive gps_reach :: "u16 \<Rightarrow> u32 \<Rightarrow> gps_place \<Rightarrow> CGPS \<Rightarrow> (u64 \<times> gps_input) list \<Rightarrow> bool" for minSat maxTime where
  started: "gp_stable_start g = 0 \<Longrightarrow> gp_minSatellites g = minSat \<Longrightarrow> gp_maxTimeToStable g = maxTime
      \<Longrightarrow> gps_reach minSat maxTime GpsOpen (g\<lparr>gp_running := True\<rparr>) []"
| turn: "gps_reach minSat maxTime p g h \<Longrightarrow> gps_turn p now i g = (p', g', out) \<Longrightarrow> gps_reach minSat maxTime p' g' (h @ [(now, i)])"
| stopped: "gps_reach minSat maxTime p g h \<Longrightarrow> gps_reach minSat maxTime p (gps_stop_signal g) h"

fun good_input :: "u16 \<Rightarrow> gps_input \<Rightarrow> bool" where
  "good_input minSat (Record used _) = (used \<ge> uint minSat)"
| "good_input minSat (Stream _) = True"
| "good_input minSat _ = False"

definition since :: "u16 \<Rightarrow> u64 \<Rightarrow> (u64 \<times> gps_input) list \<Rightarrow> bool" where
  "since minSat t h \<longleftrightarrow> (\<exists>pre mid u v. h = pre @ (t, Record u v) # mid \<and> u \<ge> uint minSat \<and> (\<forall>x \<in> set mid. good_input minSat (snd x)))"

definition gps_inv :: "u16 \<Rightarrow> u32 \<Rightarrow> gps_place \<Rightarrow> CGPS \<Rightarrow> (u64 \<times> gps_input) list \<Rightarrow> bool" where
  "gps_inv minSat maxTime p g h \<longleftrightarrow> gp_minSatellites g = minSat \<and> gp_maxTimeToStable g = maxTime
     \<and> (gp_stable_start g \<noteq> 0 \<longrightarrow> p = GpsWait \<and> gp_lastRecord g \<and> since minSat (gp_stable_start g) h)"

lemma since_snoc: "since minSat t h \<Longrightarrow> good_input minSat i \<Longrightarrow> since minSat t (h @ [(now, i)])"
  unfolding since_def by (elim exE) (rule exI, rule exI, rule exI, rule exI, auto)

lemma since_now: "u \<ge> uint minSat \<Longrightarrow> since minSat now (h @ [(now, Record u v)])"
  unfolding since_def by (intro exI[of _ h] exI[of _ "[]"] exI[of _ u] exI[of _ v]) simp

lemma setStatus_fields [simp]:
  "gp_minSatellites (fst (setStatus st g)) = gp_minSatellites g" "gp_maxTimeToStable (fst (setStatus st g)) = gp_maxTimeToStable g"
  "gp_stable_start (fst (setStatus st g)) = (if st = GPS_ST_SYNC then gp_stable_start g else 0)"
  "gp_lastRecord (fst (setStatus st g)) = gp_lastRecord g"
  by (simp_all add: setStatus_def Let_def)

lemma setStatus_pair:
  "setStatus st g = (g', out) \<Longrightarrow> gp_minSatellites g' = gp_minSatellites g \<and> gp_maxTimeToStable g' = gp_maxTimeToStable g
     \<and> gp_stable_start g' = (if st = GPS_ST_SYNC then gp_stable_start g else 0) \<and> gp_lastRecord g' = gp_lastRecord g
     \<and> (GpsStatusChanged s \<in> set out \<longrightarrow> s = st)"
  by (auto simp: setStatus_def Let_def split: if_splits)

lemma take_record_fields:
  "gp_minSatellites (fst (take_record now u v g)) = gp_minSatellites g"
  "gp_maxTimeToStable (fst (take_record now u v g)) = gp_maxTimeToStable g"
  "gp_lastRecord (fst (take_record now u v g))"
  "gp_stable_start (fst (take_record now u v g)) =
     (if u \<ge> uint (gp_minSatellites g) then if gp_stable_start g = 0 then now else gp_stable_start g else 0)"
  by (simp_all add: take_record_def Let_def case_prod_beta setSatellitesVisible_def setSatellitesUsed_def)

lemma gps_turn_inv:
  assumes "gps_inv minSat maxTime p g h" and "gps_turn p now i g = (p', g', out)"
  shows "gps_inv minSat maxTime p' g' (h @ [(now, i)])"
proof (cases p)
  case GpsWait
  show ?thesis
  proof (cases "gp_running g")
    case True
    show ?thesis
    proof (cases i)
      case (Record u v)
      then show ?thesis
        using assms GpsWait True take_record_fields[of now u v g] since_snoc[of minSat "gp_stable_start g" h i now]
          since_now[of minSat u now h v]
        by (auto simp: gps_turn_def gps_inv_def case_prod_beta)
    next
      case (Stream b)
      then show ?thesis
        using assms GpsWait True since_snoc[of minSat "gp_stable_start g" h i now] by (auto simp: gps_turn_def gps_inv_def)
    qed (use assms GpsWait True in \<open>auto simp: gps_turn_def gps_inv_def split: if_splits prod.splits dest!: setStatus_pair\<close>)
  qed (use assms GpsWait in \<open>auto simp: gps_turn_def gps_inv_def\<close>)
qed (use assms in \<open>auto simp: gps_turn_def gps_inv_def split: if_splits gps_input.splits bool.splits prod.splits dest!: setStatus_pair\<close>)

lemma gps_reach_inv: "gps_reach minSat maxTime p g h \<Longrightarrow> gps_inv minSat maxTime p g h"
proof (induction rule: gps_reach.induct)
  case (turn p g h now i p' g' out)
  then show ?case using gps_turn_inv by blast
qed (simp_all add: gps_inv_def gps_stop_signal_def)

lemma setStatus_out: "GpsStatusChanged s \<in> set (snd (setStatus st g)) \<Longrightarrow> s = st"
  by (auto simp: setStatus_def Let_def split: if_splits)

lemma take_record_sync:
  assumes "GpsStatusChanged GPS_ST_SYNC \<in> set (snd (take_record now u v g))"
  shows "u \<ge> uint (gp_minSatellites g)" "gp_stable_start g \<noteq> 0" "now - gp_stable_start g \<ge> ucast (gp_maxTimeToStable g)"
  using assms
  by (auto simp: take_record_def Let_def case_prod_beta setSatellitesVisible_def setSatellitesUsed_def
      dest: setStatus_out split: if_splits)

text \<open>
  Claim C28.  The GPS is reported to be in sync only on a record with enough satellites in use, and only if there was an earlier such record
  at least the configured time before, since when every record had enough satellites, input never failed to arrive and the
  connection to the daemon was not lost.\<close>

theorem gps_sync_needs_stable_signal:
  assumes "gps_reach minSat maxTime p g h" and "gps_turn p now i g = (p', g', out)"
    and "GpsStatusChanged GPS_ST_SYNC \<in> set out"
  shows "\<exists>t u v. i = Record u v \<and> u \<ge> uint minSat \<and> since minSat t h \<and> now - t \<ge> ucast maxTime"
proof -
  note inv = gps_reach_inv[OF assms(1), unfolded gps_inv_def]
  obtain u v where i: "p = GpsWait" "i = Record u v" "out = snd (take_record now u v g)"
    using assms(2,3)
    by (auto simp: gps_turn_def dest!: setStatus_pair[where s = GPS_ST_SYNC]
        split: gps_place.splits if_splits gps_input.splits bool.splits prod.splits)
  show ?thesis using take_record_sync[of now u v g] assms(3) i inv by auto
qed

theorem gps_sync_needs_stable_signal_witness:
  "\<exists>t u v. Record 5 7 = Record u v \<and> u \<ge> uint (4 :: u16) \<and> since 4 t [(100, Stream True), (100, Record 6 8)]
     \<and> 160 - t \<ge> (ucast (60 :: u32) :: u64)"
proof -
  let ?g0 = "(new_CGPS 4 60)\<lparr>gp_hasHandler := True\<rparr>"
  let ?g1 = "?g0\<lparr>gp_running := True\<rparr>"
  have s0: "gps_reach 4 60 GpsOpen ?g1 []" by (rule gps_reach.started) (simp_all add: new_CGPS_def)
  have "gps_turn GpsOpen 100 (Stream True) ?g1 = (GpsWait, ?g1, [])" by (simp add: gps_turn_def)
  from gps_reach.turn[OF s0 this] have s1: "gps_reach 4 60 GpsWait ?g1 [(100, Stream True)]" by simp
  obtain g2 where g2: "gps_turn GpsWait 100 (Record 6 8) ?g1 = (GpsWait, g2, [GpsVisibleChanged 8, GpsUsedChanged 6])"
      "gp_stable_start g2 = 100" "gp_maxTimeToStable g2 = 60" "gp_minSatellites g2 = 4" "gp_running g2"
      "gp_status g2 = GPS_ST_NO_DEVICE" "gp_hasHandler g2"
    by (simp add: gps_turn_def take_record_def Let_def setSatellitesVisible_def setSatellitesUsed_def new_CGPS_def)
  from gps_reach.turn[OF s1 g2(1)] have s2: "gps_reach 4 60 GpsWait g2 [(100, Stream True), (100, Record 6 8)]" by simp
  obtain p' g' out where t3: "gps_turn GpsWait 160 (Record 5 7) g2 = (p', g', out)" by (rule prod_cases3)
  have "GpsStatusChanged GPS_ST_SYNC \<in> set out"
    using t3 g2(2-) by (auto simp: gps_turn_def take_record_def Let_def setSatellitesVisible_def setSatellitesUsed_def setStatus_def
        case_prod_beta)
  from gps_sync_needs_stable_signal[OF s2 t3 this] show ?thesis .
qed

end
