(* ===== verification/HDLC.thy ===== *)
theory HDLC
  imports APB_Prelude
begin

text \<open>
  The HDLC framing of the serial link to the access point mote
  (\<^verbatim>\<open>APInterface/HDLC.h\<close>, \<^verbatim>\<open>APInterface/HDLC.cpp\<close>): the table driven FCS-16, the
  generator \<^verbatim>\<open>encodeHDLC\<close> and the byte-wise parser \<^verbatim>\<open>CHDLC\<close>.  The calls the parser makes on
  its \<^verbatim>\<open>IHDLCCallback\<close> are the outputs of a step.
\<close>

section \<open>Constants and the FCS-16\<close>

definition HDLC_PADDING :: byte where "HDLC_PADDING = 0x7E"
definition HDLC_ESCCHAR :: byte where "HDLC_ESCCHAR = 0x7D"
definition HDLC_XORBYTE :: byte where "HDLC_XORBYTE = 0x20"
definition CRC_MAGIC_NUMBER :: u16 where "CRC_MAGIC_NUMBER = 0xF0B8"

lemmas hdlc_const_defs = HDLC_PADDING_def HDLC_ESCCHAR_def HDLC_XORBYTE_def

definition fcstab :: "u32 list" where
  "fcstab = [
  0x0000, 0x1189, 0x2312, 0x329b, 0x4624, 0x57ad, 0x6536, 0x74bf,
  0x8c48, 0x9dc1, 0xaf5a, 0xbed3, 0xca6c, 0xdbe5, 0xe97e, 0xf8f7,
  0x1081, 0x0108, 0x3393, 0x221a, 0x56a5, 0x472c, 0x75b7, 0x643e,
  0x9cc9, 0x8d40, 0xbfdb, 0xae52, 0xdaed, 0xcb64, 0xf9ff, 0xe876,
  0x2102, 0x308b, 0x0210, 0x1399, 0x6726, 0x76af, 0x4434, 0x55bd,
  0xad4a, 0xbcc3, 0x8e58, 0x9fd1, 0xeb6e, 0xfae7, 0xc87c, 0xd9f5,
  0x3183, 0x200a, 0x1291, 0x0318, 0x77a7, 0x662e, 0x54b5, 0x453c,
  0xbdcb, 0xac42, 0x9ed9, 0x8f50, 0xfbef, 0xea66, 0xd8fd, 0xc974,
  0x4204, 0x538d, 0x6116, 0x709f, 0x0420, 0x15a9, 0x2732, 0x36bb,
  0xce4c, 0xdfc5, 0xed5e, 0xfcd7, 0x8868, 0x99e1, 0xab7a, 0xbaf3,
  0x5285, 0x430c, 0x7197, 0x601e, 0x14a1, 0x0528, 0x37b3, 0x263a,
  0xdecd, 0xcf44, 0xfddf, 0xec56, 0x98e9, 0x8960, 0xbbfb, 0xaa72,
  0x6306, 0x728f, 0x4014, 0x519d, 0x2522, 0x34ab, 0x0630, 0x17b9,
  0xef4e, 0xfec7, 0xcc5c, 0xddd5, 0xa96a, 0xb8e3, 0x8a78, 0x9bf1,
  0x7387, 0x620e, 0x5095, 0x411c, 0x35a3, 0x242a, 0x16b1, 0x0738,
  0xffcf, 0xee46, 0xdcdd, 0xcd54, 0xb9eb, 0xa862, 0x9af9, 0x8b70,
  0x8408, 0x9581, 0xa71a, 0xb693, 0xc22c, 0xd3a5, 0xe13e, 0xf0b7,
  0x0840, 0x19c9, 0x2b52, 0x3adb, 0x4e64, 0x5fed, 0x6d76, 0x7cff,
  0x9489, 0x8500, 0xb79b, 0xa612, 0xd2ad, 0xc324, 0xf1bf, 0xe036,
  0x18c1, 0x0948, 0x3bd3, 0x2a5a, 0x5ee5, 0x4f6c, 0x7df7, 0x6c7e,
  0xa50a, 0xb483, 0x8618, 0x9791, 0xe32e, 0xf2a7, 0xc03c, 0xd1b5,
  0x2942, 0x38cb, 0x0a50, 0x1bd9, 0x6f66, 0x7eef, 0x4c74, 0x5dfd,
  0xb58b, 0xa402, 0x9699, 0x8710, 0xf3af, 0xe226, 0xd0bd, 0xc134,
  0x39c3, 0x284a, 0x1ad1, 0x0b58, 0x7fe7, 0x6e6e, 0x5cf5, 0x4d7c,
  0xc60c, 0xd785, 0xe51e, 0xf497, 0x8028, 0x91a1, 0xa33a, 0xb2b3,
  0x4a44, 0x5bcd, 0x6956, 0x78df, 0x0c60, 0x1de9, 0x2f72, 0x3efb,
  0xd68d, 0xc704, 0xf59f, 0xe416, 0x90a9, 0x8120, 0xb3bb, 0xa232,
  0x5ac5, 0x4b4c, 0x79d7, 0x685e, 0x1ce1, 0x0d68, 0x3ff3, 0x2e7a,
  0xe70e, 0xf687, 0xc41c, 0xd595, 0xa12a, 0xb0a3, 0x8238, 0x93b1,
  0x6b46, 0x7acf, 0x4854, 0x59dd, 0x2d62, 0x3ceb, 0x0e70, 0x1ff9,
  0xf78f, 0xe606, 0xd49d, 0xc514, 0xb1ab, 0xa022, 0x92b9, 0x8330,
  0x7bc7, 0x6a4e, 0x58d5, 0x495c, 0x3de3, 0x2c6a, 0x1ef1, 0x0f78
  ]"

definition initFcs16 :: u32 where "initFcs16 = 0xffff"

definition addOneByteToFcs16 :: "u32 \<Rightarrow> byte \<Rightarrow> u32" where
  "addOneByteToFcs16 fcs byte =
     drop_bit 8 (fcs AND 0xffff) XOR fcstab ! unat ((fcs XOR ucast byte) AND 0xff)"

definition closeFcs16 :: "u32 \<Rightarrow> u16" where
  "closeFcs16 fcs = (let fcs = fcs XOR 0xffff in (ucast fcs :: u16) AND 0xffff)"

text \<open>The loop body of \<^verbatim>\<open>computeFCS16\<close> is the body of \<^verbatim>\<open>addOneByteToFcs16\<close>, written out again.\<close>

fun computeFCS16_loop :: "u32 \<Rightarrow> byte list \<Rightarrow> u32" where
  "computeFCS16_loop fcs [] = fcs"
| "computeFCS16_loop fcs (b # data) =
     computeFCS16_loop
       (drop_bit 8 (fcs AND 0xffff) XOR fcstab ! unat ((fcs XOR ucast b) AND 0xff)) data"

definition computeFCS16 :: "byte list \<Rightarrow> u16" where
  "computeFCS16 data = closeFcs16 (computeFCS16_loop initFcs16 data)"

section \<open>The generator\<close>

fun appendHDLC :: "byte list \<Rightarrow> byte list \<Rightarrow> byte list" where
  "appendHDLC dst [] = dst"
| "appendHDLC dst (b # src) =
     (if b = HDLC_PADDING \<or> b = HDLC_ESCCHAR
      then appendHDLC (dst @ [HDLC_ESCCHAR] @ [b XOR HDLC_XORBYTE]) src
      else appendHDLC (dst @ [b]) src)"

definition encodeHDLC :: "byte list \<Rightarrow> byte list" where
  "encodeHDLC src =
     (let fcs = computeFCS16 src;
          fcsbuf = [ucast (fcs AND 0xFF), ucast (drop_bit 8 fcs AND 0xFF)];
          result = [HDLC_PADDING];
          result = appendHDLC result src;
          result = appendHDLC result fcsbuf
      in result @ [HDLC_PADDING])"

section \<open>The parser\<close>

datatype ParseState = HDLC_PACKET_COMPLETE | HDLC_DATA | HDLC_ESCAPE

text \<open>\<^verbatim>\<open>m_handler\<close> is only compared with null, so the record keeps whether it is set.\<close>

record CHDLC =
  m_handler :: bool
  m_state :: ParseState
  m_buffer :: "byte list"
  m_runningFCS :: u32

definition hdlc_reset :: "CHDLC \<Rightarrow> CHDLC" where
  "hdlc_reset s = s\<lparr>m_state := HDLC_PACKET_COMPLETE, m_buffer := [], m_runningFCS := initFcs16\<rparr>"

definition new_CHDLC :: "nat \<Rightarrow> bool \<Rightarrow> CHDLC" where
  "new_CHDLC inputLength handler =
     hdlc_reset \<lparr>m_handler = handler, m_state = HDLC_PACKET_COMPLETE,
       m_buffer = replicate inputLength 0, m_runningFCS = 0\<rparr>"

definition hdlc_append :: "CHDLC \<Rightarrow> byte \<Rightarrow> CHDLC" where
  "hdlc_append s b =
     s\<lparr>m_buffer := m_buffer s @ [b], m_runningFCS := addOneByteToFcs16 (m_runningFCS s) b\<rparr>"

definition validateChecksum :: "CHDLC \<Rightarrow> u16 \<Rightarrow> bool" where
  "validateChecksum s frameFcs =
     (let computedFcs = closeFcs16 (m_runningFCS s) in computedFcs = 0xf47)"

definition hdlc_callback :: "CHDLC \<Rightarrow> byte list list" where
  "hdlc_callback s = (if m_handler s \<and> length (m_buffer s) > 0 then [m_buffer s] else [])"

definition addByte :: "CHDLC \<Rightarrow> byte \<Rightarrow> CHDLC \<times> byte list list" where
  "addByte s b =
     (if m_state s = HDLC_ESCAPE then
        let translated = b XOR HDLC_XORBYTE
        in ((hdlc_append s translated)\<lparr>m_state := HDLC_DATA\<rparr>, [])
      else if b = HDLC_ESCCHAR then (s\<lparr>m_state := HDLC_ESCAPE\<rparr>, [])
      else if b = HDLC_PADDING then
        let len = length (m_buffer s);
            (s, out) =
              (if len > 2 then
                 let fcs = word_of_nat (unat (m_buffer s ! (len - 2)) * 256 + unat (m_buffer s ! (len - 1)));
                     s = s\<lparr>m_buffer := butlast (m_buffer s)\<rparr>;
                     s = s\<lparr>m_buffer := butlast (m_buffer s)\<rparr>
                 in (s, if validateChecksum s fcs then hdlc_callback s else [])
               else (s, []))
        in (hdlc_reset s, out)
      else (hdlc_append s b, []))"

section \<open>The FCS as a bitwise CRC\<close>

text \<open>
  Reference: the reflected CRC-CCITT with polynomial \<open>0x8408\<close>, one bit at a time.
\<close>

definition crc_bit :: "u32 \<Rightarrow> u32" where
  "crc_bit c = (if c AND 1 = 1 then drop_bit 1 c XOR 0x8408 else drop_bit 1 c)"

definition crc_byte :: "u32 \<Rightarrow> byte \<Rightarrow> u32" where
  "crc_byte c b = (crc_bit ^^ 8) (c XOR ucast b)"

lemma length_fcstab [simp]: "length fcstab = 256"
  by (simp add: fcstab_def)

definition crc_bit_int :: "int \<Rightarrow> int" where
  "crc_bit_int c = (if even c then c div 2 else (c div 2) XOR 0x8408)"

lemma uint_crc_bit: "uint (crc_bit c) = crc_bit_int (uint c)"
proof -
  have "(c AND 1 = 1) = odd c" by (simp add: and_one_eq odd_iff_mod_2_eq_one)
  moreover have "even c = even (uint c)" by (metis dvd_def even_of_int_iff of_int_uint even_word_iff bit_0 bit_uint_iff zero_less_numeral  len_gt_0)
  ultimately show ?thesis
  by (simp add: crc_bit_def crc_bit_int_def unsigned_xor_eq  drop_bit_eq_div unsigned_drop_bit_eq uint_div_distrib)
qed

lemma uint_crc_bit_pow: "uint ((crc_bit ^^ n) c) = (crc_bit_int ^^ n) (uint c)"
  by (induction n) (simp_all add: uint_crc_bit)

lemma funpow_8: "(f ^^ 8) x = f (f (f (f (f (f (f (f x)))))))"
  by (simp add: eval_nat_numeral)


lemma crc_bit_int_num:
  "crc_bit_int 0 = 0" "crc_bit_int 1 = 0x8408"
  "crc_bit_int (numeral (num.Bit0 n)) = numeral n"
  "crc_bit_int (numeral (num.Bit1 n)) = numeral n XOR 0x8408"
  by (simp_all add: crc_bit_int_def)

lemma fcstab_crc_int: "map (crc_bit_int ^^ 8) [0..255] = map uint fcstab"
  unfolding fcstab_def by (simp add: funpow_8 crc_bit_int_num upto_rec1)

lemma fcstab_crc:
  assumes "i < 256"
  shows "fcstab ! i = (crc_bit ^^ 8) (word_of_nat i)"
proof -
  have "uint (fcstab ! i) = map uint fcstab ! i" using assms by simp
  also have "\<dots> = (crc_bit_int ^^ 8) (int i)"
    using assms by (simp flip: fcstab_crc_int)
  also have "\<dots> = uint ((crc_bit ^^ 8) (word_of_nat i :: u32))"
    using assms by (simp add: uint_crc_bit_pow unsigned_of_nat take_bit_nat_eq_self)
  finally show ?thesis by (rule word_uint_eqI)
qed

lemma crc_bit_odd: "odd c \<Longrightarrow> crc_bit c = drop_bit 1 c XOR 0x8408"
  and crc_bit_even: "even c \<Longrightarrow> crc_bit c = drop_bit 1 c"
  by (simp_all add: crc_bit_def and_one_eq odd_iff_mod_2_eq_one even_iff_mod_2_eq_zero)

lemma crc_bit_xor: "crc_bit (x XOR y) = crc_bit x XOR crc_bit y"
proof -
  have odd_xor: "odd (x XOR y) \<longleftrightarrow> odd x \<noteq> odd y"
    by (metis bit_0 bit_xor_iff)
  show ?thesis
    using odd_xor
    by (cases "odd x"; cases "odd y")
      (simp_all only: crc_bit_odd crc_bit_even drop_bit_xor simp_thms xor.assoc xor.left_commute
        xor.commute xor_self_eq xor.right_neutral xor.left_neutral)
qed

lemma crc_bit_pow_xor: "(crc_bit ^^ n) (x XOR y) = (crc_bit ^^ n) x XOR (crc_bit ^^ n) y"
  by (induction n) (simp_all add: crc_bit_xor)

lemma crc_bit_pow_drop: "take_bit n x = 0 \<Longrightarrow> (crc_bit ^^ n) x = drop_bit n x"
proof (induction n)
  case (Suc n)
  have *: "\<not> bit x n" using Suc.prems by (metis bit_0_eq bit_take_bit_iff lessI bot_apply bot_bool_def)
  have "take_bit n x = 0"
    by (metis Suc.prems take_bit_of_0 take_bit_take_bit min.absorb1 le_SucI le_refl)
  with Suc.IH have "(crc_bit ^^ n) x = drop_bit n x" by simp
  with * show ?case
    using crc_bit_even[of "drop_bit n x"] by (simp add: bit_iff_odd_drop_bit)
qed simp

text \<open>The table look-up in terms of the low byte of the running value.\<close>

definition fcs_tab :: "byte \<Rightarrow> u32" where "fcs_tab i = fcstab ! unat i"

lemma fcs_index: "unat ((fcs XOR ucast b) AND 0xff :: u32) = unat (ucast fcs XOR b :: byte)"
proof -
  have "(fcs XOR ucast b) AND 0xff = (ucast (ucast fcs XOR b :: byte) :: u32)"
  proof -
    have "x AND 0xff = take_bit 8 x" for x :: u32
      by (simp add: take_bit_eq_mask mask_eq_exp_minus_1)
    then show ?thesis
      by (simp only:) (rule bit_eqI, auto simp: bit_simps dest: bit_imp_le_length)
  qed
  then show ?thesis by (simp add: unat_ucast_up)
qed

lemma and_ffff: "fcs AND 0xffff = take_bit 16 (fcs :: u32)"
  by (simp add: take_bit_eq_mask mask_eq_exp_minus_1)

lemma addOneByteToFcs16_tab:
  "addOneByteToFcs16 fcs b = drop_bit 8 (take_bit 16 fcs) XOR fcs_tab (ucast fcs XOR b)"
  by (simp only: addOneByteToFcs16_def fcs_tab_def fcs_index and_ffff)

lemma fcstab_shape:
  "list_all2 (\<lambda>i t. t < 65536 \<and> (t div 256 = 0x0f \<longleftrightarrow> i = 0xff) \<and> (t div 256 = 0xf0 \<longleftrightarrow> i = 0x87))
     [0..255] (map uint fcstab)"
  unfolding fcstab_def by (simp add: upto_rec1)

lemma fcs_tab_shape:
  shows fcs_tab_bound: "uint (fcs_tab i) < 65536"
    and "uint (fcs_tab i) div 256 = 0x0f \<longleftrightarrow> i = 0xff"
    and "uint (fcs_tab i) div 256 = 0xf0 \<longleftrightarrow> i = 0x87"
proof -
  have i: "unat i < 256" "uint i \<le> 255"
    using unsigned_less[of i, where 'a = nat] unsigned_less[of i, where 'a = int] by simp_all
  have "int (unat i) = 0xff \<longleftrightarrow> i = 0xff" "int (unat i) = 0x87 \<longleftrightarrow> i = 0x87"
    by (simp_all add: word_uint_eq_iff)
  moreover have "[0..255] ! unat i = int (unat i)" using i by (subst nth_upto) simp_all
  ultimately
  show "uint (fcs_tab i) < 65536" "uint (fcs_tab i) div 256 = 0x0f \<longleftrightarrow> i = 0xff"
    "uint (fcs_tab i) div 256 = 0xf0 \<longleftrightarrow> i = 0x87"
    using i list_all2_nthD[OF fcstab_shape, of "unat i"] by (simp_all add: fcs_tab_def)
qed

lemma fcs_tab_hi:
  "drop_bit 8 (fcs_tab i) = 0x0f \<longleftrightarrow> i = 0xff"
  "drop_bit 8 (fcs_tab i) = 0xf0 \<longleftrightarrow> i = 0x87"
  using fcs_tab_shape(2,3)[of i]
  by (simp_all add: word_uint_eq_iff drop_bit_eq_div uint_div_distrib)

lemma fcs_tab_16 [simp]: "take_bit 16 (fcs_tab i) = fcs_tab i"
  using fcs_tab_bound[of i] by (simp add: take_bit_eq_mod word_uint_eq_iff uint_mod_distrib)

lemma fcs_tab_vals [simp]: "fcs_tab 0xff = 0x0f78" "fcs_tab 0x87 = 0xf0b7"
  by (simp_all add: fcs_tab_def fcstab_def)

lemma addOneByteToFcs16_16 [simp]:
  "take_bit 16 (addOneByteToFcs16 fcs b) = addOneByteToFcs16 fcs b"
  by (simp add: addOneByteToFcs16_tab drop_bit_take_bit)

lemma addOneByteToFcs16_crc:
  assumes "take_bit 16 fcs = fcs"
  shows "addOneByteToFcs16 fcs b = crc_byte fcs b"
proof -
  define x where "x = fcs XOR ucast b"
  have split: "x = ucast (ucast fcs XOR b :: byte) XOR push_bit 8 (drop_bit 8 x)"
  proof (rule bit_eqI)
    fix n
    show "bit x n = bit (ucast (ucast fcs XOR b :: byte) XOR push_bit 8 (drop_bit 8 x)) n"
      by (cases "n < 8") (auto simp: x_def bit_simps not_less dest: bit_imp_le_length)
  qed
  have "unat (ucast fcs XOR b :: byte) < 256"
    using unsigned_less[of "ucast fcs XOR b :: byte"] by simp
  then have tab: "(crc_bit ^^ 8) (ucast (ucast fcs XOR b :: byte)) = fcs_tab (ucast fcs XOR b)"
    by (simp add: fcs_tab_def fcstab_crc word_of_nat_eq_iff)
  have high: "(crc_bit ^^ 8) (push_bit 8 (drop_bit 8 x)) = drop_bit 8 fcs"
    by (subst crc_bit_pow_drop)
      (simp_all add: x_def take_bit_push_bit,
        rule bit_eqI, auto simp: bit_simps dest: bit_imp_le_length)
  have "crc_byte fcs b = (crc_bit ^^ 8) (ucast (ucast fcs XOR b :: byte) XOR push_bit 8 (drop_bit 8 x))"
    using arg_cong[OF split, of "crc_bit ^^ 8"] by (simp only: crc_byte_def x_def)
  also have "\<dots> = drop_bit 8 fcs XOR fcs_tab (ucast fcs XOR b)"
    by (simp only: crc_bit_pow_xor tab high) (rule xor.commute)
  finally show ?thesis by (simp add: addOneByteToFcs16_tab assms)
qed

text \<open>
  The running value after the two bytes that close a frame is the magic value exactly when
  those bytes are the complement of the running value before them, low byte first.
\<close>

lemma closeFcs16_xor: "closeFcs16 fcs = ucast (fcs XOR 0xffff)"
proof -
  have "(0xffff :: u16) = -1" by simp
  then show ?thesis unfolding closeFcs16_def by (simp only: Let_def and.right_neutral)
qed

lemma closeFcs16_magic:
  assumes "take_bit 16 fcs = fcs"
  shows "closeFcs16 fcs = 0xf47 \<longleftrightarrow> fcs = 0xf0b8"
proof
  assume "closeFcs16 fcs = 0xf47"
  then have "(ucast (closeFcs16 fcs) :: u32) = 0xf47" by simp
  then have "take_bit 16 (fcs XOR 0xffff) = 0xf47"
    by (simp add: closeFcs16_xor ucast_ucast_take_bit)
  then have "fcs XOR 0xffff = 0xf47" using assms by simp
  moreover have "fcs = (fcs XOR 0xffff) XOR 0xffff" by (simp add: xor.assoc)
  ultimately show "fcs = 0xf0b8" by simp
qed (simp add: closeFcs16_xor)

lemma byte_xor_ff: "x XOR 0xff = NOT x" for x :: byte
proof -
  have "(0xff :: byte) = -1" by simp
  then show ?thesis by (simp only:) (rule bit_eqI, auto simp: bit_simps)
qed

lemma fcs_residue_iff:
  assumes g: "take_bit 16 g = g"
  shows "closeFcs16 (addOneByteToFcs16 (addOneByteToFcs16 g b1) b2) = 0xf47
    \<longleftrightarrow> b1 = NOT (ucast g) \<and> b2 = NOT (ucast (drop_bit 8 g))" (is "?L \<longleftrightarrow> ?R")
proof -
  define i1 where "i1 = (ucast g :: byte) XOR b1"
  define g1 where "g1 = drop_bit 8 g XOR fcs_tab i1"
  define i2 where "i2 = (ucast g1 :: byte) XOR b2"
  have drop16 [simp]: "drop_bit 16 x = 0" if "take_bit 16 x = x" for x :: u32
    by (metis that drop_bit_take_bit take_bit_0 diff_self_eq_0)
  have 1: "addOneByteToFcs16 g b1 = g1"
    by (simp add: addOneByteToFcs16_tab i1_def g1_def g)
  have g1_16: "take_bit 16 g1 = g1" using 1 addOneByteToFcs16_16 by metis
  have 2: "addOneByteToFcs16 g1 b2 = drop_bit 8 g1 XOR fcs_tab i2"
    by (simp add: addOneByteToFcs16_tab i2_def g1_16)
  have hi1: "drop_bit 8 g1 = drop_bit 8 (fcs_tab i1)"
    using g by (simp add: g1_def)
  have L: "?L \<longleftrightarrow> drop_bit 8 g1 XOR fcs_tab i2 = 0xf0b8"
    unfolding 1 2[symmetric] by (rule closeFcs16_magic) simp
  also have "\<dots> \<longleftrightarrow> i1 = 0xff \<and> i2 = 0x87"
  proof
    assume eq: "drop_bit 8 g1 XOR fcs_tab i2 = 0xf0b8"
    have "drop_bit 8 (fcs_tab i2) = drop_bit 8 (drop_bit 8 g1 XOR fcs_tab i2)"
      using g1_16 by simp
    then have i2: "i2 = 0x87" using eq by (simp add: fcs_tab_hi)
    have "drop_bit 8 g1 = 0xf0b8 XOR fcs_tab i2" by (simp add: xor.assoc flip: eq)
    then have "drop_bit 8 g1 = 0x0f" by (simp add: i2)
    then show "i1 = 0xff \<and> i2 = 0x87" using i2 hi1 by (simp add: fcs_tab_hi)
  next
    assume "i1 = 0xff \<and> i2 = 0x87"
    then show "drop_bit 8 g1 XOR fcs_tab i2 = 0xf0b8" by (simp add: hi1)
  qed
  also have "\<dots> \<longleftrightarrow> i1 = 0xff \<and> (ucast (drop_bit 8 g) XOR 0x78) XOR b2 = (0x87 :: byte)"
  proof -
    have "ucast g1 = ucast (drop_bit 8 g) XOR (0x78 :: byte)" if "i1 = 0xff"
    proof -
      have "ucast (0xf78 :: u32) = (0x78 :: byte)" by simp
      moreover have "(ucast (x XOR y) :: byte) = ucast x XOR ucast y" for x y :: u32
        by (rule bit_eqI) (auto simp: bit_simps)
      ultimately show ?thesis by (simp only: g1_def that fcs_tab_vals)
    qed
    then show ?thesis by (auto simp: i2_def)
  qed
  also have "\<dots> \<longleftrightarrow> ?R"
    using word_xor_eq_iff[of "ucast (drop_bit 8 g) XOR 0x78" b2 "0x87"]
    by (simp add: i1_def word_xor_eq_iff[of _ b1] byte_xor_ff xor.assoc)
  finally show ?thesis .
qed

section \<open>Parser invariant and the closing byte\<close>

text \<open>The two bytes the generator appends, and when a collected buffer is a good frame.\<close>

definition fcs_bytes :: "byte list \<Rightarrow> byte list" where
  "fcs_bytes d = [ucast (computeFCS16 d AND 0xFF), ucast (drop_bit 8 (computeFCS16 d) AND 0xFF)]"

definition good_frame :: "byte list \<Rightarrow> bool" where
  "good_frame buf \<longleftrightarrow>
     2 < length buf \<and> buf = take (length buf - 2) buf @ fcs_bytes (take (length buf - 2) buf)"

definition hdlc_inv :: "CHDLC \<Rightarrow> bool" where
  "hdlc_inv s \<longleftrightarrow> m_runningFCS s = computeFCS16_loop initFcs16 (m_buffer s)"

lemma computeFCS16_loop_step:
  "computeFCS16_loop fcs (b # data) = computeFCS16_loop (addOneByteToFcs16 fcs b) data"
  by (simp add: addOneByteToFcs16_def)

lemma computeFCS16_loop_snoc:
  "computeFCS16_loop fcs (data @ [b]) = addOneByteToFcs16 (computeFCS16_loop fcs data) b"
  by (induction data arbitrary: fcs) (simp_all add: addOneByteToFcs16_def)

lemma computeFCS16_loop_16:
  "take_bit 16 fcs = fcs \<Longrightarrow> take_bit 16 (computeFCS16_loop fcs data) = computeFCS16_loop fcs data"
  by (induction data rule: rev_induct) (simp_all add: computeFCS16_loop_snoc)

lemma init_16 [simp]: "take_bit 16 initFcs16 = initFcs16"
  by (simp add: initFcs16_def)

lemma fcs_bytes_running:
  "fcs_bytes d = [NOT (ucast (computeFCS16_loop initFcs16 d)),
     NOT (ucast (drop_bit 8 (computeFCS16_loop initFcs16 d)))]"
proof -
  have and_ff: "x AND 0xff = take_bit 8 x" for x :: u16
    by (simp add: take_bit_eq_mask mask_eq_exp_minus_1)
  have ffff: "(0xffff :: u32) = mask 16" by (simp add: mask_eq_exp_minus_1)
  show ?thesis
    unfolding fcs_bytes_def computeFCS16_def closeFcs16_xor and_ff ffff
    by (auto intro!: bit_eqI simp: bit_simps dest: bit_imp_le_length simp del: take_bit_of_mask)
qed

lemma good_frame_iff_residue:
  assumes "2 < length buf"
  shows "closeFcs16 (computeFCS16_loop initFcs16 buf) = 0xf47 \<longleftrightarrow> good_frame buf"
proof -
  obtain d b1 b2 where buf: "buf = (d @ [b1]) @ [b2]"
    using assms by (metis append_butlast_last_id length_butlast list.size(3) not_less_zero
        zero_less_diff less_numeral_extra(3) one_less_numeral_iff less_trans semiring_norm(76))
  show ?thesis
    using assms fcs_residue_iff[OF computeFCS16_loop_16[OF init_16], of d b1 b2]
    by (simp only: buf computeFCS16_loop_snoc good_frame_def)
      (auto simp: fcs_bytes_running)
qed

lemma addByte_padding:
  assumes "hdlc_inv s" and "m_state s \<noteq> HDLC_ESCAPE"
  shows "addByte s HDLC_PADDING = (hdlc_reset s,
     if m_handler s \<and> good_frame (m_buffer s) then [butlast (butlast (m_buffer s))] else [])"
proof (cases "2 < length (m_buffer s)")
  case True
  then show ?thesis
    using assms good_frame_iff_residue[OF True]
    by (auto simp: addByte_def hdlc_const_defs validateChecksum_def hdlc_callback_def hdlc_inv_def
        hdlc_reset_def Let_def)
next
  case False
  then show ?thesis
    using assms by (simp add: addByte_def hdlc_const_defs good_frame_def)
qed

section \<open>Generator, transparency and the codec\<close>

definition escape :: "byte \<Rightarrow> byte list" where
  "escape b = (if b = HDLC_PADDING \<or> b = HDLC_ESCCHAR then [HDLC_ESCCHAR, b XOR HDLC_XORBYTE] else [b])"

lemma appendHDLC_escape: "appendHDLC dst src = dst @ concat (map escape src)"
  by (induction dst src rule: appendHDLC.induct) (auto simp: escape_def)

lemma encodeHDLC_escape:
  "encodeHDLC src = [HDLC_PADDING] @ concat (map escape (src @ fcs_bytes src)) @ [HDLC_PADDING]"
  by (simp add: encodeHDLC_def appendHDLC_escape fcs_bytes_def Let_def)

lemma xorbyte_twice [simp]: "(b XOR HDLC_XORBYTE) XOR HDLC_XORBYTE = b"
  by (simp add: xor.assoc)

lemma hdlc_inv_append [simp]:
  "hdlc_inv s \<Longrightarrow> hdlc_inv (hdlc_append s b)" "hdlc_inv s \<Longrightarrow> hdlc_inv (s\<lparr>m_state := st\<rparr>)"
  "hdlc_inv (hdlc_reset s)"
  by (simp_all add: hdlc_inv_def hdlc_append_def hdlc_reset_def computeFCS16_loop_snoc)

text \<open>The parser absorbs bytes: everything but the state tag and the collected bytes is kept.\<close>

definition hdlc_fed :: "CHDLC \<Rightarrow> byte list \<Rightarrow> CHDLC \<times> byte list list \<Rightarrow> bool" where
  "hdlc_fed s bs r \<longleftrightarrow> snd r = [] \<and> m_state (fst r) \<noteq> HDLC_ESCAPE \<and> hdlc_inv (fst r)
     \<and> m_buffer (fst r) = m_buffer s @ bs \<and> m_handler (fst r) = m_handler s"

lemma run_escape:
  assumes "hdlc_inv s" and "m_state s \<noteq> HDLC_ESCAPE"
  shows "hdlc_fed s [b] (run addByte s (escape b))"
  using assms
  by (auto simp: hdlc_fed_def escape_def run_simps addByte_def Let_def)
    (auto simp: hdlc_append_def)

lemma run_escaped:
  assumes "hdlc_inv s" and "m_state s \<noteq> HDLC_ESCAPE"
  shows "hdlc_fed s bs (run addByte s (concat (map escape bs)))"
  using assms
proof (induction bs arbitrary: s)
  case (Cons b bs)
  then show ?case
    using run_escape[of s b] Cons.IH[of "fst (run addByte s (escape b))"]
    by (simp add: hdlc_fed_def run_simps)
qed (simp add: hdlc_fed_def run_simps)

lemma good_frame_encoded: "src \<noteq> [] \<Longrightarrow> good_frame (src @ fcs_bytes src)"
  by (cases src) (simp_all add: good_frame_def fcs_bytes_def)

text \<open>From any state outside an escape, an encoded frame is delivered last and leaves the parser idle.\<close>

definition hdlc_idle :: "CHDLC \<Rightarrow> bool" where
  "hdlc_idle s \<longleftrightarrow> m_state s = HDLC_PACKET_COMPLETE \<and> m_buffer s = [] \<and> m_runningFCS s = initFcs16"

lemma run_frame:
  assumes "hdlc_inv s" and "m_state s \<noteq> HDLC_ESCAPE" and "src \<noteq> []"
  shows "snd (run addByte s (encodeHDLC src)) =
      snd (addByte s HDLC_PADDING) @ (if m_handler s then [src] else [])"
    and "fst (run addByte s (encodeHDLC src)) = hdlc_reset s"
proof -
  let ?s1 = "hdlc_reset s"
  let ?r = "run addByte ?s1 (concat (map escape (src @ fcs_bytes src)))"
  have s1: "fst (addByte s HDLC_PADDING) = ?s1" using assms by (simp add: addByte_padding)
  have fed: "hdlc_fed ?s1 (src @ fcs_bytes src) ?r"
    by (rule run_escaped) (simp_all add: hdlc_reset_def hdlc_inv_def)
  have last: "addByte (fst ?r) HDLC_PADDING =
      (hdlc_reset (fst ?r), if m_handler s then [src] else [])"
    using fed assms(3) good_frame_encoded
    by (subst addByte_padding) (auto simp: hdlc_fed_def hdlc_reset_def fcs_bytes_def butlast_append)
  show "snd (run addByte s (encodeHDLC src)) =
      snd (addByte s HDLC_PADDING) @ (if m_handler s then [src] else [])"
    using fed unfolding encodeHDLC_escape
    by (simp add: run_simps s1 last hdlc_fed_def del: map_append concat_append)
  have "hdlc_reset (fst ?r) = hdlc_reset s"
    using fed by (auto simp: hdlc_fed_def hdlc_reset_def)
  then show "fst (run addByte s (encodeHDLC src)) = hdlc_reset s"
    unfolding encodeHDLC_escape by (simp add: run_simps s1 last del: map_append concat_append)
qed

interpretation hdlc_codec: frame_codec addByte encodeHDLC
  "\<lambda>s. hdlc_idle s \<and> m_handler s" "\<lambda>src. src \<noteq> []"
proof
  fix s :: CHDLC and f :: "byte list"
  assume s: "hdlc_idle s \<and> m_handler s" and f: "f \<noteq> []"
  have inv: "hdlc_inv s" "m_state s \<noteq> HDLC_ESCAPE"
    using s by (simp_all add: hdlc_idle_def hdlc_inv_def)
  have "snd (addByte s HDLC_PADDING) = []"
    using s inv by (simp add: addByte_padding good_frame_def hdlc_idle_def)
  then show "snd (run addByte s (encodeHDLC f)) = [f]"
    using s run_frame(1)[OF inv f] by simp
  show "hdlc_idle (fst (run addByte s (encodeHDLC f))) \<and> m_handler (fst (run addByte s (encodeHDLC f)))"
    using s run_frame(2)[OF inv f] by (simp add: hdlc_idle_def hdlc_reset_def)
qed

interpretation hdlc_invariant: step_invariant addByte hdlc_inv
proof
  fix s b assume "hdlc_inv s"
  then show "hdlc_inv (fst (addByte s b))"
    by (simp add: addByte_def Let_def case_prod_beta)
qed

section \<open>Properties of the framing\<close>

lemma new_CHDLC_idle [simp]:
  "hdlc_idle (new_CHDLC n h)" "m_handler (new_CHDLC n h) = h" "hdlc_inv (new_CHDLC n h)"
  by (simp_all add: hdlc_idle_def new_CHDLC_def hdlc_reset_def hdlc_inv_def)

lemma good_frame_iff:
  "good_frame buf \<and> butlast (butlast buf) = p \<longleftrightarrow> p \<noteq> [] \<and> buf = p @ fcs_bytes p"
proof
  assume *: "good_frame buf \<and> butlast (butlast buf) = p"
  then have "p = take (length buf - 2) buf"
    by (auto simp: butlast_conv_take good_frame_def numeral_2_eq_2)
  with * show "p \<noteq> [] \<and> buf = p @ fcs_bytes p" by (auto simp: good_frame_def)
next
  assume "p \<noteq> [] \<and> buf = p @ fcs_bytes p"
  then show "good_frame buf \<and> butlast (butlast buf) = p"
    using good_frame_encoded[of p] by (simp add: fcs_bytes_def butlast_append)
qed

lemma computeFCS16_loop_crc:
  "take_bit 16 fcs = fcs \<Longrightarrow> computeFCS16_loop fcs data = foldl crc_byte fcs data"
proof (induction data arbitrary: fcs)
  case (Cons b data)
  then show ?case
    using Cons.IH[of "crc_byte fcs b"] addOneByteToFcs16_16[of fcs b]
    by (simp add: computeFCS16_loop_step addOneByteToFcs16_crc del: computeFCS16_loop.simps(2))
qed simp

lemma escaped_no_flag: "HDLC_PADDING \<notin> set (concat (map escape bs))"
proof -
  have "HDLC_PADDING \<notin> set (escape b)" for b
    by (auto simp: escape_def hdlc_const_defs)
  then show ?thesis by auto
qed

lemma escaped_size:
  "length bs \<le> length (concat (map escape bs)) \<and> length (concat (map escape bs)) \<le> 2 * length bs"
  by (induction bs) (auto simp: escape_def)

lemma m_handler_addByte: "m_handler (fst (addByte s b)) = m_handler s"
  by (simp add: addByte_def Let_def case_prod_beta hdlc_append_def hdlc_reset_def)

lemma m_handler_run: "m_handler (fst (run addByte s bs)) = m_handler s"
  by (induction bs arbitrary: s) (simp_all add: run_simps m_handler_addByte)

text \<open>
  Claim C4. Any sequence of non-empty packets written back to back with \<^verbatim>\<open>encodeHDLC\<close> is delivered
  by an idle parser, in order and unchanged, whatever bytes the packets contain; the parser
  is idle again afterwards.
\<close>

theorem hdlc_stream_roundtrip:
  assumes "hdlc_idle s" and "m_handler s" and "list_all (\<lambda>src. src \<noteq> []) packets"
  shows "snd (run addByte s (concat (map encodeHDLC packets))) = packets
    \<and> hdlc_idle (fst (run addByte s (concat (map encodeHDLC packets))))"
  using hdlc_codec.decode_stream[of s packets] assms by simp

theorem hdlc_stream_roundtrip_witness:
  "snd (run addByte (new_CHDLC 256 True) (concat (map encodeHDLC [[0x7E, 0x7D, 0], [5]])))
     = [[0x7E, 0x7D, 0], [5]]"
  using hdlc_stream_roundtrip[of "new_CHDLC 256 True" "[[0x7E, 0x7D, 0], [5]]"] by simp

text \<open>
  Claim C15. Integrity: in every state the parser can reach, outside an escape, the closing flag
  delivers a packet exactly when the collected bytes are that packet followed by its
  FCS, low byte first (three bytes at least); otherwise nothing is delivered. The check of
  the running value against the magic constant is thus the comparison of the received with
  the computed FCS.
\<close>

theorem hdlc_delivers_iff_fcs:
  assumes "s = fst (run addByte (new_CHDLC n True) received)" and "m_state s \<noteq> HDLC_ESCAPE"
  shows "(snd (addByte s HDLC_PADDING) = [p] \<longleftrightarrow> p \<noteq> [] \<and> m_buffer s = p @ fcs_bytes p)
    \<and> length (snd (addByte s HDLC_PADDING)) \<le> 1"
proof -
  have "hdlc_inv s" "m_handler s"
    using assms(1) hdlc_invariant.run_inv[of "new_CHDLC n True"] by (simp_all add: m_handler_run)
  then show ?thesis
    using assms(2) good_frame_iff[of "m_buffer s" p] by (auto simp: addByte_padding)
qed

theorem hdlc_delivers_iff_fcs_witness:
  "snd (addByte (fst (run addByte (new_CHDLC 0 True) [0x01, 0x02, 0x03])) HDLC_PADDING) \<noteq> [[0x01]]"
  using hdlc_delivers_iff_fcs[of _ 0 "[0x01, 0x02, 0x03]" "[0x01]", OF refl]
  by (simp add: run_simps addByte_def hdlc_const_defs hdlc_append_def new_CHDLC_def hdlc_reset_def
      fcs_bytes_def computeFCS16_def closeFcs16_def fcstab_def initFcs16_def)

text \<open>
  Claim C29. The table driven \<^verbatim>\<open>computeFCS16\<close> is the reflected CRC-16 with polynomial \<open>0x8408\<close>,
  preset and final complement, computed one bit at a time.
\<close>

theorem computeFCS16_is_crc:
  "computeFCS16 data = NOT (ucast (foldl crc_byte 0xffff data))"
proof -
  have "(ucast (x XOR 0xffff) :: u16) = NOT (ucast x)" for x :: u32
  proof -
    have ffff: "(0xffff :: u32) = mask 16" by (simp add: mask_eq_exp_minus_1)
    show ?thesis unfolding ffff by (intro bit_eqI) (auto simp: bit_simps)
  qed
  then show ?thesis
    using computeFCS16_loop_crc[OF init_16] by (simp add: computeFCS16_def closeFcs16_xor initFcs16_def)
qed

text \<open>
  Claim C32. Resynchronisation: after arbitrary received bytes that do not end inside an escape,
  the next encoded packet is delivered as the last frame, at most one frame
  (the one the opening flag closes) is delivered before it, and the parser is idle.
\<close>

theorem hdlc_resync:
  assumes "s = fst (run addByte (new_CHDLC n True) noise)" and "m_state s \<noteq> HDLC_ESCAPE"
    and "src \<noteq> []"
  shows "\<exists>pre. snd (run addByte s (encodeHDLC src)) = pre @ [src] \<and> length pre \<le> 1
    \<and> hdlc_idle (fst (run addByte s (encodeHDLC src)))"
proof -
  have s: "hdlc_inv s" "m_handler s"
    using assms(1) hdlc_invariant.run_inv[of "new_CHDLC n True"] by (simp_all add: m_handler_run)
  show ?thesis
    using s run_frame[OF s(1) assms(2,3)] addByte_padding[OF s(1) assms(2)]
    by (intro exI[of _ "snd (addByte s HDLC_PADDING)"]) (simp add: hdlc_idle_def hdlc_reset_def)
qed

theorem hdlc_resync_witness:
  "\<exists>pre. snd (run addByte (fst (run addByte (new_CHDLC 0 True) [0x7E, 0x01, 0x7D, 0x7E]))
       (encodeHDLC [0x05])) = pre @ [[0x05]] \<and> length pre \<le> 1"
  using hdlc_resync[of _ 0 "[0x7E, 0x01, 0x7D, 0x7E]" "[0x05]", OF refl]
  by (auto simp: run_simps addByte_def hdlc_const_defs new_CHDLC_def hdlc_reset_def hdlc_append_def)

text \<open>
  Transparency and size: the flag byte occurs in an encoded packet only as its first
  and last byte, and the encoding adds at least four bytes and at most doubles packet and FCS.
\<close>

lemma encodeHDLC_transparent:
  "\<exists>body. encodeHDLC src = HDLC_PADDING # body @ [HDLC_PADDING] \<and> HDLC_PADDING \<notin> set body
    \<and> length src + 2 \<le> length body \<and> length body \<le> 2 * (length src + 2)"
  using escaped_size[of "src @ fcs_bytes src"] escaped_no_flag[of "src @ fcs_bytes src"]
  by (intro exI[of _ "concat (map escape (src @ fcs_bytes src))"])
    (simp add: encodeHDLC_escape fcs_bytes_def)

end
