(* ===== verification/Serial_Port.thy ===== *)
theory Serial_Port
  imports HDLC Stat_Delays APC_Types
begin

text \<open>
  The serial port (\<^verbatim>\<open>SerialPort.h\<close>, \<^verbatim>\<open>SerialPort.cpp\<close>): bytes read are passed through the HDLC parser, complete frames go to the
  input handler; data to send is encoded into a buffer of a growing pool that stays allocated until the write has
  completed.  The port itself is the operating system's: whether opening it succeeds and what a read returns are
  arguments, asynchronous reads and writes are the calls the operations return.
\<close>

section \<open>Pool of output buffers\<close>

type_synonym CBufferPool = "(bool \<times> byte list) list"

text \<open>The loop of \<^verbatim>\<open>alloc\<close>: the first buffer that is not allocated.\<close>

fun first_free :: "CBufferPool \<Rightarrow> nat" where
  "first_free [] = 0"
| "first_free (b # bs) = (if fst b then Suc (first_free bs) else 0)"

definition pool_alloc :: "CBufferPool \<Rightarrow> CBufferPool \<times> nat" where
  "pool_alloc pool =
     (let bufIdx = first_free pool in
      (if bufIdx < length pool then pool[bufIdx := (True, snd (pool ! bufIdx))] else pool @ [(True, [])], bufIdx))"

definition pool_assert :: "nat \<Rightarrow> CBufferPool \<Rightarrow> bool" where
  "pool_assert bufId pool \<longleftrightarrow> bufId < length pool \<and> fst (pool ! bufId)"

definition pool_free :: "nat \<Rightarrow> CBufferPool \<Rightarrow> CBufferPool option" where
  "pool_free bufId pool = (if pool_assert bufId pool then Some (pool[bufId := (False, [])]) else None)"

definition pool_get :: "nat \<Rightarrow> CBufferPool \<Rightarrow> byte list option" where
  "pool_get bufId pool = (if pool_assert bufId pool then Some (snd (pool ! bufId)) else None)"

definition getNumOutBuffers :: "CBufferPool \<Rightarrow> nat" where
  "getNumOutBuffers pool = length pool"

section \<open>State\<close>

datatype EAPResetSignal = AP_RESET_SIGNAL_TX | AP_RESET_SIGNAL_DTR

definition MAX_HDLC_BUFFER_LEN :: nat where "MAX_HDLC_BUFFER_LEN = 256"
definition INPUT_BUFFER_LEN :: nat where "INPUT_BUFFER_LEN = 256"
definition RESET_PORT_DATA :: "byte list" where "RESET_PORT_DATA = [0]"

record CSerialPort =
  sr_hasHandler :: bool
  sr_readTimeout :: int
  sr_encoder :: "CHDLC option"
  sr_isOpen :: bool
  sr_resetSignal :: EAPResetSignal
  sr_baud :: u32
  sr_input :: "byte list"
  sr_outbufPool :: CBufferPool
  sr_statToAP :: CStatDelaysCalc
  sr_statFromAP :: CStatDelaysCalc

definition new_CSerialPort :: "EAPResetSignal \<Rightarrow> u32 \<Rightarrow> bool \<Rightarrow> CSerialPort" where
  "new_CSerialPort resetSignal baud useHDLC =
     \<lparr>sr_hasHandler = False, sr_readTimeout = 0,
      sr_encoder = (if useHDLC then Some (new_CHDLC MAX_HDLC_BUFFER_LEN True) else None), sr_isOpen = False,
      sr_resetSignal = resetSignal, sr_baud = baud, sr_input = replicate INPUT_BUFFER_LEN 0, sr_outbufPool = [],
      sr_statToAP = new_CStatDelaysCalc, sr_statFromAP = new_CStatDelaysCalc\<rparr>"

datatype ser_out =
    SerAsyncRead
  | SerAsyncWrite nat "byte list"
  | SerCancel
  | SerDataReceived "byte list"
  | SerTxReset "byte list"
  | SerDtrReset

section \<open>Opening and closing\<close>

text \<open>The outcome of opening or closing the device is an argument; options that cannot be set are ignored.\<close>

definition openPort :: "bool \<Rightarrow> CSerialPort \<Rightarrow> CSerialPort \<times> apc_error_t" where
  "openPort isOpened s = (if isOpened then (s\<lparr>sr_isOpen := True\<rparr>, APC_OK) else (s, APC_ERR_IO))"

definition closePort :: "bool \<Rightarrow> CSerialPort \<Rightarrow> CSerialPort \<times> apc_error_t" where
  "closePort isClosed s = (if isClosed then (s\<lparr>sr_isOpen := False\<rparr>, APC_OK) else (s, APC_ERR_IO))"

definition ser_isReady :: "CSerialPort \<Rightarrow> bool" where
  "ser_isReady s = sr_isOpen s"

definition ser_start :: "CSerialPort \<Rightarrow> CSerialPort \<times> apc_error_t \<times> ser_out list" where
  "ser_start s = (s\<lparr>sr_hasHandler := True\<rparr>, APC_OK, [SerAsyncRead])"

definition ser_restart :: "CSerialPort \<Rightarrow> CSerialPort \<times> apc_error_t \<times> ser_out list" where
  "ser_restart s = (s, APC_OK, [SerAsyncRead])"

definition ser_stop :: "CSerialPort \<Rightarrow> ser_out list" where
  "ser_stop s = (if sr_isOpen s then [SerCancel] else [])"

definition setReadTimeout :: "int \<Rightarrow> CSerialPort \<Rightarrow> CSerialPort" where
  "setReadTimeout t s = s\<lparr>sr_readTimeout := t\<rparr>"

section \<open>Reading\<close>

definition frameComplete :: "byte list \<Rightarrow> CSerialPort \<Rightarrow> ser_out list" where
  "frameComplete data s = (if sr_hasHandler s then [SerDataReceived data] else [])"

text \<open>The bytes read arrive in the input buffer; a read never returns more than fits.\<close>

definition handleRead :: "bool \<Rightarrow> byte list \<Rightarrow> int \<Rightarrow> CSerialPort \<Rightarrow> (CSerialPort \<times> ser_out list) option" where
  "handleRead error received delay s =
     (case memcpy_at 0 received (sr_input s) of None \<Rightarrow> None
      | Some inp \<Rightarrow>
          let s = s\<lparr>sr_input := inp\<rparr>; len = length received;
              (s, out) =
                (if error then (s, [])
                 else
                   let (s, out) =
                         (if sr_hasHandler s then
                            case sr_encoder s of
                              Some enc \<Rightarrow>
                                (case run addByte enc (take len (sr_input s)) of
                                   (enc, frames) \<Rightarrow> (s\<lparr>sr_encoder := Some enc\<rparr>, concat (map (\<lambda>d. frameComplete d s) frames)))
                            | None \<Rightarrow> (s, [SerDataReceived (take len (sr_input s))])
                          else (s, []))
                   in (s, out @ [SerAsyncRead]))
          in Some (s\<lparr>sr_statFromAP := addEvent (sr_statFromAP s) delay\<rparr>, out))"

section \<open>Writing\<close>

definition ser_write :: "byte list \<Rightarrow> int \<Rightarrow> CSerialPort \<Rightarrow> (CSerialPort \<times> ser_out list) option" where
  "ser_write data delay s =
     (let (pool, budId) = pool_alloc (sr_outbufPool s) in
      case pool_get budId pool of None \<Rightarrow> None
      | Some output \<Rightarrow>
          let output = (case sr_encoder s of Some _ \<Rightarrow> encodeHDLC data | None \<Rightarrow> output @ data)
          in Some (s\<lparr>sr_outbufPool := pool[budId := (True, output)], sr_statToAP := addEvent (sr_statToAP s) delay\<rparr>,
                   [SerAsyncWrite budId output]))"

definition handleData :: "byte list \<Rightarrow> int \<Rightarrow> CSerialPort \<Rightarrow> (CSerialPort \<times> nat \<times> ser_out list) option" where
  "handleData data delay s = map_option (\<lambda>(s, out). (s, length data, out)) (ser_write data delay s)"

definition handleWriteComplete :: "nat \<Rightarrow> bool \<Rightarrow> CSerialPort \<Rightarrow> CSerialPort option" where
  "handleWriteComplete bufId error s = map_option (\<lambda>pool. s\<lparr>sr_outbufPool := pool\<rparr>) (pool_free bufId (sr_outbufPool s))"

section \<open>Reset and statistics\<close>

definition resetTxLine :: "bool \<Rightarrow> ser_out list" where
  "resetTxLine isOpened = (if isOpened then [SerTxReset RESET_PORT_DATA] else [])"

definition resetDtrLine :: "bool \<Rightarrow> ser_out list" where
  "resetDtrLine isOpened = (if isOpened then [SerDtrReset] else [])"

definition sendResetAP :: "bool \<Rightarrow> CSerialPort \<Rightarrow> ser_out list" where
  "sendResetAP isOpened s = (if sr_resetSignal s = AP_RESET_SIGNAL_TX then resetTxLine isOpened else resetDtrLine isOpened)"

definition getStatToAP :: "CSerialPort \<Rightarrow> statdelays_s" where "getStatToAP s = getStat (sr_statToAP s)"
definition getStatFromAP :: "CSerialPort \<Rightarrow> statdelays_s" where "getStatFromAP s = getStat (sr_statFromAP s)"

section \<open>Buffers in flight\<close>

text \<open>
  What users of a pool rely on: a new slot was not in use, a slot keeps what is stored in it until it is freed, and
  freeing a slot in use succeeds.
\<close>

locale slot_pool =
  fixes alloc :: "'p \<Rightarrow> 'p \<times> nat"
    and store :: "nat \<Rightarrow> 'b \<Rightarrow> 'p \<Rightarrow> 'p"
    and release :: "nat \<Rightarrow> 'p \<Rightarrow> 'p option"
    and slot :: "'p \<Rightarrow> nat \<rightharpoonup> 'b"
  assumes alloc_fresh: "alloc p = (p', i) \<Longrightarrow> slot p i = None \<and> slot p' i \<noteq> None \<and> (\<forall>j. j \<noteq> i \<longrightarrow> slot p' j = slot p j)"
    and store_slot: "slot p i \<noteq> None \<Longrightarrow> slot (store i b p) = (slot p)(i \<mapsto> b)"
    and release_slot: "slot p i \<noteq> None \<Longrightarrow> \<exists>p'. release i p = Some p' \<and> slot p' = (slot p)(i := None)"
begin

lemma put_fresh:
  assumes "alloc p = (p', i)"
  shows "slot p i = None \<and> slot (store i b p') = (slot p)(i \<mapsto> b)"
  using alloc_fresh[OF assms] store_slot[of p' i b] by (auto simp: fun_eq_iff)

end

text \<open>The slots of the pool that are allocated.\<close>

definition pool_slot :: "CBufferPool \<Rightarrow> nat \<rightharpoonup> byte list" where
  "pool_slot pool i = (if pool_assert i pool then Some (snd (pool ! i)) else None)"

definition pool_store :: "nat \<Rightarrow> byte list \<Rightarrow> CBufferPool \<Rightarrow> CBufferPool" where
  "pool_store i b pool = pool[i := (True, b)]"

lemma first_free_le: "first_free pool \<le> length pool"
  by (induction pool) auto

lemma first_free_free: "first_free pool < length pool \<Longrightarrow> \<not> fst (pool ! first_free pool)"
  by (induction pool) auto

lemma pool_alloc_slot:
  assumes "pool_alloc pool = (pool', i)"
  shows "pool_slot pool i = None \<and> pool_slot pool' i \<noteq> None \<and> (\<forall>j. j \<noteq> i \<longrightarrow> pool_slot pool' j = pool_slot pool j)"
proof (cases "first_free pool < length pool")
  case True
  then show ?thesis
    using assms first_free_free[OF True] by (auto simp: pool_alloc_def Let_def pool_slot_def pool_assert_def nth_list_update split: if_splits)
next
  case False
  then have "first_free pool = length pool" using first_free_le[of pool] by simp
  then show ?thesis
    using assms by (auto simp: pool_alloc_def Let_def pool_slot_def pool_assert_def nth_append split: if_splits)
qed

interpretation out_pool: slot_pool pool_alloc pool_store pool_free pool_slot
proof
  show "\<exists>p'. pool_free i p = Some p' \<and> pool_slot p' = (pool_slot p)(i := None)" if "pool_slot p i \<noteq> None" for p i
    using that by (auto simp: pool_slot_def pool_free_def pool_assert_def fun_eq_iff nth_list_update split: if_splits)
  show "pool_slot (pool_store i b p) = (pool_slot p)(i \<mapsto> b)" if "pool_slot p i \<noteq> None" for p i b
    using that by (auto simp: pool_slot_def pool_store_def pool_assert_def fun_eq_iff nth_list_update split: if_splits)
qed (rule pool_alloc_slot)

text \<open>Histories of writes and of their completions, with the bytes each write in flight was started with.\<close>

datatype ser_event = SevWrite "byte list" int | SevDone nat bool

fun ser_history :: "ser_event list \<Rightarrow> CSerialPort \<Rightarrow> (nat \<rightharpoonup> byte list) \<Rightarrow> (CSerialPort \<times> (nat \<rightharpoonup> byte list)) option" where
  "ser_history [] s fl = Some (s, fl)"
| "ser_history (SevWrite data d # evs) s fl =
     (case ser_write data d s of
        Some (s', [SerAsyncWrite i bs]) \<Rightarrow> if fl i = None then ser_history evs s' (fl(i \<mapsto> bs)) else None
      | _ \<Rightarrow> None)"
| "ser_history (SevDone i err # evs) s fl =
     (if fl i = None then ser_history evs s fl
      else case handleWriteComplete i err s of None \<Rightarrow> None | Some s' \<Rightarrow> ser_history evs s' (fl(i := None)))"

lemma ser_write_put:
  "\<exists>s' i bs. ser_write data d s = Some (s', [SerAsyncWrite i bs]) \<and> pool_slot (sr_outbufPool s) i = None
    \<and> pool_slot (sr_outbufPool s') = (pool_slot (sr_outbufPool s))(i \<mapsto> bs)
    \<and> (sr_encoder s \<noteq> None \<longrightarrow> bs = encodeHDLC data)"
proof -
  obtain p i where a: "pool_alloc (sr_outbufPool s) = (p, i)" by fastforce
  have "pool_get i p \<noteq> None"
    using out_pool.alloc_fresh[OF a] by (simp add: pool_get_def pool_slot_def split: if_splits)
  then show ?thesis
    using a out_pool.put_fresh[OF a] by (auto simp: ser_write_def pool_store_def Let_def split: option.splits)
qed

text \<open>
  Claim C27.  Over every history of writes and completions, in any order: no assertion of the buffer pool fails, a write is given a
  buffer no other write in flight uses, and every buffer in flight holds exactly the bytes its write was started with until
  that write completes.\<close>

theorem serial_buffers_exclusive:
  assumes "pool_slot (sr_outbufPool s) = fl"
  shows "\<exists>s' fl'. ser_history evs s fl = Some (s', fl') \<and> pool_slot (sr_outbufPool s') = fl'"
  using assms
proof (induction evs arbitrary: s fl)
  case (Cons ev evs)
  show ?case
  proof (cases ev)
    case (SevWrite data d)
    obtain s' i bs where w: "ser_write data d s = Some (s', [SerAsyncWrite i bs])" "pool_slot (sr_outbufPool s) i = None"
        "pool_slot (sr_outbufPool s') = (pool_slot (sr_outbufPool s))(i \<mapsto> bs)"
      using ser_write_put by blast
    then show ?thesis using Cons.IH[of s' "fl(i \<mapsto> bs)"] Cons.prems SevWrite by (simp del: fun_upd_apply)
  next
    case (SevDone i err)
    show ?thesis
    proof (cases "fl i = None")
      case True
      then show ?thesis using Cons.IH[OF Cons.prems] SevDone by simp
    next
      case False
      then obtain p where p: "pool_free i (sr_outbufPool s) = Some p" "pool_slot p = fl(i := None)"
        using out_pool.release_slot Cons.prems by fastforce
      then show ?thesis
        using Cons.IH[of "s\<lparr>sr_outbufPool := p\<rparr>" "fl(i := None)"] False
        unfolding SevDone by (auto simp: handleWriteComplete_def simp del: fun_upd_apply)
    qed
  qed
qed simp

theorem serial_buffers_exclusive_witness:
  "\<exists>s' fl'. ser_history [SevWrite [1] 0, SevWrite [2] 0, SevDone 0 False, SevWrite [3] 0] (new_CSerialPort AP_RESET_SIGNAL_TX 115200 True) Map.empty
     = Some (s', fl')"
proof -
  have "pool_slot (sr_outbufPool (new_CSerialPort AP_RESET_SIGNAL_TX 115200 True)) = Map.empty"
    by (simp add: fun_eq_iff new_CSerialPort_def pool_slot_def pool_assert_def)
  from serial_buffers_exclusive[OF this] show ?thesis by blast
qed

section \<open>From one end of the line to the other\<close>

text \<open>Several writes in a row, the bytes they put on the line; the bytes read in pieces, and what the handler gets.\<close>

fun write_all :: "byte list list \<Rightarrow> CSerialPort \<Rightarrow> (CSerialPort \<times> byte list list) option" where
  "write_all [] s = Some (s, [])"
| "write_all (d # ds) s = (case ser_write d 0 s of
     Some (s', [SerAsyncWrite i bs]) \<Rightarrow> map_option (\<lambda>(s'', ws). (s'', bs # ws)) (write_all ds s') | _ \<Rightarrow> None)"

fun read_all :: "byte list list \<Rightarrow> CSerialPort \<Rightarrow> (CSerialPort \<times> ser_out list) option" where
  "read_all [] s = Some (s, [])"
| "read_all (c # cs) s = (case handleRead False c 0 s of None \<Rightarrow> None
     | Some (s', out) \<Rightarrow> map_option (\<lambda>(s'', outs). (s'', out @ outs)) (read_all cs s'))"

definition delivered :: "ser_out list \<Rightarrow> byte list list" where
  "delivered out = concat (map (\<lambda>x. case x of SerDataReceived d \<Rightarrow> [d] | _ \<Rightarrow> []) out)"

lemma delivered_simps [simp]:
  "delivered [] = []" "delivered (a @ b) = delivered a @ delivered b" "delivered (SerAsyncRead # out) = delivered out"
  "delivered (SerDataReceived d # out) = d # delivered out"
  by (simp_all add: delivered_def)

lemma write_all_encodes:
  assumes "sr_encoder s \<noteq> None"
  shows "\<exists>s'. write_all ds s = Some (s', map encodeHDLC ds)"
  using assms
proof (induction ds arbitrary: s)
  case (Cons d ds)
  obtain s' i where w: "ser_write d 0 s = Some (s', [SerAsyncWrite i (encodeHDLC d)])"
    using ser_write_put[of d 0 s] Cons.prems by blast
  then have "sr_encoder s' = sr_encoder s" by (auto simp: ser_write_def Let_def split: prod.splits option.splits)
  then show ?case using Cons.IH[of s'] Cons.prems w by auto
qed simp

lemma handleRead_parses:
  assumes "sr_encoder s = Some enc" and "sr_hasHandler s" and "length c \<le> length (sr_input s)"
  shows "\<exists>s' out. handleRead False c d s = Some (s', out) \<and> sr_encoder s' = Some (fst (run addByte enc c))
    \<and> sr_hasHandler s' \<and> length (sr_input s') = length (sr_input s) \<and> delivered out = snd (run addByte enc c)"
proof -
  have fr: "concat (map (\<lambda>d. frameComplete d (s\<lparr>sr_input := x\<rparr>)) fs) = map SerDataReceived fs" for fs x
    using assms(2) by (induction fs) (simp_all add: frameComplete_def)
  have "delivered (map SerDataReceived fs) = fs" for fs by (induction fs) simp_all
  then show ?thesis
    using assms by (simp add: handleRead_def memcpy_at_Some Let_def case_prod_beta fr)
qed

lemma read_all_parses:
  assumes "sr_encoder s = Some enc" and "sr_hasHandler s" and "\<forall>c \<in> set cs. length c \<le> length (sr_input s)"
  shows "\<exists>s' out. read_all cs s = Some (s', out) \<and> delivered out = snd (run addByte enc (concat cs))"
  using assms
proof (induction cs arbitrary: s enc)
  case (Cons c cs)
  obtain s' out where r: "handleRead False c 0 s = Some (s', out)" "sr_encoder s' = Some (fst (run addByte enc c))"
      "sr_hasHandler s'" "length (sr_input s') = length (sr_input s)" "delivered out = snd (run addByte enc c)"
    using handleRead_parses[OF Cons.prems(1,2), of c 0] Cons.prems(3) by auto
  then show ?case using Cons.IH[OF r(2,3)] Cons.prems(3) by (auto simp: run_simps)
qed (simp add: run_simps)

text \<open>
  Frames written to one serial port and read at another one, in pieces of any size up to the input buffer and split at
  any place, reach the handler there in order, unchanged and complete, whatever bytes they contain.\<close>

lemma serial_frames_arrive:
  assumes "sr_encoder s \<noteq> None" and "write_all frames s = Some (s', written)"
    and "sr_encoder r = Some enc" and "hdlc_idle enc" and "m_handler enc" and "sr_hasHandler r"
    and "list_all (\<lambda>f. f \<noteq> []) frames"
    and "concat pieces = concat written" and "\<forall>c \<in> set pieces. length c \<le> length (sr_input r)"
  shows "\<exists>r' out. read_all pieces r = Some (r', out) \<and> delivered out = frames"
proof -
  have "written = map encodeHDLC frames" using write_all_encodes[OF assms(1), of frames] assms(2) by auto
  moreover have "snd (run addByte enc (concat (map encodeHDLC frames))) = frames"
    using hdlc_codec.decode_stream[of enc frames] assms(4,5,7) by simp
  ultimately show ?thesis
    using read_all_parses[OF assms(3,6,9)] assms(8) by simp
qed

lemma serial_frames_arrive_example:
  "\<exists>r' out. read_all (map (\<lambda>b. [b]) (encodeHDLC [0x7E, 0x01]))
       ((new_CSerialPort AP_RESET_SIGNAL_TX 115200 True)\<lparr>sr_hasHandler := True\<rparr>) = Some (r', out)
     \<and> delivered out = [[0x7E, 0x01]]"
proof -
  let ?s = "new_CSerialPort AP_RESET_SIGNAL_TX 115200 True"
  let ?r = "?s\<lparr>sr_hasHandler := True\<rparr>" and ?f = "[0x7E, 0x01] :: byte list"
  have enc: "sr_encoder ?s = Some (new_CHDLC 256 True)" by (simp add: new_CSerialPort_def MAX_HDLC_BUFFER_LEN_def)
  obtain s' where w: "write_all [?f] ?s = Some (s', [encodeHDLC ?f])"
    using write_all_encodes[of ?s "[?f]"] enc by auto
  have idle: "hdlc_idle (new_CHDLC 256 True)" "m_handler (new_CHDLC 256 True)"
    by (simp_all add: hdlc_idle_def new_CHDLC_def hdlc_reset_def)
  have pieces: "concat (map (\<lambda>b. [b]) bs) = bs" for bs :: "byte list" by (induction bs) simp_all
  have small: "\<forall>c \<in> set (map (\<lambda>b. [b]) (encodeHDLC ?f)). length c \<le> length (sr_input ?r)"
    by (simp add: new_CSerialPort_def INPUT_BUFFER_LEN_def)
  show ?thesis
    using serial_frames_arrive[OF _ w _ idle _ _ _ small] enc pieces[of "encodeHDLC ?f"] by simp
qed

end
