(* ===== verification/Rpc_Message.thy ===== *)
theory Rpc_Message
  imports APB_Prelude
begin

text \<open>
  Multi-part messages of the RPC library (\<^verbatim>\<open>src/rpc/public/zmqUtils.h\<close>) and the protocol constants of
  \<^verbatim>\<open>src/rpc/public/RpcProtocol.h\<close> and \<^verbatim>\<open>src/rpc/public/RpcCommon.h\<close>.

  The class \<^verbatim>\<open>zmessage\<close> wraps the CZMQ library, which is not part of the repository: its
  operations on messages are the fields of a record \<open>czmq\<close> over an arbitrary type of messages, a
  parameter of every definition.  What the code relies on of them is the predicate \<open>czmq_laws\<close>: a
  message is a list of frames, read by a function \<open>fr\<close>, and each operation changes that list as the
  CZMQ manual says.  A \<^verbatim>\<open>std::string\<close> and the data of a frame are lists of bytes.
\<close>

named_theorems rpc_consts "protocol constants of the RPC library"
named_theorems zmessage_defs "the methods of zmessage over the CZMQ operations"

type_synonym frame = "byte list"

section \<open>Protocol constants\<close>

definition str :: "string \<Rightarrow> frame" where
  "str s = map of_char s"

definition RPC_CLIENT :: frame where [rpc_consts]: "RPC_CLIENT = str ''RPCC01''"
definition RPC_WORKER :: frame where [rpc_consts]: "RPC_WORKER = str ''RPCW01''"

datatype RpcCommands = RPC_REGISTER | RPC_REQUEST | RPC_REPLY | RPC_HEARTBEAT | RPC_DISCONNECT | RPC_NOTIFY

primrec cmd_code :: "RpcCommands \<Rightarrow> byte" where
  "cmd_code RPC_REGISTER = 1"
| "cmd_code RPC_REQUEST = 2"
| "cmd_code RPC_REPLY = 3"
| "cmd_code RPC_HEARTBEAT = 4"
| "cmd_code RPC_DISCONNECT = 5"
| "cmd_code RPC_NOTIFY = 6"

definition RPC_OK :: u32 where "RPC_OK = 0"
definition RPC_INVALID_COMMAND :: u32 where "RPC_INVALID_COMMAND = 1"
definition RPC_INVALID_PARAMETERS :: u32 where "RPC_INVALID_PARAMETERS = 2"
definition RPC_INVALID_SERVICE_ID :: u32 where "RPC_INVALID_SERVICE_ID = 33"
definition RPC_NOT_AUTHORIZED :: u32 where "RPC_NOT_AUTHORIZED = 35"
definition RPC_PARSE :: u32 where "RPC_PARSE = 40"

lemma cmd_code_inject [simp]: "cmd_code a = cmd_code b \<longleftrightarrow> a = b"
  by (cases a; cases b; simp)

lemma RPC_CLIENT_neq_WORKER [simp]: "RPC_CLIENT \<noteq> RPC_WORKER" "RPC_WORKER \<noteq> RPC_CLIENT"
  by (simp_all add: rpc_consts str_def)

section \<open>The CZMQ operations\<close>

record 'm czmq =
  zmsg_new :: 'm
  zmsg_pop :: "'m \<Rightarrow> frame option \<times> 'm"
  zmsg_push :: "frame \<Rightarrow> 'm \<Rightarrow> 'm"
  zmsg_add :: "frame \<Rightarrow> 'm \<Rightarrow> 'm"
  zmsg_pushstr :: "frame \<Rightarrow> 'm \<Rightarrow> 'm"
  zmsg_addstr :: "frame \<Rightarrow> 'm \<Rightarrow> 'm"
  zmsg_addmem :: "frame \<Rightarrow> 'm \<Rightarrow> 'm"
  zmsg_size :: "'m \<Rightarrow> nat"
  zmsg_next :: "'m \<Rightarrow> frame option \<times> 'm"
  zmsg_wrap :: "frame \<Rightarrow> 'm \<Rightarrow> 'm"
  zmsg_unwrap :: "'m \<Rightarrow> frame option \<times> 'm"

text \<open>Taking the first frame off, and taking it off together with an empty frame behind it.\<close>

fun popped :: "frame list \<Rightarrow> frame option \<times> frame list" where
  "popped [] = (None, [])"
| "popped (f # fs) = (Some f, fs)"

fun unwrapped :: "frame list \<Rightarrow> frame option \<times> frame list" where
  "unwrapped [] = (None, [])"
| "unwrapped (f # [] # fs) = (Some f, fs)"
| "unwrapped (f # fs) = (Some f, fs)"

text \<open>
  The documented behaviour of the operations, and of the cursor: after a frame has been taken off,
  the next frame is the first one of the rest.
\<close>

definition czmq_laws :: "'m czmq \<Rightarrow> ('m \<Rightarrow> frame list) \<Rightarrow> bool" where
  "czmq_laws z fr \<longleftrightarrow>
     fr (zmsg_new z) = []
   \<and> (\<forall>m. map_prod id fr (zmsg_pop z m) = popped (fr m))
   \<and> (\<forall>f m. fr (zmsg_push z f m) = f # fr m)
   \<and> (\<forall>f m. fr (zmsg_add z f m) = fr m @ [f])
   \<and> (\<forall>f m. fr (zmsg_pushstr z f m) = f # fr m)
   \<and> (\<forall>f m. fr (zmsg_addstr z f m) = fr m @ [f])
   \<and> (\<forall>f m. fr (zmsg_addmem z f m) = fr m @ [f])
   \<and> (\<forall>m. zmsg_size z m = length (fr m))
   \<and> (\<forall>f m. fr (zmsg_wrap z f m) = f # [] # fr m)
   \<and> (\<forall>m. map_prod id fr (zmsg_unwrap z m) = unwrapped (fr m))"

definition czmq_cursor :: "'m czmq \<Rightarrow> ('m \<Rightarrow> frame list) \<Rightarrow> bool" where
  "czmq_cursor z fr \<longleftrightarrow>
     (\<forall>m f m'. zmsg_unwrap z m = (Some f, m') \<longrightarrow> fst (zmsg_next z m') = fst (popped (fr m')))"

section \<open>The class \<^verbatim>\<open>zmessage\<close>\<close>

text \<open>\<open>c_str\<close> is what a C function reads of a string handed over with \<^verbatim>\<open>std::string::c_str\<close>.\<close>

definition c_str :: "frame \<Rightarrow> frame" where
  "c_str s = takeWhile (\<lambda>b. b \<noteq> 0) s"

definition zm_pop :: "'m czmq \<Rightarrow> 'm \<Rightarrow> frame option \<times> 'm" where [zmessage_defs]:
  "zm_pop z m = zmsg_pop z m"

definition zm_push :: "'m czmq \<Rightarrow> frame \<Rightarrow> 'm \<Rightarrow> 'm" where [zmessage_defs]:
  "zm_push z f m = zmsg_push z f m"

definition zm_add :: "'m czmq \<Rightarrow> frame \<Rightarrow> 'm \<Rightarrow> 'm" where [zmessage_defs]:
  "zm_add z f m = zmsg_add z f m"

definition popstr :: "'m czmq \<Rightarrow> 'm \<Rightarrow> frame \<times> 'm" where [zmessage_defs]:
  "popstr z m = (case zmsg_pop z m of (None, m') \<Rightarrow> ([], m') | (Some f, m') \<Rightarrow> (f, m'))"

definition pushstr :: "'m czmq \<Rightarrow> frame \<Rightarrow> 'm \<Rightarrow> 'm" where [zmessage_defs]:
  "pushstr z value m = zmsg_pushstr z (c_str value) m"

definition addstr :: "'m czmq \<Rightarrow> frame \<Rightarrow> 'm \<Rightarrow> 'm" where [zmessage_defs]:
  "addstr z value m = zmsg_addstr z (c_str value) m"

definition popint :: "'m czmq \<Rightarrow> 'm \<Rightarrow> u32 \<times> 'm" where [zmessage_defs]:
  "popint z m = (case zmsg_pop z m of (None, m') \<Rightarrow> (- 1, m')
     | (Some f, m') \<Rightarrow> (if length f \<ge> 4 then ntohl (le_word (take 4 f)) else - 1, m'))"

definition int_bytes :: "u32 \<Rightarrow> frame" where
  "int_bytes value = le_bytes 4 (htonl value)"

definition addint :: "'m czmq \<Rightarrow> u32 \<Rightarrow> 'm \<Rightarrow> 'm" where [zmessage_defs]:
  "addint z value m = zmsg_addmem z (int_bytes value) m"

definition addbytearray :: "'m czmq \<Rightarrow> frame \<Rightarrow> 'm \<Rightarrow> 'm" where [zmessage_defs]:
  "addbytearray z buf m = zmsg_addmem z buf m"

definition zm_size :: "'m czmq \<Rightarrow> 'm \<Rightarrow> nat" where [zmessage_defs]:
  "zm_size z m = zmsg_size z m"

definition zm_next :: "'m czmq \<Rightarrow> 'm \<Rightarrow> frame option \<times> 'm" where [zmessage_defs]:
  "zm_next z m = zmsg_next z m"

definition wrap :: "'m czmq \<Rightarrow> frame \<Rightarrow> frame \<Rightarrow> 'm \<Rightarrow> 'm" where [zmessage_defs]:
  "wrap z value delimiter m =
     zmsg_wrap z value (if delimiter \<noteq> [] then zmsg_pushstr z (c_str delimiter) m else m)"

definition unwrap :: "'m czmq \<Rightarrow> 'm \<Rightarrow> frame option \<times> 'm" where [zmessage_defs]:
  "unwrap z m = zmsg_unwrap z m"

section \<open>What the methods do to the frames\<close>

lemma c_str_id: "0 \<notin> set s \<Longrightarrow> c_str s = s"
  by (auto simp: c_str_def intro: takeWhile_eq_all_conv[THEN iffD2])

lemma c_str_Nil [simp]: "c_str [] = []"
  by (simp add: c_str_def)

lemma c_str_consts [simp]: "c_str RPC_CLIENT = RPC_CLIENT" "c_str RPC_WORKER = RPC_WORKER"
  by (simp_all add: c_str_def rpc_consts str_def)

text \<open>
  \<open>zmessage_frames\<close>, instantiated with the laws, rewrites every method into its effect on the list of
  frames.
\<close>

lemma zm_frames:
  assumes "czmq_laws z fr"
  shows "fr (zmsg_new z) = []"
    and "fr (zm_push z f m) = f # fr m"
    and "fr (zm_add z f m) = fr m @ [f]"
    and "fr (pushstr z f m) = c_str f # fr m"
    and "fr (addstr z f m) = fr m @ [c_str f]"
    and "fr (addint z v m) = fr m @ [int_bytes v]"
    and "fr (addbytearray z f m) = fr m @ [f]"
    and "zm_size z m = length (fr m)"
    and "fr (wrap z f d m) = f # [] # (if d \<noteq> [] then [c_str d] else []) @ fr m"
  using assms by (simp_all add: czmq_laws_def zmessage_defs)

lemma zm_pop_frames:
  assumes "czmq_laws z fr"
  shows "fst (zm_pop z m) = fst (popped (fr m))" and "fr (snd (zm_pop z m)) = snd (popped (fr m))"
proof -
  have "map_prod id fr (zmsg_pop z m) = popped (fr m)" using assms by (simp add: czmq_laws_def)
  then show "fst (zm_pop z m) = fst (popped (fr m))" "fr (snd (zm_pop z m)) = snd (popped (fr m))"
    by (metis fst_map_prod id_apply zm_pop_def, metis snd_map_prod zm_pop_def)
qed

lemma zm_unwrap_frames:
  assumes "czmq_laws z fr"
  shows "fst (unwrap z m) = fst (unwrapped (fr m))" and "fr (snd (unwrap z m)) = snd (unwrapped (fr m))"
proof -
  have "map_prod id fr (zmsg_unwrap z m) = unwrapped (fr m)" using assms by (simp add: czmq_laws_def)
  then show "fst (unwrap z m) = fst (unwrapped (fr m))" "fr (snd (unwrap z m)) = snd (unwrapped (fr m))"
    by (metis fst_map_prod id_apply unwrap_def, metis snd_map_prod unwrap_def)
qed

lemma popstr_pop: "popstr z m = (case zm_pop z m of (f, m') \<Rightarrow> (case f of None \<Rightarrow> [] | Some g \<Rightarrow> g, m'))"
  by (auto simp: zmessage_defs split: prod.splits option.splits)

lemma popstr_frames:
  assumes "czmq_laws z fr"
  shows "fst (popstr z m) = (if fr m = [] then [] else hd (fr m))" and "fr (snd (popstr z m)) = tl (fr m)"
  using zm_pop_frames[OF assms, of m]
  by (cases "fr m"; auto simp: popstr_pop split: prod.splits option.splits)+

lemmas zmessage_frames = zm_frames zm_pop_frames zm_unwrap_frames popstr_frames

lemma next_after_unwrap:
  assumes "czmq_cursor z fr" "unwrap z m = (Some f, m')"
  shows "fst (zm_next z m') = fst (popped (fr m'))"
  using assms by (simp add: czmq_cursor_def unwrap_def zm_next_def)

lemma unwrapped_wrapped [simp]: "unwrapped (f # [] # fs) = (Some f, fs)"
  by (cases f) simp_all

lemma unwrapped_None [simp]: "fst (unwrapped fs) = None \<longleftrightarrow> fs = []"
  by (cases fs rule: unwrapped.cases) auto

lemma unwrapped_fst: "fs \<noteq> [] \<Longrightarrow> fst (unwrapped fs) = Some (hd fs)"
  by (cases fs rule: unwrapped.cases) auto

lemma int_bytes_inject [simp]: "int_bytes v = int_bytes w \<longleftrightarrow> v = w"
proof
  assume "int_bytes v = int_bytes w"
  then have "htonl v = htonl w" by (simp add: int_bytes_def le_bytes_inject)
  then show "v = w" by (metis htonl_htonl)
qed simp

text \<open>An integer added to an empty message is read back by \<open>popint\<close>.\<close>

lemma popint_addint:
  assumes "czmq_laws z fr" "fr m = []"
  shows "fst (popint z (addint z v m)) = v"
proof -
  obtain f m' where p: "zmsg_pop z (addint z v m) = (f, m')" by fastforce
  have "map_prod id fr (zmsg_pop z (addint z v m)) = popped (fr (addint z v m))"
    using assms(1) by (simp add: czmq_laws_def)
  then have "f = Some (int_bytes v)" using p assms by (simp add: zm_frames)
  moreover have "length (int_bytes v) = 4" by (simp add: int_bytes_def)
  moreover have "ntohl (le_word (int_bytes v)) = v" by (simp add: int_bytes_def ntohl_def)
  ultimately show ?thesis using p by (simp add: popint_def)
qed

section \<open>Messages as lists\<close>

text \<open>Lists of frames with their evident operations obey the laws, so the hypotheses can be met.\<close>

definition list_czmq :: "frame list czmq" where
  "list_czmq = \<lparr>zmsg_new = [], zmsg_pop = popped, zmsg_push = (\<lambda>f m. f # m), zmsg_add = (\<lambda>f m. m @ [f]),
     zmsg_pushstr = (\<lambda>f m. f # m), zmsg_addstr = (\<lambda>f m. m @ [f]), zmsg_addmem = (\<lambda>f m. m @ [f]),
     zmsg_size = length, zmsg_next = popped, zmsg_wrap = (\<lambda>f m. f # [] # m), zmsg_unwrap = unwrapped\<rparr>"

lemma list_czmq_laws: "czmq_laws list_czmq id"
  by (simp add: czmq_laws_def list_czmq_def prod.map_id0)

lemma list_czmq_cursor: "czmq_cursor list_czmq id"
  by (simp add: czmq_cursor_def list_czmq_def)

end
