(* ===== verification/Rpc_Dispatcher.thy ===== *)
theory Rpc_Dispatcher
  imports Rpc_Message
begin

text \<open>
  The dispatcher of the RPC library (\<^verbatim>\<open>src/rpc/RpcDispatcherBase.cpp\<close>): it owns a ROUTER socket on
  which it receives the requests of clients and the messages of workers, queues each request at its
  service and forwards it to the next waiting worker of that service, and passes the replies back.

  A worker object and a service object live in the maps of the dispatcher; a pointer to one of them
  is its key, and using a pointer whose object is gone, a null pointer or a failed \<^verbatim>\<open>assert\<close>
  is the outcome \<^const>\<open>None\<close>.  The messages handed to the socket are the outputs.  The clock is an
  argument; time is in milliseconds.  As built, expired workers are only noted
  (\<^verbatim>\<open>DELETE_EXPIRED_WORKERS\<close> is not defined).
\<close>

named_theorems disp_defs "operations of the dispatcher"

section \<open>State\<close>

definition HEARTBEAT_INTERVAL :: int where "HEARTBEAT_INTERVAL = 2500"
definition HEARTBEAT_LIVENESS :: int where "HEARTBEAT_LIVENESS = 3"
definition HEARTBEAT_EXPIRY :: int where "HEARTBEAT_EXPIRY = HEARTBEAT_INTERVAL * HEARTBEAT_LIVENESS"

record worker =
  w_service :: "frame option"
  w_expiration :: int
  w_logExp :: int

record 'm service =
  s_requests :: "'m list"
  s_waiting :: "frame list"
  s_numWorkers :: u64

record 'm dispatcher =
  d_services :: "frame \<rightharpoonup> 'm service"
  d_workers :: "frame \<rightharpoonup> worker"
  d_waiting :: "frame list"
  d_heartbeat_at :: int
  d_done :: bool

type_synonym ('m, 'r) disp_res = "('m dispatcher, 'r, 'm) outcome"

definition new_worker :: worker where
  "new_worker = \<lparr>w_service = None, w_expiration = 0, w_logExp = 0\<rparr>"

definition new_service :: "'m service" where
  "new_service = \<lparr>s_requests = [], s_waiting = [], s_numWorkers = 0\<rparr>"

definition new_dispatcher :: "int \<Rightarrow> 'm dispatcher" where
  "new_dispatcher now = \<lparr>d_services = Map.empty, d_workers = Map.empty, d_waiting = [],
     d_heartbeat_at = now + HEARTBEAT_INTERVAL, d_done = False\<rparr>"

definition set_service :: "frame \<Rightarrow> 'm service \<Rightarrow> 'm dispatcher \<Rightarrow> 'm dispatcher" where
  "set_service n s d = d\<lparr>d_services := (d_services d)(n \<mapsto> s)\<rparr>"

definition set_worker :: "frame \<Rightarrow> worker \<Rightarrow> 'm dispatcher \<Rightarrow> 'm dispatcher" where
  "set_worker i w d = d\<lparr>d_workers := (d_workers d)(i \<mapsto> w)\<rparr>"

section \<open>Expiration of workers\<close>

definition isExpired :: "int \<Rightarrow> worker \<Rightarrow> bool \<times> worker" where
  "isExpired now w =
     (let n = (if w_expiration w < now then 20 else w_logExp w)
      in (w_expiration w < now, w\<lparr>w_logExp := if n > 0 then n - 1 else n\<rparr>))"

definition worker_setExpired :: "int \<Rightarrow> int \<Rightarrow> worker \<Rightarrow> worker" where
  "worker_setExpired now offset w =
     w\<lparr>w_expiration := now + offset, w_logExp := if w_logExp w > 0 then w_logExp w - 1 else w_logExp w\<rparr>"

fun purge_loop :: "int \<Rightarrow> frame list \<Rightarrow> (frame \<rightharpoonup> worker) \<Rightarrow> (frame \<rightharpoonup> worker) option" where
  "purge_loop now [] ws = Some ws"
| "purge_loop now (i # is) ws =
     (case ws i of None \<Rightarrow> None
      | Some w \<Rightarrow> (case isExpired now w of (e, w') \<Rightarrow>
          if \<not> e then Some (ws(i \<mapsto> w')) else purge_loop now is (ws(i \<mapsto> w'))))"

definition purge_workers :: "int \<Rightarrow> 'm dispatcher \<Rightarrow> 'm dispatcher option" where
  "purge_workers now d = map_option (\<lambda>ws. d\<lparr>d_workers := ws\<rparr>) (purge_loop now (d_waiting d) (d_workers d))"

section \<open>Services\<close>

definition findService :: "frame \<Rightarrow> 'm dispatcher \<Rightarrow> 'm service option option" where
  "findService name d = (if name = [] then None else Some (d_services d name))"

definition getService :: "frame \<Rightarrow> 'm dispatcher \<Rightarrow> 'm dispatcher option" where
  "getService name d =
     (case findService name d of None \<Rightarrow> None
      | Some (Some s) \<Rightarrow> Some d
      | Some None \<Rightarrow> Some (set_service name new_service d))"

definition worker_send :: "'m czmq \<Rightarrow> frame \<Rightarrow> RpcCommands \<Rightarrow> 'm option \<Rightarrow> 'm" where
  "worker_send z identity command msg =
     (let m = (case msg of None \<Rightarrow> zmsg_new z | Some m \<Rightarrow> m)
      in wrap z identity [] (pushstr z RPC_WORKER (zm_push z [cmd_code command] m)))"

text \<open>
  The loop of \<open>service_dispatch\<close>: its variables are the waiting workers and the requests of the
  service and the waiting workers of the dispatcher.
\<close>

fun dispatch_loop :: "'m czmq \<Rightarrow> (frame \<rightharpoonup> worker) \<Rightarrow> frame list \<Rightarrow> 'm list \<Rightarrow> frame list
    \<Rightarrow> (frame list \<times> 'm list \<times> frame list \<times> 'm list) option" where
  "dispatch_loop z ws (i # is) (r # rs) all =
     (if ws i = None then None
      else map_option (\<lambda>(is', rs', all', out). (is', rs', all', worker_send z i RPC_REQUEST (Some r) # out))
             (dispatch_loop z ws is rs (removeAll i all)))"
| "dispatch_loop z ws is rs all = Some (is, rs, all, [])"

definition service_dispatch ::
  "'m czmq \<Rightarrow> int \<Rightarrow> frame \<Rightarrow> 'm option \<Rightarrow> 'm dispatcher \<Rightarrow> ('m, unit) disp_res" where
  "service_dispatch z now name msg d =
     (case d_services d name of None \<Rightarrow> None
      | Some s \<Rightarrow>
          (case purge_workers now d of None \<Rightarrow> None
           | Some d1 \<Rightarrow>
               (case dispatch_loop z (d_workers d1) (s_waiting s)
                       (s_requests s @ (case msg of None \<Rightarrow> [] | Some m \<Rightarrow> [m])) (d_waiting d1) of
                  None \<Rightarrow> None
                | Some (is, rs, all, out) \<Rightarrow>
                    Some (set_service name (s\<lparr>s_requests := rs, s_waiting := is\<rparr>) (d1\<lparr>d_waiting := all\<rparr>), (), out))))"

text \<open>
  \<open>service_internal\<close> is not called by the code of the repository.  It reads the envelope as a C string,
  past the end of the frame if that holds no null byte.
\<close>

definition service_internal :: "'m czmq \<Rightarrow> frame \<Rightarrow> 'm \<Rightarrow> 'm option" where
  "service_internal z service_name msg =
     (case unwrap z msg of (None, m) \<Rightarrow> None
      | (Some f, m) \<Rightarrow>
          if 0 \<in> set f then Some (wrap z (c_str f) [] (wrap z RPC_CLIENT (c_str service_name) m)) else None)"

section \<open>Workers\<close>

definition worker_require :: "frame \<Rightarrow> 'm dispatcher \<Rightarrow> 'm dispatcher option" where
  "worker_require identity d =
     (if identity = [] then None
      else if d_workers d identity \<noteq> None then Some d else Some (set_worker identity new_worker d))"

definition worker_delete :: "'m czmq \<Rightarrow> frame \<Rightarrow> bool \<Rightarrow> 'm dispatcher \<Rightarrow> ('m, unit) disp_res" where
  "worker_delete z i disconnect d =
     (case d_workers d i of None \<Rightarrow> None
      | Some w \<Rightarrow>
          (let out = (if disconnect then [worker_send z i RPC_DISCONNECT None] else []);
               gone = (\<lambda>d. d\<lparr>d_waiting := removeAll i (d_waiting d), d_workers := (d_workers d)(i := None)\<rparr>)
           in case w_service w of None \<Rightarrow> Some (gone d, (), out)
              | Some n \<Rightarrow>
                  (case d_services d n of None \<Rightarrow> None
                   | Some s \<Rightarrow> Some (gone (set_service n (s\<lparr>s_waiting := removeAll i (s_waiting s),
                                       s_numWorkers := s_numWorkers s - 1\<rparr>) d), (), out))))"

definition worker_waiting :: "'m czmq \<Rightarrow> int \<Rightarrow> frame \<Rightarrow> 'm dispatcher \<Rightarrow> ('m, unit) disp_res" where
  "worker_waiting z now i d =
     (case d_workers d i of None \<Rightarrow> None
      | Some w \<Rightarrow>
          (case w_service w of None \<Rightarrow> None
           | Some n \<Rightarrow>
               (case d_services d n of None \<Rightarrow> None
                | Some s \<Rightarrow>
                    service_dispatch z now n None
                      (set_worker i (worker_setExpired now HEARTBEAT_EXPIRY w)
                        (set_service n (s\<lparr>s_waiting := s_waiting s @ [i]\<rparr>)
                          (d\<lparr>d_waiting := d_waiting d @ [i]\<rparr>))))))"

text \<open>The branches of the switch in \<open>worker_process\<close>, entered with the worker created if it was new.\<close>

definition register_worker ::
  "'m czmq \<Rightarrow> int \<Rightarrow> frame \<Rightarrow> bool \<Rightarrow> 'm \<Rightarrow> 'm dispatcher \<Rightarrow> ('m, unit) disp_res" where
  "register_worker z now sender worker_ready msg d =
     (if worker_ready then worker_delete z sender True d
      else (case popstr z msg of (service_name, m) \<Rightarrow>
        (case getService service_name d of None \<Rightarrow> None
         | Some d1 \<Rightarrow>
             (case (d_workers d1 sender, d_services d1 service_name) of
                (Some w, Some s) \<Rightarrow>
                  worker_waiting z now sender
                    (set_service service_name (s\<lparr>s_numWorkers := s_numWorkers s + 1\<rparr>)
                      (set_worker sender (w\<lparr>w_service := Some service_name\<rparr>) d1))
              | _ \<Rightarrow> None))))"

definition reply_to_client ::
  "'m czmq \<Rightarrow> int \<Rightarrow> frame \<Rightarrow> bool \<Rightarrow> 'm \<Rightarrow> 'm dispatcher \<Rightarrow> ('m, unit) disp_res" where
  "reply_to_client z now sender worker_ready msg d =
     (if \<not> worker_ready then worker_delete z sender True d
      else (case unwrap z msg of (None, m) \<Rightarrow> None
            | (Some client, m) \<Rightarrow>
                (case Option.bind (d_workers d sender) w_service of None \<Rightarrow> None
                 | Some n \<Rightarrow>
                     and_then (Some (d, (), [wrap z client [] (pushstr z RPC_CLIENT (pushstr z n m))]))
                       (\<lambda>d _. worker_waiting z now sender d))))"

definition worker_heartbeat :: "'m czmq \<Rightarrow> int \<Rightarrow> frame \<Rightarrow> bool \<Rightarrow> 'm dispatcher \<Rightarrow> ('m, unit) disp_res" where
  "worker_heartbeat z now sender worker_ready d =
     (if worker_ready
      then (case d_workers d sender of None \<Rightarrow> None
            | Some w \<Rightarrow> Some (set_worker sender (worker_setExpired now HEARTBEAT_EXPIRY w) d, (), []))
      else worker_delete z sender True d)"

definition worker_process :: "'m czmq \<Rightarrow> int \<Rightarrow> frame \<Rightarrow> 'm \<Rightarrow> 'm dispatcher \<Rightarrow> ('m, unit) disp_res" where
  "worker_process z now sender msg d =
     (if zm_size z msg < 1 then None
      else (case zm_pop z msg of (None, m) \<Rightarrow> None
            | (Some f, m) \<Rightarrow>
                if length f \<noteq> 1 then None
                else (let command = f ! 0; worker_ready = d_workers d sender \<noteq> None
                      in case worker_require sender d of None \<Rightarrow> None
                         | Some d1 \<Rightarrow>
                             if command = cmd_code RPC_REGISTER then register_worker z now sender worker_ready m d1
                             else if command = cmd_code RPC_REPLY then reply_to_client z now sender worker_ready m d1
                             else if command = cmd_code RPC_HEARTBEAT then worker_heartbeat z now sender worker_ready d1
                             else if command = cmd_code RPC_DISCONNECT then worker_delete z sender False d1
                             else Some (d1, (), []))))"

section \<open>Clients\<close>

definition sendErrorResponse :: "'m czmq \<Rightarrow> 'm \<Rightarrow> frame \<Rightarrow> u32 \<Rightarrow> frame \<Rightarrow> 'm option" where
  "sendErrorResponse z reqMsg srvId errorCode errorMsg =
     (case unwrap z reqMsg of (None, m) \<Rightarrow> None
      | (Some client, m) \<Rightarrow>
          (case fst (zm_next z m) of None \<Rightarrow> None
           | Some f \<Rightarrow>
               if f = [] then None
               else Some (wrap z client [] (pushstr z RPC_CLIENT (pushstr z srvId
                      (addstr z errorMsg (addint z errorCode (zm_push z [f ! 0] (zmsg_new z)))))))))"

definition client_process :: "'m czmq \<Rightarrow> int \<Rightarrow> frame \<Rightarrow> 'm \<Rightarrow> 'm dispatcher \<Rightarrow> ('m, unit) disp_res" where
  "client_process z now sender msg d =
     (if zm_size z msg < 2 then None
      else (case popstr z msg of (service_name, m) \<Rightarrow>
        (case findService service_name d of None \<Rightarrow> None
         | Some None \<Rightarrow>
             map_option (\<lambda>r. (d, (), [r]))
               (sendErrorResponse z (wrap z sender [] m) service_name RPC_INVALID_SERVICE_ID [])
         | Some (Some s) \<Rightarrow> service_dispatch z now service_name (Some (wrap z sender [] m)) d)))"

section \<open>Main loop\<close>

text \<open>What a poll of the socket brings, and the other thing that happens to the dispatcher: \<open>cancel\<close>.\<close>

datatype 'm poll = Poll_message 'm | Poll_nothing | Poll_terminated | Poll_error

datatype 'm disp_input = Turn "'m poll" int int | Cancel

definition dispatch_message :: "'m czmq \<Rightarrow> int \<Rightarrow> 'm \<Rightarrow> 'm dispatcher \<Rightarrow> ('m, unit) disp_res" where
  "dispatch_message z now msg d =
     (case popstr z msg of (sender, m1) \<Rightarrow>
       (case popstr z m1 of (_, m2) \<Rightarrow>
         (case popstr z m2 of (header, m) \<Rightarrow>
            if header = RPC_CLIENT then client_process z now sender m d
            else if header = RPC_WORKER then worker_process z now sender m d
            else Some (d, (), []))))"

fun heartbeat_loop :: "'m czmq \<Rightarrow> (frame \<rightharpoonup> worker) \<Rightarrow> frame list \<Rightarrow> 'm list option" where
  "heartbeat_loop z ws [] = Some []"
| "heartbeat_loop z ws (i # is) =
     (if ws i = None then None
      else map_option (\<lambda>out. worker_send z i RPC_HEARTBEAT None # out) (heartbeat_loop z ws is))"

definition send_heartbeats :: "'m czmq \<Rightarrow> int \<Rightarrow> 'm dispatcher \<Rightarrow> ('m, unit) disp_res" where
  "send_heartbeats z now d =
     (if now > d_heartbeat_at d
      then (case purge_workers now d of None \<Rightarrow> None
            | Some d1 \<Rightarrow> map_option (\<lambda>out. (d1\<lparr>d_heartbeat_at := now + HEARTBEAT_INTERVAL\<rparr>, (), out))
                          (heartbeat_loop z (d_workers d1) (d_waiting d1)))
      else Some (d, (), []))"

definition disp_step :: "'m czmq \<Rightarrow> 'm disp_input \<Rightarrow> 'm dispatcher \<Rightarrow> ('m, unit) disp_res" where
  "disp_step z i d =
     (case i of Cancel \<Rightarrow> Some (d\<lparr>d_done := True\<rparr>, (), [])
      | Turn p now now' \<Rightarrow>
          if d_done d then Some (d, (), [])
          else (case p of
              Poll_message m \<Rightarrow> and_then (dispatch_message z now m d) (\<lambda>d _. send_heartbeats z now' d)
            | Poll_nothing \<Rightarrow> send_heartbeats z now' d
            | Poll_terminated \<Rightarrow> Some (d\<lparr>d_done := True\<rparr>, (), [])
            | Poll_error \<Rightarrow> Some (d, (), [])))"

fun disp_run :: "'m czmq \<Rightarrow> 'm disp_input list \<Rightarrow> 'm dispatcher \<Rightarrow> ('m, unit) disp_res" where
  "disp_run z [] d = Some (d, (), [])"
| "disp_run z (i # is) d = and_then (disp_step z i d) (\<lambda>d _. disp_run z is d)"

section \<open>Invariant\<close>

text \<open>
  \<open>srv_of d i\<close> is the service of the worker \<open>i\<close>: \<^const>\<open>None\<close> for a worker that is not known,
  \<open>Some None\<close> for one that is known but has not registered.
\<close>

definition srv_of :: "'m dispatcher \<Rightarrow> frame \<Rightarrow> frame option option" where
  "srv_of d i = map_option w_service (d_workers d i)"

text \<open>
  No pointer dangles: the service of a worker exists, a worker waiting at a service is a known
  worker of that service, a worker on the waiting list of the dispatcher is known.
\<close>

definition disp_wf :: "'m dispatcher \<Rightarrow> bool" where
  "disp_wf d \<longleftrightarrow>
     (\<forall>i n. srv_of d i = Some (Some n) \<longrightarrow> d_services d n \<noteq> None)
   \<and> (\<forall>n s i. d_services d n = Some s \<longrightarrow> i \<in> set (s_waiting s) \<longrightarrow> srv_of d i = Some (Some n))
   \<and> (\<forall>i \<in> set (d_waiting d). srv_of d i \<noteq> None)"

text \<open>No service has both a waiting worker and a queued request.\<close>

definition settled :: "'m service \<Rightarrow> bool" where
  "settled s \<longleftrightarrow> s_waiting s = [] \<or> s_requests s = []"

definition disp_inv :: "'m dispatcher \<Rightarrow> bool" where
  "disp_inv d \<longleftrightarrow> disp_wf d \<and> (\<forall>n s. d_services d n = Some s \<longrightarrow> settled s)"

definition queued :: "'m dispatcher \<Rightarrow> frame \<Rightarrow> 'm list" where
  "queued d n = (case d_services d n of None \<Rightarrow> [] | Some s \<Rightarrow> s_requests s)"

lemma srv_of_simps [simp]:
  "srv_of (d\<lparr>d_waiting := ws\<rparr>) = srv_of d"
  "srv_of (d\<lparr>d_services := ss\<rparr>) = srv_of d"
  "srv_of (d\<lparr>d_heartbeat_at := t\<rparr>) = srv_of d"
  "srv_of (d\<lparr>d_done := b\<rparr>) = srv_of d"
  "srv_of (set_service n s d) = srv_of d"
  "srv_of (set_worker i w d) = (srv_of d)(i := Some (w_service w))"
  by (auto simp: srv_of_def set_service_def set_worker_def)

lemma set_service_simps [simp]:
  "d_services (set_service n s d) = (d_services d)(n \<mapsto> s)"
  "d_workers (set_service n s d) = d_workers d"
  "d_waiting (set_service n s d) = d_waiting d"
  "d_done (set_service n s d) = d_done d"
  by (simp_all add: set_service_def)

lemma set_worker_simps [simp]:
  "d_services (set_worker i w d) = d_services d"
  "d_workers (set_worker i w d) = (d_workers d)(i \<mapsto> w)"
  "d_waiting (set_worker i w d) = d_waiting d"
  "d_done (set_worker i w d) = d_done d"
  by (simp_all add: set_worker_def)

lemma service_setExpired [simp]: "w_service (worker_setExpired now off w) = w_service w"
  by (simp add: worker_setExpired_def)

lemma srv_of_None [simp]: "srv_of d i = None \<longleftrightarrow> d_workers d i = None"
  by (simp add: srv_of_def)

lemma srv_of_Some: "srv_of d i = Some x \<longleftrightarrow> (\<exists>w. d_workers d i = Some w \<and> w_service w = x)"
  by (auto simp: srv_of_def)

lemma new_dispatcher_inv: "disp_inv (new_dispatcher now)"
  by (simp add: disp_inv_def disp_wf_def new_dispatcher_def srv_of_def)

subsection \<open>Noting expired workers\<close>

lemma purge_loop_ok:
  "\<forall>i \<in> set is. ws i \<noteq> None \<Longrightarrow>
   \<exists>ws'. purge_loop now is ws = Some ws' \<and> (\<lambda>i. map_option w_service (ws' i)) = (\<lambda>i. map_option w_service (ws i))"
proof (induction "is" arbitrary: ws)
  case (Cons i "is")
  obtain w where w: "ws i = Some w" using Cons.prems by auto
  obtain e w' where e: "isExpired now w = (e, w')" by fastforce
  have s: "w_service w' = w_service w" using e by (auto simp: isExpired_def Let_def)
  let ?ws = "ws(i \<mapsto> w')"
  have same: "(\<lambda>i. map_option w_service (?ws i)) = (\<lambda>i. map_option w_service (ws i))" using w s by auto
  have "\<forall>i \<in> set is. ?ws i \<noteq> None" using Cons.prems by auto
  from Cons.IH[OF this] same show ?case using w e by (auto simp del: fun_upd_apply)
qed simp

lemma purge_workers_ok:
  assumes "\<forall>i \<in> set (d_waiting d). srv_of d i \<noteq> None"
  shows "\<exists>ws. purge_workers now d = Some (d\<lparr>d_workers := ws\<rparr>) \<and> srv_of (d\<lparr>d_workers := ws\<rparr>) = srv_of d"
proof -
  obtain ws where "purge_loop now (d_waiting d) (d_workers d) = Some ws"
      "(\<lambda>i. map_option w_service (ws i)) = (\<lambda>i. map_option w_service (d_workers d i))"
    using purge_loop_ok[of "d_waiting d" "d_workers d" now] assms by auto
  moreover from this(2) have "srv_of (d\<lparr>d_workers := ws\<rparr>) = srv_of d"
    by (simp add: srv_of_def fun_eq_iff)
  ultimately show ?thesis by (auto simp: purge_workers_def)
qed

subsection \<open>Dispatching the requests of a service\<close>

lemma dispatch_loop_eq:
  "\<forall>i \<in> set is. ws i \<noteq> None \<Longrightarrow> k = min (length is) (length rs) \<Longrightarrow>
   dispatch_loop z ws is rs all =
     Some (drop k is, drop k rs, filter (\<lambda>j. j \<notin> set (take k is)) all,
           map2 (\<lambda>i r. worker_send z i RPC_REQUEST (Some r)) is rs)"
proof (induction z ws "is" rs all arbitrary: k rule: dispatch_loop.induct)
  case (1 z ws i "is" r rs all)
  have "filter (\<lambda>j. j \<notin> set xs) (removeAll i all) = filter (\<lambda>j. j \<noteq> i \<and> j \<notin> set xs) all" for xs
    by (simp add: removeAll_filter_not_eq filter_filter conj_commute) (metis)
  then show ?case using 1 by auto
qed auto

text \<open>What a dispatch leaves of a service, and what it sends.\<close>

definition dispatched :: "frame list \<Rightarrow> 'm list \<Rightarrow> 'm service \<Rightarrow> 'm service" where
  "dispatched is rs s = (let k = min (length is) (length rs) in s\<lparr>s_requests := drop k rs, s_waiting := drop k is\<rparr>)"

definition requests_out :: "'m czmq \<Rightarrow> frame list \<Rightarrow> 'm list \<Rightarrow> 'm list" where
  "requests_out z is rs = map2 (\<lambda>i r. worker_send z i RPC_REQUEST (Some r)) is rs"

lemma dispatched_settled: "settled (dispatched is rs s)"
  by (auto simp: settled_def dispatched_def Let_def min_def)

lemma set_dispatched_waiting: "set (s_waiting (dispatched is rs s)) \<subseteq> set is"
  by (auto simp: dispatched_def Let_def dest: in_set_dropD)

lemma service_dispatch_ok:
  assumes wf: "disp_wf d" and s: "d_services d n = Some s"
  shows "\<exists>d'. service_dispatch z now n msg d =
           Some (d', (), requests_out z (s_waiting s) (s_requests s @ (case msg of None \<Rightarrow> [] | Some m \<Rightarrow> [m])))
       \<and> disp_wf d' \<and> srv_of d' = srv_of d \<and> d_done d' = d_done d
       \<and> d_services d' = (d_services d)(n \<mapsto> dispatched (s_waiting s) (s_requests s @ (case msg of None \<Rightarrow> [] | Some m \<Rightarrow> [m])) s)"
proof -
  let ?rs = "s_requests s @ (case msg of None \<Rightarrow> [] | Some m \<Rightarrow> [m])"
  let ?k = "min (length (s_waiting s)) (length ?rs)"
  obtain ws where ws: "purge_workers now d = Some (d\<lparr>d_workers := ws\<rparr>)" "srv_of (d\<lparr>d_workers := ws\<rparr>) = srv_of d"
    using purge_workers_ok[of d now] wf by (auto simp: disp_wf_def)
  have known: "\<forall>i \<in> set (s_waiting s). ws i \<noteq> None"
  proof
    fix i assume "i \<in> set (s_waiting s)"
    then have "srv_of d i \<noteq> None" using wf s by (fastforce simp: disp_wf_def)
    then have "srv_of (d\<lparr>d_workers := ws\<rparr>) i \<noteq> None" using ws(2) by simp
    then show "ws i \<noteq> None" by (simp add: srv_of_def)
  qed
  let ?d = "set_service n (dispatched (s_waiting s) ?rs s)
      (d\<lparr>d_workers := ws, d_waiting := filter (\<lambda>j. j \<notin> set (take ?k (s_waiting s))) (d_waiting d)\<rparr>)"
  have run: "service_dispatch z now n msg d = Some (?d, (), requests_out z (s_waiting s) ?rs)"
    using s ws(1) dispatch_loop_eq[OF known refl, of z ?rs "d_waiting d"]
    by (simp add: service_dispatch_def requests_out_def dispatched_def Let_def)
  have srv: "srv_of ?d = srv_of d" using ws(2) by (simp add: srv_of_def)
  have "disp_wf ?d"
    unfolding disp_wf_def srv
    using wf s set_dispatched_waiting[of "s_waiting s" ?rs s] by (auto simp: disp_wf_def)
  with run srv show ?thesis by auto
qed

end
