(* ===== verification/Rpc_Routing.thy ===== *)
theory Rpc_Routing
  imports Rpc_Dispatcher
begin

text \<open>
  What the dispatcher does with its inputs: exactly which messages abort the process, that all
  others keep its structures sound, and that the requests of every service are forwarded to
  workers of that service in order of arrival, each exactly once.
\<close>

section \<open>Messages to workers, by their frames\<close>

lemma worker_send_frames:
  assumes "czmq_laws z fr"
  shows "fr (worker_send z i c None) = [i, [], RPC_WORKER, [cmd_code c]]"
    and "fr (worker_send z i c (Some m)) = i # [] # RPC_WORKER # [cmd_code c] # fr m"
  using assms by (simp_all add: worker_send_def zmessage_frames)

definition is_request :: "frame list \<Rightarrow> bool" where
  "is_request fs \<longleftrightarrow> take 3 (tl fs) = [[], RPC_WORKER, [cmd_code RPC_REQUEST]]"

text \<open>The requests among the sent messages that go to a worker of the service \<open>n\<close>.\<close>

definition forwarded :: "('m \<Rightarrow> frame list) \<Rightarrow> 'm dispatcher \<Rightarrow> frame \<Rightarrow> 'm list \<Rightarrow> frame list list" where
  "forwarded fr d n out =
     map (drop 4) (filter (\<lambda>fs. is_request fs \<and> srv_of d (hd fs) = Some (Some n)) (map fr out))"

lemma forwarded_append [simp]: "forwarded fr d n (xs @ ys) = forwarded fr d n xs @ forwarded fr d n ys"
  by (simp add: forwarded_def)

lemma forwarded_Nil [simp]: "forwarded fr d n [] = []"
  by (simp add: forwarded_def)

lemma forwarded_cong: "srv_of d = srv_of d' \<Longrightarrow> forwarded fr d n out = forwarded fr d' n out"
  by (simp add: forwarded_def)

lemma forwarded_other: "\<not> is_request (fr m) \<Longrightarrow> forwarded fr d n (m # out) = forwarded fr d n out"
  by (simp add: forwarded_def)

lemma forwarded_requests_out:
  assumes "czmq_laws z fr" "\<forall>i \<in> set is. srv_of d i = Some (Some n')"
  shows "forwarded fr d n (requests_out z is rs) =
    (if n = n' then map fr (take (min (length is) (length rs)) rs) else [])"
  using assms(2)
proof (induction "is" arbitrary: rs)
  case (Cons i "is")
  then show ?case
    by (cases rs) (auto simp: requests_out_def forwarded_def is_request_def worker_send_frames[OF assms(1)])
qed (simp add: requests_out_def)

lemma not_request:
  assumes "czmq_laws z fr"
  shows "\<not> is_request (fr (wrap z client [] (pushstr z RPC_CLIENT m)))"
    and "c \<noteq> RPC_REQUEST \<Longrightarrow> \<not> is_request (fr (worker_send z i c None))"
  using assms cmd_code_inject[of c RPC_REQUEST]
  by (auto simp: is_request_def zmessage_frames worker_send_frames simp del: cmd_code_inject cmd_code.simps)

section \<open>Contracts of the operations\<close>

text \<open>
  The contract of an operation that takes the dispatcher from \<open>d\<close> to \<open>d'\<close>, sends \<open>out\<close> and accepts
  the client requests \<open>acc n\<close> for each service \<open>n\<close>: the invariant holds afterwards, and at every
  service the requests that were queued or came in are those now forwarded followed by those
  still queued.
\<close>

definition keeps_fifo :: "('m \<Rightarrow> frame list) \<Rightarrow> (frame \<Rightarrow> frame list list) \<Rightarrow> 'm dispatcher \<Rightarrow> 'm dispatcher
    \<Rightarrow> 'm list \<Rightarrow> bool" where
  "keeps_fifo fr acc d d' out \<longleftrightarrow>
     disp_inv d' \<and> (\<forall>n. map fr (queued d n) @ acc n = forwarded fr d' n out @ map fr (queued d' n))"

definition no_requests :: "frame \<Rightarrow> frame list list" where
  "no_requests n = []"

lemma no_requests_upd [simp]: "no_requests(n := []) = no_requests"
  by (auto simp: no_requests_def)

lemma keeps_fifo_same: "disp_inv d' \<Longrightarrow> (\<And>n. queued d' n = queued d n) \<Longrightarrow> (\<And>n. forwarded fr d' n out = []) \<Longrightarrow>
    keeps_fifo fr no_requests d d' out"
  by (simp add: keeps_fifo_def no_requests_def)

lemma disp_invD:
  assumes "disp_inv d"
  shows "disp_wf d" and "d_services d n = Some s \<Longrightarrow> settled s"
    and "srv_of d i = Some (Some n) \<Longrightarrow> \<exists>s. d_services d n = Some s"
  using assms by (auto simp: disp_inv_def disp_wf_def)

lemma disp_wfD:
  assumes "disp_wf d"
  shows "srv_of d i = Some (Some n) \<Longrightarrow> d_services d n \<noteq> None"
    and "d_services d n = Some s \<Longrightarrow> i \<in> set (s_waiting s) \<Longrightarrow> srv_of d i = Some (Some n)"
    and "i \<in> set (d_waiting d) \<Longrightarrow> srv_of d i \<noteq> None"
  using assms unfolding disp_wf_def by blast+

lemma disp_wfI:
  assumes "\<And>i n. srv_of d i = Some (Some n) \<Longrightarrow> d_services d n \<noteq> None"
    and "\<And>n s i. d_services d n = Some s \<Longrightarrow> i \<in> set (s_waiting s) \<Longrightarrow> srv_of d i = Some (Some n)"
    and "\<And>i. i \<in> set (d_waiting d) \<Longrightarrow> srv_of d i \<noteq> None"
  shows "disp_wf d"
  using assms unfolding disp_wf_def by blast

lemma queued_upd: "queued (d\<lparr>d_services := (d_services d)(n \<mapsto> s)\<rparr>) n' = (if n' = n then s_requests s else queued d n')"
  by (simp add: queued_def)

lemma dispatch_keeps_fifo:
  assumes L: "czmq_laws z fr" and wf: "disp_wf d"
    and others: "\<forall>n' s'. n' \<noteq> n \<longrightarrow> d_services d n' = Some s' \<longrightarrow> settled s'"
    and s: "d_services d n = Some s"
  shows "\<exists>d' out. service_dispatch z now n msg d = Some (d', (), out) \<and> d_done d' = d_done d
    \<and> srv_of d' = srv_of d
    \<and> out = requests_out z (s_waiting s) (s_requests s @ (case msg of None \<Rightarrow> [] | Some m \<Rightarrow> [m]))
    \<and> keeps_fifo fr (no_requests(n := map fr (case msg of None \<Rightarrow> [] | Some m \<Rightarrow> [m]))) d d' out"
proof -
  let ?rs = "s_requests s @ (case msg of None \<Rightarrow> [] | Some m \<Rightarrow> [m])"
  let ?is = "s_waiting s"
  obtain d' where d': "service_dispatch z now n msg d = Some (d', (), requests_out z ?is ?rs)" "disp_wf d'"
      "srv_of d' = srv_of d" "d_done d' = d_done d" "d_services d' = (d_services d)(n \<mapsto> dispatched ?is ?rs s)"
    using service_dispatch_ok[OF wf s, of z now msg] by blast
  have "\<forall>i \<in> set ?is. srv_of d' i = Some (Some n)" using wf s d'(3) by (auto simp: disp_wf_def)
  note fwd = forwarded_requests_out[OF L this, of _ ?rs]
  have inv: "disp_inv d'" using d'(2) dispatched_settled[of ?is ?rs s] others by (auto simp: disp_inv_def d'(5))
  have q: "queued d' n' = (if n' = n then drop (min (length ?is) (length ?rs)) ?rs else queued d n')" for n'
    by (simp add: queued_def d'(5) dispatched_def Let_def)
  have "map fr ?rs = map fr (take (min (length ?is) (length ?rs)) ?rs) @ map fr (drop (min (length ?is) (length ?rs)) ?rs)"
    by (metis append_take_drop_id map_append)
  then have "map fr (queued d n') @ (no_requests(n := map fr (case msg of None \<Rightarrow> [] | Some m \<Rightarrow> [m]))) n'
      = forwarded fr d' n' (requests_out z ?is ?rs) @ map fr (queued d' n')" for n'
    using s by (simp add: fwd q no_requests_def) (simp add: queued_def)
  with d' inv show ?thesis by (auto simp: keeps_fifo_def)
qed

lemma worker_delete_wf:
  assumes wf: "disp_wf d" and n: "\<And>m. srv_of d i = Some (Some m) \<Longrightarrow> m = n" and s: "d_services d n = Some s"
  shows "disp_wf ((set_service n (s\<lparr>s_waiting := removeAll i (s_waiting s), s_numWorkers := k\<rparr>) d)
    \<lparr>d_waiting := removeAll i (d_waiting d), d_workers := (d_workers d)(i := None)\<rparr>)" (is "disp_wf ?d")
proof -
  have srv: "srv_of ?d = (srv_of d)(i := None)" by (auto simp: srv_of_def)
  show ?thesis
  proof (rule disp_wfI; unfold srv)
    show "d_services ?d m \<noteq> None" if "((srv_of d)(i := None)) j = Some (Some m)" for j m
      using that disp_wfD(1)[OF wf, of j m] by (auto split: if_splits)
    show "((srv_of d)(i := None)) j = Some (Some m)"
      if j: "d_services ?d m = Some s'" "j \<in> set (s_waiting s')" for m s' j
    proof -
      obtain t where "d_services d m = Some t" "j \<in> set (s_waiting t)" "m = n \<longrightarrow> j \<noteq> i"
        using j s by (auto split: if_splits)
      then show ?thesis using disp_wfD(2)[OF wf, of m t j] n by auto
    qed
    show "((srv_of d)(i := None)) j \<noteq> None" if "j \<in> set (d_waiting ?d)" for j
      using that disp_wfD(3)[OF wf, of j] by auto
  qed
qed

lemma worker_delete_wf_unregistered:
  assumes wf: "disp_wf d" and i: "srv_of d i = Some None"
  shows "disp_wf (d\<lparr>d_waiting := removeAll i (d_waiting d), d_workers := (d_workers d)(i := None)\<rparr>)" (is "disp_wf ?d")
proof -
  have srv: "srv_of ?d = (srv_of d)(i := None)" by (auto simp: srv_of_def)
  show ?thesis
  proof (rule disp_wfI; unfold srv)
    show "d_services ?d m \<noteq> None" if "((srv_of d)(i := None)) j = Some (Some m)" for j m
      using that disp_wfD(1)[OF wf, of j m] by (auto split: if_splits)
    show "((srv_of d)(i := None)) j = Some (Some m)"
      if "d_services ?d m = Some s'" "j \<in> set (s_waiting s')" for m s' j
      using that disp_wfD(2)[OF wf, of m s' j] i by auto
    show "((srv_of d)(i := None)) j \<noteq> None" if "j \<in> set (d_waiting ?d)" for j
      using that disp_wfD(3)[OF wf, of j] by auto
  qed
qed

lemma worker_delete_ok:
  assumes L: "czmq_laws z fr" and inv: "disp_inv d" and known: "d_workers d i \<noteq> None"
  shows "\<exists>d' out. worker_delete z i b d = Some (d', (), out) \<and> d_done d' = d_done d
    \<and> srv_of d' = (srv_of d)(i := None) \<and> keeps_fifo fr no_requests d d' out"
proof -
  obtain w where w: "d_workers d i = Some w" using known by auto
  let ?out = "if b then [worker_send z i RPC_DISCONNECT None] else []"
  have out: "forwarded fr d' n ?out = []" for d' n
    using not_request(2)[OF L, of RPC_DISCONNECT i] by (simp add: forwarded_def)
  show ?thesis
  proof (cases "w_service w")
    case None
    let ?d = "d\<lparr>d_waiting := removeAll i (d_waiting d), d_workers := (d_workers d)(i := None)\<rparr>"
    have srv: "srv_of ?d = (srv_of d)(i := None)" by (auto simp: srv_of_def)
    have "srv_of d i = Some None" using w None by (simp add: srv_of_def)
    then have "disp_inv ?d" using worker_delete_wf_unregistered[OF disp_invD(1)[OF inv]] disp_invD(2)[OF inv]
      by (simp add: disp_inv_def)
    then have "keeps_fifo fr no_requests d ?d ?out"
      by (rule keeps_fifo_same) (simp_all add: queued_def out)
    moreover have "worker_delete z i b d = Some (?d, (), ?out)"
      using w None by (simp add: worker_delete_def Let_def)
    moreover have "d_done ?d = d_done d" by simp
    ultimately show ?thesis using srv by blast
  next
    case (Some n)
    have i: "srv_of d i = Some (Some n)" using w Some by (simp add: srv_of_def)
    then obtain s where s: "d_services d n = Some s" using disp_invD(3)[OF inv] by auto
    let ?s = "s\<lparr>s_waiting := removeAll i (s_waiting s), s_numWorkers := s_numWorkers s - 1\<rparr>"
    let ?d = "(set_service n ?s d)\<lparr>d_waiting := removeAll i (d_waiting d), d_workers := (d_workers d)(i := None)\<rparr>"
    have srv: "srv_of ?d = (srv_of d)(i := None)" by (auto simp: srv_of_def)
    have "settled ?s" using disp_invD(2)[OF inv s] by (auto simp: settled_def)
    moreover have "disp_wf ?d" using i by (intro worker_delete_wf[OF disp_invD(1)[OF inv] _ s]) simp
    ultimately have "disp_inv ?d" using disp_invD(2)[OF inv] by (simp add: disp_inv_def)
    then have "keeps_fifo fr no_requests d ?d ?out"
      by (rule keeps_fifo_same) (simp_all add: queued_def out s)
    moreover have "worker_delete z i b d = Some (?d, (), ?out)"
      using w Some s by (simp add: worker_delete_def Let_def)
    moreover have "d_done ?d = d_done d" by simp
    ultimately show ?thesis using srv by blast
  qed
qed

lemma worker_waiting_ok:
  assumes L: "czmq_laws z fr" and inv: "disp_inv d"
    and i: "srv_of d i = Some (Some n)" and s: "d_services d n = Some s"
  shows "\<exists>d'. worker_waiting z now i d = Some (d', (), requests_out z (s_waiting s @ [i]) (s_requests s))
    \<and> d_done d' = d_done d \<and> srv_of d' = srv_of d
    \<and> keeps_fifo fr no_requests d d' (requests_out z (s_waiting s @ [i]) (s_requests s))"
proof -
  obtain w where w: "d_workers d i = Some w" "w_service w = Some n" using i by (auto simp: srv_of_Some)
  let ?s = "s\<lparr>s_waiting := s_waiting s @ [i]\<rparr>"
  let ?d = "set_worker i (worker_setExpired now HEARTBEAT_EXPIRY w)
      (set_service n ?s (d\<lparr>d_waiting := d_waiting d @ [i]\<rparr>))"
  have srv: "srv_of ?d = srv_of d" using w i by auto
  have wf: "disp_wf ?d"
  proof (rule disp_wfI; unfold srv)
    note wf = disp_invD(1)[OF inv]
    show "d_services ?d m \<noteq> None" if "srv_of d j = Some (Some m)" for j m
      using disp_wfD(1)[OF wf that] by simp
    show "srv_of d j = Some (Some m)" if "d_services ?d m = Some s'" "j \<in> set (s_waiting s')" for m s' j
    proof -
      have "j = i \<and> m = n \<or> (\<exists>t. d_services d m = Some t \<and> j \<in> set (s_waiting t))"
        using that s by (auto split: if_splits)
      then show ?thesis using disp_wfD(2)[OF wf] i by auto
    qed
    show "srv_of d j \<noteq> None" if "j \<in> set (d_waiting ?d)" for j
      using that disp_wfD(3)[OF wf, of j] i by (auto simp: srv_of_Some)
  qed
  have others: "\<forall>n' s'. n' \<noteq> n \<longrightarrow> d_services ?d n' = Some s' \<longrightarrow> settled s'"
    using disp_invD(2)[OF inv] by simp
  have q: "queued ?d n' = queued d n'" for n' using s by (simp add: queued_def)
  have "d_services ?d n = Some ?s" by simp
  from dispatch_keeps_fifo[OF L wf others this, where now = now and msg = None]
  obtain d' where "service_dispatch z now n None ?d = Some (d', (), requests_out z (s_waiting ?s) (s_requests ?s))"
      "d_done d' = d_done ?d" "srv_of d' = srv_of ?d"
      "keeps_fifo fr no_requests ?d d' (requests_out z (s_waiting ?s) (s_requests ?s))"
    by (auto simp del: set_worker_simps set_service_simps srv_of_simps)
  then show ?thesis using w s srv q by (auto simp: worker_waiting_def keeps_fifo_def no_requests_def)
qed

text \<open>Operations that change neither the queues nor the outputs.\<close>

lemma keeps_fifo_from: "(\<And>n. queued d1 n = queued d n) \<Longrightarrow> keeps_fifo fr acc d1 d' out \<Longrightarrow> keeps_fifo fr acc d d' out"
  by (simp add: keeps_fifo_def)

lemma getService_ok:
  assumes inv: "disp_inv d" and name: "name \<noteq> []"
  shows "\<exists>d' s. getService name d = Some d' \<and> disp_inv d' \<and> d_workers d' = d_workers d \<and> d_done d' = d_done d
    \<and> d_services d' name = Some s \<and> (\<forall>n. queued d' n = queued d n)"
proof (cases "d_services d name")
  case None
  let ?d = "set_service name new_service d"
  have "disp_wf ?d"
    by (rule disp_wfI) (use disp_wfD[OF disp_invD(1)[OF inv]] in \<open>auto simp: new_service_def split: if_splits\<close>)
  then have "disp_inv ?d" using disp_invD(2)[OF inv] by (simp add: disp_inv_def settled_def new_service_def)
  then show ?thesis using None name by (auto simp: getService_def findService_def queued_def new_service_def)
qed (use assms in \<open>auto simp: getService_def findService_def\<close>)

lemma worker_require_ok:
  assumes inv: "disp_inv d" and i: "i \<noteq> []"
  shows "\<exists>d'. worker_require i d = Some d' \<and> disp_inv d' \<and> d_done d' = d_done d \<and> d_services d' = d_services d
    \<and> srv_of d' = (if d_workers d i = None then (srv_of d)(i := Some None) else srv_of d)"
proof (cases "d_workers d i")
  case None
  let ?d = "set_worker i new_worker d"
  have srv: "srv_of ?d = (srv_of d)(i := Some None)" by (simp add: new_worker_def)
  have i0: "srv_of d i = None" using None by simp
  have "disp_wf ?d"
  proof (rule disp_wfI; unfold srv)
    note wf = disp_invD(1)[OF inv]
    show "d_services ?d m \<noteq> None" if "((srv_of d)(i := Some None)) j = Some (Some m)" for j m
      using that disp_wfD(1)[OF wf, of j m] by (auto split: if_splits)
    show "((srv_of d)(i := Some None)) j = Some (Some m)"
      if "d_services ?d m = Some s'" "j \<in> set (s_waiting s')" for m s' j
      using that i0 disp_wfD(2)[OF wf, of m s' j] by (auto simp del: srv_of_None)
    show "((srv_of d)(i := Some None)) j \<noteq> None" if "j \<in> set (d_waiting ?d)" for j
      using that disp_wfD(3)[OF wf, of j] by (auto simp: srv_of_Some)
  qed
  then have "disp_inv ?d" using disp_invD(2)[OF inv] by (simp add: disp_inv_def)
  then show ?thesis using None i srv by (auto simp: worker_require_def)
qed (use assms in \<open>auto simp: worker_require_def\<close>)

lemma attach_worker_inv:
  assumes inv: "disp_inv d" and i: "srv_of d i = Some None" and s: "d_services d n = Some s" and w: "w_service w = Some n"
  shows "disp_inv (set_service n (s\<lparr>s_numWorkers := k\<rparr>) (set_worker i w d))" (is "disp_inv ?d")
proof -
  have srv: "srv_of ?d = (srv_of d)(i := Some (Some n))" using w by simp
  have "disp_wf ?d"
  proof (rule disp_wfI; unfold srv)
    note wf = disp_invD(1)[OF inv]
    show "d_services ?d m \<noteq> None" if "((srv_of d)(i := Some (Some n))) j = Some (Some m)" for j m
      using that disp_wfD(1)[OF wf, of j m] by (auto split: if_splits)
    show "((srv_of d)(i := Some (Some n))) j = Some (Some m)"
      if "d_services ?d m = Some s'" "j \<in> set (s_waiting s')" for m s' j
      using that s i disp_wfD(2)[OF wf, of m _ j] by (auto split: if_splits)
    show "((srv_of d)(i := Some (Some n))) j \<noteq> None" if "j \<in> set (d_waiting ?d)" for j
      using that disp_wfD(3)[OF wf, of j] by (auto simp: srv_of_Some)
  qed
  moreover have "settled (s\<lparr>s_numWorkers := k\<rparr>)" using disp_invD(2)[OF inv s] by (simp add: settled_def)
  ultimately show ?thesis using disp_invD(2)[OF inv] by (simp add: disp_inv_def)
qed

section \<open>Messages of workers\<close>

text \<open>
  The messages of a worker that abort the process, by the frames behind the header: a command
  frame is missing or not of one byte, the sender is empty, a registration names no service, or a
  reply lacks an envelope or comes from a worker that never registered.
\<close>

definition worker_aborts :: "'m dispatcher \<Rightarrow> frame \<Rightarrow> frame list \<Rightarrow> bool" where
  "worker_aborts d sender fs \<longleftrightarrow>
     (case fs of [] \<Rightarrow> True
      | cmd # rest \<Rightarrow>
          length cmd \<noteq> 1 \<or> sender = []
          \<or> cmd = [cmd_code RPC_REGISTER] \<and> srv_of d sender = None \<and> (rest = [] \<or> hd rest = [])
          \<or> cmd = [cmd_code RPC_REPLY] \<and> srv_of d sender \<noteq> None \<and> (rest = [] \<or> srv_of d sender = Some None))"

lemma register_worker_ok:
  assumes L: "czmq_laws z fr" and inv: "disp_inv d" and i: "srv_of d i = Some None" and m: "fr m = n # rest"
    and n: "n \<noteq> []"
  shows "\<exists>d' out. register_worker z now i False m d = Some (d', (), out) \<and> d_done d' = d_done d
    \<and> keeps_fifo fr no_requests d d' out \<and> srv_of d' i = Some (Some n)"
proof -
  obtain w where w: "d_workers d i = Some w" using i by (auto simp: srv_of_Some)
  obtain m' where p: "popstr z m = (n, m')" using popstr_frames(1)[OF L, of m] m by (cases "popstr z m") simp
  obtain d1 s where d1: "getService n d = Some d1" "disp_inv d1" "d_workers d1 = d_workers d" "d_done d1 = d_done d"
      "d_services d1 n = Some s" "\<And>n. queued d1 n = queued d n"
    using getService_ok[OF inv n] by metis
  let ?s = "s\<lparr>s_numWorkers := s_numWorkers s + 1\<rparr>"
  let ?d = "set_service n ?s (set_worker i (w\<lparr>w_service := Some n\<rparr>) d1)"
  have "srv_of d1 = srv_of d" using d1(3) by (simp add: srv_of_def fun_eq_iff)
  then have "disp_inv ?d" using d1 i by (intro attach_worker_inv) simp_all
  moreover have srv: "srv_of ?d i = Some (Some n)" by simp
  moreover have "d_services ?d n = Some ?s" by simp
  ultimately obtain d' out where d': "worker_waiting z now i ?d = Some (d', (), out)" "d_done d' = d_done ?d"
      "srv_of d' = srv_of ?d" "keeps_fifo fr no_requests ?d d' out"
    using worker_waiting_ok[OF L] by metis
  have q: "queued ?d n' = queued d n'" for n' using d1(5) d1(6)[of n'] by (cases "n' = n") (simp_all add: queued_def)
  show ?thesis
    using d' d1 w p keeps_fifo_from[OF q d'(4)] srv by (simp add: register_worker_def)
qed

text \<open>A reply goes to the client of its envelope, with the name of the worker's service.\<close>

lemma reply_to_client_ok:
  assumes L: "czmq_laws z fr" and inv: "disp_inv d" and i: "srv_of d i = Some (Some n)" and m: "fr m \<noteq> []"
  shows "\<exists>d' r out. reply_to_client z now i True m d = Some (d', (), r # out) \<and> d_done d' = d_done d
    \<and> fr r = hd (fr m) # [] # RPC_CLIENT # c_str n # snd (unwrapped (fr m))
    \<and> keeps_fifo fr no_requests d d' (r # out)"
proof -
  obtain s where s: "d_services d n = Some s" using disp_invD(3)[OF inv i] by auto
  have b: "Option.bind (d_workers d i) w_service = Some n" using i by (auto simp: srv_of_Some)
  obtain m' where u: "unwrap z m = (Some (hd (fr m)), m')" "fr m' = snd (unwrapped (fr m))"
    using zm_unwrap_frames[OF L, of m] unwrapped_fst[OF m] by (cases "unwrap z m") simp
  let ?r = "wrap z (hd (fr m)) [] (pushstr z RPC_CLIENT (pushstr z n m'))"
  obtain d' out where d': "worker_waiting z now i d = Some (d', (), out)" "d_done d' = d_done d"
      "keeps_fifo fr no_requests d d' out"
    using worker_waiting_ok[OF L inv i s, of now] by auto
  have "keeps_fifo fr no_requests d d' (?r # out)"
    using d'(3) not_request(1)[OF L, of "hd (fr m)"] by (simp add: keeps_fifo_def forwarded_other)
  moreover have "reply_to_client z now i True m d = Some (d', (), ?r # out)"
    using u(1) b d'(1) by (simp add: reply_to_client_def)
  moreover have "fr ?r = hd (fr m) # [] # RPC_CLIENT # c_str n # snd (unwrapped (fr m))"
    by (simp add: zmessage_frames[OF L] u(2))
  ultimately show ?thesis using d'(2) by blast
qed

lemma worker_heartbeat_ok:
  assumes inv: "disp_inv d" and i: "srv_of d i \<noteq> None"
  shows "\<exists>d'. worker_heartbeat z now i True d = Some (d', (), []) \<and> d_done d' = d_done d
    \<and> keeps_fifo fr no_requests d d' []"
proof -
  obtain w where w: "d_workers d i = Some w" using i by auto
  let ?d = "set_worker i (worker_setExpired now HEARTBEAT_EXPIRY w) d"
  have srv: "srv_of ?d = srv_of d" using w by (auto simp: srv_of_def)
  have "disp_inv ?d" using inv unfolding disp_inv_def disp_wf_def srv by simp
  then show ?thesis using w by (auto simp: worker_heartbeat_def queued_def intro: keeps_fifo_same)
qed

lemma pop_command:
  assumes "czmq_laws z fr" "fr m = c # rest"
  shows "\<exists>m'. zm_pop z m = (Some c, m') \<and> fr m' = rest"
  using zm_pop_frames[OF assms(1), of m] assms(2) by (cases "zm_pop z m") simp

text \<open>The four commands a worker may send, and what \<open>worker_process\<close> does with them.\<close>

lemma worker_process_eq:
  assumes L: "czmq_laws z fr" and m: "fr m = [c] # rest" and i: "i \<noteq> []"
    and m': "zm_pop z m = (Some [c], m')" and d1: "worker_require i d = Some d1"
  shows "worker_process z now i m d =
    (if c = cmd_code RPC_REGISTER then register_worker z now i (srv_of d i \<noteq> None) m' d1
     else if c = cmd_code RPC_REPLY then reply_to_client z now i (srv_of d i \<noteq> None) m' d1
     else if c = cmd_code RPC_HEARTBEAT then worker_heartbeat z now i (srv_of d i \<noteq> None) d1
     else if c = cmd_code RPC_DISCONNECT then worker_delete z i False d1
     else Some (d1, (), []))"
  using m m' d1 by (simp add: worker_process_def zm_frames[OF L] del: cmd_code.simps)

lemma worker_process_ok:
  assumes L: "czmq_laws z fr" and inv: "disp_inv d" and ok: "\<not> worker_aborts d i (fr m)"
  shows "\<exists>d' out. worker_process z now i m d = Some (d', (), out) \<and> d_done d' = d_done d
    \<and> keeps_fifo fr no_requests d d' out"
proof -
  obtain c rest where m: "fr m = [c] # rest" using ok
    by (cases "fr m") (auto simp: worker_aborts_def length_Suc_conv)
  have i: "i \<noteq> []" using ok m by (simp add: worker_aborts_def)
  obtain m' where m': "zm_pop z m = (Some [c], m')" "fr m' = rest" using pop_command[OF L m] by blast
  obtain d1 where d1: "worker_require i d = Some d1" "disp_inv d1" "d_done d1 = d_done d" "d_services d1 = d_services d"
      "srv_of d1 = (if d_workers d i = None then (srv_of d)(i := Some None) else srv_of d)"
    using worker_require_ok[OF inv i] by blast
  have known: "srv_of d1 i \<noteq> None" and known': "d_workers d1 i \<noteq> None"
    using d1(5) by (auto simp: srv_of_None[symmetric] simp del: srv_of_None)
  have q: "queued d1 n = queued d n" for n using d1(4) by (simp add: queued_def)
  have "\<exists>d' out. worker_process z now i m d = Some (d', (), out) \<and> d_done d' = d_done d1
    \<and> keeps_fifo fr no_requests d1 d' out"
  proof (cases "srv_of d i = None")
    case new: True
    then have s1: "srv_of d1 i = Some None" using d1(5) by simp
    note del = worker_delete_ok[OF L d1(2) known']
    have reg: "\<exists>d' out. register_worker z now i False m' d1 = Some (d', (), out) \<and> d_done d' = d_done d1
        \<and> keeps_fifo fr no_requests d1 d' out" if c: "c = cmd_code RPC_REGISTER"
    proof -
      obtain n fs where "rest = n # fs" "n \<noteq> []" using ok m new c by (cases rest) (auto simp: worker_aborts_def)
      with register_worker_ok[OF L d1(2) s1, of m' n fs now] m'(2) show ?thesis by blast
    qed
    show ?thesis
      using worker_process_eq[OF L m i m'(1) d1(1), of now] new reg del[of True] del[of False] d1(2)
      by (auto simp: reply_to_client_def worker_heartbeat_def simp del: cmd_code.simps intro: keeps_fifo_same)
  next
    case old: False
    then have same: "srv_of d1 = srv_of d" using d1(5) by (auto split: if_splits)
    note del = worker_delete_ok[OF L d1(2) known']
    have rep: "\<exists>d' out. reply_to_client z now i True m' d1 = Some (d', (), out) \<and> d_done d' = d_done d1
        \<and> keeps_fifo fr no_requests d1 d' out" if c: "c = cmd_code RPC_REPLY"
    proof -
      obtain n where "srv_of d1 i = Some (Some n)" "rest \<noteq> []"
        using ok m old c same by (cases "srv_of d i") (auto simp: worker_aborts_def)
      with reply_to_client_ok[OF L d1(2), of i n m' now] m'(2) show ?thesis by blast
    qed
    show ?thesis
      using worker_process_eq[OF L m i m'(1) d1(1), of now] old rep del[of True] del[of False] d1(2)
        worker_heartbeat_ok[OF d1(2) known, of z now fr]
      by (auto simp: register_worker_def simp del: cmd_code.simps intro: keeps_fifo_same)
  qed
  then show ?thesis using d1(3) keeps_fifo_from[OF q] by metis
qed

lemma worker_process_aborts:
  assumes L: "czmq_laws z fr" and ab: "worker_aborts d i (fr m)"
  shows "worker_process z now i m d = None"
proof (cases "fr m")
  case Nil
  then show ?thesis by (simp add: worker_process_def zm_frames[OF L])
next
  case (Cons cmd rest)
  obtain m' where m': "zm_pop z m = (Some cmd, m')" "fr m' = rest" using pop_command[OF L Cons] by blast
  show ?thesis
  proof (cases "length cmd \<noteq> 1 \<or> i = []")
    case True
    then show ?thesis using m' by (auto simp: worker_process_def worker_require_def Let_def)
  next
    case False
    then obtain c where c: "cmd = [c]" by (auto simp: length_Suc_conv)
    have i: "i \<noteq> []" using False by simp
    obtain d1 where d1: "worker_require i d = Some d1"
      using i by (cases "d_workers d i") (auto simp: worker_require_def)
    note eq = worker_process_eq[OF L _ i _ d1, of m c rest m' now]
    consider "c = cmd_code RPC_REGISTER" "srv_of d i = None" "rest = [] \<or> hd rest = []"
      | "c = cmd_code RPC_REPLY" "srv_of d i \<noteq> None" "rest = [] \<or> srv_of d i = Some None"
      using ab Cons c False by (auto simp: worker_aborts_def)
    then show ?thesis
    proof cases
      case 1
      have "fst (popstr z m') = []" using popstr_frames(1)[OF L, of m'] m'(2) 1(3) by auto
      then show ?thesis using eq 1 Cons c m'
        by (auto simp: register_worker_def getService_def findService_def split: prod.splits)
    next
      case 2
      have "d1 = d" using d1 2(2) i by (auto simp: worker_require_def)
      moreover have "fst (unwrap z m') = None" if "rest = []" using zm_unwrap_frames(1)[OF L, of m'] m'(2) that by simp
      ultimately show ?thesis using eq 2 Cons c m'
        by (auto simp: reply_to_client_def srv_of_Some split: prod.splits option.splits)
    qed
  qed
qed

section \<open>Requests of clients\<close>

text \<open>
  The requests of a client that abort the process, by the frames behind the header: the service
  or the command frame is missing, the name of the service is empty, or the service is unknown and the
  command frame is empty.
\<close>

definition client_aborts :: "'m dispatcher \<Rightarrow> frame list \<Rightarrow> bool" where
  "client_aborts d fs \<longleftrightarrow>
     (case fs of n # cmd # rest \<Rightarrow> n = [] \<or> d_services d n = None \<and> cmd = [] | _ \<Rightarrow> True)"

lemma pop_service:
  assumes L: "czmq_laws z fr" and m: "fr m = n # fs"
  shows "\<exists>m'. popstr z m = (n, m') \<and> fr m' = fs"
  using popstr_frames[OF L, of m] m by (cases "popstr z m") simp

text \<open>A request for a service that is not known is answered with \<^const>\<open>RPC_INVALID_SERVICE_ID\<close>.\<close>

lemma unknown_service_answered:
  assumes L: "czmq_laws z fr" and C: "czmq_cursor z fr" and m: "fr m = n # cmd # rest" and n: "n \<noteq> []"
    and d: "d_services d n = None"
  shows "client_process z now i m d = (if cmd = [] then None else
    Some (d, (), [wrap z i [] (pushstr z RPC_CLIENT (pushstr z n
      (addstr z [] (addint z RPC_INVALID_SERVICE_ID (zm_push z [hd cmd] (zmsg_new z))))))]))"
proof -
  obtain m' where p: "popstr z m = (n, m')" "fr m' = cmd # rest" using pop_service[OF L m] by blast
  obtain m'' where u: "unwrap z (wrap z i [] m') = (Some i, m'')" "fr m'' = cmd # rest"
    using zm_unwrap_frames[OF L, of "wrap z i [] m'"] p(2)
    by (cases "unwrap z (wrap z i [] m')") (simp add: zm_frames[OF L])
  have "fst (zm_next z m'') = Some cmd" using next_after_unwrap[OF C u(1)] u(2) by simp
  then have "sendErrorResponse z (wrap z i [] m') n RPC_INVALID_SERVICE_ID [] = (if cmd = [] then None else
      Some (wrap z i [] (pushstr z RPC_CLIENT (pushstr z n
        (addstr z [] (addint z RPC_INVALID_SERVICE_ID (zm_push z [hd cmd] (zmsg_new z))))))))"
    using u(1) by (simp add: sendErrorResponse_def hd_conv_nth)
  then show ?thesis using p(1) m d n by (simp add: client_process_def zm_frames[OF L] findService_def)
qed

definition accepts :: "'m dispatcher \<Rightarrow> frame \<Rightarrow> frame list \<Rightarrow> frame \<Rightarrow> frame list list" where
  "accepts d sender fs n =
     (case fs of n' # body \<Rightarrow> if n = n' \<and> d_services d n \<noteq> None then [sender # [] # body] else [] | [] \<Rightarrow> [])"

lemma client_process_ok:
  assumes L: "czmq_laws z fr" and C: "czmq_cursor z fr" and inv: "disp_inv d" and ok: "\<not> client_aborts d (fr m)"
  shows "\<exists>d' out. client_process z now i m d = Some (d', (), out) \<and> d_done d' = d_done d
    \<and> keeps_fifo fr (accepts d i (fr m)) d d' out"
proof -
  obtain n cmd rest where m: "fr m = n # cmd # rest" "n \<noteq> []" "d_services d n = None \<Longrightarrow> cmd \<noteq> []"
    using ok by (auto simp: client_aborts_def split: list.splits)
  show ?thesis
  proof (cases "d_services d n")
    case None
    have "accepts d i (fr m) = no_requests" using m(1) None by (auto simp: accepts_def no_requests_def)
    moreover have "\<not> is_request (fr (wrap z i [] (pushstr z RPC_CLIENT x)))" for x by (rule not_request(1)[OF L])
    ultimately show ?thesis using unknown_service_answered[OF L C m(1,2) None, of now i] m(3)[OF None] inv
      by (auto simp: forwarded_other intro!: keeps_fifo_same)
  next
    case (Some s)
    obtain m' where p: "popstr z m = (n, m')" "fr m' = cmd # rest" using pop_service[OF L m(1)] by blast
    have "accepts d i (fr m) = no_requests(n := [fr (wrap z i [] m')])"
      using m(1) Some p(2) by (auto simp: accepts_def no_requests_def zm_frames[OF L])
    moreover have "\<forall>n' s'. n' \<noteq> n \<longrightarrow> d_services d n' = Some s' \<longrightarrow> settled s'" using disp_invD(2)[OF inv] by simp
    note dispatch_keeps_fifo[OF L disp_invD(1)[OF inv] this Some, of now "Some (wrap z i [] m')"]
    moreover have "client_process z now i m d = service_dispatch z now n (Some (wrap z i [] m')) d"
      using p(1) m(1,2) Some by (simp add: client_process_def zm_frames[OF L] findService_def)
    ultimately show ?thesis by auto
  qed
qed

lemma client_process_aborts:
  assumes L: "czmq_laws z fr" and C: "czmq_cursor z fr" and ab: "client_aborts d (fr m)"
  shows "client_process z now i m d = None"
proof -
  consider "length (fr m) < 2" | cmd rest where "fr m = [] # cmd # rest"
    | n rest where "fr m = n # [] # rest" "n \<noteq> []" "d_services d n = None"
    using ab by (auto simp: client_aborts_def split: list.splits)
  then show ?thesis
  proof cases
    case 1
    then show ?thesis by (simp add: client_process_def zm_frames[OF L])
  next
    case 2
    then show ?thesis using pop_service[OF L, of m "[]"] by (auto simp: client_process_def findService_def)
  next
    case 3
    then show ?thesis using unknown_service_answered[OF L C] by simp
  qed
qed

section \<open>Turns of the main loop\<close>

definition header_of :: "frame list \<Rightarrow> frame" where
  "header_of fs = (if length fs < 3 then [] else fs ! 2)"

text \<open>A message, by its frames, that aborts the process, and the request it adds to a queue.\<close>

definition aborts :: "'m dispatcher \<Rightarrow> frame list \<Rightarrow> bool" where
  "aborts d fs \<longleftrightarrow> header_of fs = RPC_CLIENT \<and> client_aborts d (drop 3 fs)
     \<or> header_of fs = RPC_WORKER \<and> worker_aborts d (hd fs) (drop 3 fs)"

definition accepted :: "'m dispatcher \<Rightarrow> frame list \<Rightarrow> frame \<Rightarrow> frame list list" where
  "accepted d fs = (if header_of fs = RPC_CLIENT then accepts d (hd fs) (drop 3 fs) else no_requests)"

lemma dispatch_message_eq:
  assumes L: "czmq_laws z fr"
  shows "\<exists>m'. fr m' = drop 3 (fr m) \<and> dispatch_message z now m d =
    (if header_of (fr m) = RPC_CLIENT then client_process z now (hd (fr m)) m' d
     else if header_of (fr m) = RPC_WORKER then worker_process z now (hd (fr m)) m' d
     else Some (d, (), []))"
proof -
  obtain s m1 where p1: "popstr z m = (s, m1)" by fastforce
  obtain e m2 where p2: "popstr z m1 = (e, m2)" by fastforce
  obtain h m3 where p3: "popstr z m2 = (h, m3)" by fastforce
  have f: "fr m1 = tl (fr m)" "fr m2 = tl (tl (fr m))" "fr m3 = tl (tl (tl (fr m)))"
    using popstr_frames(2)[OF L, of m] popstr_frames(2)[OF L, of m1] popstr_frames(2)[OF L, of m2] p1 p2 p3 by simp_all
  then have m3: "fr m3 = drop 3 (fr m)" by (simp add: eval_nat_numeral drop_Suc)
  have h: "h = header_of (fr m)"
    using popstr_frames(1)[OF L, of m2] p3 f(2)
    by (cases "fr m"; cases "tl (fr m)"; cases "tl (tl (fr m))")
      (auto simp: header_of_def eval_nat_numeral)
  have "h = RPC_CLIENT \<or> h = RPC_WORKER \<Longrightarrow> fr m \<noteq> []"
    using h by (auto simp: header_of_def rpc_consts str_def)
  then have "h = RPC_CLIENT \<or> h = RPC_WORKER \<Longrightarrow> s = hd (fr m)"
    using popstr_frames(1)[OF L, of m] p1 by auto
  then show ?thesis using m3 h p1 p2 p3 by (intro exI[of _ m3]) (auto simp: dispatch_message_def)
qed

lemma dispatch_message_ok:
  assumes "czmq_laws z fr" "czmq_cursor z fr" "disp_inv d" "\<not> aborts d (fr m)"
  shows "\<exists>d' out. dispatch_message z now m d = Some (d', (), out) \<and> d_done d' = d_done d
    \<and> keeps_fifo fr (accepted d (fr m)) d d' out"
proof -
  obtain m' where m': "fr m' = drop 3 (fr m)" "dispatch_message z now m d =
    (if header_of (fr m) = RPC_CLIENT then client_process z now (hd (fr m)) m' d
     else if header_of (fr m) = RPC_WORKER then worker_process z now (hd (fr m)) m' d
     else Some (d, (), []))" using dispatch_message_eq[OF assms(1), of m now d] by blast
  have "keeps_fifo fr no_requests d d []" using assms(3) by (simp add: keeps_fifo_same)
  then show ?thesis
    using m' assms(4) client_process_ok[OF assms(1-3), of m' now "hd (fr m)"] worker_process_ok[OF assms(1,3), of "hd (fr m)" m' now]
    by (auto simp: aborts_def accepted_def)
qed

lemma dispatch_message_aborts:
  assumes "czmq_laws z fr" "czmq_cursor z fr" "aborts d (fr m)"
  shows "dispatch_message z now m d = None"
  using dispatch_message_eq[OF assms(1), of m now d] assms(3) client_process_aborts[OF assms(1,2)]
    worker_process_aborts[OF assms(1)]
  by (auto simp: aborts_def)

lemma heartbeat_loop_ok:
  assumes L: "czmq_laws z fr" and "\<forall>i \<in> set is. ws i \<noteq> None"
  shows "\<exists>out. heartbeat_loop z ws is = Some out \<and> (\<forall>d n. forwarded fr d n out = [])"
  using assms(2)
  by (induction "is") (use not_request(2)[OF L, of RPC_HEARTBEAT] in \<open>auto simp: forwarded_other\<close>)

lemma send_heartbeats_ok:
  assumes L: "czmq_laws z fr" and inv: "disp_inv d"
  shows "\<exists>d' out. send_heartbeats z now d = Some (d', (), out) \<and> d_done d' = d_done d \<and> srv_of d' = srv_of d
    \<and> keeps_fifo fr no_requests d d' out"
proof (cases "now > d_heartbeat_at d")
  case True
  obtain ws where ws: "purge_workers now d = Some (d\<lparr>d_workers := ws\<rparr>)" "srv_of (d\<lparr>d_workers := ws\<rparr>) = srv_of d"
    using purge_workers_ok[of d now] disp_invD(1)[OF inv] by (auto simp: disp_wf_def)
  let ?d = "d\<lparr>d_workers := ws, d_heartbeat_at := now + HEARTBEAT_INTERVAL\<rparr>"
  have srv: "srv_of ?d = srv_of d" using ws(2) by (simp add: srv_of_def)
  have "\<forall>i \<in> set (d_waiting d). ws i \<noteq> None"
  proof
    fix i assume "i \<in> set (d_waiting d)"
    then have "srv_of (d\<lparr>d_workers := ws\<rparr>) i \<noteq> None"
      using disp_wfD(3)[OF disp_invD(1)[OF inv]] ws(2) by (simp del: srv_of_None)
    then show "ws i \<noteq> None" by simp
  qed
  then obtain out where "heartbeat_loop z ws (d_waiting d) = Some out" "\<forall>d n. forwarded fr d n out = []"
    using heartbeat_loop_ok[OF L] by blast
  moreover have "disp_inv ?d" using inv unfolding disp_inv_def disp_wf_def srv by simp
  ultimately show ?thesis using True ws(1) srv
    by (auto simp: send_heartbeats_def queued_def intro!: keeps_fifo_same)
qed (use inv in \<open>auto simp: send_heartbeats_def intro: keeps_fifo_same\<close>)

text \<open>The step of the dispatcher for one input, by the frames of its message.\<close>

definition step_aborts :: "('m \<Rightarrow> frame list) \<Rightarrow> 'm dispatcher \<Rightarrow> 'm disp_input \<Rightarrow> bool" where
  "step_aborts fr d i \<longleftrightarrow> \<not> d_done d \<and> (case i of Turn (Poll_message m) t t' \<Rightarrow> aborts d (fr m) | _ \<Rightarrow> False)"

definition step_accepted :: "('m \<Rightarrow> frame list) \<Rightarrow> 'm dispatcher \<Rightarrow> 'm disp_input \<Rightarrow> frame \<Rightarrow> frame list list" where
  "step_accepted fr d i =
     (case i of Turn (Poll_message m) t t' \<Rightarrow> if d_done d then no_requests else accepted d (fr m) | _ \<Rightarrow> no_requests)"

lemma disp_inv_done [simp]: "disp_inv (d\<lparr>d_done := b\<rparr>) = disp_inv d"
  by (simp add: disp_inv_def disp_wf_def)

lemma queued_done [simp]: "queued (d\<lparr>d_done := b\<rparr>) n = queued d n"
  by (simp add: queued_def)

lemma keeps_fifo_then:
  assumes "keeps_fifo fr acc d d1 out1" "keeps_fifo fr no_requests d1 d2 out2" "srv_of d2 = srv_of d1"
  shows "keeps_fifo fr acc d d2 (out1 @ out2)"
  using assms forwarded_cong[OF assms(3), of fr _ out1] by (simp add: keeps_fifo_def no_requests_def)

lemma disp_step_ok:
  assumes L: "czmq_laws z fr" and C: "czmq_cursor z fr" and inv: "disp_inv d" and ok: "\<not> step_aborts fr d i"
  shows "\<exists>d' out. disp_step z i d = Some (d', (), out) \<and> keeps_fifo fr (step_accepted fr d i) d d' out"
proof (cases i)
  case (Turn p t t')
  show ?thesis
  proof (cases "d_done d")
    case True
    then show ?thesis using Turn inv
      by (auto simp: disp_step_def step_accepted_def split: poll.splits intro: keeps_fifo_same)
  next
    case active: False
    show ?thesis
    proof (cases p)
      case (Poll_message m)
      have "\<not> aborts d (fr m)" using ok Turn Poll_message active by (simp add: step_aborts_def)
      then obtain d1 o1 where 1: "dispatch_message z t m d = Some (d1, (), o1)"
          "keeps_fifo fr (accepted d (fr m)) d d1 o1" using dispatch_message_ok[OF L C inv] by blast
      then have "disp_inv d1" by (simp add: keeps_fifo_def)
      then obtain d2 o2 where 2: "send_heartbeats z t' d1 = Some (d2, (), o2)" "srv_of d2 = srv_of d1"
          "keeps_fifo fr no_requests d1 d2 o2" using send_heartbeats_ok[OF L] by blast
      show ?thesis using keeps_fifo_then[OF 1(2) 2(3,2)] 1(1) 2(1) Turn Poll_message active
        by (simp add: disp_step_def step_accepted_def)
    next
      case Poll_nothing
      then show ?thesis using send_heartbeats_ok[OF L inv, of t'] Turn active
        by (auto simp: disp_step_def step_accepted_def)
    qed (use Turn active inv in \<open>auto simp: disp_step_def step_accepted_def intro: keeps_fifo_same\<close>)
  qed
qed (use inv in \<open>auto simp: disp_step_def step_accepted_def intro: keeps_fifo_same\<close>)

lemma disp_step_aborts:
  assumes "czmq_laws z fr" "czmq_cursor z fr" "step_aborts fr d i"
  shows "disp_step z i d = None"
  using assms(3) dispatch_message_aborts[OF assms(1,2)]
  by (auto simp: step_aborts_def disp_step_def split: disp_input.splits poll.splits)

text \<open>The way of one message: what the dispatcher sends when it reads it.\<close>

lemma disp_step_message:
  assumes L: "czmq_laws z fr" and "\<not> d_done d" and "dispatch_message z t m d = Some (d1, (), out)" "disp_inv d1"
  shows "\<exists>d' hb. disp_step z (Turn (Poll_message m) t t') d = Some (d', (), out @ hb)"
  using assms send_heartbeats_ok[OF L assms(4), of t'] by (auto simp: disp_step_def)

lemma request_forwarded:
  assumes L: "czmq_laws z fr" and inv: "disp_inv d" "\<not> d_done d"
    and s: "d_services d n = Some s" "s_waiting s = i # is"
    and m: "fr m = client # [] # RPC_CLIENT # n # cmd # rest" "n \<noteq> []"
  shows "\<exists>d' q out. disp_step z (Turn (Poll_message m) t t') d = Some (d', (), q # out)
    \<and> fr q = i # [] # RPC_WORKER # [cmd_code RPC_REQUEST] # client # [] # cmd # rest"
proof -
  have "header_of (fr m) = RPC_CLIENT" "hd (fr m) = client" "drop 3 (fr m) = n # cmd # rest"
    using m(1) by (simp_all add: header_of_def)
  then obtain m' where m': "fr m' = n # cmd # rest" "dispatch_message z t m d = client_process z t client m' d"
    using dispatch_message_eq[OF L, of m t d] by auto
  obtain m2 where m2: "popstr z m' = (n, m2)" "fr m2 = cmd # rest" using pop_service[OF L m'(1)] by blast
  have none: "s_requests s = []" using disp_invD(2)[OF inv(1) s(1)] s(2) by (simp add: settled_def)
  have "\<forall>n' s'. n' \<noteq> n \<longrightarrow> d_services d n' = Some s' \<longrightarrow> settled s'" using disp_invD(2)[OF inv(1)] by simp
  from dispatch_keeps_fifo[OF L disp_invD(1)[OF inv(1)] this s(1), of t "Some (wrap z client [] m2)"] none s(2)
  obtain d1 where d1: "service_dispatch z t n (Some (wrap z client [] m2)) d =
      Some (d1, (), [worker_send z i RPC_REQUEST (Some (wrap z client [] m2))])" "disp_inv d1"
    by (auto simp: requests_out_def keeps_fifo_def)
  have "dispatch_message z t m d = Some (d1, (), [worker_send z i RPC_REQUEST (Some (wrap z client [] m2))])"
    using m'(2) m2(1) m(2) s(1) m'(1) d1(1) by (simp add: client_process_def zm_frames[OF L] findService_def)
  from disp_step_message[OF L inv(2) this d1(2), of t']
  show ?thesis by (auto simp: worker_send_frames[OF L] zm_frames[OF L] m2(2))
qed

lemma reply_returned:
  assumes L: "czmq_laws z fr" and inv: "disp_inv d" "\<not> d_done d"
    and i: "srv_of d i = Some (Some n)" "i \<noteq> []"
    and m: "fr m = i # [] # RPC_WORKER # [cmd_code RPC_REPLY] # client # [] # body"
  shows "\<exists>d' a out. disp_step z (Turn (Poll_message m) t t') d = Some (d', (), a # out)
    \<and> fr a = client # [] # RPC_CLIENT # c_str n # body"
proof -
  have "header_of (fr m) = RPC_WORKER" "hd (fr m) = i" "drop 3 (fr m) = [cmd_code RPC_REPLY] # client # [] # body"
    using m by (simp_all add: header_of_def)
  then obtain m' where m': "fr m' = [cmd_code RPC_REPLY] # client # [] # body"
      "dispatch_message z t m d = worker_process z t i m' d"
    using dispatch_message_eq[OF L, of m t d] by auto
  obtain m2 where m2: "zm_pop z m' = (Some [cmd_code RPC_REPLY], m2)" "fr m2 = client # [] # body"
    using pop_command[OF L m'(1)] by blast
  have req: "worker_require i d = Some d" using i by (auto simp: worker_require_def srv_of_Some)
  have "fr m2 \<noteq> []" using m2(2) by simp
  from reply_to_client_ok[OF L inv(1) i(1) this, of t] m2(2)
  obtain d1 a out where d1: "reply_to_client z t i True m2 d = Some (d1, (), a # out)"
      "fr a = client # [] # RPC_CLIENT # c_str n # body" "disp_inv d1"
    by (auto simp: keeps_fifo_def)
  have "srv_of d i \<noteq> None" using i(1) by (simp del: srv_of_None)
  then have "dispatch_message z t m d = Some (d1, (), a # out)"
    using worker_process_eq[OF L m'(1) i(2) m2(1) req, of t] m'(2) d1(1) by simp
  from disp_step_message[OF L inv(2) this d1(3), of t'] d1(2) show ?thesis by auto
qed

section \<open>Runs\<close>

text \<open>The requests accepted for a service and those forwarded to its workers in the course of a run.\<close>

fun accepted_run :: "'m czmq \<Rightarrow> ('m \<Rightarrow> frame list) \<Rightarrow> frame \<Rightarrow> 'm disp_input list \<Rightarrow> 'm dispatcher \<Rightarrow> frame list list" where
  "accepted_run z fr n [] d = []"
| "accepted_run z fr n (i # is) d =
     (case disp_step z i d of None \<Rightarrow> []
      | Some (d', _, out) \<Rightarrow> step_accepted fr d i n @ accepted_run z fr n is d')"

fun forwarded_run :: "'m czmq \<Rightarrow> ('m \<Rightarrow> frame list) \<Rightarrow> frame \<Rightarrow> 'm disp_input list \<Rightarrow> 'm dispatcher \<Rightarrow> frame list list" where
  "forwarded_run z fr n [] d = []"
| "forwarded_run z fr n (i # is) d =
     (case disp_step z i d of None \<Rightarrow> []
      | Some (d', _, out) \<Rightarrow> forwarded fr d' n out @ forwarded_run z fr n is d')"

lemma disp_run_fifo:
  assumes L: "czmq_laws z fr" and C: "czmq_cursor z fr"
  shows "disp_inv d \<Longrightarrow> disp_run z is d = Some (d', u, out) \<Longrightarrow>
    disp_inv d' \<and> map fr (queued d n) @ accepted_run z fr n is d = forwarded_run z fr n is d @ map fr (queued d' n)"
proof (induction "is" arbitrary: d out)
  case (Cons i "is")
  obtain d1 o1 o2 where s: "disp_step z i d = Some (d1, (), o1)" "disp_run z is d1 = Some (d', u, o2)"
    using Cons.prems(2) by (auto simp: and_then_eq_Some)
  have "\<not> step_aborts fr d i" using disp_step_aborts[OF L C] s(1) by fastforce
  then have "keeps_fifo fr (step_accepted fr d i) d d1 o1"
    using disp_step_ok[OF L C Cons.prems(1), of i] s(1) by auto
  then have "disp_inv d1" "map fr (queued d n) @ step_accepted fr d i n = forwarded fr d1 n o1 @ map fr (queued d1 n)"
    by (auto simp: keeps_fifo_def)
  with Cons.IH[OF this(1) s(2)] show ?case using s(1) by simp (metis append.assoc)
qed simp

text \<open>
  Claim C14.  The dispatcher is a first-in first-out queue for every service.  In every run from a
  sound state that does not abort, the requests queued for a service at the start followed by those
  accepted for it during the run are, unchanged and in the same order, those forwarded
  to workers registered for that service followed by those still queued; and requests are still queued
  only if no worker of the service waits for one.
\<close>

theorem requests_forwarded_in_order:
  assumes "czmq_laws z fr" "czmq_cursor z fr" "disp_inv d" "disp_run z is d = Some (d', u, out)"
  shows "map fr (queued d n) @ accepted_run z fr n is d = forwarded_run z fr n is d @ map fr (queued d' n)
    \<and> (\<forall>s. d_services d' n = Some s \<longrightarrow> s_requests s = [] \<or> s_waiting s = [])"
  using disp_run_fifo[OF assms(1-4), of n] by (auto simp: disp_inv_def settled_def)

definition example_worker :: frame where "example_worker = [1]"
definition example_client :: frame where "example_client = [0, 2]"
definition example_service :: frame where "example_service = str ''apc''"

text \<open>A worker registers and two requests follow; the first is forwarded at once, the second waits.\<close>

definition example_inputs :: "frame list disp_input list" where
  "example_inputs =
     [Turn (Poll_message [example_worker, [], RPC_WORKER, [cmd_code RPC_REGISTER], example_service]) 10 10,
      Turn (Poll_message [example_client, [], RPC_CLIENT, example_service, [1], []]) 20 20,
      Turn (Poll_message [example_client, [], RPC_CLIENT, example_service, [2], []]) 30 30]"

lemma example_run: "\<not> Option.is_none (disp_run list_czmq example_inputs (new_dispatcher 0))"
  by code_simp

lemma example_forwarded:
  "forwarded_run list_czmq id example_service example_inputs (new_dispatcher 0) = [[example_client, [], [1], []]]"
  by code_simp

theorem requests_forwarded_in_order_witness:
  "\<exists>d' u out. disp_run list_czmq example_inputs (new_dispatcher 0) = Some (d', u, out)
     \<and> accepted_run list_czmq id example_service example_inputs (new_dispatcher 0)
         = [example_client, [], [1], []] # map id (queued d' example_service)"
proof -
  obtain d' u out where run: "disp_run list_czmq example_inputs (new_dispatcher 0) = Some (d', u, out)"
    using example_run by (cases "disp_run list_czmq example_inputs (new_dispatcher 0)") (auto simp: Option.is_none_def)
  have "queued (new_dispatcher 0) example_service = ([] :: frame list list)" by (simp add: queued_def new_dispatcher_def)
  with requests_forwarded_in_order[OF list_czmq_laws list_czmq_cursor new_dispatcher_inv run, of example_service]
  show ?thesis using run by (simp add: example_forwarded)
qed

text \<open>
  Claim C24.  A turn of the dispatcher aborts the process exactly if it reads a message of the
  described malformed kinds (\<^const>\<open>aborts\<close>); any other turn keeps every pointer of its tables
  valid and every service settled.
\<close>

theorem dispatcher_aborts_iff:
  assumes "czmq_laws z fr" "czmq_cursor z fr" "disp_inv d"
  shows "(disp_step z i d = None \<longleftrightarrow> step_aborts fr d i)
    \<and> (\<forall>d' u out. disp_step z i d = Some (d', u, out) \<longrightarrow> disp_inv d')"
  using disp_step_ok[OF assms, of i] disp_step_aborts[OF assms(1,2), of d i]
  by (cases "step_aborts fr d i") (auto simp: keeps_fifo_def)

theorem dispatcher_aborts_iff_witness:
  "disp_step list_czmq (Turn (Poll_message [example_client, [], RPC_CLIENT, [], [1]]) 0 0) (new_dispatcher 0) = None"
  using dispatcher_aborts_iff[OF list_czmq_laws list_czmq_cursor new_dispatcher_inv,
      of "Turn (Poll_message [example_client, [], RPC_CLIENT, [], [1]]) 0 0" 0]
  by (simp add: step_aborts_def aborts_def header_of_def client_aborts_def new_dispatcher_def)

text \<open>
  A worker whose first message is an unknown command is entered into the table without a service; the
  reply it sends next dereferences the missing service and ends the process.
\<close>

lemma unregistered_reply_crashes:
  assumes L: "czmq_laws z fr" "czmq_cursor z fr" and d: "disp_inv d" "\<not> d_done d" "d_workers d i = None" "i \<noteq> []"
    and m1: "fr m1 = [i, [], RPC_WORKER, [c]]"
    and c: "c \<notin> cmd_code ` {RPC_REGISTER, RPC_REPLY, RPC_HEARTBEAT, RPC_DISCONNECT}"
    and m2: "fr m2 = i # [] # RPC_WORKER # [cmd_code RPC_REPLY] # rest"
  shows "disp_run z [Turn (Poll_message m1) t1 t1', Turn (Poll_message m2) t2 t2'] d = None"
proof -
  obtain m' where m': "fr m' = [[c]]" "dispatch_message z t1 m1 d = worker_process z t1 i m' d"
    using dispatch_message_eq[OF L(1), of m1 t1 d] m1 by (auto simp: header_of_def)
  obtain m'' where pop: "zm_pop z m' = (Some [c], m'')" using pop_command[OF L(1) m'(1)] by blast
  obtain d1 where d1: "worker_require i d = Some d1" "disp_inv d1" "d_done d1 = d_done d" "srv_of d1 i = Some None"
    using worker_require_ok[OF d(1,4)] d(3) by auto
  have "dispatch_message z t1 m1 d = Some (d1, (), [])"
    using worker_process_eq[OF L(1) m'(1) d(4) pop d1(1), of t1] m'(2) c by (simp del: cmd_code.simps)
  moreover obtain d2 o2 where d2: "send_heartbeats z t1' d1 = Some (d2, (), o2)" "d_done d2 = d_done d1"
      "srv_of d2 = srv_of d1" using send_heartbeats_ok[OF L(1) d1(2)] by blast
  ultimately have "disp_step z (Turn (Poll_message m1) t1 t1') d = Some (d2, (), o2)" using d(2) by (simp add: disp_step_def)
  moreover have "step_aborts fr d2 (Turn (Poll_message m2) t2 t2')"
    using d2(2,3) d1(3,4) d(2) m2 by (simp add: step_aborts_def aborts_def header_of_def worker_aborts_def)
  then have "disp_step z (Turn (Poll_message m2) t2 t2') d2 = None" by (rule disp_step_aborts[OF L])
  ultimately show ?thesis by simp
qed

lemma unregistered_reply_crashes_example:
  "disp_run list_czmq [Turn (Poll_message [example_worker, [], RPC_WORKER, [9]]) 0 0,
     Turn (Poll_message [example_worker, [], RPC_WORKER, [cmd_code RPC_REPLY], example_client]) 0 0] (new_dispatcher 0) = None"
proof (rule unregistered_reply_crashes[OF list_czmq_laws list_czmq_cursor new_dispatcher_inv, where i = example_worker and c = 9])
  show "9 \<notin> cmd_code ` {RPC_REGISTER, RPC_REPLY, RPC_HEARTBEAT, RPC_DISCONNECT}" by code_simp
qed (simp_all add: new_dispatcher_def example_worker_def)

end
