(* ===== verification/Rpc_Worker.thy ===== *)
theory Rpc_Worker
  imports Rpc_Routing
begin

text \<open>
  The base class of the RPC workers (\<^verbatim>\<open>src/rpc/workers/RpcWorker.cpp\<close>): registration at the
  dispatcher, heartbeats, the check of privileges and the execution of requests.  The subclass
  provides \<open>processCmdMsg\<close>, a parameter here: it maps a command, its parameters and the state of the
  subclass to the new state, a response (or null, or the parse error exception) and calls on other
  components.  The text of an \<^verbatim>\<open>AuthReq\<close> is read by generated protobuf code, the parameter
  \<open>parse_auth\<close>.
\<close>

section \<open>State\<close>

datatype UserPrivilege = NONE | VIEWER | USER

record AuthReq =
  au_initialized :: bool
  au_privilege :: UserPrivilege

definition empty_AuthReq :: AuthReq where
  "empty_AuthReq = \<lparr>au_initialized = False, au_privilege = NONE\<rparr>"

definition DEFAULT_HEARTBEAT :: int where "DEFAULT_HEARTBEAT = 2500"
definition DEFAULT_RECONNECT_DELAY :: int where "DEFAULT_RECONNECT_DELAY = 1000"
definition WORKER_LIVENESS :: u64 where "WORKER_LIVENESS = 10"

record rpc_worker =
  rw_server :: frame
  rw_service :: frame
  rw_identity :: frame
  rw_cmdPrivileges :: "(byte \<rightharpoonup> UserPrivilege) option"
  rw_defaultCmdPrivilege :: UserPrivilege
  rw_heartbeat_at :: int
  rw_liveness :: u64
  rw_heartbeat :: int
  rw_reconnect :: int
  rw_allowUninitializedAuth :: bool
  rw_reply_to :: frame
  rw_done :: bool

definition new_rpc_worker ::
  "frame \<Rightarrow> frame \<Rightarrow> (byte \<rightharpoonup> UserPrivilege) option \<Rightarrow> UserPrivilege \<Rightarrow> frame \<Rightarrow> bool \<Rightarrow> rpc_worker" where
  "new_rpc_worker serverAddr serviceName pCmdPriv defaultPriv identity allowUninitializedAuth =
     \<lparr>rw_server = serverAddr, rw_service = serviceName, rw_identity = identity, rw_cmdPrivileges = pCmdPriv,
      rw_defaultCmdPrivilege = defaultPriv, rw_heartbeat_at = 0, rw_liveness = 0, rw_heartbeat = DEFAULT_HEARTBEAT,
      rw_reconnect = DEFAULT_RECONNECT_DELAY, rw_allowUninitializedAuth = allowUninitializedAuth,
      rw_reply_to = [], rw_done = False\<rparr>"

definition set_heartbeat :: "int \<Rightarrow> rpc_worker \<Rightarrow> rpc_worker" where
  "set_heartbeat h w = w\<lparr>rw_heartbeat := h\<rparr>"

definition set_reconnect :: "int \<Rightarrow> rpc_worker \<Rightarrow> rpc_worker" where
  "set_reconnect r w = w\<lparr>rw_reconnect := r\<rparr>"

definition rw_cancel :: "rpc_worker \<Rightarrow> rpc_worker" where
  "rw_cancel w = w\<lparr>rw_done := True\<rparr>"

definition setUninitializedAuthFlag :: "bool \<Rightarrow> rpc_worker \<Rightarrow> rpc_worker" where
  "setUninitializedAuthFlag isAllow w = w\<lparr>rw_allowUninitializedAuth := isAllow\<rparr>"

text \<open>
  What a worker does to the outside: a new DEALER socket with an identity, connected to an end point; a
  message on the current socket; a pause; a call the subclass makes on another component.
\<close>

datatype ('m, 'o) wk_out = Connect frame frame | Send 'm | Sleep int | Subclass 'o

section \<open>Messages to the server\<close>

definition sendToServer :: "'m czmq \<Rightarrow> RpcCommands \<Rightarrow> frame \<Rightarrow> 'm option \<Rightarrow> 'm" where
  "sendToServer z command opt msg =
     (let m = (case msg of None \<Rightarrow> zmsg_new z | Some m \<Rightarrow> m);
          m1 = (if opt \<noteq> [] then pushstr z opt m else m)
      in pushstr z [] (pushstr z RPC_WORKER (zm_push z [cmd_code command] m1)))"

text \<open>
  The end point a worker connects to: for TCP the port of the server on the local host.  An address of
  TCP without a colon makes \<^verbatim>\<open>substr\<close> throw.
\<close>

definition from_last_colon :: "frame \<Rightarrow> frame option" where
  "from_last_colon ep =
     (if of_char CHR '':'' \<in> set ep
      then Some (of_char CHR '':'' # rev (takeWhile (\<lambda>b. b \<noteq> of_char CHR '':'') (rev ep))) else None)"

definition worker_endpoint :: "frame \<Rightarrow> frame option" where
  "worker_endpoint server =
     (let ep = c_str server
      in if take 3 ep = str ''tcp'' then map_option (\<lambda>port. str ''tcp://127.0.0.1'' @ port) (from_last_colon ep)
         else Some ep)"

text \<open>What \<^verbatim>\<open>connect\<close> of the socket does: it returns, or throws because the context ended or for another reason.\<close>

datatype conn_result = Connected | Conn_terminated | Conn_error

type_synonym ('m, 'o, 'r) wk_res = "(rpc_worker, 'r, ('m, 'o) wk_out) outcome"

definition connectToServer :: "'m czmq \<Rightarrow> int \<Rightarrow> conn_result \<Rightarrow> frame \<Rightarrow> rpc_worker \<Rightarrow> ('m, 'o, conn_result) wk_res" where
  "connectToServer z now conn serverAddr w =
     (let w1 = w\<lparr>rw_server := serverAddr\<rparr>
      in case worker_endpoint serverAddr of None \<Rightarrow> None
         | Some ep \<Rightarrow>
             if conn \<noteq> Connected then Some (w1, conn, [Connect (rw_identity w1) ep])
             else Some (w1\<lparr>rw_done := False, rw_liveness := WORKER_LIVENESS, rw_heartbeat_at := now + rw_heartbeat w1\<rparr>,
                        Connected, [Connect (rw_identity w1) ep, Send (sendToServer z RPC_REGISTER (rw_service w1) None)]))"

definition sendReply :: "'m czmq \<Rightarrow> 'm option \<Rightarrow> rpc_worker \<Rightarrow> ('m, 'o, unit) wk_res" where
  "sendReply z reply w =
     (case reply of None \<Rightarrow> Some (w, (), [])
      | Some r \<Rightarrow>
          if rw_reply_to w = [] then None
          else Some (w\<lparr>rw_reply_to := []\<rparr>, (), [Send (sendToServer z RPC_REPLY [] (Some (wrap z (rw_reply_to w) [] r)))]))"

section \<open>Privileges and responses\<close>

definition getCommandPrivilege :: "rpc_worker \<Rightarrow> byte \<Rightarrow> UserPrivilege" where
  "getCommandPrivilege w cmdId =
     (case rw_cmdPrivileges w of None \<Rightarrow> rw_defaultCmdPrivilege w
      | Some privs \<Rightarrow> (case privs cmdId of Some p \<Rightarrow> p | None \<Rightarrow> rw_defaultCmdPrivilege w))"

definition validatePrivilege :: "rpc_worker \<Rightarrow> byte \<Rightarrow> AuthReq \<Rightarrow> bool \<Rightarrow> bool" where
  "validatePrivilege w cmdId auth allowUninitializedAuth =
     (let privilege = getCommandPrivilege w cmdId
      in if privilege = NONE then True
         else if \<not> au_initialized auth then allowUninitializedAuth
         else (case privilege of
             VIEWER \<Rightarrow> au_privilege auth = USER \<or> au_privilege auth = VIEWER
           | USER \<Rightarrow> au_privilege auth = USER
           | _ \<Rightarrow> False))"

definition createResponse :: "'m czmq \<Rightarrow> byte \<Rightarrow> frame \<Rightarrow> 'm" where
  "createResponse z cmdId respMsg = zm_add z respMsg (addint z RPC_OK (zm_push z [cmdId] (zmsg_new z)))"

definition createErrorResponse :: "'m czmq \<Rightarrow> byte \<Rightarrow> u32 \<Rightarrow> frame \<Rightarrow> 'm" where
  "createErrorResponse z cmdId errorCode errorMsg =
     addstr z errorMsg (addint z errorCode (zm_push z [cmdId] (zmsg_new z)))"

section \<open>Requests\<close>

text \<open>The result of \<open>processCmdMsg\<close>: the exception of a failed parse, or a response, which may be null.\<close>

datatype 'm cmd_result = Parse_error | Response "'m option"

type_synonym ('s, 'm, 'o) cmd_handler = "byte \<Rightarrow> frame \<Rightarrow> 's \<Rightarrow> ('s, 'm cmd_result, 'o) outcome"

definition processCall ::
  "'m czmq \<Rightarrow> (frame \<Rightarrow> AuthReq) \<Rightarrow> ('s, 'm, 'o) cmd_handler \<Rightarrow> 'm \<Rightarrow> rpc_worker \<Rightarrow> 's \<Rightarrow> ('s, 'm option, 'o) outcome" where
  "processCall z parse_auth processCmdMsg msg w s =
     (case zm_pop z msg of (None, m1) \<Rightarrow> None
      | (Some cmdFrame, m1) \<Rightarrow>
          if cmdFrame = [] then None
          else (let cmdId = cmdFrame ! 0
                in case popstr z m1 of (requestParams, m2) \<Rightarrow>
                   let auth = (if zm_size z m2 > 0 then parse_auth (fst (popstr z m2)) else empty_AuthReq)
                   in if \<not> validatePrivilege w cmdId auth (rw_allowUninitializedAuth w)
                      then Some (s, Some (createErrorResponse z cmdId RPC_NOT_AUTHORIZED []), [])
                      else and_then (processCmdMsg cmdId requestParams s)
                             (\<lambda>s r. Some (s, (case r of Response m \<Rightarrow> m
                                            | Parse_error \<Rightarrow> Some (createErrorResponse z cmdId RPC_PARSE [])), []))))"

section \<open>Main loop\<close>

text \<open>
  A turn of \<open>run\<close>: the result of the poll, whether another thread called \<open>cancel\<close> while the turn was
  blocked in it, the result of \<^verbatim>\<open>connect\<close> should the turn reconnect, and the
  clock.  The state is that of the base class and that of the subclass.
\<close>

record 'm wk_turn =
  wt_poll :: "'m poll"
  wt_cancel :: bool
  wt_conn :: conn_result
  wt_now :: int

type_synonym ('s, 'm, 'o, 'r) wk_outcome = "(rpc_worker \<times> 's, 'r, ('m, 'o) wk_out) outcome"

definition on_worker :: "('m, 'o, 'r) wk_res \<Rightarrow> 's \<Rightarrow> ('s, 'm, 'o, 'r) wk_outcome" where
  "on_worker res s = map_option (\<lambda>(w, r, out). ((w, s), r, out)) res"

definition handle_request ::
  "'m czmq \<Rightarrow> (frame \<Rightarrow> AuthReq) \<Rightarrow> ('s, 'm, 'o) cmd_handler \<Rightarrow> 'm \<Rightarrow> rpc_worker \<times> 's \<Rightarrow> ('s, 'm, 'o, conn_result) wk_outcome" where
  "handle_request z parse_auth processCmdMsg msg ws =
     (case ws of (w, s) \<Rightarrow>
       (case unwrap z msg of (None, m) \<Rightarrow> None
        | (Some f, m) \<Rightarrow>
            (let w1 = w\<lparr>rw_reply_to := f\<rparr>
             in case processCall z parse_auth processCmdMsg m w1 s of None \<Rightarrow> None
                | Some (s', reply, calls) \<Rightarrow>
                    and_then (Some ((w1, s'), (), map Subclass calls))
                      (\<lambda>(w, s) _. and_then (on_worker (sendReply z reply w) s) (\<lambda>ws _. Some (ws, Connected, []))))))"

definition worker_message ::
  "'m czmq \<Rightarrow> (frame \<Rightarrow> AuthReq) \<Rightarrow> ('s, 'm, 'o) cmd_handler \<Rightarrow> 'm wk_turn \<Rightarrow> 'm \<Rightarrow> rpc_worker \<times> 's
     \<Rightarrow> ('s, 'm, 'o, conn_result) wk_outcome" where
  "worker_message z parse_auth processCmdMsg t msg ws =
     (if zm_size z msg < 3 then None
      else (case popstr z msg of (e, m1) \<Rightarrow>
        if e \<noteq> [] then None
        else (case popstr z m1 of (header, m2) \<Rightarrow>
          if header \<noteq> RPC_WORKER then None
          else (case zm_pop z m2 of (None, m3) \<Rightarrow> None
                | (Some f, m3) \<Rightarrow>
                    if length f \<noteq> 1 then None
                    else if f ! 0 = cmd_code RPC_REQUEST then handle_request z parse_auth processCmdMsg m3 ws
                    else if f ! 0 = cmd_code RPC_HEARTBEAT then Some (ws, Connected, [])
                    else if f ! 0 = cmd_code RPC_DISCONNECT then
                      (case ws of (w, s) \<Rightarrow> on_worker (connectToServer z (wt_now t) (wt_conn t) (rw_server w) w) s)
                    else Some (ws, Connected, [])))))"

definition worker_silent :: "'m czmq \<Rightarrow> 'm wk_turn \<Rightarrow> rpc_worker \<Rightarrow> ('m, 'o, conn_result) wk_res" where
  "worker_silent z t w =
     (let w1 = w\<lparr>rw_liveness := rw_liveness w - 1\<rparr>
      in if rw_liveness w1 = 0
         then and_then (Some (w1, (), [Sleep (rw_reconnect w1)]))
                (\<lambda>w _. connectToServer z (wt_now t) (wt_conn t) (rw_server w) w)
         else Some (w1, Connected, []))"

definition rw_send_heartbeat :: "'m czmq \<Rightarrow> int \<Rightarrow> rpc_worker \<Rightarrow> ('m, 'o, unit) wk_res" where
  "rw_send_heartbeat z now w =
     (if now > rw_heartbeat_at w
      then Some (w\<lparr>rw_heartbeat_at := now + rw_heartbeat w\<rparr>, (), [Send (sendToServer z RPC_HEARTBEAT [] None)])
      else Some (w, (), []))"

text \<open>The end of a turn: the heartbeat, unless an exception of the socket ended the turn before.\<close>

definition turn_end :: "'m czmq \<Rightarrow> 'm wk_turn \<Rightarrow> conn_result \<Rightarrow> rpc_worker \<times> 's \<Rightarrow> ('s, 'm, 'o, unit) wk_outcome" where
  "turn_end z t r ws =
     (case ws of (w, s) \<Rightarrow>
       (case r of Connected \<Rightarrow> on_worker (rw_send_heartbeat z (wt_now t) w) s
        | Conn_terminated \<Rightarrow> Some ((w\<lparr>rw_done := True\<rparr>, s), (), [])
        | Conn_error \<Rightarrow> Some ((w, s), (), [])))"

definition worker_turn ::
  "'m czmq \<Rightarrow> (frame \<Rightarrow> AuthReq) \<Rightarrow> ('s, 'm, 'o) cmd_handler \<Rightarrow> 'm wk_turn \<Rightarrow> rpc_worker \<times> 's
     \<Rightarrow> ('s, 'm, 'o, unit) wk_outcome" where
  "worker_turn z parse_auth processCmdMsg t ws =
     (case (if wt_cancel t then rw_cancel (fst ws) else fst ws, snd ws) of (w, s) \<Rightarrow>
       (case wt_poll t of
          Poll_message m \<Rightarrow>
            and_then (worker_message z parse_auth processCmdMsg t m (w\<lparr>rw_liveness := WORKER_LIVENESS\<rparr>, s))
              (\<lambda>ws r. turn_end z t r ws)
        | Poll_nothing \<Rightarrow> and_then (on_worker (worker_silent z t w) s) (\<lambda>ws r. turn_end z t r ws)
        | Poll_terminated \<Rightarrow> turn_end z t Conn_terminated (w, s)
        | Poll_error \<Rightarrow> turn_end z t Conn_error (w, s)))"

fun worker_run ::
  "'m czmq \<Rightarrow> (frame \<Rightarrow> AuthReq) \<Rightarrow> ('s, 'm, 'o) cmd_handler \<Rightarrow> 'm wk_turn list \<Rightarrow> rpc_worker \<times> 's
     \<Rightarrow> ('s, 'm, 'o, unit) wk_outcome" where
  "worker_run z pa pc [] ws = Some (ws, (), [])"
| "worker_run z pa pc (t # ts) ws =
     (if rw_done (fst ws) then Some (ws, (), [])
      else and_then (worker_turn z pa pc t ws) (\<lambda>ws _. worker_run z pa pc ts ws))"

section \<open>Privileges\<close>

text \<open>
  The check of privileges against its specification: a command without a required privilege is free,
  a request without authorization is accepted if the worker allows that, and otherwise the
  privilege of the request must reach the required one.
\<close>

primrec privilege_rank :: "UserPrivilege \<Rightarrow> nat" where
  "privilege_rank NONE = 0"
| "privilege_rank VIEWER = 1"
| "privilege_rank USER = 2"

definition permitted :: "UserPrivilege \<Rightarrow> AuthReq \<Rightarrow> bool \<Rightarrow> bool" where
  "permitted required auth anonymous \<longleftrightarrow> required = NONE
     \<or> (if au_initialized auth then privilege_rank required \<le> privilege_rank (au_privilege auth) else anonymous)"

lemma validatePrivilege_permitted:
  "validatePrivilege w c auth anonymous = permitted (getCommandPrivilege w c) auth anonymous"
  by (cases "getCommandPrivilege w c"; cases "au_privilege auth")
    (auto simp: validatePrivilege_def permitted_def)

definition request_auth :: "(frame \<Rightarrow> AuthReq) \<Rightarrow> frame list \<Rightarrow> AuthReq" where
  "request_auth parse_auth fs = (case fs of _ # a # _ \<Rightarrow> parse_auth a | _ \<Rightarrow> empty_AuthReq)"

definition request_params :: "frame list \<Rightarrow> frame" where
  "request_params fs = (case fs of [] \<Rightarrow> [] | p # _ \<Rightarrow> p)"

lemma createResponse_frames:
  assumes "czmq_laws z fr"
  shows "fr (createResponse z c body) = [[c], int_bytes RPC_OK, body]"
    and "fr (createErrorResponse z c code text) = [[c], int_bytes code, c_str text]"
  using assms by (simp_all add: createResponse_def createErrorResponse_def zm_frames)

lemma processCall_eq:
  assumes L: "czmq_laws z fr" and m: "fr m = (c # cs) # rest"
  shows "processCall z pa pc m w s =
    (if permitted (getCommandPrivilege w c) (request_auth pa rest) (rw_allowUninitializedAuth w)
     then and_then (pc c (request_params rest) s)
            (\<lambda>s r. Some (s, (case r of Response m \<Rightarrow> m | Parse_error \<Rightarrow> Some (createErrorResponse z c RPC_PARSE [])), []))
     else Some (s, Some (createErrorResponse z c RPC_NOT_AUTHORIZED []), []))"
proof -
  obtain m1 where m1: "zm_pop z m = (Some (c # cs), m1)" "fr m1 = rest" using pop_command[OF L m] by blast
  obtain p m2 where m2: "popstr z m1 = (p, m2)" by fastforce
  have f2: "p = request_params rest" "fr m2 = tl rest"
    using popstr_frames[OF L, of m1] m1(2) m2 by (cases rest; simp add: request_params_def)+
  have auth: "(if zm_size z m2 > 0 then pa (fst (popstr z m2)) else empty_AuthReq) = request_auth pa rest"
    using f2(2) popstr_frames(1)[OF L, of m2] by (auto simp: zm_frames[OF L] request_auth_def split: list.splits)
  show ?thesis
    using m1(1) m2 by (simp add: processCall_def validatePrivilege_permitted auth f2(1)[symmetric])
qed

text \<open>
  Claim C30.  A worker hands a command to its handler exactly if the request is permitted: the command requires no privilege, or the
  request carries an authorization whose privilege is at least the required one, or it carries none and the
  worker accepts such requests.  Otherwise the state of the service is unchanged, nothing is called, and the
  client is told that it is not authorized.
\<close>

theorem command_needs_privilege:
  assumes "czmq_laws z fr" "fr m = (c # cs) # rest"
  shows "if permitted (getCommandPrivilege w c) (request_auth pa rest) (rw_allowUninitializedAuth w)
    then processCall z pa pc m w s = None \<longleftrightarrow> pc c (request_params rest) s = None
    else \<exists>r. processCall z pa pc m w s = Some (s, Some r, []) \<and> fr r = [[c], int_bytes RPC_NOT_AUTHORIZED, []]"
  using assms by (auto simp: processCall_eq createResponse_frames and_then_def split: option.splits prod.splits)

theorem command_needs_privilege_witness:
  "\<exists>r. processCall list_czmq (\<lambda>_. \<lparr>au_initialized = True, au_privilege = VIEWER\<rparr>) (\<lambda>_ _ _. None :: (unit, _, unit) outcome)
     [[7], [], [1]] (new_rpc_worker [] [] None USER [] True) () = Some ((), Some r, []) \<and> r = [[7], int_bytes RPC_NOT_AUTHORIZED, []]"
  using command_needs_privilege[OF list_czmq_laws, of "[[7], [], [1]]" 7 "[]" "[[], [1]]"
      "new_rpc_worker [] [] None USER [] True" "\<lambda>_. \<lparr>au_initialized = True, au_privilege = VIEWER\<rparr>"
      "\<lambda>_ _ _. None :: (unit, _, unit) outcome" "()"]
  by (simp add: permitted_def request_auth_def getCommandPrivilege_def new_rpc_worker_def)

section \<open>Workers as clients of their command handlers\<close>

text \<open>
  The interface between the base class and a subclass: the handler of a subclass answers every
  command it is given, with a response that carries the command, a result code and one more frame.
\<close>

definition reply_frames :: "byte \<Rightarrow> u32 \<Rightarrow> frame \<Rightarrow> frame list" where
  "reply_frames c code body = [[c], int_bytes code, body]"

definition is_heartbeat :: "('m \<Rightarrow> frame list) \<Rightarrow> ('m, 'o) wk_out \<Rightarrow> bool" where
  "is_heartbeat fr x \<longleftrightarrow> (case x of Send m \<Rightarrow> fr m = [[], RPC_WORKER, [cmd_code RPC_HEARTBEAT]] | _ \<Rightarrow> False)"

lemma sendToServer_frames:
  assumes "czmq_laws z fr"
  shows "fr (sendToServer z c opt None) = [] # RPC_WORKER # [cmd_code c] # (if opt \<noteq> [] then [c_str opt] else [])"
    and "fr (sendToServer z c opt (Some m)) =
      [] # RPC_WORKER # [cmd_code c] # (if opt \<noteq> [] then [c_str opt] else []) @ fr m"
  using assms by (simp_all add: sendToServer_def zm_frames Let_def)

lemma turn_end_connected:
  assumes "czmq_laws z fr" "turn_end z t Connected ws = Some (ws', u, hb)"
  shows "list_all (is_heartbeat fr) hb" and "rw_done (fst ws') = rw_done (fst ws)"
  using assms(2)
  by (auto simp: turn_end_def on_worker_def rw_send_heartbeat_def is_heartbeat_def sendToServer_frames[OF assms(1)]
      split: prod.splits if_splits)

lemma request_message_eq:
  assumes L: "czmq_laws z fr" and m: "fr m = [] # RPC_WORKER # [cmd_code RPC_REQUEST] # rest"
  shows "\<exists>m'. fr m' = rest \<and> worker_message z pa pc t m ws = handle_request z pa pc m' ws"
proof -
  obtain m1 where m1: "popstr z m = ([], m1)" "fr m1 = RPC_WORKER # [cmd_code RPC_REQUEST] # rest"
    using pop_service[OF L m] by blast
  obtain m2 where m2: "popstr z m1 = (RPC_WORKER, m2)" "fr m2 = [cmd_code RPC_REQUEST] # rest"
    using pop_service[OF L m1(2)] by blast
  obtain m3 where m3: "zm_pop z m2 = (Some [cmd_code RPC_REQUEST], m3)" "fr m3 = rest"
    using pop_command[OF L m2(2)] by blast
  show ?thesis using m m1(1) m2(1) m3 by (intro exI[of _ m3]) (simp add: worker_message_def zm_frames[OF L])
qed

text \<open>
  \<open>answers_cmd fr c res\<close>: an outcome of a handler that is a response carries the command \<open>c\<close>, a result code and one frame.  It is
  closed under the ways the handlers are put together.
\<close>

definition answer :: "'m \<Rightarrow> 's \<Rightarrow> ('s, 'm cmd_result, 'o) outcome" where
  "answer m s = Some (s, Response (Some m), [])"

definition answers_cmd :: "('m \<Rightarrow> frame list) \<Rightarrow> byte \<Rightarrow> ('s, 'm cmd_result, 'o) outcome \<Rightarrow> bool" where
  "answers_cmd fr c res \<longleftrightarrow>
     (\<forall>s r out. res = Some (s, Response r, out) \<longrightarrow> (\<exists>m code body. r = Some m \<and> fr m = reply_frames c code body))"

lemma answers_cmd_rules:
  "answers_cmd fr c None"
  "answers_cmd fr c (Some (s, Parse_error, out))"
  "(b \<Longrightarrow> answers_cmd fr c x) \<Longrightarrow> (\<not> b \<Longrightarrow> answers_cmd fr c y) \<Longrightarrow> answers_cmd fr c (if b then x else y)"
  "\<exists>code body. fr m = reply_frames c code body \<Longrightarrow> answers_cmd fr c (answer m s)"
  "(\<And>s. answers_cmd fr c (h s)) \<Longrightarrow> answers_cmd fr c (and_then (Some (s, u, out)) (\<lambda>s _. h s))"
  by (auto simp: answers_cmd_def answer_def)

lemma created_responses:
  assumes "czmq_laws z fr"
  shows "\<exists>code body. fr (createResponse z c b) = reply_frames c code body"
    and "\<exists>code body. fr (createErrorResponse z c k b) = reply_frames c code body"
  by (auto simp: createResponse_frames[OF assms] reply_frames_def)

locale rpc_handler =
  fixes handler :: "'m czmq \<Rightarrow> 'e \<Rightarrow> ('s, 'm, 'o) cmd_handler"
  assumes answers: "czmq_laws z fr \<Longrightarrow> handler z e c p s = Some (s', Response r, out) \<Longrightarrow>
      \<exists>m code body. r = Some m \<and> fr m = reply_frames c code body"
begin

lemma call_answered:
  assumes L: "czmq_laws z fr" and m: "fr m = (c # cs) # rest"
    and call: "processCall z pa (handler z e) m w s = Some (s', r, out)"
  shows "\<exists>m code body. r = Some m \<and> fr m = reply_frames c code body"
proof (cases "permitted (getCommandPrivilege w c) (request_auth pa rest) (rw_allowUninitializedAuth w)")
  case True
  then obtain r0 o0 where "handler z e c (request_params rest) s = Some (s', r0, o0)"
      "r = (case r0 of Response m \<Rightarrow> m | Parse_error \<Rightarrow> Some (createErrorResponse z c RPC_PARSE []))"
    using call by (auto simp: processCall_eq[OF L m] and_then_eq_Some)
  then show ?thesis using answers[OF L] createResponse_frames(2)[OF L, of c RPC_PARSE "[]"]
    by (cases r0) (auto simp: reply_frames_def)
next
  case False
  then show ?thesis using call createResponse_frames(2)[OF L, of c RPC_NOT_AUTHORIZED "[]"]
    by (auto simp: processCall_eq[OF L m] reply_frames_def)
qed

text \<open>
  A worker that reads a request sends exactly one reply, addressed to the client the request came
  from, whatever the handler does; the only other messages of the turn are heartbeats.
\<close>

lemma request_answered:
  assumes L: "czmq_laws z fr"
    and m: "fr m = [] # RPC_WORKER # [cmd_code RPC_REQUEST] # client # [] # (c # cs) # rest"
    and client: "client \<noteq> []"
    and t: "wt_poll t = Poll_message m"
    and run: "worker_turn z pa (handler z e) t (w, s) = Some (ws', u, out)"
  shows "\<exists>calls r hb code body. out = map Subclass calls @ Send r # hb \<and> list_all (is_heartbeat fr) hb
    \<and> fr r = [] # RPC_WORKER # [cmd_code RPC_REPLY] # client # [] # reply_frames c code body"
proof -
  define w0 where "w0 = (if wt_cancel t then rw_cancel w else w)\<lparr>rw_liveness := WORKER_LIVENESS\<rparr>"
  obtain m3 where m3: "fr m3 = client # [] # (c # cs) # rest"
      "worker_message z pa (handler z e) t m (w0, s) = handle_request z pa (handler z e) m3 (w0, s)"
    using request_message_eq[OF L m] by blast
  obtain m4 where m4: "unwrap z m3 = (Some client, m4)" "fr m4 = (c # cs) # rest"
    using zm_unwrap_frames[OF L, of m3] m3(1) by (cases "unwrap z m3") simp
  have "worker_turn z pa (handler z e) t (w, s) =
      and_then (handle_request z pa (handler z e) m3 (w0, s)) (\<lambda>ws r. turn_end z t r ws)"
    using t m3(2) by (cases "wt_cancel t") (simp_all add: worker_turn_def w0_def)
  with run have "and_then (handle_request z pa (handler z e) m3 (w0, s)) (\<lambda>ws r. turn_end z t r ws) = Some (ws', u, out)"
    by simp
  then obtain ws1 cr o1 o2 where h: "handle_request z pa (handler z e) m3 (w0, s) = Some (ws1, cr, o1)"
      "turn_end z t cr ws1 = Some (ws', u, o2)" "out = o1 @ o2"
    unfolding and_then_eq_Some by blast
  let ?w1 = "w0\<lparr>rw_reply_to := client\<rparr>"
  obtain s' r calls where call: "processCall z pa (handler z e) m4 ?w1 s = Some (s', r, calls)"
    using h(1) m4(1) by (auto simp: handle_request_def Let_def split: option.splits)
  obtain m5 code body where m5: "r = Some m5" "fr m5 = reply_frames c code body"
    using call_answered[OF L m4(2) call] by blast
  let ?r = "sendToServer z RPC_REPLY [] (Some (wrap z client [] m5))"
  have "handle_request z pa (handler z e) m3 (w0, s) =
      Some ((?w1\<lparr>rw_reply_to := []\<rparr>, s'), Connected, map Subclass calls @ [Send ?r])"
    using m4(1) call m5(1) client by (simp add: handle_request_def sendReply_def on_worker_def)
  then have "ws1 = (?w1\<lparr>rw_reply_to := []\<rparr>, s')" "cr = Connected" "o1 = map Subclass calls @ [Send ?r]"
    using h(1) by simp_all
  moreover from this h(2) have "list_all (is_heartbeat fr) o2" using turn_end_connected(1)[OF L] by blast
  moreover have "fr ?r = [] # RPC_WORKER # [cmd_code RPC_REPLY] # client # [] # reply_frames c code body"
    by (simp add: sendToServer_frames[OF L] zm_frames[OF L] m5(2))
  moreover have "out = map Subclass calls @ Send ?r # o2" using h(3) calculation(3) by simp
  ultimately show ?thesis by blast
qed

text \<open>
  The way of a request through the dispatcher to a worker and of its answer back.  The ROUTER socket of the dispatcher
  strips the identity of the receiver from what it sends and puts that of the sender in front of what it
  receives.
\<close>

lemma round_trip:
  assumes L: "czmq_laws z fr" and inv: "disp_inv d" "\<not> d_done d"
    and s: "d_services d n = Some s" "s_waiting s = i # is" "i \<noteq> []"
    and m: "fr m = client # [] # RPC_CLIENT # n # (c # cs) # rest" "n \<noteq> []" "client \<noteq> []"
  shows "\<exists>d1 q out1. disp_step z (Turn (Poll_message m) t0 t0') d = Some (d1, (), q # out1) \<and> hd (fr q) = i
    \<and> (\<forall>m1 t w s ws' u out. fr m1 = tl (fr q) \<longrightarrow> wt_poll t = Poll_message m1
        \<longrightarrow> worker_turn z pa (handler z e) t (w, s) = Some (ws', u, out)
        \<longrightarrow> (\<exists>calls r hb code body. out = map Subclass calls @ Send r # hb \<and> list_all (is_heartbeat fr) hb
             \<and> (\<forall>d2 m2 t2 t2'. disp_inv d2 \<longrightarrow> \<not> d_done d2 \<longrightarrow> srv_of d2 i = Some (Some n) \<longrightarrow> fr m2 = i # fr r
                 \<longrightarrow> (\<exists>d3 a out3. disp_step z (Turn (Poll_message m2) t2 t2') d2 = Some (d3, (), a # out3)
                      \<and> fr a = client # [] # RPC_CLIENT # c_str n # reply_frames c code body))))"
proof -
  obtain d1 q out1 where 1: "disp_step z (Turn (Poll_message m) t0 t0') d = Some (d1, (), q # out1)"
      "fr q = i # [] # RPC_WORKER # [cmd_code RPC_REQUEST] # client # [] # (c # cs) # rest"
    using request_forwarded[OF L inv s(1,2) m(1,2), of t0 t0'] by blast
  have 2: "\<exists>calls r hb code body. out = map Subclass calls @ Send r # hb \<and> list_all (is_heartbeat fr) hb
      \<and> fr r = [] # RPC_WORKER # [cmd_code RPC_REPLY] # client # [] # reply_frames c code body"
    if "fr m1 = tl (fr q)" "wt_poll t = Poll_message m1" "worker_turn z pa (handler z e) t (w, s) = Some (ws', u, out)"
    for m1 t w s ws' u out
    using request_answered[OF L _ m(3) that(2,3)] that(1) 1(2) by simp
  have 3: "\<exists>d3 a out3. disp_step z (Turn (Poll_message m2) t2 t2') d2 = Some (d3, (), a # out3)
      \<and> fr a = client # [] # RPC_CLIENT # c_str n # body"
    if "disp_inv d2" "\<not> d_done d2" "srv_of d2 i = Some (Some n)"
      "fr m2 = i # [] # RPC_WORKER # [cmd_code RPC_REPLY] # client # [] # body" for d2 m2 t2 t2' body
    using reply_returned[OF L that(1-3) s(3) that(4)] .
  have 4: "\<exists>calls r hb code body. out = map Subclass calls @ Send r # hb \<and> list_all (is_heartbeat fr) hb
      \<and> (\<forall>d2 m2 t2 t2'. disp_inv d2 \<longrightarrow> \<not> d_done d2 \<longrightarrow> srv_of d2 i = Some (Some n) \<longrightarrow> fr m2 = i # fr r
          \<longrightarrow> (\<exists>d3 a out3. disp_step z (Turn (Poll_message m2) t2 t2') d2 = Some (d3, (), a # out3)
               \<and> fr a = client # [] # RPC_CLIENT # c_str n # reply_frames c code body))"
    if m1: "fr m1 = tl (fr q)" "wt_poll t = Poll_message m1" "worker_turn z pa (handler z e) t (w, s) = Some (ws', u, out)"
    for m1 t w s ws' u out
  proof -
    obtain calls r hb code body where r: "out = map Subclass calls @ Send r # hb" "list_all (is_heartbeat fr) hb"
        "fr r = [] # RPC_WORKER # [cmd_code RPC_REPLY] # client # [] # reply_frames c code body"
      using 2[OF m1] by blast
    show ?thesis
      by (rule exI[of _ calls], rule exI[of _ r], rule exI[of _ hb], rule exI[of _ code], rule exI[of _ body])
        (use r 3 in simp)
  qed
  show ?thesis using 1 4 by (intro exI[of _ d1] exI[of _ q] exI[of _ out1]) simp
qed

end

section \<open>Stopping a worker\<close>

text \<open>Whether a turn opens the connection anew, by its poll and the liveness of the worker.\<close>

definition reconnects :: "('m \<Rightarrow> frame list) \<Rightarrow> 'm wk_turn \<Rightarrow> rpc_worker \<Rightarrow> bool" where
  "reconnects fr t w \<longleftrightarrow> wt_conn t = Connected \<and>
     (case wt_poll t of
        Poll_message m \<Rightarrow> take 1 (drop 2 (fr m)) = [[cmd_code RPC_DISCONNECT]]
      | Poll_nothing \<Rightarrow> rw_liveness w = 1
      | _ \<Rightarrow> False)"

lemma connectToServer_done:
  "connectToServer z now conn a w = Some (w', r, out) \<Longrightarrow> r = conn \<and> rw_done w' = (conn \<noteq> Connected \<and> rw_done w)"
  by (auto simp: connectToServer_def Let_def split: option.splits if_splits)

lemma handle_request_done:
  "handle_request z pa pc m (w, s) = Some (ws', r, out) \<Longrightarrow> r = Connected \<and> rw_done (fst ws') = rw_done w"
  by (auto simp: handle_request_def sendReply_def on_worker_def Let_def and_then_eq_Some
      split: option.splits prod.splits if_splits)

lemma worker_message_done:
  assumes L: "czmq_laws z fr" and run: "worker_message z pa pc t m (w, s) = Some (ws', r, out)"
  shows "if take 1 (drop 2 (fr m)) = [[cmd_code RPC_DISCONNECT]]
    then r = wt_conn t \<and> rw_done (fst ws') = (wt_conn t \<noteq> Connected \<and> rw_done w)
    else r = Connected \<and> rw_done (fst ws') = rw_done w"
proof -
  obtain e h f rest where fs: "fr m = e # h # f # rest"
    using run by (cases "fr m" rule: list.exhaust[OF _ list.exhaust[where y = "tl (fr m)"]];
        cases "tl (tl (fr m))") (auto simp: worker_message_def zm_frames[OF L])
  obtain m1 where m1: "popstr z m = (e, m1)" "fr m1 = h # f # rest" using pop_service[OF L fs] by blast
  obtain m2 where m2: "popstr z m1 = (h, m2)" "fr m2 = f # rest" using pop_service[OF L m1(2)] by blast
  obtain m3 where m3: "zm_pop z m2 = (Some f, m3)" using pop_command[OF L m2(2)] by blast
  have f: "length f = 1" using run m1(1) m2(1) m3 by (auto simp: worker_message_def split: if_splits)
  then obtain c where c: "f = [c]" by (auto simp: length_Suc_conv)
  have "worker_message z pa pc t m (w, s) =
      (if c = cmd_code RPC_REQUEST then handle_request z pa pc m3 (w, s)
       else if c = cmd_code RPC_HEARTBEAT then Some ((w, s), Connected, [])
       else if c = cmd_code RPC_DISCONNECT then on_worker (connectToServer z (wt_now t) (wt_conn t) (rw_server w) w) s
       else Some ((w, s), Connected, []))"
    using run m1(1) m2(1) m3 c by (auto simp: worker_message_def split: if_splits)
  with run show ?thesis using fs c handle_request_done[of z pa pc m3 w s ws' r out]
    by (auto simp: on_worker_def simp del: cmd_code.simps dest!: connectToServer_done split: if_splits)
qed

lemma worker_silent_done:
  assumes "worker_silent z t w = Some (w', r, out)"
  shows "if rw_liveness w = 1 then r = wt_conn t \<and> rw_done w' = (wt_conn t \<noteq> Connected \<and> rw_done w)
    else r = Connected \<and> rw_done w' = rw_done w"
  using assms
  by (auto simp: worker_silent_def Let_def and_then_eq_Some right_minus_eq split: if_splits dest: connectToServer_done)

lemma turn_end_done:
  assumes "czmq_laws z fr" "turn_end z t r ws = Some (ws', u, out)" "rw_done (fst ws)"
  shows "rw_done (fst ws')"
proof (cases r)
  case Connected
  then show ?thesis using assms turn_end_connected(2)[OF assms(1)] by blast
qed (use assms(2,3) in \<open>auto simp: turn_end_def split: prod.splits\<close>)

text \<open>
  A stop request that reaches a worker while it waits in a poll ends its loop exactly if the worker does
  not open its connection anew in the same turn: \<open>connectToServer\<close> clears the flag that \<open>cancel\<close> sets,
  so the request is lost and the thread runs on.
\<close>

lemma cancel_lost_on_reconnect:
  assumes "czmq_laws z fr" "wt_cancel t" "worker_turn z pa pc t (w, s) = Some (ws', u, out)"
  shows "rw_done (fst ws') \<longleftrightarrow> \<not> reconnects fr t w"
proof -
  let ?w = "rw_cancel w"
  have canc: "rw_done ?w" "rw_liveness ?w = rw_liveness w" by (simp_all add: rw_cancel_def)
  note done1 = turn_end_done[OF assms(1)] and done2 = turn_end_connected(2)[OF assms(1)]
  show ?thesis
  proof (cases "wt_poll t")
    case (Poll_message m)
    then have "and_then (worker_message z pa pc t m (?w\<lparr>rw_liveness := WORKER_LIVENESS\<rparr>, s))
        (\<lambda>ws r. turn_end z t r ws) = Some (ws', u, out)" using assms(2,3) by (simp add: worker_turn_def)
    then obtain ws1 r o1 o2 where 1: "worker_message z pa pc t m (?w\<lparr>rw_liveness := WORKER_LIVENESS\<rparr>, s) = Some (ws1, r, o1)"
        and 2: "turn_end z t r ws1 = Some (ws', u, o2)" and "out = o1 @ o2"
      unfolding and_then_eq_Some by blast
    show ?thesis using worker_message_done[OF assms(1) 1] canc(1) 2 done1[OF 2] done2[of t ws1 ws' u o2] Poll_message
      by (cases "wt_conn t") (auto simp: reconnects_def split: if_splits)
  next
    case Poll_nothing
    then have "and_then (on_worker (worker_silent z t ?w) s) (\<lambda>ws r. turn_end z t r ws) = Some (ws', u, out)"
      using assms(2,3) by (simp add: worker_turn_def)
    then obtain w1 r o1 o2 where 1: "worker_silent z t ?w = Some (w1, r, o1)"
        and 2: "turn_end z t r (w1, s) = Some (ws', u, o2)" and "out = o1 @ o2"
      unfolding and_then_eq_Some on_worker_def by auto
    show ?thesis using worker_silent_done[OF 1] canc 2 done1[OF 2] done2[of t "(w1, s)" ws' u o2] Poll_nothing
      by (cases "wt_conn t") (auto simp: reconnects_def split: if_splits)
  next
    case Poll_terminated
    then show ?thesis using assms(2,3) by (auto simp: worker_turn_def turn_end_def reconnects_def)
  next
    case Poll_error
    then show ?thesis using assms(2,3) canc by (auto simp: worker_turn_def turn_end_def reconnects_def)
  qed
qed

definition example_turn :: "frame list wk_turn" where
  "example_turn = \<lparr>wt_poll = Poll_nothing, wt_cancel = True, wt_conn = Connected, wt_now = 30000\<rparr>"

definition example_rpc_worker :: rpc_worker where
  "example_rpc_worker = (new_rpc_worker (str ''ipc://apc_rpc.ipc'') (str ''apc'') None NONE (str ''w'') True)\<lparr>rw_liveness := 1\<rparr>"

lemma cancel_lost_on_reconnect_example:
  "\<exists>w' out. worker_turn list_czmq (\<lambda>_. empty_AuthReq) (\<lambda>_ _ s. Some (s, Response None, [])) example_turn
       (example_rpc_worker, ()) = Some ((w', ()), (), out :: (frame list, unit) wk_out list) \<and> \<not> rw_done w'"
proof -
  let ?run = "worker_turn list_czmq (\<lambda>_. empty_AuthReq) (\<lambda>_ _ s. Some (s, Response None, [])) example_turn
       (example_rpc_worker, ()) :: (unit, frame list, unit, unit) wk_outcome"
  have "\<not> Option.is_none ?run" by code_simp
  then obtain ws' u out where run: "?run = Some (ws', u, out)"
    by (cases ?run) (auto simp: Option.is_none_def)
  have "reconnects id example_turn example_rpc_worker" by code_simp
  moreover have "wt_cancel example_turn" by (simp add: example_turn_def)
  ultimately have "\<not> rw_done (fst ws')" using cancel_lost_on_reconnect[OF list_czmq_laws _ run] by simp
  with run show ?thesis by (cases ws') simp
qed

end
