(* ===== verification/Fmt_Numbers.thy ===== *)
theory Fmt_Numbers
  imports Common_Util
begin

text \<open>
  Conversions of integers to text (\<^verbatim>\<open>common/FmtOutput.cpp\<close>): decimal numbers and numbers of a base that is a power of two.  A \<^verbatim>\<open>long\<close>
  has 64 bits (LP64).  Texts are built from the end of \<^verbatim>\<open>num_buf\<close> towards its beginning; a write before its beginning is \<open>None\<close>.
\<close>

section \<open>Numbers\<close>

definition NUM_BUF_SIZE :: nat where "NUM_BUF_SIZE = 512"
definition INT_MAX :: int where "INT_MAX = 2147483647"
definition LONG_MAX :: u64 where "LONG_MAX = 0x7FFFFFFFFFFFFFFF"
definition ULONG_MAX :: u64 where "ULONG_MAX = 0xFFFFFFFFFFFFFFFF"
definition low_digits :: string where "low_digits = ''0123456789abcdef''"
definition upper_digits :: string where "upper_digits = ''0123456789ABCDEF''"

text \<open>\<^verbatim>\<open>*--p = ch\<close>\<close>

definition prepend :: "char \<Rightarrow> string \<Rightarrow> string option" where
  "prepend ch p = (if length p < NUM_BUF_SIZE then Some (ch # p) else None)"

function conv_10_loop :: "u64 \<Rightarrow> string \<Rightarrow> string option" where
  "conv_10_loop magnitude p =
     (let new_magnitude = magnitude div 10 in
      case prepend (char_of (unat (magnitude - new_magnitude * 10 + 48))) p of None \<Rightarrow> None
      | Some p \<Rightarrow> if new_magnitude = 0 then Some p else conv_10_loop new_magnitude p)"
  by pat_completeness auto
termination
proof (relation "measure (\<lambda>(m, p). unat m)")
  fix m x :: u64 and p q :: string
  assume x: "x = m div 10" "x \<noteq> 0"
  from x(1) have "unat x = unat m div 10" by (simp add: unat_div)
  moreover from x(2) have "unat x \<noteq> 0" by (simp add: unat_eq_zero)
  ultimately show "((x, q), (m, p)) \<in> measure (\<lambda>(m, p). unat m)" by simp
qed simp

declare conv_10_loop.simps [simp del]

definition conv_10 :: "u64 \<Rightarrow> bool \<Rightarrow> string \<Rightarrow> (string \<times> bool) option" where
  "conv_10 num is_unsigned buf_end =
     (let (magnitude, is_negative) =
        (if is_unsigned then (num, False)
         else if sint num < 0 then (let t = num + 1 in (- t + 1, True))
         else (num, False))
      in map_option (\<lambda>p. (p, is_negative)) (conv_10_loop magnitude buf_end))"

definition conv_10_quad :: "u64 \<Rightarrow> bool \<Rightarrow> string \<Rightarrow> (string \<times> bool) option" where
  "conv_10_quad num is_unsigned buf_end =
     (if num \<le> ULONG_MAX \<and> is_unsigned \<or> num \<le> LONG_MAX \<and> \<not> is_unsigned then conv_10 num is_unsigned buf_end
      else
        let (magnitude, is_negative) =
          (if is_unsigned then (num, False)
           else if sint num < 0 then (let t = num + 1 in (- t + 1, True))
           else (num, False))
        in map_option (\<lambda>p. (p, is_negative)) (conv_10_loop magnitude buf_end))"

text \<open>With \<open>nbits = 0\<close> the loop would run over the buffer.\<close>

function conv_p2_loop :: "u64 \<Rightarrow> nat \<Rightarrow> string \<Rightarrow> string \<Rightarrow> string option" where
  "conv_p2_loop num nbits digits p =
     (case prepend (digits ! unat (num AND (push_bit nbits 1 - 1))) p of None \<Rightarrow> None
      | Some p \<Rightarrow>
          let num = drop_bit nbits num in
          if num = 0 then Some p else if nbits = 0 then None else conv_p2_loop num nbits digits p)"
  by pat_completeness auto
termination
proof (relation "measure (\<lambda>(m, n, d, p). unat m)")
  fix m x :: u64 and n :: nat and d p q :: string
  assume x: "x = drop_bit n m" "x \<noteq> 0" "n \<noteq> 0"
  from x(1) have "unat x = unat m div 2 ^ n" by (simp add: unat_drop_bit_eq drop_bit_eq_div[of n "unat m"])
  moreover from x(2) have "unat x \<noteq> 0" by (simp add: unat_eq_zero)
  moreover have "1 < (2 :: nat) ^ n" using x(3) one_less_power[of "2 :: nat" n] by simp
  ultimately show "((x, n, d, q), (m, n, d, p)) \<in> measure (\<lambda>(m, n, d, p). unat m)"
    by (cases "unat m = 0") (auto intro!: div_less_dividend)
qed simp

declare conv_p2_loop.simps [simp del]

definition conv_p2 :: "u64 \<Rightarrow> nat \<Rightarrow> char \<Rightarrow> string \<Rightarrow> string option" where
  "conv_p2 num nbits format buf_end =
     conv_p2_loop num nbits (if format = CHR ''X'' then upper_digits else low_digits) buf_end"

definition conv_p2_quad :: "u64 \<Rightarrow> nat \<Rightarrow> char \<Rightarrow> string \<Rightarrow> string option" where
  "conv_p2_quad num nbits format buf_end =
     (if num \<le> ULONG_MAX then conv_p2 num nbits format buf_end
      else conv_p2_loop num nbits (if format = CHR ''X'' then upper_digits else low_digits) buf_end)"

end
