(* ===== verification/Fmt_Float.thy ===== *)
theory Fmt_Float
  imports Fmt_Numbers "HOL-Library.Log_Nat"
begin

text \<open>
  Conversions of floating point numbers to text (\<^verbatim>\<open>common/FmtOutput.cpp\<close>): \<^verbatim>\<open>ap_cvt\<close>, \<^verbatim>\<open>ap_gcvt\<close> and \<^verbatim>\<open>conv_fp\<close>.  A \<^verbatim>\<open>double\<close> is the binary64
  format of IEEE 754 with rounding to the nearest, ties to even; the sign of a zero is left out, the code does not look at it.  Buffers hold
  characters as numbers; a read of a byte that was not written, an access outside of a buffer and the conversion of a number that is not finite
  to \<^verbatim>\<open>int\<close> are \<open>None\<close>.
\<close>

section \<open>Double precision\<close>

datatype double = Fin rat | PosInf | NegInf | NaN

text \<open>The exponent of the leading bit, the distance of neighbouring numbers there, and rounding.\<close>

definition leading_bit :: "rat \<Rightarrow> int" where
  "leading_bit x = (case quotient_of \<bar>x\<bar> of (n, d) \<Rightarrow>
     let k = bitlen n - bitlen d in if 2 powi k \<le> \<bar>x\<bar> then k else k - 1)"

definition ulp :: "rat \<Rightarrow> rat" where
  "ulp x = 2 powi (max (leading_bit x - 52) (- 1074))"

definition round_even :: "rat \<Rightarrow> int" where
  "round_even q = (let f = \<lfloor>q\<rfloor>; r = q - of_int f in if r < 1 / 2 \<or> r = 1 / 2 \<and> even f then f else f + 1)"

definition rnd :: "rat \<Rightarrow> double" where
  "rnd x = (if x = 0 then Fin 0
     else let y = of_int (round_even (x / ulp x)) * ulp x
          in if y \<ge> 2 ^ 1024 then PosInf else if y \<le> - (2 ^ 1024) then NegInf else Fin y)"

definition is_double :: "rat \<Rightarrow> bool" where
  "is_double x \<longleftrightarrow> rnd x = Fin x"

text \<open>The operations of the code: comparisons, multiplication and division by ten, \<^verbatim>\<open>modf\<close> and the conversion to \<^verbatim>\<open>int\<close>.\<close>

fun lt_zero :: "double \<Rightarrow> bool" where
  "lt_zero (Fin q) = (q < 0)"
| "lt_zero d = (d = NegInf)"

fun gt_zero :: "double \<Rightarrow> bool" where
  "gt_zero (Fin q) = (q > 0)"
| "gt_zero d = (d = PosInf)"

fun lt_one :: "double \<Rightarrow> bool" where
  "lt_one (Fin q) = (q < 1)"
| "lt_one d = (d = NegInf)"

definition is_zero :: "double \<Rightarrow> bool" where
  "is_zero d \<longleftrightarrow> d = Fin 0"

fun neg :: "double \<Rightarrow> double" where
  "neg (Fin q) = Fin (- q)"
| "neg PosInf = NegInf"
| "neg NegInf = PosInf"
| "neg NaN = NaN"

fun scale :: "rat \<Rightarrow> double \<Rightarrow> double" where
  "scale c (Fin q) = rnd (c * q)"
| "scale c d = d"

fun plus03 :: "double \<Rightarrow> double" where
  "plus03 (Fin q) = (case rnd (3 / 100) of Fin c \<Rightarrow> rnd (q + c) | d \<Rightarrow> d)"
| "plus03 d = d"

definition trunc :: "rat \<Rightarrow> int" where
  "trunc q = (if q < 0 then \<lceil>q\<rceil> else \<lfloor>q\<rfloor>)"

text \<open>\<^verbatim>\<open>modf\<close> returns the fraction and stores the integral part.\<close>

fun modf :: "double \<Rightarrow> double \<times> double" where
  "modf (Fin q) = (Fin (q - of_int (trunc q)), Fin (of_int (trunc q)))"
| "modf NaN = (NaN, NaN)"
| "modf d = (Fin 0, d)"

fun to_int :: "double \<Rightarrow> int option" where
  "to_int (Fin q) = (if \<bar>trunc q\<bar> < 2 ^ 31 then Some (trunc q) else None)"
| "to_int d = None"

section \<open>Digits\<close>

definition NDIG :: nat where "NDIG = 80"
definition FLOAT_DIGITS :: int where "FLOAT_DIGITS = 6"

type_synonym cvt_buf = "int option list"

definition rd :: "cvt_buf \<Rightarrow> nat \<Rightarrow> int option" where
  "rd buf i = (if i < length buf then buf ! i else None)"

text \<open>The integral part, from its last digit, into the end of the buffer.\<close>

fun cvt_int :: "double \<Rightarrow> nat \<Rightarrow> int \<Rightarrow> cvt_buf \<Rightarrow> (nat \<times> int \<times> cvt_buf) option" where
  "cvt_int fi 0 r2 buf = Some (0, r2, buf)"
| "cvt_int fi (Suc p1) r2 buf =
     (if is_zero fi then Some (Suc p1, r2, buf)
      else case modf (scale (1 / 10) fi) of (fj, fi) \<Rightarrow>
        Option.bind (to_int (scale 10 (plus03 fj))) (\<lambda>d. cvt_int fi p1 (r2 + 1) (buf[p1 := Some (d + 48)])))"

definition cvt_copy :: "nat \<Rightarrow> cvt_buf \<Rightarrow> nat \<times> cvt_buf" where
  "cvt_copy p1 buf = foldl (\<lambda>(p, buf) i. (p + 1, buf[p := buf ! i])) (0, buf) [p1..<NDIG]"

text \<open>The loop that looks for the first digit of a number below one.\<close>

definition CVT_FUEL :: nat where "CVT_FUEL = 360"

fun cvt_small :: "nat \<Rightarrow> double \<Rightarrow> int \<Rightarrow> (double \<times> int) option" where
  "cvt_small 0 arg r2 = None"
| "cvt_small (Suc k) arg r2 = (let fj = scale 10 arg in if lt_one fj then cvt_small k fj (r2 - 1) else Some (arg, r2))"

text \<open>The digits of the fraction at the given positions.\<close>

fun cvt_frac :: "nat list \<Rightarrow> double \<Rightarrow> cvt_buf \<Rightarrow> cvt_buf option" where
  "cvt_frac [] arg buf = Some buf"
| "cvt_frac (p # ps) arg buf =
     (case modf (scale 10 arg) of (arg, fj) \<Rightarrow> Option.bind (to_int fj) (\<lambda>d. cvt_frac ps arg (buf[p := Some (d + 48)])))"

text \<open>Rounding of the decimal digits: \<open>p\<close> is the end of the text.\<close>

fun cvt_round :: "bool \<Rightarrow> nat \<Rightarrow> nat \<Rightarrow> int \<Rightarrow> cvt_buf \<Rightarrow> (int \<times> nat \<times> cvt_buf) option" where
  "cvt_round eflag 0 p decpt buf =
     Option.bind (rd buf 0) (\<lambda>c.
     if c > 57 then
       (if eflag then Some (decpt + 1, p, buf[0 := Some 49])
        else Some (decpt + 1, p + 1, if p > 0 then buf[0 := Some 49, p := Some 48] else buf[0 := Some 49]))
     else Some (decpt, p, buf))"
| "cvt_round eflag (Suc q) p decpt buf =
     Option.bind (rd buf (Suc q)) (\<lambda>c.
     if c > 57 then Option.bind (rd buf q) (\<lambda>b. cvt_round eflag q p decpt (buf[Suc q := Some 48, q := Some (b + 1)]))
     else Some (decpt, p, buf))"

text \<open>The part of \<^verbatim>\<open>ap_cvt\<close> up to the first digit after the point, and the part that computes the other digits and rounds.\<close>

definition cvt_start :: "double \<Rightarrow> double \<Rightarrow> (double \<times> nat \<times> int \<times> cvt_buf) option" where
  "cvt_start arg fi =
     (let buf = replicate NDIG None in
      if \<not> is_zero fi then
        Option.bind (cvt_int fi NDIG 0 buf) (\<lambda>(p1, r2, buf).
        case cvt_copy p1 buf of (p, buf) \<Rightarrow> Some (arg, p, if p1 = 0 then r2 - 1 else r2, buf))
      else if gt_zero arg then map_option (\<lambda>(arg, r2). (arg, 0, r2, buf)) (cvt_small CVT_FUEL arg 0)
      else Some (arg, 0, 0, buf))"

definition cvt_end :: "bool \<Rightarrow> int \<Rightarrow> double \<Rightarrow> nat \<Rightarrow> int \<Rightarrow> cvt_buf \<Rightarrow> (cvt_buf \<times> int) option" where
  "cvt_end eflag ndigits arg p r2 buf =
     (let p1 = (if eflag then ndigits else ndigits + r2) in
      if p1 < 0 then Some (buf[0 := Some 0], - ndigits)
      else
        Option.bind (cvt_frac [p..<min (nat p1 + 1) NDIG] arg buf) (\<lambda>buf.
        if nat p1 \<ge> NDIG then Some (buf[NDIG - 1 := Some 0], r2)
        else
          Option.bind (rd buf (nat p1)) (\<lambda>c.
          Option.bind (cvt_round eflag (nat p1) (nat p1) r2 (buf[nat p1 := Some (c + 5)])) (\<lambda>(decpt, p, buf).
          if p < NDIG then Some (buf[p := Some 0], decpt) else None))))"

definition ap_cvt :: "double \<Rightarrow> int \<Rightarrow> bool \<Rightarrow> (cvt_buf \<times> int \<times> bool) option" where
  "ap_cvt arg ndigits eflag =
     (let ndigits = (if ndigits \<ge> int NDIG - 1 then int NDIG - 2 else ndigits);
          sign = lt_zero arg;
          (arg, fi) = modf (if sign then neg arg else arg)
      in Option.bind (cvt_start arg fi) (\<lambda>(arg, p, r2, buf).
         map_option (\<lambda>(buf, decpt). (buf, decpt, sign)) (cvt_end eflag ndigits arg p r2 buf)))"

definition ap_ecvt where "ap_ecvt arg ndigits = ap_cvt arg ndigits True"
definition ap_fcvt where "ap_fcvt arg ndigits = ap_cvt arg ndigits False"

section \<open>Texts\<close>

definition code_char :: "int \<Rightarrow> char" where
  "code_char c = char_of (nat (c mod 256))"

text \<open>The characters from a position on, and the C string there.\<close>

fun rds :: "cvt_buf \<Rightarrow> nat list \<Rightarrow> int list option" where
  "rds buf [] = Some []"
| "rds buf (i # is) = Option.bind (rd buf i) (\<lambda>c. map_option (Cons c) (rds buf is))"

fun rd_str :: "cvt_buf \<Rightarrow> int list option" where
  "rd_str [] = None"
| "rd_str (c # buf) = Option.bind c (\<lambda>c. if c = 0 then Some [] else map_option (Cons c) (rd_str buf))"

text \<open>Trailing zeroes are not counted as digits.\<close>

fun strip_zeroes :: "cvt_buf \<Rightarrow> nat \<Rightarrow> nat \<Rightarrow> nat option" where
  "strip_zeroes buf 0 ndigit = Some ndigit"
| "strip_zeroes buf (Suc i) ndigit =
     Option.bind (rd buf (Suc i)) (\<lambda>c. if c = 48 then strip_zeroes buf i (ndigit - 1) else Some ndigit)"

text \<open>The two styles of \<^verbatim>\<open>ap_gcvt\<close>, from the digits that are left.\<close>

definition gcvt_exp :: "int list \<Rightarrow> int \<Rightarrow> int list" where
  "gcvt_exp ds decpt =
     (let decpt = decpt - 1; e = \<bar>decpt\<bar>
      in [hd ds, 46] @ tl ds @ [101, if decpt < 0 then 45 else 43]
         @ (if e div 100 > 0 then [e div 100 + 48] else []) @ (if e div 10 > 0 then [(e mod 100) div 10 + 48] else []) @ [e mod 10 + 48])"

definition gcvt_fix :: "int list \<Rightarrow> int \<Rightarrow> int list" where
  "gcvt_fix ds decpt =
     (let n = int (length ds);
          pre = (if decpt \<le> 0 then (if hd ds \<noteq> 48 then [46] else []) @ replicate (nat (- decpt)) 48 else []);
          decpt = max decpt 0
      in pre @ (if 1 \<le> decpt \<and> decpt \<le> n then take (nat decpt) ds @ [46] @ drop (nat decpt) ds else ds)
         @ (if n < decpt then replicate (nat (decpt - n)) 48 @ [46] else []))"

definition ap_gcvt :: "double \<Rightarrow> int \<Rightarrow> bool \<Rightarrow> int list option" where
  "ap_gcvt number ndigit altform =
     Option.bind (ap_ecvt number ndigit) (\<lambda>(p1, decpt, sign).
     Option.bind (strip_zeroes p1 (nat ndigit - 1) (nat ndigit)) (\<lambda>ndigit.
     Option.bind (rds p1 [0..<ndigit]) (\<lambda>ds.
       let out = (if sign then [45] else [])
             @ (if decpt \<ge> 0 \<and> decpt - int ndigit > 4 \<or> decpt < 0 \<and> decpt < -3 then gcvt_exp ds decpt else gcvt_fix ds decpt)
       in Some (if last out = 46 \<and> \<not> altform then butlast out else out))))"

text \<open>\<^verbatim>\<open>%g\<close> and \<^verbatim>\<open>%G\<close>: the text and whether it has a minus sign in front.\<close>

definition conv_g :: "char \<Rightarrow> double \<Rightarrow> bool \<Rightarrow> int \<Rightarrow> (string \<times> bool) option" where
  "conv_g format num alternate_form precision =
     Option.bind (ap_gcvt num precision alternate_form) (\<lambda>out.
       let s = map code_char (takeWhile (\<lambda>c. c \<noteq> 0) out);
           is_negative = (s \<noteq> [] \<and> hd s = CHR ''-'');
           s = (if is_negative then tl s else s);
           s = (if alternate_form \<and> CHR ''.'' \<notin> set s then s @ ''.'' else s);
           s = (if format = CHR ''G'' then (case dropWhile (\<lambda>c. c \<noteq> CHR ''e'') s of [] \<Rightarrow> s
                  | _ # rest \<Rightarrow> takeWhile (\<lambda>c. c \<noteq> CHR ''e'') s @ CHR ''E'' # rest) else s)
       in Some (s, is_negative))"

definition isalpha :: "int \<Rightarrow> bool" where
  "isalpha c \<longleftrightarrow> 65 \<le> c \<and> c \<le> 90 \<or> 97 \<le> c \<and> c \<le> 122"

text \<open>The exponent of the \<^verbatim>\<open>e\<close> format.\<close>

definition exp_text :: "char \<Rightarrow> int \<Rightarrow> string option" where
  "exp_text format decimal_point =
     (let decimal_point = decimal_point - 1 in
      if decimal_point \<noteq> 0 then
        Option.bind (conv_10 (word_of_int decimal_point) False []) (\<lambda>(p, exponent_is_negative).
          Some ([format, if exponent_is_negative then CHR ''-'' else CHR ''+''] @ (if length p = 1 then ''0'' else []) @ p))
      else Some (format # ''+00''))"

definition conv_fp :: "char \<Rightarrow> double \<Rightarrow> bool \<Rightarrow> int \<Rightarrow> (string \<times> bool) option" where
  "conv_fp format num add_dp precision =
     Option.bind (if format = CHR ''f'' then ap_fcvt num precision else ap_ecvt num (precision + 1)) (\<lambda>(p, decimal_point, is_negative).
     Option.bind (rd p 0) (\<lambda>c.
     if isalpha c then map_option (\<lambda>s. (map code_char (take (NUM_BUF_SIZE - 2) s), False)) (rd_str p)
     else if format = CHR ''f'' then
       if decimal_point \<le> 0 then
         map_option (\<lambda>rest. ((if precision > 0 then ''0.'' @ replicate (nat (- decimal_point)) CHR ''0''
                              else if add_dp then ''0.'' else ''0'') @ map code_char rest, is_negative))
           (rd_str p)
       else
         Option.bind (rds p [0..<nat decimal_point]) (\<lambda>ds.
         map_option (\<lambda>rest. (map code_char ds @ (if precision > 0 \<or> add_dp then ''.'' else []) @ map code_char rest, is_negative))
           (rd_str (drop (nat decimal_point) p)))
     else
       Option.bind (rd_str (drop 1 p)) (\<lambda>rest.
       map_option (\<lambda>ex. (code_char c # (if precision > 0 \<or> add_dp then ''.'' else []) @ map code_char rest @ ex, is_negative))
         (exp_text format decimal_point))))"

end
