(* ===== verification/Fmt_Output.thy ===== *)
theory Fmt_Output
  imports Fmt_Float
begin

text \<open>
  Formatted output (\<^verbatim>\<open>common/FmtOutput.h\<close>, \<^verbatim>\<open>common/FmtOutput.cpp\<close>): the conversions of addresses, the interpreter of format strings, and the
  outputs it writes to; the conversions of numbers are in \<^verbatim>\<open>Fmt_Numbers\<close> and \<^verbatim>\<open>Fmt_Float\<close>.  A write before the beginning of \<^verbatim>\<open>num_buf\<close>, an argument of
  another type than the one \<^verbatim>\<open>va_arg\<close> asks for and an overflow of \<^verbatim>\<open>int\<close> are \<open>None\<close>.
\<close>

section \<open>Addresses\<close>

definition conv_ip_addr :: "u32 \<Rightarrow> string \<Rightarrow> string option" where
  "conv_ip_addr addr p =
     Option.bind (conv_10 (ucast (addr AND 0x000000FF)) True p) (\<lambda>(p, _).
     Option.bind (prepend CHR ''.'' p) (\<lambda>p.
     Option.bind (conv_10 (ucast (drop_bit 8 (addr AND 0x0000FF00))) True p) (\<lambda>(p, _).
     Option.bind (prepend CHR ''.'' p) (\<lambda>p.
     Option.bind (conv_10 (ucast (drop_bit 16 (addr AND 0x00FF0000))) True p) (\<lambda>(p, _).
     Option.bind (prepend CHR ''.'' p) (\<lambda>p.
     Option.bind (conv_10 (ucast (drop_bit 24 (addr AND 0xFF000000))) True p) (\<lambda>(p, _). Some p)))))))"

text \<open>The bytes are given last one first; the last separator written is skipped.\<close>

fun conv_ip_addr_aux :: "byte list \<Rightarrow> string \<Rightarrow> string option" where
  "conv_ip_addr_aux [] buf_end = Some (tl buf_end)"
| "conv_ip_addr_aux (b # bs) buf_end =
     Option.bind (conv_10 (ucast b) True buf_end) (\<lambda>(buf_end, _).
     Option.bind (prepend CHR ''.'' buf_end) (conv_ip_addr_aux bs))"

text \<open>The longest run of zero words, as first and last index; \<open>-1\<close> for none.\<close>

type_synonym zeroes = "int \<times> int"

fun zeroes_step :: "zeroes \<times> zeroes \<Rightarrow> nat \<times> u16 \<Rightarrow> zeroes \<times> zeroes" where
  "zeroes_step ((cs, ce), (bs, be)) (i, w) =
     (if w = 0 then (if cs < 0 then ((int i, int i), (bs, be)) else ((cs, ce + 1), (bs, be)))
      else if cs \<ge> 0 then ((-1, ce), if bs < 0 \<or> be - bs < ce - cs then (cs, ce) else (bs, be))
      else ((cs, ce), (bs, be)))"

definition longest_zeroes :: "u16 list \<Rightarrow> zeroes" where
  "longest_zeroes ws =
     (let ((cs, ce), (bs, be)) = foldl zeroes_step ((-1, -1), (-1, -1)) (zip [0..<8] ws);
          (bs, be) = (if cs \<ge> 0 \<and> (bs < 0 \<or> be - bs < ce - cs) then (cs, ce) else (bs, be))
      in if bs = be then (-1, -1) else (bs, be))"

text \<open>The loop over the words from the last one to the first; eight turns are enough.\<close>

fun ipv6_words :: "nat \<Rightarrow> u16 list \<Rightarrow> zeroes \<Rightarrow> int \<Rightarrow> string \<Rightarrow> string option" where
  "ipv6_words 0 ws z i s = (if i < 0 then Some s else None)"
| "ipv6_words (Suc k) ws (bs, be) i s =
     (if i < 0 then Some s
      else
        let skip = (be = i); i = (if skip then bs - 1 else i) in
        Option.bind (if skip then prepend CHR '':'' s else Some s) (\<lambda>s.
        if skip \<and> i < 0 then prepend CHR '':'' s
        else
          Option.bind (if i \<noteq> 7 then prepend CHR '':'' s else Some s) (\<lambda>s.
          Option.bind (conv_p2 (ucast (ws ! nat i)) 4 CHR ''x'' s) (\<lambda>s. ipv6_words k ws (bs, be) (i - 1) s))))"

definition ipv6_parts :: "byte list \<Rightarrow> u16 list" where
  "ipv6_parts addr = map (\<lambda>i. push_bit 8 (ucast (addr ! (2 * i))) OR ucast (addr ! (2 * i + 1))) [0..<8]"

definition conv_ipv6_addr :: "byte list \<Rightarrow> bool \<Rightarrow> string \<Rightarrow> string option" where
  "conv_ipv6_addr addr plain_v4mapped s =
     (if length addr < 16 then None
      else
        let ws = ipv6_parts addr;
            (bs, be) = longest_zeroes ws
        in if bs = 0 \<and> (be = 4 \<and> ws ! 5 = 0xFFFF \<or> be > 4 \<and> (ws ! 6 \<noteq> 0 \<or> ws ! 7 > 1)) then
             Option.bind (conv_ip_addr_aux (rev (take 4 (drop 12 addr))) s) (\<lambda>s.
             if ws ! 5 \<noteq> 0 \<and> plain_v4mapped then Some s
             else
               Option.bind (if ws ! 5 \<noteq> 0
                            then Option.bind (prepend CHR '':'' s) (\<lambda>s. Option.bind (prepend CHR ''f'' s) (\<lambda>s.
                                 Option.bind (prepend CHR ''f'' s) (\<lambda>s. Option.bind (prepend CHR ''f'' s) (prepend CHR ''f''))))
                            else Some s)
                 (\<lambda>s. Option.bind (prepend CHR '':'' s) (prepend CHR '':'')))
           else ipv6_words 8 ws (bs, be) 7 s)"

section \<open>Arguments and conversion specifications\<close>

text \<open>
  Variable arguments: an integer of \<^verbatim>\<open>int\<close> size, one of \<^verbatim>\<open>long\<close> size, a string, a \<^verbatim>\<open>double\<close>, a pointer with the bytes it points to, the
  address of a variable for \<^verbatim>\<open>%n\<close>.
\<close>

datatype fmt_arg = FInt u32 | FLong u64 | FDouble double | FStr "string option" | FPtr u64 "byte list" | FOut nat

type_synonym fmt_args = "fmt_arg list"

fun arg_int :: "fmt_args \<Rightarrow> (u32 \<times> fmt_args) option" where
  "arg_int (FInt v # ap) = Some (v, ap)"
| "arg_int _ = None"

fun arg_long :: "fmt_args \<Rightarrow> (u64 \<times> fmt_args) option" where
  "arg_long (FLong v # ap) = Some (v, ap)"
| "arg_long _ = None"

fun arg_double :: "fmt_args \<Rightarrow> (double \<times> fmt_args) option" where
  "arg_double (FDouble v # ap) = Some (v, ap)"
| "arg_double _ = None"

fun arg_str :: "fmt_args \<Rightarrow> (string option \<times> fmt_args) option" where
  "arg_str (FStr v # ap) = Some (v, ap)"
| "arg_str _ = None"

fun arg_ptr :: "fmt_args \<Rightarrow> (u64 \<times> byte list \<times> fmt_args) option" where
  "arg_ptr (FPtr v bs # ap) = Some (v, bs, ap)"
| "arg_ptr _ = None"

fun arg_out :: "fmt_args \<Rightarrow> (nat \<times> fmt_args) option" where
  "arg_out (FOut a # ap) = Some (a, ap)"
| "arg_out _ = None"

datatype var_type_enum = IS_QUAD | IS_LONG | IS_SHORT | IS_INT

record fmt_spec =
  adjust_left :: bool
  alternate_form :: bool
  print_sign :: bool
  print_blank :: bool
  pad_zero :: bool
  adjust_width :: "int option"
  adjust_precision :: "int option"
  var_type :: var_type_enum

definition default_spec :: fmt_spec where
  "default_spec = \<lparr>adjust_left = False, alternate_form = False, print_sign = False, print_blank = False, pad_zero = False,
     adjust_width = None, adjust_precision = None, var_type = IS_INT\<rparr>"

definition ap_islower :: "char \<Rightarrow> bool" where
  "ap_islower c \<longleftrightarrow> CHR ''a'' \<le> c \<and> c \<le> CHR ''z''"

fun parse_flags :: "string \<Rightarrow> fmt_spec \<Rightarrow> fmt_spec \<times> string" where
  "parse_flags [] sp = (sp, [])"
| "parse_flags (c # fmt) sp =
     (if c = CHR ''-'' then parse_flags fmt (sp\<lparr>adjust_left := True\<rparr>)
      else if c = CHR ''+'' then parse_flags fmt (sp\<lparr>print_sign := True\<rparr>)
      else if c = CHR ''#'' then parse_flags fmt (sp\<lparr>alternate_form := True\<rparr>)
      else if c = CHR '' '' then parse_flags fmt (sp\<lparr>print_blank := True\<rparr>)
      else if c = CHR ''0'' then parse_flags fmt (sp\<lparr>pad_zero := True\<rparr>)
      else (sp, c # fmt))"

text \<open>\<^verbatim>\<open>STR_TO_DEC\<close>, started with 0 at a digit.\<close>

fun STR_TO_DEC :: "string \<Rightarrow> int \<Rightarrow> (int \<times> string) option" where
  "STR_TO_DEC [] num = Some (num, [])"
| "STR_TO_DEC (c # str) num =
     (if isdigit c then
        let num = num * 10 + int (of_char c - 48) in if num > INT_MAX then None else STR_TO_DEC str num
      else Some (num, c # str))"

text \<open>Looking at \<^verbatim>\<open>*fmt\<close>; the end of the list is the null character.\<close>

definition next_is :: "char \<Rightarrow> string \<Rightarrow> bool" where
  "next_is ch fmt \<longleftrightarrow> (case fmt of [] \<Rightarrow> False | c # _ \<Rightarrow> c = ch)"

definition next_isdigit :: "string \<Rightarrow> bool" where
  "next_isdigit fmt \<longleftrightarrow> (case fmt of [] \<Rightarrow> False | c # _ \<Rightarrow> isdigit c)"

definition parse_width :: "string \<Rightarrow> fmt_args \<Rightarrow> fmt_spec \<Rightarrow> (fmt_spec \<times> string \<times> fmt_args) option" where
  "parse_width fmt ap sp =
     (if next_isdigit fmt then
        map_option (\<lambda>(n, fmt). (sp\<lparr>adjust_width := Some n\<rparr>, fmt, ap)) (STR_TO_DEC fmt 0)
      else if next_is CHR ''*'' fmt then
        Option.bind (arg_int ap) (\<lambda>(v, ap).
          if sint v < 0 then
            if - sint v > INT_MAX then None
            else Some (sp\<lparr>adjust_left := True, adjust_width := Some (- sint v)\<rparr>, tl fmt, ap)
          else Some (sp\<lparr>adjust_width := Some (sint v)\<rparr>, tl fmt, ap))
      else Some (sp, fmt, ap))"

definition parse_precision :: "string \<Rightarrow> fmt_args \<Rightarrow> fmt_spec \<Rightarrow> (fmt_spec \<times> string \<times> fmt_args) option" where
  "parse_precision fmt ap sp =
     (if next_is CHR ''.'' fmt then
        let fmt = tl fmt in
        if next_isdigit fmt then
          map_option (\<lambda>(n, fmt). (sp\<lparr>adjust_precision := Some n\<rparr>, fmt, ap)) (STR_TO_DEC fmt 0)
        else if next_is CHR ''*'' fmt then
          map_option (\<lambda>(v, ap). (sp\<lparr>adjust_precision := Some (if sint v < 0 then 0 else sint v)\<rparr>, tl fmt, ap)) (arg_int ap)
        else Some (sp\<lparr>adjust_precision := Some 0\<rparr>, fmt, ap)
      else Some (sp, fmt, ap))"

definition parse_modifier :: "string \<Rightarrow> fmt_spec \<Rightarrow> fmt_spec \<times> string" where
  "parse_modifier fmt sp =
     (if next_is CHR ''q'' fmt then (sp\<lparr>var_type := IS_QUAD\<rparr>, tl fmt)
      else if next_is CHR ''l'' fmt then
        if next_is CHR ''l'' (tl fmt) then (sp\<lparr>var_type := IS_QUAD\<rparr>, tl (tl fmt)) else (sp\<lparr>var_type := IS_LONG\<rparr>, tl fmt)
      else if next_is CHR ''h'' fmt then (sp\<lparr>var_type := IS_SHORT\<rparr>, tl fmt)
      else (sp\<lparr>var_type := IS_INT\<rparr>, fmt))"

text \<open>From the character after \<^verbatim>\<open>%\<close> up to the conversion character.\<close>

definition parse_spec :: "string \<Rightarrow> fmt_args \<Rightarrow> (fmt_spec \<times> string \<times> fmt_args) option" where
  "parse_spec fmt ap =
     (if (case fmt of [] \<Rightarrow> False | c # _ \<Rightarrow> ap_islower c) then
        case parse_modifier fmt default_spec of (sp, fmt) \<Rightarrow> Some (sp, fmt, ap)
      else
        case parse_flags fmt default_spec of (sp, fmt) \<Rightarrow>
        Option.bind (parse_width fmt ap sp) (\<lambda>(sp, fmt, ap).
        Option.bind (parse_precision fmt ap sp) (\<lambda>(sp, fmt, ap).
        case parse_modifier fmt sp of (sp, fmt) \<Rightarrow> Some (sp, fmt, ap))))"

section \<open>Conversions\<close>

definition num_arg :: "bool \<Rightarrow> var_type_enum \<Rightarrow> fmt_args \<Rightarrow> (u64 \<times> fmt_args) option" where
  "num_arg is_unsigned vt ap = (case vt of
      IS_QUAD \<Rightarrow> arg_long ap
    | IS_LONG \<Rightarrow> arg_long ap
    | IS_SHORT \<Rightarrow> map_option (\<lambda>(v, ap). (if is_unsigned then ucast (ucast v :: u16) else scast (ucast v :: u16), ap)) (arg_int ap)
    | IS_INT \<Rightarrow> map_option (\<lambda>(v, ap). (if is_unsigned then ucast v else scast v, ap)) (arg_int ap))"

definition FIX_PRECISION :: "int option \<Rightarrow> string \<Rightarrow> string option" where
  "FIX_PRECISION adjust s = (case adjust of None \<Rightarrow> Some s
     | Some precision \<Rightarrow>
         if int (length s) < precision then
           if nat precision \<le> NUM_BUF_SIZE then Some (replicate (nat precision - length s) CHR ''0'' @ s) else None
         else Some s)"

definition cut_precision :: "int option \<Rightarrow> string \<Rightarrow> string" where
  "cut_precision adjust s = (case adjust of None \<Rightarrow> s
     | Some precision \<Rightarrow> if precision < int (length s) then take (nat precision) s else s)"

definition sign_prefix :: "fmt_spec \<Rightarrow> bool \<Rightarrow> char option" where
  "sign_prefix sp is_negative =
     (if is_negative then Some CHR ''-'' else if print_sign sp then Some CHR ''+''
      else if print_blank sp then Some CHR '' '' else None)"

text \<open>Extensions: handlers get the pointer and return the text; the table has an entry for every letter.\<close>

type_synonym ext_table = "nat \<Rightarrow> (byte list \<Rightarrow> string) option"

definition EXTENSION_IS_OK :: "char \<Rightarrow> bool" where
  "EXTENSION_IS_OK ch \<longleftrightarrow> CHR ''A'' \<le> ch \<and> ch \<le> CHR ''Z'' \<or> CHR ''a'' \<le> ch \<and> ch \<le> CHR ''z''"

definition EXTENSION_IDX :: "char \<Rightarrow> nat" where
  "EXTENSION_IDX ch = (if ch \<le> CHR ''Z'' then of_char ch - 65 else of_char ch - 97 + 90 - 65 + 1)"

definition registerFormatExt :: "char \<Rightarrow> (byte list \<Rightarrow> string) \<Rightarrow> ext_table \<Rightarrow> ext_table \<times> bool" where
  "registerFormatExt ext handler table =
     (if EXTENSION_IS_OK ext \<and> table (EXTENSION_IDX ext) = None then (table(EXTENSION_IDX ext \<mapsto> handler), True)
      else (table, False))"

text \<open>
  The result of a conversion: a text with the sign to be put before it and whether it is padded with zeroes; a number of characters to be
  stored at an address; or the end of the format string.
\<close>

datatype fmt_conv = ConvText string "char option" bool | ConvStore nat | ConvEnd

text \<open>\<^verbatim>\<open>%p\<close> with its second character.\<close>

definition conv_pointer :: "ext_table \<Rightarrow> fmt_spec \<Rightarrow> string \<Rightarrow> fmt_args \<Rightarrow> (fmt_conv \<times> string \<times> fmt_args) option" where
  "conv_pointer ext sp fmt ap =
     (case fmt of [] \<Rightarrow> Some (ConvEnd, [], ap)
      | c # fmt \<Rightarrow>
          if c = CHR ''p'' then
            Option.bind (arg_ptr ap) (\<lambda>(v, _, ap).
            Option.bind (conv_p2 v 4 CHR ''x'' []) (\<lambda>s. Some (ConvText s None False, fmt, ap)))
          else if c = CHR ''A'' \<or> c = CHR ''a'' then
            Option.bind (arg_long ap) (\<lambda>(v, ap).
            Option.bind (conv_ip_addr (if c = CHR ''A'' then ntohl (ucast v) else ucast v) []) (\<lambda>s.
            Some (ConvText (cut_precision (adjust_precision sp) s) None False, fmt, ap)))
          else if c = CHR ''B'' \<or> c = CHR ''b'' then
            Option.bind (arg_ptr ap) (\<lambda>(_, bs, ap).
            Option.bind (conv_ipv6_addr bs (c = CHR ''b'') []) (\<lambda>s.
            Some (ConvText (cut_precision (adjust_precision sp) s) None False, fmt, ap)))
          else
            Option.bind (arg_ptr ap) (\<lambda>(_, bs, ap).
            case if EXTENSION_IS_OK c then ext (EXTENSION_IDX c) else None of
              Some handler \<Rightarrow> Some (ConvText (cut_precision (adjust_precision sp) (handler bs)) None False, fmt, ap)
            | None \<Rightarrow> Some (ConvText ''bogus %p'' None (pad_zero sp), fmt, ap)))"

text \<open>
  The \<^verbatim>\<open>switch\<close> over the conversion character.  \<open>i_num\<close> keeps the last decimal argument over the conversions of one call:
  \<^verbatim>\<open>%#x\<close> looks at it instead of at its own argument.
\<close>

definition conv_arg :: "ext_table \<Rightarrow> u64 \<Rightarrow> fmt_spec \<Rightarrow> string \<Rightarrow> fmt_args \<Rightarrow> (fmt_conv \<times> u64 \<times> string \<times> fmt_args) option" where
  "conv_arg ext i_num sp fmt ap =
     (case fmt of [] \<Rightarrow> Some (ConvEnd, i_num, [], ap)
      | c # fmt \<Rightarrow>
          if c = CHR ''u'' then
            Option.bind (num_arg True (var_type sp) ap) (\<lambda>(v, ap).
            Option.bind (if var_type sp = IS_QUAD then conv_10_quad v True [] else conv_10 v True []) (\<lambda>(s, _).
            Option.bind (FIX_PRECISION (adjust_precision sp) s) (\<lambda>s.
            Some (ConvText s None (pad_zero sp), if var_type sp = IS_QUAD then i_num else v, fmt, ap))))
          else if c = CHR ''d'' \<or> c = CHR ''i'' then
            Option.bind (num_arg False (var_type sp) ap) (\<lambda>(v, ap).
            Option.bind (if var_type sp = IS_QUAD then conv_10_quad v False [] else conv_10 v False []) (\<lambda>(s, is_negative).
            Option.bind (FIX_PRECISION (adjust_precision sp) s) (\<lambda>s.
            Some (ConvText s (sign_prefix sp is_negative) (pad_zero sp), if var_type sp = IS_QUAD then i_num else v, fmt, ap))))
          else if c = CHR ''o'' then
            Option.bind (num_arg True (var_type sp) ap) (\<lambda>(v, ap).
            Option.bind (if var_type sp = IS_QUAD then conv_p2_quad v 3 c [] else conv_p2 v 3 c []) (\<lambda>s.
            Option.bind (FIX_PRECISION (adjust_precision sp) s) (\<lambda>s.
            Option.bind (if alternate_form sp \<and> hd s \<noteq> CHR ''0'' then prepend CHR ''0'' s else Some s) (\<lambda>s.
            Some (ConvText s None (pad_zero sp), i_num, fmt, ap)))))
          else if c = CHR ''x'' \<or> c = CHR ''X'' then
            Option.bind (num_arg True (var_type sp) ap) (\<lambda>(v, ap).
            Option.bind (if var_type sp = IS_QUAD then conv_p2_quad v 4 c [] else conv_p2 v 4 c []) (\<lambda>s.
            Option.bind (FIX_PRECISION (adjust_precision sp) s) (\<lambda>s.
            Option.bind (if alternate_form sp \<and> i_num \<noteq> 0 then Option.bind (prepend c s) (prepend CHR ''0'') else Some s) (\<lambda>s.
            Some (ConvText s None (pad_zero sp), i_num, fmt, ap)))))
          else if c = CHR ''s'' then
            Option.bind (arg_str ap) (\<lambda>(v, ap).
            Some (ConvText (case v of Some s \<Rightarrow> cut_precision (adjust_precision sp) s | None \<Rightarrow> ''(null)'') None False, i_num, fmt, ap))
          else if c = CHR ''f'' \<or> c = CHR ''e'' \<or> c = CHR ''E'' then
            Option.bind (arg_double ap) (\<lambda>(fp_num, ap).
            Option.bind (conv_fp c fp_num (alternate_form sp) (case adjust_precision sp of None \<Rightarrow> FLOAT_DIGITS | Some p \<Rightarrow> p))
              (\<lambda>(s, is_negative). Some (ConvText s (sign_prefix sp is_negative) (pad_zero sp), i_num, fmt, ap)))
          else if c = CHR ''g'' \<or> c = CHR ''G'' then
            Option.bind (arg_double ap) (\<lambda>(fp_num, ap).
            Option.bind (conv_g c fp_num (alternate_form sp)
                (case adjust_precision sp of None \<Rightarrow> FLOAT_DIGITS | Some p \<Rightarrow> if p = 0 then 1 else p))
              (\<lambda>(s, is_negative). Some (ConvText s (sign_prefix sp is_negative) (pad_zero sp), i_num, fmt, ap)))
          else if c = CHR ''c'' then
            Option.bind (arg_int ap) (\<lambda>(v, ap). Some (ConvText [char_of (unat v)] None False, i_num, fmt, ap))
          else if c = CHR ''%'' then Some (ConvText ''%'' None False, i_num, fmt, ap)
          else if c = CHR ''n'' then
            Option.bind (arg_out ap) (\<lambda>(a, ap). Some (ConvStore a, i_num, fmt, ap))
          else if c = CHR ''p'' then
            Option.bind (conv_pointer ext sp fmt ap) (\<lambda>(r, fmt, ap). Some (r, i_num, fmt, ap))
          else Some (ConvText [CHR ''%'', c] None False, i_num, fmt, ap))"

text \<open>The characters of a field: sign, padding and text in the order they are put out.  An empty text is not padded.\<close>

definition field_text :: "fmt_spec \<Rightarrow> string \<Rightarrow> char option \<Rightarrow> bool \<Rightarrow> string option" where
  "field_text sp s prefix_char zero =
     Option.bind (case prefix_char of None \<Rightarrow> Some s | Some ch \<Rightarrow> prepend ch s) (\<lambda>s.
     Some (case adjust_width sp of None \<Rightarrow> s
       | Some min_width \<Rightarrow>
           if s \<noteq> [] \<and> min_width > int (length s) then
             let padding = replicate (nat min_width - length s) (if zero then CHR ''0'' else CHR '' '') in
             if adjust_left sp then s @ padding
             else if zero \<and> prefix_char \<noteq> None then hd s # padding @ tl s
             else padding @ s
           else s))"

text \<open>One \<^verbatim>\<open>%\<close> of the format string: what it puts out or stores, and the rest.\<close>

datatype fmt_item = ItemText string | ItemStore nat | ItemEnd

definition fmt_item :: "ext_table \<Rightarrow> u64 \<Rightarrow> string \<Rightarrow> fmt_args \<Rightarrow> (fmt_item \<times> u64 \<times> string \<times> fmt_args) option" where
  "fmt_item ext i_num fmt ap =
     Option.bind (parse_spec fmt ap) (\<lambda>(sp, fmt, ap).
     Option.bind (conv_arg ext i_num sp fmt ap) (\<lambda>(r, i_num, fmt, ap).
     case r of
       ConvText s prefix_char zero \<Rightarrow> map_option (\<lambda>t. (ItemText t, i_num, fmt, ap)) (field_text sp s prefix_char zero)
     | ConvStore a \<Rightarrow> Some (ItemStore a, i_num, fmt, ap)
     | ConvEnd \<Rightarrow> Some (ItemEnd, i_num, fmt, ap)))"

lemma parse_flags_shorter: "parse_flags fmt sp = (sp', fmt') \<Longrightarrow> length fmt' \<le> length fmt"
  by (induction fmt sp rule: parse_flags.induct) (auto split: if_splits)

lemma STR_TO_DEC_shorter: "STR_TO_DEC fmt n = Some (n', fmt') \<Longrightarrow> length fmt' \<le> length fmt"
  by (induction fmt n rule: STR_TO_DEC.induct) (auto simp: Let_def split: if_splits)

text \<open>A parser that leaves at most \<open>n\<close> characters; the rest is a component of its result that \<open>f\<close> picks.\<close>

definition leaves :: "nat \<Rightarrow> ('a \<Rightarrow> string) \<Rightarrow> 'a option \<Rightarrow> bool" where
  "leaves n f m \<longleftrightarrow> (\<forall>x. m = Some x \<longrightarrow> length (f x) \<le> n)"

lemma leavesI: "(\<And>x. m = Some x \<Longrightarrow> length (f x) \<le> n) \<Longrightarrow> leaves n f m"
  by (simp add: leaves_def)

lemma leaves_rules:
  "leaves n f None"
  "length (f x) \<le> n \<Longrightarrow> leaves n f (Some x)"
  "(P \<Longrightarrow> leaves n f m1) \<Longrightarrow> (\<not> P \<Longrightarrow> leaves n f m2) \<Longrightarrow> leaves n f (if P then m1 else m2)"
  "(\<And>x. m = Some x \<Longrightarrow> leaves n f (g x)) \<Longrightarrow> leaves n f (Option.bind m g)"
  "(\<And>x y. p = (x, y) \<Longrightarrow> leaves n f (h x y)) \<Longrightarrow> leaves n f (case p of (x, y) \<Rightarrow> h x y)"
  "(\<And>x. m = Some x \<Longrightarrow> length (f (k x)) \<le> n) \<Longrightarrow> leaves n f (map_option k m)"
  by (auto simp: leaves_def bind_eq_Some_conv split: if_splits prod.splits)

abbreviation spec_rest :: "fmt_spec \<times> string \<times> fmt_args \<Rightarrow> string" where
  "spec_rest \<equiv> \<lambda>x. fst (snd x)"

abbreviation conv_rest :: "'r \<times> u64 \<times> string \<times> fmt_args \<Rightarrow> string" where
  "conv_rest \<equiv> \<lambda>x. fst (snd (snd x))"

lemma parse_width_leaves: "leaves (length fmt) spec_rest (parse_width fmt ap sp)"
  unfolding parse_width_def by (intro leaves_rules) (auto dest: STR_TO_DEC_shorter)

lemma parse_precision_leaves: "leaves (length fmt) spec_rest (parse_precision fmt ap sp)"
  unfolding parse_precision_def Let_def by (intro leaves_rules) (auto dest!: STR_TO_DEC_shorter)

lemma parse_modifier_shorter: "parse_modifier fmt sp = (sp', fmt') \<Longrightarrow> length fmt' \<le> length fmt"
  by (auto simp: parse_modifier_def split: if_splits)

lemma parse_spec_shorter:
  assumes "parse_spec fmt ap = Some x"
  shows "length (spec_rest x) \<le> length fmt"
proof -
  have "leaves (length fmt) spec_rest (parse_spec fmt ap)"
    unfolding parse_spec_def
  proof (intro leaves_rules)
    fix sp fmt' assume "parse_modifier fmt default_spec = (sp, fmt')"
    then show "length (spec_rest (sp, fmt', ap)) \<le> length fmt" using parse_modifier_shorter by simp
  next
    fix sp1 f1 x2 sp2 y2 f2 ap2 x3 sp3 y3 f3 ap3 sp4 f4
    assume "parse_flags fmt default_spec = (sp1, f1)" "parse_width f1 ap sp1 = Some x2" "x2 = (sp2, y2)" "y2 = (f2, ap2)"
      "parse_precision f2 ap2 sp2 = Some x3" "x3 = (sp3, y3)" "y3 = (f3, ap3)" "parse_modifier f3 sp3 = (sp4, f4)"
    then show "length (spec_rest (sp4, f4, ap3)) \<le> length fmt"
      using parse_flags_shorter[of fmt] parse_width_leaves[of f1 ap sp1] parse_precision_leaves[of f2 ap2 sp2] parse_modifier_shorter[of f3 sp3]
      unfolding leaves_def by fastforce
  qed
  then show ?thesis using assms by (simp add: leaves_def)
qed

lemma conv_pointer_shorter:
  assumes "conv_pointer ext sp fmt ap = Some x"
  shows "length (fst (snd x)) \<le> length fmt"
proof (cases fmt)
  case (Cons c f)
  have "leaves (length fmt) (\<lambda>x. fst (snd x)) (conv_pointer ext sp fmt ap)"
    unfolding conv_pointer_def Cons list.case option.case_eq_if by (intro leaves_rules) simp_all
  then show ?thesis using assms by (simp add: leaves_def)
qed (use assms in \<open>auto simp: conv_pointer_def\<close>)

lemma conv_arg_shorter:
  assumes "conv_arg ext i sp fmt ap = Some x"
  shows "length (conv_rest x) \<le> length fmt"
proof (cases fmt)
  case (Cons c f)
  have "leaves (length fmt) conv_rest (conv_arg ext i sp fmt ap)"
    unfolding conv_arg_def Cons list.case by (intro leaves_rules) (auto dest: conv_pointer_shorter)
  then show ?thesis using assms by (simp add: leaves_def)
qed (use assms in \<open>auto simp: conv_arg_def\<close>)

lemma fmt_item_shorter:
  assumes "fmt_item ext i fmt ap = Some (r, i', fmt', ap')"
  shows "length fmt' \<le> length fmt"
proof -
  obtain sp f a where spec: "parse_spec fmt ap = Some (sp, f, a)" using assms by (auto simp: fmt_item_def bind_eq_Some_conv)
  then obtain x i2 f2 a2 where conv: "conv_arg ext i sp f a = Some (x, i2, f2, a2)"
    using assms by (auto simp: fmt_item_def bind_eq_Some_conv)
  have "f2 = fmt'" using assms spec conv by (cases x) (auto simp: fmt_item_def)
  then show ?thesis using parse_spec_shorter[OF spec] conv_arg_shorter[OF conv] by simp
qed

section \<open>The interpreter of format strings\<close>

text \<open>\<^verbatim>\<open>INS_CHAR\<close> for the characters of a text: the first one that \<^verbatim>\<open>putCh\<close> refuses ends the call.\<close>

fun INS_CHARS :: "('s \<Rightarrow> char \<Rightarrow> bool \<times> 's) \<Rightarrow> string \<Rightarrow> 's \<Rightarrow> nat \<Rightarrow> bool \<times> 's \<times> nat" where
  "INS_CHARS putCh [] s cc = (True, s, cc)"
| "INS_CHARS putCh (c # cs) s cc =
     (case putCh s c of (ok, s) \<Rightarrow> if ok then INS_CHARS putCh cs s (Suc cc) else (False, s, cc))"

function esl_vformatter ::
  "('s \<Rightarrow> char \<Rightarrow> bool \<times> 's) \<Rightarrow> ext_table \<Rightarrow> u64 \<Rightarrow> string \<Rightarrow> fmt_args \<Rightarrow> 's \<Rightarrow> nat \<Rightarrow> (nat \<times> nat) list
     \<Rightarrow> ('s \<times> nat \<times> (nat \<times> nat) list) option" where
  "esl_vformatter putCh ext i_num [] ap s cc stores = Some (s, cc, stores)"
| "esl_vformatter putCh ext i_num (c # fmt) ap s cc stores =
     (if c \<noteq> CHR ''%'' then
        case INS_CHARS putCh [c] s cc of (ok, s, cc) \<Rightarrow>
          if ok then esl_vformatter putCh ext i_num fmt ap s cc stores else Some (s, cc, stores)
      else
        case fmt_item ext i_num fmt ap of None \<Rightarrow> None
        | Some (ItemText t, i_num, fmt, ap) \<Rightarrow>
            (case INS_CHARS putCh t s cc of (ok, s, cc) \<Rightarrow>
               if ok then esl_vformatter putCh ext i_num fmt ap s cc stores else Some (s, cc, stores))
        | Some (ItemStore a, i_num, fmt, ap) \<Rightarrow> esl_vformatter putCh ext i_num fmt ap s cc (stores @ [(a, cc)])
        | Some (ItemEnd, _) \<Rightarrow> Some (s, cc, stores))"
  by pat_completeness auto
termination
  by (relation "measure (\<lambda>(putCh, ext, i, fmt, ap, s, cc, st). length fmt)")
     (auto dest: fmt_item_shorter)

section \<open>Outputs\<close>

text \<open>
  What the interpreter relies on when it calls \<^verbatim>\<open>putCh\<close> of a derived class: a character is appended or, when there is no room, refused without
  any effect; \<open>room\<close> is \<open>None\<close> for an output without a bound.
\<close>

locale fmt_output =
  fixes putCh :: "'s \<Rightarrow> char \<Rightarrow> bool \<times> 's"
    and written :: "'s \<Rightarrow> string"
    and room :: "'s \<Rightarrow> nat option"
    and valid :: "'s \<Rightarrow> bool"
  assumes put_ok: "valid s \<Longrightarrow> room s \<noteq> Some 0 \<Longrightarrow>
      \<exists>s'. putCh s c = (True, s') \<and> valid s' \<and> written s' = written s @ [c] \<and> room s' = map_option (\<lambda>n. n - 1) (room s)"
    and put_full: "valid s \<Longrightarrow> room s = Some 0 \<Longrightarrow> putCh s c = (False, s)"
begin

definition accepted :: "'s \<Rightarrow> string \<Rightarrow> string" where
  "accepted s t = (case room s of None \<Rightarrow> t | Some n \<Rightarrow> take n t)"

definition wrote :: "'s \<Rightarrow> string \<Rightarrow> 's \<Rightarrow> bool" where
  "wrote s t s' \<longleftrightarrow> valid s' \<and> written s' = written s @ accepted s t \<and> room s' = map_option (\<lambda>n. n - length t) (room s)"

lemma accepted_Nil [simp]: "accepted s [] = []"
  by (simp add: accepted_def split: option.split)

lemma wrote_Nil: "valid s \<Longrightarrow> wrote s [] s"
  by (cases "room s") (simp_all add: wrote_def accepted_def)

lemma wrote_append:
  assumes "wrote s t s1" and "wrote s1 u s2"
  shows "wrote s (t @ u) s2"
  using assms by (cases "room s") (simp_all add: wrote_def accepted_def)

lemma accepted_append:
  assumes "wrote s t s1" and "accepted s t = t"
  shows "accepted s (t @ u) = t @ accepted s1 u"
  using assms by (cases "room s") (auto simp: wrote_def accepted_def)

lemma accepted_cut: "accepted s t \<noteq> t \<Longrightarrow> accepted s (t @ u) = accepted s t"
  by (cases "room s") (auto simp: accepted_def)

lemma wrote_cut: "wrote s t s' \<Longrightarrow> accepted s t \<noteq> t \<Longrightarrow> wrote s (t @ u) s'"
  by (cases "room s") (auto simp: wrote_def accepted_def)

lemma INS_CHARS_writes:
  assumes "valid s"
  shows "\<exists>s'. INS_CHARS putCh t s cc = (accepted s t = t, s', cc + length (accepted s t)) \<and> wrote s t s'"
  using assms
proof (induction t arbitrary: s cc)
  case Nil
  then show ?case using wrote_Nil by simp
next
  case (Cons c t)
  show ?case
  proof (cases "room s = Some 0")
    case True
    then show ?thesis using put_full[OF Cons.prems True, of c] Cons.prems by (simp add: accepted_def wrote_def)
  next
    case False
    obtain s1 where s1: "putCh s c = (True, s1)" "valid s1" "written s1 = written s @ [c]"
        "room s1 = map_option (\<lambda>n. n - 1) (room s)"
      using put_ok[OF Cons.prems False, of c] by blast
    obtain s2 where s2: "INS_CHARS putCh t s1 (Suc cc) = (accepted s1 t = t, s2, Suc cc + length (accepted s1 t))" "wrote s1 t s2"
      using Cons.IH[OF s1(2)] by blast
    have "accepted s (c # t) = c # accepted s1 t" using False s1(4) by (auto simp: accepted_def take_Cons' split: option.splits)
    moreover have "wrote s (c # t) s2"
      using s2(2) s1(3,4) calculation by (cases "room s") (auto simp: wrote_def)
    ultimately show ?thesis using s1(1) s2(1) by (intro exI[of _ s2]) simp
  qed
qed

end

text \<open>\<^verbatim>\<open>CFmtString\<close>\<close>

definition CFmtString_putCh :: "string \<Rightarrow> char \<Rightarrow> bool \<times> string" where
  "CFmtString_putCh s c = (True, s @ [c])"

interpretation fmt_string: fmt_output CFmtString_putCh "\<lambda>s. s" "\<lambda>_. None" "\<lambda>_. True"
  by unfold_locales (simp_all add: CFmtString_putCh_def)

lemma INS_CHARS_string [simp]: "INS_CHARS CFmtString_putCh t r cc = (True, r @ t, cc + length t)"
  by (induction t arbitrary: r cc) (simp_all add: CFmtString_putCh_def)

lemma esl_item:
  "esl_vformatter putCh ext i (CHR ''%'' # fmt) ap s cc st = (case fmt_item ext i fmt ap of None \<Rightarrow> None
     | Some (ItemText t, i, fmt, ap) \<Rightarrow>
         (case INS_CHARS putCh t s cc of (ok, s, cc) \<Rightarrow> if ok then esl_vformatter putCh ext i fmt ap s cc st else Some (s, cc, st))
     | Some (ItemStore a, i, fmt, ap) \<Rightarrow> esl_vformatter putCh ext i fmt ap s cc (st @ [(a, cc)])
     | Some (ItemEnd, _) \<Rightarrow> Some (s, cc, st))"
  by simp

lemma esl_char:
  "c \<noteq> CHR ''%'' \<Longrightarrow> esl_vformatter putCh ext i (c # fmt) ap s cc st = (case INS_CHARS putCh [c] s cc of
     (ok, s, cc) \<Rightarrow> if ok then esl_vformatter putCh ext i fmt ap s cc st else Some (s, cc, st))"
  by simp

declare esl_vformatter.simps(2) [simp del]

context fmt_output
begin

text \<open>The interpreter on any output compared with the same call on a string, which never refuses a character.\<close>

definition matches :: "'s \<Rightarrow> string \<Rightarrow> nat \<Rightarrow> ('s \<times> nat \<times> 'w) option \<Rightarrow> string \<times> nat \<times> 'w \<Rightarrow> bool" where
  "matches s r cc m x \<longleftrightarrow> (\<exists>t s' st2. fst x = r @ t \<and> fst (snd x) = cc + length t \<and> m = Some (s', cc + length (accepted s t), st2)
     \<and> wrote s t s' \<and> (accepted s t = t \<longrightarrow> st2 = snd (snd x)))"

lemma matches_text:
  assumes "\<And>s1. valid s1 \<Longrightarrow> matches s1 (r @ u) (cc + length u) (f s1 (cc + length u)) x" and "valid s"
  shows "matches s r cc (case INS_CHARS putCh u s cc of (ok, s, cc) \<Rightarrow> if ok then f s cc else Some (s, cc, st)) x"
proof -
  obtain s1 where s1: "INS_CHARS putCh u s cc = (accepted s u = u, s1, cc + length (accepted s u))" "wrote s u s1"
    using INS_CHARS_writes[OF assms(2)] by blast
  then have "valid s1" by (simp add: wrote_def)
  then obtain t s2 st2 where t: "fst x = r @ u @ t" "fst (snd x) = cc + length u + length t"
      "f s1 (cc + length u) = Some (s2, cc + length u + length (accepted s1 t), st2)" "wrote s1 t s2"
      "accepted s1 t = t \<Longrightarrow> st2 = snd (snd x)"
    using assms(1) unfolding matches_def by fastforce
  show ?thesis
  proof (cases "accepted s u = u")
    case True
    then show ?thesis
      unfolding matches_def using t s1 wrote_append[OF s1(2) t(4)] accepted_append[OF s1(2) True, of t]
      by (intro exI[of _ "u @ t"] exI[of _ s2] exI[of _ st2]) auto
  next
    case False
    then have "accepted s u \<noteq> u @ t"
      by (cases "room s") (auto simp: accepted_def dest: arg_cong[where f = length])
    then show ?thesis
      unfolding matches_def using t s1 False wrote_cut[OF s1(2) False] accepted_cut[OF False]
      by (intro exI[of _ "u @ t"] exI[of _ s1] exI[of _ st]) auto
  qed
qed

lemma formatter_writes:
  assumes "esl_vformatter CFmtString_putCh ext i fmt ap r cc st = Some x" and "valid s"
  shows "matches s r cc (esl_vformatter putCh ext i fmt ap s cc st) x"
  using assms
proof (induction fmt arbitrary: i ap r cc st s rule: length_induct)
  case (1 fmt)
  have IH: "matches s r cc (esl_vformatter putCh ext i fmt' ap s cc st) x"
    if "length fmt' < length fmt" "esl_vformatter CFmtString_putCh ext i fmt' ap r cc st = Some x" "valid s" for fmt' i ap r cc st s
    using 1(1) that by blast
  show ?case
  proof (cases fmt)
    case Nil
    then show ?thesis using 1 wrote_Nil unfolding matches_def by (intro exI[of _ "[]"]) auto
  next
    case (Cons c f)
    show ?thesis
    proof (cases "c = CHR ''%''")
      case False
      have "matches s1 (r @ [c]) (cc + length [c]) (esl_vformatter putCh ext i f ap s1 (cc + length [c]) st) x" if "valid s1" for s1
        using IH[OF _ _ that] 1(2) False by (simp add: Cons esl_char del: INS_CHARS.simps)
      from matches_text[where f = "\<lambda>s cc. esl_vformatter putCh ext i f ap s cc st", OF this 1(3)]
      show ?thesis unfolding Cons esl_char[OF False] .
    next
      case True
      obtain it i2 f2 ap2 where item: "fmt_item ext i f ap = Some (it, i2, f2, ap2)"
        using 1(2) unfolding Cons True esl_item by (cases "fmt_item ext i f ap") auto
      then have len: "length f2 < length fmt" using fmt_item_shorter Cons by fastforce
      show ?thesis
      proof (cases it)
        case (ItemText t)
        have "matches s1 (r @ t) (cc + length t) (esl_vformatter putCh ext i2 f2 ap2 s1 (cc + length t) st) x" if "valid s1" for s1
          using IH[OF len _ that] 1(2) unfolding Cons True esl_item item ItemText by simp
        from matches_text[where f = "\<lambda>s cc. esl_vformatter putCh ext i2 f2 ap2 s cc st", OF this 1(3)]
        show ?thesis unfolding Cons True esl_item item ItemText by simp
      next
        case (ItemStore a)
        then show ?thesis using IH[OF len _ 1(3)] 1(2) unfolding Cons True esl_item item by simp
      next
        case ItemEnd
        then show ?thesis
          using 1(2,3) wrote_Nil unfolding Cons True esl_item item matches_def by (intro exI[of _ "[]"]) auto
      qed
    qed
  qed
qed

end

section \<open>Calls on an output\<close>

definition printfNoFlush_p ::
  "('s \<Rightarrow> char \<Rightarrow> bool \<times> 's) \<Rightarrow> ext_table \<Rightarrow> string \<Rightarrow> fmt_args \<Rightarrow> 's \<Rightarrow> ('s \<times> nat \<times> (nat \<times> nat) list) option" where
  "printfNoFlush_p putCh ext format ap s = esl_vformatter putCh ext 0 format ap s 0 []"

definition vprintf ::
  "('s \<Rightarrow> char \<Rightarrow> bool \<times> 's) \<Rightarrow> ('s \<Rightarrow> 's) \<Rightarrow> ext_table \<Rightarrow> string \<Rightarrow> fmt_args \<Rightarrow> 's \<Rightarrow> ('s \<times> nat \<times> (nat \<times> nat) list) option" where
  "vprintf putCh flush ext format ap s = map_option (\<lambda>(s, r). (flush s, r)) (esl_vformatter putCh ext 0 format ap s 0 [])"

definition fmt_puts :: "('s \<Rightarrow> char \<Rightarrow> bool \<times> 's) \<Rightarrow> ('s \<Rightarrow> 's) \<Rightarrow> ext_table \<Rightarrow> string \<Rightarrow> 's \<Rightarrow> ('s \<times> nat \<times> (nat \<times> nat) list) option" where
  "fmt_puts putCh flush ext str s = vprintf putCh flush ext ''%s'' [FStr (Some str)] s"

text \<open>The loop of \<^verbatim>\<open>printDump\<close>; header, separator and end are used as format strings, and the counts are ignored.\<close>

definition no_flush :: "('s \<Rightarrow> char \<Rightarrow> bool \<times> 's) \<Rightarrow> ext_table \<Rightarrow> string \<Rightarrow> fmt_args \<Rightarrow> 's \<Rightarrow> 's option" where
  "no_flush putCh ext format ap s = map_option fst (printfNoFlush_p putCh ext format ap s)"

fun dump_loop :: "('s \<Rightarrow> char \<Rightarrow> bool \<times> 's) \<Rightarrow> ext_table \<Rightarrow> string \<Rightarrow> bool \<Rightarrow> byte list \<Rightarrow> 's \<Rightarrow> 's option" where
  "dump_loop putCh ext separator first [] s = Some s"
| "dump_loop putCh ext separator first (b # bs) s =
     Option.bind (if first then Some s else no_flush putCh ext separator [] s) (\<lambda>s.
     Option.bind (no_flush putCh ext ''%02x'' [FInt (ucast b)] s) (dump_loop putCh ext separator False bs))"

definition printDump ::
  "('s \<Rightarrow> char \<Rightarrow> bool \<times> 's) \<Rightarrow> ('s \<Rightarrow> 's) \<Rightarrow> ext_table \<Rightarrow> byte list \<Rightarrow> string \<Rightarrow> string option \<Rightarrow> string option \<Rightarrow> 's \<Rightarrow> 's option" where
  "printDump putCh flush ext array separator hdrStr endStr s =
     Option.bind (case hdrStr of None \<Rightarrow> Some s | Some h \<Rightarrow> no_flush putCh ext h [] s) (\<lambda>s.
     Option.bind (dump_loop putCh ext separator True array s) (\<lambda>s.
     Option.bind (case endStr of None \<Rightarrow> Some s | Some h \<Rightarrow> no_flush putCh ext h [] s) (\<lambda>s. Some (flush s))))"

definition printMac :: "('s \<Rightarrow> char \<Rightarrow> bool \<times> 's) \<Rightarrow> ('s \<Rightarrow> 's) \<Rightarrow> ext_table \<Rightarrow> byte list \<Rightarrow> 's \<Rightarrow> 's option" where
  "printMac putCh flush ext mac s = printDump putCh flush ext (take 8 mac) ''-'' None None s"

text \<open>\<^verbatim>\<open>CFmtBufferWrap\<close>: \<open>fb_cp\<close> is \<^verbatim>\<open>cp - bp\<close>, and \<^verbatim>\<open>ep\<close> is the last character of the buffer.\<close>

record CFmtBufferWrap =
  fb_buf :: string
  fb_cp :: nat

definition NUL :: char where "NUL = CHR 0x00"

definition fb_clear :: "CFmtBufferWrap \<Rightarrow> CFmtBufferWrap option" where
  "fb_clear b = (if fb_buf b = [] then None
     else Some (b\<lparr>fb_cp := 0, fb_buf := (fb_buf b)[0 := NUL, length (fb_buf b) - 1 := NUL]\<rparr>))"

definition new_CFmtBufferWrap :: "string \<Rightarrow> CFmtBufferWrap option" where
  "new_CFmtBufferWrap buffer = fb_clear \<lparr>fb_buf = buffer, fb_cp = 0\<rparr>"

definition fb_putCh :: "CFmtBufferWrap \<Rightarrow> char \<Rightarrow> bool \<times> CFmtBufferWrap" where
  "fb_putCh b c = (if fb_cp b \<ge> length (fb_buf b) - 1 then (False, b)
     else (True, b\<lparr>fb_buf := (fb_buf b)[fb_cp b := c], fb_cp := fb_cp b + 1\<rparr>))"

definition fb_flush :: "CFmtBufferWrap \<Rightarrow> CFmtBufferWrap" where
  "fb_flush b = (if fb_cp b < length (fb_buf b) - 1 then b\<lparr>fb_buf := (fb_buf b)[fb_cp b := NUL]\<rparr> else b)"

definition fb_str :: "CFmtBufferWrap \<Rightarrow> string" where
  "fb_str b = takeWhile (\<lambda>c. c \<noteq> NUL) (fb_buf b)"

definition fb_valid :: "CFmtBufferWrap \<Rightarrow> bool" where
  "fb_valid b \<longleftrightarrow> fb_cp b < length (fb_buf b) \<and> fb_buf b ! (length (fb_buf b) - 1) = NUL"

definition fb_written :: "CFmtBufferWrap \<Rightarrow> string" where "fb_written b = take (fb_cp b) (fb_buf b)"

definition fb_room :: "CFmtBufferWrap \<Rightarrow> nat option" where "fb_room b = Some (length (fb_buf b) - 1 - fb_cp b)"

lemmas fb_defs = fb_valid_def fb_written_def fb_room_def fb_putCh_def fb_flush_def

interpretation fmt_buffer: fmt_output fb_putCh fb_written fb_room fb_valid
proof
  fix s c
  assume v: "fb_valid s" and r: "fb_room s \<noteq> Some 0"
  then have l: "Suc (fb_cp s) < length (fb_buf s)" by (auto simp: fb_defs)
  let ?s = "s\<lparr>fb_buf := (fb_buf s)[fb_cp s := c], fb_cp := fb_cp s + 1\<rparr>"
  have "fb_putCh s c = (True, ?s)" "fb_valid ?s" "fb_written ?s = fb_written s @ [c]" "fb_room ?s = map_option (\<lambda>n. n - 1) (fb_room s)"
    using v l by (simp_all add: fb_defs take_Suc_conv_app_nth)
  then show "\<exists>s'. fb_putCh s c = (True, s') \<and> fb_valid s' \<and> fb_written s' = fb_written s @ [c]
      \<and> fb_room s' = map_option (\<lambda>n. n - 1) (fb_room s)" by blast
qed (auto simp: fb_defs)

text \<open>\<^verbatim>\<open>CFmtFile\<close>: 512 characters are collected; \<open>ff_ok\<close> tells whether \<^verbatim>\<open>fwrite\<close> on the file succeeds.\<close>

definition FF_BUFSZ :: nat where "FF_BUFSZ = 512"

record CFmtFile =
  ff_fd :: string
  ff_ok :: bool
  ff_buf :: string

definition ff_flush :: "CFmtFile \<Rightarrow> bool \<times> CFmtFile" where
  "ff_flush f =
     (let data = ff_buf f; f = f\<lparr>ff_buf := []\<rparr>
      in if data \<noteq> [] \<and> \<not> ff_ok f then (False, f) else (True, f\<lparr>ff_fd := ff_fd f @ data\<rparr>))"

definition ff_putCh :: "CFmtFile \<Rightarrow> char \<Rightarrow> bool \<times> CFmtFile" where
  "ff_putCh f c =
     (case if length (ff_buf f) > FF_BUFSZ - 1 then ff_flush f else (True, f) of
        (ok, f) \<Rightarrow> if ok then (True, f\<lparr>ff_buf := ff_buf f @ [c]\<rparr>) else (False, f))"

interpretation fmt_file: fmt_output ff_putCh "\<lambda>f. ff_fd f @ ff_buf f" "\<lambda>_. None" "\<lambda>f. ff_ok f \<and> length (ff_buf f) \<le> FF_BUFSZ"
  by unfold_locales (auto simp: ff_putCh_def ff_flush_def FF_BUFSZ_def Let_def)

end
