(* ===== verification/Fmt_Text.thy ===== *)
theory Fmt_Text
  imports Fmt_Output
begin

text \<open>
  Texts made with the formatted output: several calls of \<^verbatim>\<open>printf\<close> on one output, the hexadecimal and decimal texts of
  \<^verbatim>\<open>common/common.cpp\<close> and what reading them back gives.
\<close>

section \<open>Several calls\<close>

fun printfs :: "('s \<Rightarrow> char \<Rightarrow> bool \<times> 's) \<Rightarrow> ('s \<Rightarrow> 's) \<Rightarrow> ext_table \<Rightarrow> (string \<times> fmt_args) list \<Rightarrow> 's \<Rightarrow> ('s \<times> nat list) option" where
  "printfs putCh flush ext [] s = Some (s, [])"
| "printfs putCh flush ext ((format, ap) # calls) s =
     (case vprintf putCh flush ext format ap s of None \<Rightarrow> None
      | Some (s, cc, _) \<Rightarrow> map_option (\<lambda>(s, ccs). (s, cc # ccs)) (printfs putCh flush ext calls s))"

text \<open>
  An output with its \<^verbatim>\<open>flush\<close>, which does not change what has been written and makes it visible to the reader of the output.
\<close>

locale fmt_printer = fmt_output putCh written room valid
  for putCh :: "'s \<Rightarrow> char \<Rightarrow> bool \<times> 's" and written :: "'s \<Rightarrow> string" and room :: "'s \<Rightarrow> nat option" and valid :: "'s \<Rightarrow> bool" +
  fixes flush :: "'s \<Rightarrow> 's" and visible :: "'s \<Rightarrow> bool"
  assumes flush_keeps: "valid s \<Longrightarrow> valid (flush s) \<and> written (flush s) = written s \<and> room (flush s) = room s"
    and flush_shows: "valid s \<Longrightarrow> visible (flush s)"
begin

lemma wrote_flush: "wrote s t s' \<Longrightarrow> wrote s t (flush s')"
  using flush_keeps by (simp add: wrote_def)

lemma vprintf_writes:
  assumes "vprintf CFmtString_putCh (\<lambda>r. r) ext fmt ap r = Some (r', cc, st)" and "valid s"
  shows "\<exists>t s' st2. r' = r @ t \<and> cc = length t \<and> vprintf putCh flush ext fmt ap s = Some (s', length (accepted s t), st2)
    \<and> wrote s t s' \<and> visible s'"
proof -
  have "esl_vformatter CFmtString_putCh ext 0 fmt ap r 0 [] = Some (r', cc, st)" using assms(1) by (auto simp: vprintf_def)
  from formatter_writes[OF this assms(2)] obtain t s1 st2 where t: "r' = r @ t" "cc = length t"
      "esl_vformatter putCh ext 0 fmt ap s 0 [] = Some (s1, length (accepted s t), st2)" "wrote s t s1"
    by (auto simp: matches_def)
  then have "visible (flush s1)" using flush_shows by (simp add: wrote_def)
  then show ?thesis using t wrote_flush[OF t(4)] by (auto simp: vprintf_def)
qed

lemma printfs_writes:
  assumes "printfs CFmtString_putCh (\<lambda>r. r) ext calls r = Some (r', ccs)" and "valid s" and "visible s"
  shows "\<exists>t s' ccs'. r' = r @ t \<and> sum_list ccs = length t \<and> printfs putCh flush ext calls s = Some (s', ccs')
    \<and> wrote s t s' \<and> visible s' \<and> sum_list ccs' = length (accepted s t)"
  using assms
proof (induction calls arbitrary: r s ccs)
  case Nil
  then show ?case using wrote_Nil by (intro exI[of _ "[]"]) auto
next
  case (Cons call calls)
  obtain fmt ap where call: "call = (fmt, ap)" by fastforce
  obtain r1 cc st ccs1 where r1: "vprintf CFmtString_putCh (\<lambda>r. r) ext fmt ap r = Some (r1, cc, st)"
      "printfs CFmtString_putCh (\<lambda>r. r) ext calls r1 = Some (r', ccs1)" "ccs = cc # ccs1"
    using Cons.prems(1) unfolding call by (auto split: option.splits)
  obtain t s1 st2 where t: "r1 = r @ t" "cc = length t" "vprintf putCh flush ext fmt ap s = Some (s1, length (accepted s t), st2)"
      "wrote s t s1" "visible s1"
    using vprintf_writes[OF r1(1) Cons.prems(2)] by blast
  then have "valid s1" by (simp add: wrote_def)
  from Cons.IH[OF r1(2) this t(5)] obtain u s2 ccs2 where u: "r' = r1 @ u" "sum_list ccs1 = length u"
      "printfs putCh flush ext calls s1 = Some (s2, ccs2)" "wrote s1 u s2" "visible s2" "sum_list ccs2 = length (accepted s1 u)"
    by blast
  have "length (accepted s (t @ u)) = length (accepted s t) + length (accepted s1 u)"
  proof -
    have "written s2 = written s @ accepted s t @ accepted s1 u" "written s2 = written s @ accepted s (t @ u)"
      using t(4) u(4) wrote_append[OF t(4) u(4)] by (simp_all add: wrote_def)
    then show ?thesis by simp
  qed
  then show ?case
    using t u r1(3) wrote_append[OF t(4) u(4)] by (intro exI[of _ "t @ u"] exI[of _ s2] exI[of _ "length (accepted s t) # ccs2"])
      (auto simp: call)
qed

lemma no_flush_writes:
  assumes "no_flush CFmtString_putCh ext fmt ap [] = Some t" and "valid s"
  shows "\<exists>s'. no_flush putCh ext fmt ap s = Some s' \<and> wrote s t s'"
proof -
  obtain x where x: "esl_vformatter CFmtString_putCh ext 0 fmt ap [] 0 [] = Some x" "fst x = t"
    using assms(1) by (auto simp: no_flush_def printfNoFlush_p_def)
  from formatter_writes[OF x(1) assms(2)] show ?thesis
    using x(2) by (auto simp: matches_def no_flush_def printfNoFlush_p_def)
qed

end

interpretation fmt_string_printer: fmt_printer CFmtString_putCh "\<lambda>s. s" "\<lambda>_. None" "\<lambda>_. True" "\<lambda>s. s" "\<lambda>_. True"
  by unfold_locales simp_all

text \<open>The reader of a buffer sees the text up to the first null character, the reader of a file what is in the file.\<close>

definition fb_closed :: "CFmtBufferWrap \<Rightarrow> bool" where
  "fb_closed b \<longleftrightarrow> fb_valid b \<and> fb_buf b ! fb_cp b = NUL"

interpretation fmt_buffer_printer: fmt_printer fb_putCh fb_written fb_room fb_valid fb_flush fb_closed
proof
  show "fb_closed (fb_flush b)" if "fb_valid b" for b
    using that by (cases "fb_cp b = length (fb_buf b) - 1") (auto simp: fb_closed_def fb_defs nth_list_update)
qed (auto simp: fb_defs nth_list_update)

interpretation fmt_file_printer:
  fmt_printer ff_putCh "\<lambda>f. ff_fd f @ ff_buf f" "\<lambda>_. None" "\<lambda>f. ff_ok f \<and> length (ff_buf f) \<le> FF_BUFSZ" "\<lambda>f. snd (ff_flush f)"
    "\<lambda>f. ff_buf f = []"
  by unfold_locales (auto simp: ff_flush_def FF_BUFSZ_def Let_def)

section \<open>Buffers\<close>

lemma new_buffer:
  assumes "buffer \<noteq> []"
  shows "\<exists>b. new_CFmtBufferWrap buffer = Some b \<and> fb_closed b \<and> fb_written b = [] \<and> fb_room b = Some (length buffer - 1)"
  using assms by (auto simp: new_CFmtBufferWrap_def fb_clear_def fb_closed_def fb_defs nth_list_update)

lemma fb_str_written:
  assumes "fb_closed b" and "NUL \<notin> set (fb_written b)"
  shows "fb_str b = fb_written b"
proof -
  have l: "fb_cp b < length (fb_buf b)" using assms(1) by (simp add: fb_closed_def fb_valid_def)
  have "fb_buf b = take (fb_cp b) (fb_buf b) @ NUL # drop (Suc (fb_cp b)) (fb_buf b)"
    using l assms(1) id_take_nth_drop[OF l] by (simp add: fb_closed_def)
  moreover have "takeWhile (\<lambda>c. c \<noteq> NUL) (take (fb_cp b) (fb_buf b) @ NUL # zs) = take (fb_cp b) (fb_buf b)" for zs
    using assms(2) by (subst takeWhile_append2) (auto simp: fb_written_def)
  ultimately show ?thesis unfolding fb_str_def fb_written_def by metis
qed

text \<open>What a buffer of a given size holds after a text has been written to it.\<close>

lemma buffer_holds:
  assumes "fb_closed b0" and "fb_written b0 = []" and "fb_room b0 = Some n" and "fmt_buffer.wrote b0 t b" and "fb_closed b"
    and "NUL \<notin> set t"
  shows "fb_str b = take n t" and "length (fb_buf b) = Suc n" and "fb_cp b = length (take n t)"
proof -
  have w: "fb_written b = take n t" "fb_room b = Some (n - length t)" "fb_valid b"
    using assms(2-4) by (simp_all add: fmt_buffer.wrote_def fmt_buffer.accepted_def)
  show "fb_str b = take n t" using fb_str_written[OF assms(5)] w(1) assms(6) by (auto dest: in_set_takeD)
  have "fb_cp b = length (fb_written b)" using w(3) by (simp add: fb_defs)
  then show "fb_cp b = length (take n t)" using w(1) by simp
  then show "length (fb_buf b) = Suc n" using w(2,3) by (auto simp: fb_defs)
qed

text \<open>
  Claim C37.  Formatted output into a buffer is safe and truncates: whatever calls of \<^verbatim>\<open>printf\<close> are made on a buffer of any size greater than
  zero, nothing is written outside of it, and afterwards it holds, terminated by a null character, the longest part that fits of the text
  the same calls make in an unbounded string; the counts returned add up to the number of characters stored.\<close>

theorem fmt_buffer_truncates:
  assumes "buffer \<noteq> []" and "printfs CFmtString_putCh (\<lambda>r. r) ext calls [] = Some (txt, ccs)" and "NUL \<notin> set txt"
  shows "\<exists>b0 b ccs'. new_CFmtBufferWrap buffer = Some b0 \<and> printfs fb_putCh fb_flush ext calls b0 = Some (b, ccs')
    \<and> length (fb_buf b) = length buffer \<and> fb_str b = take (length buffer - 1) txt \<and> sum_list ccs' = length (fb_str b)"
proof -
  obtain b0 where b0: "new_CFmtBufferWrap buffer = Some b0" "fb_closed b0" "fb_written b0 = []" "fb_room b0 = Some (length buffer - 1)"
    using new_buffer[OF assms(1)] by blast
  then have "fb_valid b0" by (simp add: fb_closed_def)
  from fmt_buffer_printer.printfs_writes[OF assms(2) this b0(2)] obtain b ccs' where b: "printfs fb_putCh fb_flush ext calls b0 = Some (b, ccs')"
      "fmt_buffer.wrote b0 txt b" "fb_closed b" "sum_list ccs' = length (fmt_buffer.accepted b0 txt)"
    by auto
  show ?thesis
    using b0(1,4) b(1,4) buffer_holds[OF b0(2-4) b(2,3) assms(3)] assms(1)
    by (intro exI[of _ b0] exI[of _ b] exI[of _ ccs']) (simp add: fmt_buffer.accepted_def Suc_leI)
qed

theorem fmt_buffer_truncates_witness:
  "\<exists>b0 b ccs'. new_CFmtBufferWrap (replicate 8 CHR ''?'') = Some b0
     \<and> printfs fb_putCh fb_flush (\<lambda>_. None) [(''Line %d; '', [FInt 1]), (''%05d'', [FInt (- 7)])] b0 = Some (b, ccs')
     \<and> fb_str b = ''Line 1;''"
proof -
  have p: "printfs CFmtString_putCh (\<lambda>r. r) (\<lambda>_. None) [(''Line %d; '', [FInt 1]), (''%05d'', [FInt (- 7)])] []
      = Some (''Line 1; -0007'', [8, 5])" by code_simp
  have "NUL \<notin> set ''Line 1; -0007''" by code_simp
  from fmt_buffer_truncates[OF _ p this, of "replicate 8 CHR ''?''"] show ?thesis by auto
qed

section \<open>Hexadecimal dumps\<close>

lemma low_digit:
  assumes "b < 16"
  shows "low_digits ! unat b = hex_digit b"
proof -
  have "list_all (\<lambda>n. low_digits ! n = hex_digit (word_of_nat n)) [0..<16]" by code_simp
  moreover have "unat b < 16" using assms by (simp add: word_less_nat_alt)
  ultimately have "low_digits ! unat b = hex_digit (word_of_nat (unat b))" unfolding list_all_iff by simp
  then show ?thesis by simp
qed

lemma hex_digit_not_NUL:
  assumes "b < 16"
  shows "hex_digit b \<noteq> NUL"
proof -
  have "unat b < length low_digits" using assms by (simp add: word_less_nat_alt low_digits_def)
  then have "hex_digit b \<in> set low_digits" using low_digit[OF assms] nth_mem by metis
  moreover have "NUL \<notin> set low_digits" by code_simp
  ultimately show ?thesis by metis
qed

lemma conv_p2_byte:
  "conv_p2 (ucast b) 4 CHR ''x'' [] = Some (if drop_bit 4 b = 0 then [hex_digit (b AND 0xF)] else hex_byte b)" for b :: byte
proof -
  let ?v = "ucast b :: u64"
  have m: "push_bit 4 1 - 1 = (0xF :: u64)" by simp
  have u: "unat x < 256" for x :: byte by (rule order_less_le_trans[OF unsigned_less]) simp
  have lo: "unat (?v AND 0xF) = unat (b AND 0xF)"
    using u[of b] by (simp add: unsigned_and_eq unsigned_ucast_eq take_bit_nat_eq_self)
  have nib: "bit b (4 + k) \<Longrightarrow> k < 4" for k using bit_imp_le_length[of b "4 + k"] by simp
  have nib8: "\<not> bit b (8 + k)" for k using bit_imp_le_length[of b "8 + k"] by auto
  have hi: "drop_bit 4 ?v = ucast (drop_bit 4 b)"
    by (rule bit_word_eqI) (auto simp: bit_simps dest: nib)
  have f: "(0xF :: u64) = mask 4" by (simp add: mask_eq_exp_minus_1)
  have "ucast (drop_bit 4 b) AND (0xF :: u64) = ucast (drop_bit 4 b)"
    unfolding f by (rule bit_word_eqI) (auto simp: bit_simps dest: nib)
  moreover have "unat (ucast (drop_bit 4 b) :: u64) = unat (drop_bit 4 b)"
    using u[of "drop_bit 4 b"] by (simp only: unsigned_ucast_eq) (simp add: take_bit_nat_eq_self)
  moreover have "drop_bit 4 (ucast (drop_bit 4 b) :: u64) = 0"
    by (rule bit_word_eqI) (auto simp: bit_simps nib8)
  ultimately have hi2: "unat (ucast (drop_bit 4 b) AND (0xF :: u64)) = unat (drop_bit 4 b)" "drop_bit 4 (ucast (drop_bit 4 b) :: u64) = 0"
    by simp_all
  have "unat (ucast (drop_bit 4 b) :: u64) = unat (drop_bit 4 b)"
    using u[of "drop_bit 4 b"] by (simp only: unsigned_ucast_eq) (simp add: take_bit_nat_eq_self)
  then have z: "(ucast (drop_bit 4 b) :: u64) = 0 \<longleftrightarrow> drop_bit 4 b = 0" by (metis unat_eq_zero)
  show ?thesis
    using low_digit[OF nibbles(1), of b] low_digit[OF nibbles(2), of b]
    by (simp add: conv_p2_def conv_p2_loop.simps[of ?v] conv_p2_loop.simps[of "ucast (drop_bit 4 b)"] m lo hi hi2 z Let_def prepend_def NUM_BUF_SIZE_def hex_byte_def)
qed

lemma hex_item: "fmt_item ext i ''02x'' [FInt (ucast b)] = Some (ItemText (hex_byte b), i, [], [])" for b :: byte
proof -
  have spec: "parse_spec ''02x'' ap = Some (default_spec\<lparr>pad_zero := True, adjust_width := Some 2\<rparr>, ''x'', ap)" for ap
    by (simp add: parse_spec_def ap_islower_def parse_width_def parse_precision_def parse_modifier_def next_is_def next_isdigit_def isdigit_def
        default_spec_def INT_MAX_def less_char_def less_eq_char_def)
  have "ucast (ucast b :: u32) = (ucast b :: u64)"
    by (rule bit_word_eqI) (auto simp: bit_simps dest: bit_imp_le_length)
  moreover have "hex_digit 0 = CHR ''0''" by code_simp
  ultimately show ?thesis
    unfolding fmt_item_def spec by (simp add: conv_arg_def num_arg_def default_spec_def FIX_PRECISION_def conv_p2_byte field_text_def hex_byte_def)
qed

lemma no_flush_hex: "no_flush CFmtString_putCh ext ''%02x'' [FInt (ucast b)] [] = Some (hex_byte b)" for b :: byte
  by (simp add: no_flush_def printfNoFlush_p_def esl_item hex_item)

lemma esl_plain:
  "CHR ''%'' \<notin> set fmt \<Longrightarrow> esl_vformatter CFmtString_putCh ext i fmt ap r cc st = Some (r @ fmt, cc + length fmt, st)"
  by (induction fmt arbitrary: r cc) (auto simp: esl_char simp del: INS_CHARS.simps)

context fmt_printer
begin

text \<open>A dump on any output: the text is the same, as far as there is room for it.\<close>

lemma dump_loop_writes:
  assumes "CHR ''%'' \<notin> set sep" and "valid s"
  shows "\<exists>s'. dump_loop putCh ext sep first bs s = Some s'
    \<and> wrote s (if first then hex_text sep bs else concat (map (\<lambda>b. sep @ hex_byte b) bs)) s'"
  using assms(2)
proof (induction bs arbitrary: first s)
  case Nil
  then show ?case using wrote_Nil by simp
next
  case (Cons b bs)
  let ?sep = "if first then [] else sep"
  have "\<exists>s1. (if first then Some s else no_flush putCh ext sep [] s) = Some s1 \<and> wrote s ?sep s1"
    using no_flush_writes[of ext sep "[]" sep s] esl_plain[OF assms(1), of ext 0 "[]" "[]"] wrote_Nil Cons.prems
    by (auto simp: no_flush_def printfNoFlush_p_def)
  then obtain s1 where s1: "(if first then Some s else no_flush putCh ext sep [] s) = Some s1" "wrote s ?sep s1" by blast
  then have "valid s1" by (simp add: wrote_def)
  from no_flush_writes[OF no_flush_hex this] obtain s2 where
    s2: "no_flush putCh ext ''%02x'' [FInt (ucast b)] s1 = Some s2" "wrote s1 (hex_byte b) s2" by blast
  then have "valid s2" by (simp add: wrote_def)
  from Cons.IH[OF this, of False] obtain s3 where s3: "dump_loop putCh ext sep False bs s2 = Some s3"
    "wrote s2 (concat (map (\<lambda>b. sep @ hex_byte b) bs)) s3" by auto
  have "hex_text sep (b # bs) = hex_byte b @ concat (map (\<lambda>b. sep @ hex_byte b) bs)"
    by (induction bs arbitrary: b) simp_all
  then have "(if first then hex_text sep (b # bs) else concat (map (\<lambda>b. sep @ hex_byte b) (b # bs)))
      = (?sep @ hex_byte b) @ concat (map (\<lambda>b. sep @ hex_byte b) bs)" by simp
  then show ?case
    using s1(1) s2(1) s3(1) wrote_append[OF wrote_append[OF s1(2) s2(2)] s3(2)] by simp
qed

lemma printDump_writes:
  assumes "CHR ''%'' \<notin> set sep" and "valid s"
  shows "\<exists>s'. printDump putCh flush ext bs sep None None s = Some s' \<and> wrote s (hex_text sep bs) s' \<and> visible s'"
proof -
  obtain s' where "dump_loop putCh ext sep True bs s = Some s'" "wrote s (hex_text sep bs) s'"
    using dump_loop_writes[OF assms, of ext True bs] by auto
  moreover from this(2) have "visible (flush s')" using flush_shows by (simp add: wrote_def)
  ultimately show ?thesis using wrote_flush by (auto simp: printDump_def)
qed

end

text \<open>\<^verbatim>\<open>dumpToString\<close>, \<^verbatim>\<open>macToString\<close> and the output of a \<^verbatim>\<open>show_hex\<close>, whose buffer has three characters for every byte.\<close>

definition dumpToString :: "ext_table \<Rightarrow> byte list \<Rightarrow> char \<Rightarrow> string option" where
  "dumpToString ext data d = printDump CFmtString_putCh (\<lambda>s. s) ext data [d] None None []"

definition macToString :: "ext_table \<Rightarrow> byte list \<Rightarrow> string option" where
  "macToString ext mac = dumpToString ext (take MAC_LENGTH mac) CHR ''-''"

definition show_hex :: "ext_table \<Rightarrow> byte list \<Rightarrow> char \<Rightarrow> string \<Rightarrow> string option" where
  "show_hex ext ar d mem =
     (let buf = take (length ar * 3) mem in
      Option.bind (new_CFmtBufferWrap buf) (\<lambda>wb.
      Option.bind (printDump fb_putCh fb_flush ext ar [d] None None wb) (\<lambda>wb. Some (fb_str wb))))"

text \<open>
  Hexadecimal dumps: for every non-empty sequence of bytes and both delimiters the dump as a string and the dump through the
  buffer of \<^verbatim>\<open>show_hex\<close> are the same text, which fits that buffer exactly, and reading it with \<^verbatim>\<open>hexStr2bin\<close> or \<^verbatim>\<open>hexToBin\<close> gives
  the bytes back.\<close>

lemma hex_dump_reads_back:
  assumes "bs \<noteq> []" and "d = CHR ''-'' \<or> d = CHR '':''" and "length bs < 2 ^ 32" and "length mem = 3 * length bs"
  shows "\<exists>txt. dumpToString ext bs d = Some txt \<and> show_hex ext bs d mem = Some txt \<and> Suc (length txt) = 3 * length bs
    \<and> hexStr2bin txt (word_of_nat (length bs)) = Some (True, bs) \<and> hexToBin txt (length bs) = (length bs, bs)"
proof -
  have sep: "CHR ''%'' \<notin> set [d]" "hex_sep [d]" using assms(2) by (auto simp: hex_sep_def)
  have str: "dumpToString ext bs d = Some (hex_text [d] bs)"
    using fmt_string_printer.printDump_writes[OF sep(1), where s = "[]"]
    by (auto simp: dumpToString_def fmt_string.wrote_def fmt_string.accepted_def)
  have len: "Suc (length (hex_text [d] bs)) = 3 * length bs"
    using assms(1) by (induction "[d]" bs rule: hex_text.induct) (simp_all add: hex_byte_def)
  have "NUL \<noteq> hex_digit (drop_bit 4 b)" "NUL \<noteq> hex_digit (b AND 0xF)" for b
    using hex_digit_not_NUL nibbles by metis+
  moreover have "NUL \<noteq> d" using assms(2) by (auto simp: NUL_def)
  ultimately have nul: "NUL \<notin> set (hex_text [d] bs)"
    by (induction "[d]" bs rule: hex_text.induct) (simp_all add: hex_byte_def)
  have mem: "mem \<noteq> []" "take (length bs * 3) mem = mem" using assms(1,4) by auto
  obtain b0 where b0: "new_CFmtBufferWrap mem = Some b0" "fb_closed b0" "fb_written b0 = []" "fb_room b0 = Some (length mem - 1)"
    using new_buffer[OF mem(1)] by blast
  then have "fb_valid b0" by (simp add: fb_closed_def)
  from fmt_buffer_printer.printDump_writes[OF sep(1) this] obtain b where
    b: "printDump fb_putCh fb_flush ext bs [d] None None b0 = Some b" "fmt_buffer.wrote b0 (hex_text [d] bs) b" "fb_closed b" by blast
  have "show_hex ext bs d mem = Some (hex_text [d] bs)"
    using b0(1) b(1) buffer_holds(1)[OF b0(2-4) b(2,3) nul] len assms(4) mem(2) by (simp add: show_hex_def)
  then show ?thesis using str len hex_text_roundtrip[OF sep(2) assms(1,3)] by blast
qed

lemma hex_dump_reads_back_example:
  "\<exists>txt. dumpToString (\<lambda>_. None) [0, 0x7E, 0xAB] CHR ''-'' = Some txt
     \<and> show_hex (\<lambda>_. None) [0, 0x7E, 0xAB] CHR ''-'' (replicate 9 CHR ''?'') = Some txt
     \<and> hexStr2bin txt 3 = Some (True, [0, 0x7E, 0xAB])"
  using hex_dump_reads_back[of "[0, 0x7E, 0xAB]" "CHR ''-''" "replicate 9 CHR ''?''" "\<lambda>_. None"] by auto

text \<open>\<^verbatim>\<open>printHex\<close> prints the divider as a character, so that every divider is possible.\<close>

fun printHex :: "('s \<Rightarrow> char \<Rightarrow> bool \<times> 's) \<Rightarrow> ('s \<Rightarrow> 's) \<Rightarrow> ext_table \<Rightarrow> char \<Rightarrow> bool \<Rightarrow> byte list \<Rightarrow> 's \<Rightarrow> 's option" where
  "printHex putCh flush ext d first [] s = Some s"
| "printHex putCh flush ext d first (b # bs) s =
     Option.bind (if first then Some s else map_option fst (vprintf putCh flush ext ''%c'' [FInt (word_of_nat (of_char d))] s)) (\<lambda>s.
     Option.bind (map_option fst (vprintf putCh flush ext ''%02x'' [FInt (ucast b)] s)) (printHex putCh flush ext d False bs))"

lemma char_item: "fmt_item ext i ''c'' [FInt (word_of_nat (of_char d))] = Some (ItemText [d], i, [], [])"
proof -
  have spec: "parse_spec ''c'' ap = Some (default_spec, ''c'', ap)" for ap
    by (simp add: parse_spec_def ap_islower_def parse_modifier_def next_is_def default_spec_def less_eq_char_def)
  have "(of_char d :: nat) < 2 ^ 32" by (rule order_less_le_trans[of _ 256]) simp_all
  then have "take_bit 32 (of_char d :: nat) = of_char d" by (rule take_bit_nat_eq_self)
  then have "unat (word_of_nat (of_char d) :: u32) = of_char d" by (simp add: unsigned_of_nat)
  then show ?thesis unfolding fmt_item_def spec by (simp add: conv_arg_def field_text_def default_spec_def)
qed

lemma printHex_string:
  "printHex CFmtString_putCh (\<lambda>s. s) ext d first bs r =
     Some (r @ (if first then hex_text [d] bs else concat (map (\<lambda>b. d # hex_byte b) bs)))"
proof (induction bs arbitrary: first r)
  case (Cons b bs)
  have "hex_text [d] (b # bs) = hex_byte b @ concat (map (\<lambda>b. d # hex_byte b) bs)"
    by (induction bs arbitrary: b) simp_all
  then show ?case by (simp add: Cons.IH vprintf_def esl_item char_item hex_item del: INS_CHARS.simps)
qed simp

section \<open>Decimal numbers\<close>

text \<open>The value of a decimal text, and what the loop of \<^verbatim>\<open>conv_10\<close> writes.\<close>

definition dec_value :: "string \<Rightarrow> nat" where
  "dec_value s = foldl (\<lambda>n c. n * 10 + (of_char c - 48)) 0 s"

definition dec_char :: "nat \<Rightarrow> char" where
  "dec_char k = char_of (k + 48)"

fun dec_text :: "nat \<Rightarrow> string" where
  "dec_text n = (if n < 10 then [dec_char n] else dec_text (n div 10) @ [dec_char (n mod 10)])"

declare dec_text.simps [simp del]

lemma dec_value_text: "dec_value (dec_text n) = n"
proof (induction n rule: dec_text.induct)
  case (1 n)
  have d: "of_char (dec_char k) - 48 = k" if "k < 10" for k using that by (simp add: dec_char_def)
  show ?case
    using 1 d by (subst dec_text.simps) (auto simp: dec_value_def)
qed

lemma dec_text_digits: "c \<in> set (dec_text n) \<Longrightarrow> isdigit c"
proof (induction n rule: dec_text.induct)
  case (1 n)
  have "isdigit (dec_char k)" if "k < 10" for k
  proof -
    have "list_all (\<lambda>k. isdigit (dec_char k)) [0..<10]" by code_simp
    then show ?thesis using that unfolding list_all_iff by simp
  qed
  then show ?case using 1 by (subst (asm) dec_text.simps) (auto split: if_splits)
qed

lemma dec_text_length: "0 < n \<Longrightarrow> 10 ^ (length (dec_text n) - 1) \<le> n"
proof (induction n rule: dec_text.induct)
  case (1 n)
  show ?case
  proof (cases "n < 10")
    case True
    then show ?thesis using 1 by (subst dec_text.simps) simp
  next
    case False
    have "dec_text (n div 10) \<noteq> []" by (subst dec_text.simps) simp
    then have "(10 :: nat) ^ (length (dec_text n) - 1) = 10 * 10 ^ (length (dec_text (n div 10)) - 1)"
      using False by (subst dec_text.simps) (cases "dec_text (n div 10)", simp_all)
    then show ?thesis using 1 False by linarith
  qed
qed

lemma conv_10_loop_text:
  assumes "length (dec_text (unat m)) + length p \<le> NUM_BUF_SIZE"
  shows "conv_10_loop m p = Some (dec_text (unat m) @ p)"
  using assms
proof (induction m p rule: conv_10_loop.induct)
  case (1 m p)
  let ?q = "m div 10"
  have q: "unat ?q = unat m div 10" by (simp add: unat_div)
  have "unat (m - ?q * 10) = unat m mod 10" by (simp add: minus_div_mult_eq_mod unat_mod)
  then have r: "unat (m - ?q * 10 + 48) = unat m mod 10 + 48" by (subst unat_word_ariths) simp
  have t: "dec_text (unat m) = (if ?q = 0 then [] else dec_text (unat ?q)) @ [dec_char (unat m mod 10)]"
  proof (cases "unat m < 10")
    case True
    then have "?q = 0" using q by (metis div_less unat_eq_zero)
    then show ?thesis using True by (subst dec_text.simps) simp
  next
    case False
    then have "?q \<noteq> 0" using q by (metis div_eq_0_iff unat_0 zero_neq_numeral)
    then show ?thesis using False q by (subst dec_text.simps) simp
  qed
  have room: "length p < NUM_BUF_SIZE" using 1(2) t by simp
  show ?case
  proof (cases "?q = 0")
    case True
    then show ?thesis using room r t by (subst conv_10_loop.simps) (simp add: prepend_def dec_char_def Let_def)
  next
    case False
    then have "conv_10_loop ?q (dec_char (unat m mod 10) # p) = Some (dec_text (unat ?q) @ dec_char (unat m mod 10) # p)"
      using 1(1)[OF refl _ False] 1(2) room r t by (simp add: prepend_def dec_char_def)
    then show ?thesis
      using False room r t by (subst conv_10_loop.simps) (simp add: prepend_def dec_char_def Let_def)
  qed
qed

text \<open>A 64-bit number has at most twenty digits.\<close>

lemma dec_text_u64:
  assumes "n < 2 ^ 64"
  shows "length (dec_text n) \<le> 20"
proof (cases "n = 0")
  case True
  then show ?thesis by (subst dec_text.simps) simp
next
  case False
  then have "(10 :: nat) ^ (length (dec_text n) - 1) \<le> n" using dec_text_length by simp
  then have "(10 :: nat) ^ (length (dec_text n) - 1) < 10 ^ 20" using assms by simp
  then have "length (dec_text n) - 1 < 20" by (simp only: power_strict_increasing_iff[of "10 :: nat"])
  then show ?thesis by simp
qed

lemma conv_10_text:
  "conv_10 v True [] = Some (dec_text (unat v), False)"
  "conv_10 v False [] = Some (dec_text (nat \<bar>sint v\<bar>), sint v < 0)"
  "conv_10_quad v False [] = Some (dec_text (nat \<bar>sint v\<bar>), sint v < 0)"
proof -
  have loop: "conv_10_loop m [] = Some (dec_text (unat m))" for m
  proof -
    have "unat m < 2 ^ 64" by (rule order_less_le_trans[OF unsigned_less]) simp
    then show ?thesis using conv_10_loop_text[of m "[]"] dec_text_u64[of "unat m"] by (simp add: NUM_BUF_SIZE_def)
  qed
  have b: "- (2 ^ 63) \<le> sint v" "sint v < 2 ^ 63" using sint_ge[of v] sint_lt[of v] by simp_all
  have u: "uint v = sint v mod 2 ^ 64" "uint (- v) = - sint v mod 2 ^ 64"
    using uint_sint[of v] by (simp_all add: take_bit_eq_mod uint_word_ariths mod_minus_eq)
  have neg: "unat (- (v + 1) + 1) = nat \<bar>sint v\<bar>" if "sint v < 0"
    using that b u(2) by (simp add: unat_eq_nat_uint)
  have pos: "unat v = nat \<bar>sint v\<bar>" if "\<not> sint v < 0"
    using that b u(1) by (simp add: unat_eq_nat_uint)
  show "conv_10 v True [] = Some (dec_text (unat v), False)" by (simp add: conv_10_def loop)
  show s: "conv_10 v False [] = Some (dec_text (nat \<bar>sint v\<bar>), sint v < 0)"
    using neg pos by (auto simp: conv_10_def loop)
  show "conv_10_quad v False [] = Some (dec_text (nat \<bar>sint v\<bar>), sint v < 0)"
    using neg pos s by (auto simp: conv_10_quad_def loop)
qed

definition printAsn :: "('s \<Rightarrow> char \<Rightarrow> bool \<times> 's) \<Rightarrow> ('s \<Rightarrow> 's) \<Rightarrow> ext_table \<Rightarrow> u64 \<Rightarrow> 's \<Rightarrow> 's option" where
  "printAsn putCh flush ext asn s = map_option fst (vprintf putCh flush ext ''%lld'' [FLong asn] s)"

text \<open>Reading a decimal number with an optional sign.\<close>

definition read_dec :: "string \<Rightarrow> int" where
  "read_dec s = (if next_is CHR ''-'' s then - int (dec_value (tl s)) else int (dec_value s))"

lemma read_dec_text:
  "read_dec (dec_text n) = int n" "read_dec (CHR ''-'' # dec_text n) = - int n"
proof -
  have "\<not> next_is CHR ''-'' (dec_text n)"
    using dec_text_digits[of "CHR ''-''" n] by (cases "dec_text n") (auto simp: next_is_def isdigit_def less_char_def less_eq_char_def)
  then show "read_dec (dec_text n) = int n" by (simp add: read_dec_def dec_value_text)
qed (simp add: read_dec_def next_is_def dec_value_text)

definition signed_text :: "int \<Rightarrow> string" where
  "signed_text i = (if i < 0 then CHR ''-'' # dec_text (nat \<bar>i\<bar>) else dec_text (nat \<bar>i\<bar>))"

lemma field_signed:
  assumes "\<bar>i\<bar> < 2 ^ 64"
  shows "field_text default_spec (dec_text (nat \<bar>i\<bar>)) (sign_prefix default_spec (i < 0)) False = Some (signed_text i)"
proof -
  have "nat \<bar>i\<bar> < 2 ^ 64" using assms by (simp add: nat_less_iff)
  then have "length (dec_text (nat \<bar>i\<bar>)) < NUM_BUF_SIZE" using dec_text_u64 by (fastforce simp: NUM_BUF_SIZE_def)
  then show ?thesis by (auto simp: field_text_def sign_prefix_def default_spec_def signed_text_def prepend_def)
qed

lemma dec_items:
  "fmt_item ext i ''d'' [FInt v] = Some (ItemText (signed_text (sint v)), scast v, [], [])"
  "fmt_item ext i ''u'' [FInt v] = Some (ItemText (dec_text (unat v)), ucast v, [], [])"
  "fmt_item ext i ''lld'' [FLong w] = Some (ItemText (signed_text (sint w)), i, [], [])"
proof -
  have spec: "parse_spec ''d'' ap = Some (default_spec, ''d'', ap)" "parse_spec ''u'' ap = Some (default_spec, ''u'', ap)" for ap
    by (simp_all add: parse_spec_def ap_islower_def parse_modifier_def next_is_def default_spec_def less_eq_char_def)
  have quad: "parse_spec ''lld'' ap = Some (default_spec\<lparr>var_type := IS_QUAD\<rparr>, ''d'', ap)" for ap
    by (simp add: parse_spec_def ap_islower_def parse_modifier_def next_is_def default_spec_def less_eq_char_def)
  have sp: "var_type default_spec = IS_INT" "adjust_precision default_spec = None" "\<not> pad_zero default_spec"
    by (simp_all add: default_spec_def)
  have f: "field_text (default_spec\<lparr>var_type := t\<rparr>) = field_text default_spec"
    "sign_prefix (default_spec\<lparr>var_type := t\<rparr>) = sign_prefix default_spec" for t
    by (simp_all add: fun_eq_iff field_text_def sign_prefix_def default_spec_def)
  have bv: "- (2 ^ 31) \<le> sint v" "sint v < 2 ^ 31" using sint_ge[of v] sint_lt[of v] by simp_all
  have bw: "- (2 ^ 63) \<le> sint w" "sint w < 2 ^ 63" using sint_ge[of w] sint_lt[of w] by simp_all
  have "signed_take_bit 63 (sint v) = sint v" by (rule signed_take_bit_int_eq_self) (use bv in simp_all)
  then have s: "sint (scast v :: u64) = sint v" by (simp add: signed_scast_eq)
  have u: "unat (ucast v :: u64) = unat v"
    by (simp add: unsigned_ucast_eq take_bit_nat_eq_self order_less_le_trans[OF unsigned_less])
  have b: "\<bar>sint v\<bar> < 2 ^ 64" "\<bar>sint w\<bar> < 2 ^ 64" using bv bw by simp_all
  show "fmt_item ext i ''d'' [FInt v] = Some (ItemText (signed_text (sint v)), scast v, [], [])"
    using field_signed[OF b(1)] by (simp add: fmt_item_def spec conv_arg_def num_arg_def sp conv_10_text FIX_PRECISION_def s)
  show "fmt_item ext i ''u'' [FInt v] = Some (ItemText (dec_text (unat v)), ucast v, [], [])"
    by (simp add: fmt_item_def spec conv_arg_def num_arg_def sp conv_10_text FIX_PRECISION_def u field_text_def)
       (simp add: default_spec_def)
  show "fmt_item ext i ''lld'' [FLong w] = Some (ItemText (signed_text (sint w)), i, [], [])"
    using field_signed[OF b(2)] by (simp add: fmt_item_def quad conv_arg_def num_arg_def sp conv_10_text FIX_PRECISION_def f)
qed

text \<open>
  Decimal output is exact: for every 32-bit and every 64-bit number, the most negative one included, the text that \<^verbatim>\<open>%d\<close>, \<^verbatim>\<open>%u\<close> or
  \<^verbatim>\<open>%lld\<close> prints, read as a decimal number, is the number as the conversion interprets it.\<close>

lemma decimal_text_exact:
  "(\<exists>txt. vprintf CFmtString_putCh (\<lambda>s. s) ext ''%d'' [FInt v] [] = Some (txt, length txt, []) \<and> read_dec txt = sint v)
   \<and> (\<exists>txt. vprintf CFmtString_putCh (\<lambda>s. s) ext ''%u'' [FInt v] [] = Some (txt, length txt, []) \<and> read_dec txt = uint v)
   \<and> (\<exists>txt. printAsn CFmtString_putCh (\<lambda>s. s) ext w [] = Some txt \<and> read_dec txt = sint w)"
proof -
  have "read_dec (signed_text k) = k" for k by (simp add: signed_text_def read_dec_text)
  then show ?thesis by (simp add: printAsn_def vprintf_def esl_item dec_items read_dec_text)
qed

section \<open>Addresses\<close>

text \<open>An IPv4 address is printed as its four bytes.\<close>

lemma conv_ip_addr_text:
  "conv_ip_addr addr [] = Some (dec_text (unat (drop_bit 24 addr)) @ ''.'' @ dec_text (unat (drop_bit 16 addr AND 0xFF)) @ ''.''
     @ dec_text (unat (drop_bit 8 addr AND 0xFF)) @ ''.'' @ dec_text (unat (addr AND 0xFF)))"
proof -
  have c: "conv_10 (ucast x) True p = Some (dec_text (unat x) @ p, False)" if "length p < 400" for x :: u32 and p
  proof -
    have "unat x < 2 ^ 32" by (rule order_less_le_trans[OF unsigned_less]) simp
    moreover have "unat (ucast x :: u64) = unat x" using calculation by (simp add: unsigned_ucast_eq take_bit_nat_eq_self)
    ultimately show ?thesis
      using conv_10_loop_text[of "ucast x" p] dec_text_u64[of "unat x"] that by (simp add: conv_10_def NUM_BUF_SIZE_def)
  qed
  have m: "(0xFF :: u32) = mask 8" "(0xFF00 :: u32) = push_bit 8 (mask 8)" "(0xFF0000 :: u32) = push_bit 16 (mask 8)"
    "(0xFF000000 :: u32) = push_bit 24 (mask 8)" by (simp_all add: mask_eq_exp_minus_1)
  have e: "drop_bit 8 (addr AND 0xFF00) = drop_bit 8 addr AND 0xFF" "drop_bit 16 (addr AND 0xFF0000) = drop_bit 16 addr AND 0xFF"
    "drop_bit 24 (addr AND 0xFF000000) = drop_bit 24 addr"
    unfolding m by (rule bit_word_eqI; auto simp: bit_simps dest: bit_imp_le_length)+
  have l: "length (dec_text (unat x)) < 21" for x :: u32
  proof -
    have "unat x < 2 ^ 64" by (rule order_less_le_trans[OF unsigned_less]) simp
    then show ?thesis using dec_text_u64[of "unat x"] by simp
  qed
  have p: "prepend ch p = Some (ch # p)" if "length p < 400" for ch p using that by (simp add: prepend_def NUM_BUF_SIZE_def)
  show ?thesis
    using l[of "addr AND 0xFF"] l[of "drop_bit 8 addr AND 0xFF"] l[of "drop_bit 16 addr AND 0xFF"]
    unfolding conv_ip_addr_def e by (simp add: c p)
qed

text \<open>An IPv6 address: the eight turns of the loop and the buffer are always enough.\<close>

lemma conv_p2_hex:
  assumes "unat v < 16 ^ Suc k" and "length p + Suc k \<le> NUM_BUF_SIZE"
  shows "\<exists>s. conv_p2_loop v 4 digits p = Some s \<and> length s \<le> length p + Suc k"
  using assms
proof (induction k arbitrary: v p)
  case 0
  then have "unat (drop_bit 4 v) = 0" by (simp add: unat_drop_bit_eq drop_bit_eq_div[of 4 "unat v"])
  then have "drop_bit 4 v = 0" by (simp only: unat_eq_zero)
  then show ?case using 0 by (subst conv_p2_loop.simps) (simp add: prepend_def)
next
  case (Suc k)
  let ?c = "digits ! unat (v AND (push_bit 4 1 - 1))"
  have "unat (drop_bit 4 v) < 16 ^ Suc k"
    using Suc.prems(1) by (simp add: unat_drop_bit_eq drop_bit_eq_div[of 4 "unat v"] less_mult_imp_div_less mult.commute)
  then obtain s where "conv_p2_loop (drop_bit 4 v) 4 digits (?c # p) = Some s" "length s \<le> length p + Suc (Suc k)"
    using Suc.IH[of "drop_bit 4 v" "?c # p"] Suc.prems(2) by auto
  moreover have "prepend ?c p = Some (?c # p)" using Suc.prems(2) by (simp add: prepend_def)
  ultimately show ?case by (subst conv_p2_loop.simps) (simp add: Let_def)
qed

definition zeroes_ok :: "zeroes \<Rightarrow> bool" where
  "zeroes_ok z \<longleftrightarrow> z = (-1, -1) \<or> 0 \<le> fst z \<and> fst z \<le> snd z"

lemma longest_zeroes_ok: "zeroes_ok (longest_zeroes ws)"
proof -
  let ?P = "\<lambda>(c, b). (fst c < 0 \<or> fst c \<le> snd c) \<and> zeroes_ok b"
  have step: "?P st \<Longrightarrow> ?P (zeroes_step st x)" for st x
    by (cases "(st, x)" rule: zeroes_step.cases[unfolded prod.case]) (auto simp: zeroes_ok_def)
  have "?P (foldl zeroes_step st xs)" if "?P st" for st xs
    using that by (induction xs arbitrary: st) (simp_all add: step)
  then have "?P (foldl zeroes_step ((-1, -1), (-1, -1)) (zip [0..<8] ws))" by (simp add: zeroes_ok_def)
  then show ?thesis by (auto simp: longest_zeroes_def zeroes_ok_def Let_def split: prod.splits if_splits)
qed

lemma ipv6_words_total:
  assumes "zeroes_ok (bs, be)" and "i < int k" and "length s + 6 * k \<le> NUM_BUF_SIZE"
  shows "\<exists>s'. ipv6_words k ws (bs, be) i s = Some s'"
  using assms(2,3)
proof (induction k arbitrary: i s)
  case (Suc k)
  show ?case
  proof (cases "i < 0")
    case False
    let ?i = "if be = i then bs - 1 else i"
    let ?u = "if be = i then CHR '':'' # s else s"
    let ?v = "if ?i \<noteq> 7 then CHR '':'' # ?u else ?u"
    have le: "?i \<le> i" using assms(1) False by (auto simp: zeroes_ok_def)
    have pre: "prepend c t = Some (c # t)" if "length t \<le> length s + 5" for c t using that Suc.prems(2) by (simp add: prepend_def)
    have u: "(if be = i then prepend CHR '':'' s else Some s) = Some ?u" "prepend CHR '':'' ?u = Some (CHR '':'' # ?u)"
      using pre by simp_all
    have v: "(if ?i \<noteq> 7 then prepend CHR '':'' ?u else Some ?u) = Some ?v" using u(2) by simp
    have "unat (ws ! nat ?i) < 2 ^ 16" by (rule order_less_le_trans[OF unsigned_less]) simp
    then have "unat (ucast (ws ! nat ?i) :: u64) < 16 ^ Suc 3" by (simp add: unsigned_ucast_eq take_bit_nat_eq_self)
    moreover have "length ?v + Suc 3 \<le> NUM_BUF_SIZE" using Suc.prems(2) by simp
    ultimately obtain w where w: "conv_p2 (ucast (ws ! nat ?i)) 4 CHR ''x'' ?v = Some w" "length w \<le> length ?v + Suc 3"
      using conv_p2_hex unfolding conv_p2_def by blast
    have "?i - 1 < int k" "length w + 6 * k \<le> NUM_BUF_SIZE" using Suc.prems w(2) le by (simp_all split: if_splits)
    from Suc.IH[OF this] obtain s' where "ipv6_words k ws (bs, be) (?i - 1) w = Some s'" by blast
    then show ?thesis
      using False u v w(1) by (subst ipv6_words.simps) (simp only: Let_def if_False bind.simps if_splits; simp)
  qed simp
qed simp

lemma conv_ip_addr_aux_total:
  assumes "length p + 21 * length bs \<le> NUM_BUF_SIZE"
  shows "\<exists>s. conv_ip_addr_aux bs p = Some s \<and> length s \<le> length p + 21 * length bs"
  using assms
proof (induction bs arbitrary: p)
  case (Cons b bs)
  let ?m = "ucast b :: u64"
  have l: "length (dec_text (unat ?m)) \<le> 20" by (rule dec_text_u64) (rule order_less_le_trans[OF unsigned_less], simp)
  then have "conv_10 ?m True p = Some (dec_text (unat ?m) @ p, False)"
    using conv_10_loop_text[of ?m p] Cons.prems by (simp add: conv_10_def)
  moreover have "prepend CHR ''.'' (dec_text (unat ?m) @ p) = Some (CHR ''.'' # dec_text (unat ?m) @ p)"
    using l Cons.prems by (simp add: prepend_def)
  ultimately show ?case
    using Cons.IH[of "CHR ''.'' # dec_text (unat ?m) @ p"] Cons.prems l by fastforce
qed simp

lemma conv_ipv6_addr_total:
  assumes "16 \<le> length addr"
  shows "\<exists>s. conv_ipv6_addr addr plain [] = Some s"
proof -
  obtain s where s: "conv_ip_addr_aux (rev (take 4 (drop 12 addr))) [] = Some s" "length s \<le> 84"
    using conv_ip_addr_aux_total[of "[]" "rev (take 4 (drop 12 addr))"] assms by (auto simp: NUM_BUF_SIZE_def)
  have pre: "prepend c t = Some (c # t)" if "length t \<le> 100" for c t using that by (simp add: prepend_def NUM_BUF_SIZE_def)
  obtain bs be where z: "longest_zeroes (ipv6_parts addr) = (bs, be)" by fastforce
  have "\<exists>s'. ipv6_words 8 (ipv6_parts addr) (bs, be) 7 [] = Some s'"
    using ipv6_words_total[of bs be 7 8 "[]"] longest_zeroes_ok[of "ipv6_parts addr"] z by (simp add: NUM_BUF_SIZE_def)
  then show ?thesis
    using assms s by (auto simp: conv_ipv6_addr_def Let_def z pre)
qed

end
