(* ===== verification/Rpc_Protocol.thy ===== *)
theory Rpc_Protocol
  imports Rpc_Worker Fmt_Text
begin

text \<open>
  The addresses of the RPC servers (\<^verbatim>\<open>src/rpc/RpcCommon.cpp\<close>) and the log of timestamps and nonces that
  protects signed requests against replay (\<^verbatim>\<open>src/rpc/RpcProtocol.cpp\<close>).  The full name of a
  file comes from the boost file system library, the parameter \<open>getFullFileName\<close>.
\<close>

section \<open>End points\<close>

datatype RpcEndpoints = TPLGDB_ENDPOINT_PATH | MNGR_NOTIFY_ENDPOINT_PATH | MNGR_LOG_ENDPOINT_PATH
  | TPLGCMD_NOTIFY_ENDPOINT_PATH | AUTH_MNGR_ENDPOINT_PATH | AUTH_MNGR_LOG_ENDPOINT_PATH
  | AUTH_MNGR_NOTIFY_ENDPOINT_PATH | APC_ENDPOINT_PATH | APC_LOG_ENDPOINT_PATH | CONFIGDB_ENDPOINT_PATH
  | CONFIGDB_NOTIFY_ENDPOINT_PATH | WATCHDOG_ENDPOINT_PATH | WATCHDOG_NOTIFY_ENDPOINT_PATH
  | CONFIGDB_LOG_ENDPOINT_PATH | WATCHDOG_LOG_ENDPOINT_PATH

primrec endpoint_number :: "RpcEndpoints \<Rightarrow> nat" where
  "endpoint_number TPLGDB_ENDPOINT_PATH = 0"
| "endpoint_number MNGR_NOTIFY_ENDPOINT_PATH = 1"
| "endpoint_number MNGR_LOG_ENDPOINT_PATH = 2"
| "endpoint_number TPLGCMD_NOTIFY_ENDPOINT_PATH = 3"
| "endpoint_number AUTH_MNGR_ENDPOINT_PATH = 4"
| "endpoint_number AUTH_MNGR_LOG_ENDPOINT_PATH = 5"
| "endpoint_number AUTH_MNGR_NOTIFY_ENDPOINT_PATH = 6"
| "endpoint_number APC_ENDPOINT_PATH = 7"
| "endpoint_number APC_LOG_ENDPOINT_PATH = 8"
| "endpoint_number CONFIGDB_ENDPOINT_PATH = 9"
| "endpoint_number CONFIGDB_NOTIFY_ENDPOINT_PATH = 10"
| "endpoint_number WATCHDOG_ENDPOINT_PATH = 11"
| "endpoint_number WATCHDOG_NOTIFY_ENDPOINT_PATH = 12"
| "endpoint_number CONFIGDB_LOG_ENDPOINT_PATH = 13"
| "endpoint_number WATCHDOG_LOG_ENDPOINT_PATH = 14"

primrec endpoint_text :: "RpcEndpoints \<Rightarrow> string" where
  "endpoint_text TPLGDB_ENDPOINT_PATH = ''ipc://manager_rpc.ipc''"
| "endpoint_text MNGR_NOTIFY_ENDPOINT_PATH = ''ipc://manager_notif.ipc''"
| "endpoint_text MNGR_LOG_ENDPOINT_PATH = ''ipc://manager_log.ipc''"
| "endpoint_text TPLGCMD_NOTIFY_ENDPOINT_PATH = ''ipc://tplgcmd_notif.ipc''"
| "endpoint_text AUTH_MNGR_ENDPOINT_PATH = ''ipc://authmngr_rpc.ipc''"
| "endpoint_text AUTH_MNGR_LOG_ENDPOINT_PATH = ''ipc://authmngr_log.ipc''"
| "endpoint_text AUTH_MNGR_NOTIFY_ENDPOINT_PATH = ''ipc://authmngr_notif.ipc''"
| "endpoint_text APC_ENDPOINT_PATH = ''ipc://apc_rpc.ipc''"
| "endpoint_text APC_LOG_ENDPOINT_PATH = ''ipc://apc_log.ipc''"
| "endpoint_text CONFIGDB_ENDPOINT_PATH = ''ipc://confdb_rpc.ipc''"
| "endpoint_text CONFIGDB_NOTIFY_ENDPOINT_PATH = ''ipc://confdb_notif.ipc''"
| "endpoint_text WATCHDOG_ENDPOINT_PATH = ''ipc://watchdog_rpc.ipc''"
| "endpoint_text WATCHDOG_NOTIFY_ENDPOINT_PATH = ''ipc://watchdog_notif.ipc''"
| "endpoint_text CONFIGDB_LOG_ENDPOINT_PATH = ''ipc://confdb_log.ipc''"
| "endpoint_text WATCHDOG_LOG_ENDPOINT_PATH = ''ipc://watchdog_log.ipc''"

datatype apiproto_t = APIPROTO_NA | APIPROTO_IPC | APIPROTO_TCP

record CApiEndpointBuilder =
  eb_proto :: apiproto_t
  eb_path :: string
  eb_host :: string
  eb_basePort :: u16

definition new_CApiEndpointBuilder :: CApiEndpointBuilder where
  "new_CApiEndpointBuilder = \<lparr>eb_proto = APIPROTO_NA, eb_path = [], eb_host = [], eb_basePort = 0\<rparr>"

definition eb_init :: "apiproto_t \<Rightarrow> string \<Rightarrow> string \<Rightarrow> u16 \<Rightarrow> CApiEndpointBuilder" where
  "eb_init proto path host basePort =
     \<lparr>eb_proto = proto, eb_path = path, eb_host = (if host = [] then ''127.0.0.1'' else host), eb_basePort = basePort\<rparr>"

text \<open>\<^verbatim>\<open>std::stoi\<close> in base ten; \<^const>\<open>None\<close> is an exception.\<close>

definition stoi :: "string \<Rightarrow> int option" where
  "stoi s =
     (let s = dropWhile isspace s;
          neg = (s \<noteq> [] \<and> hd s = CHR ''-'');
          s = (if s \<noteq> [] \<and> (hd s = CHR ''-'' \<or> hd s = CHR ''+'') then tl s else s);
          digits = takeWhile isdigit s;
          n = int (foldl (\<lambda>n c. n * 10 + (of_char c - of_char CHR ''0'')) (0::nat) digits);
          v = (if neg then - n else n)
      in if digits = [] \<or> v < - (2 ^ 31) \<or> v \<ge> 2 ^ 31 then None else Some v)"

definition parseEndpointExt_p :: "string \<Rightarrow> string \<times> u16" where
  "parseEndpointExt_p endpointExt =
     (if endpointExt = [] then ([], 0)
      else let name = takeWhile (\<lambda>c. c \<noteq> CHR '':'') endpointExt;
               rest = dropWhile (\<lambda>c. c \<noteq> CHR '':'') endpointExt
           in (name, if rest = [] then 0 else case stoi (tl rest) of None \<Rightarrow> 0 | Some v \<Rightarrow> word_of_int v))"

fun find_text :: "string \<Rightarrow> string \<Rightarrow> nat option" where
  "find_text pat [] = (if pat = [] then Some 0 else None)"
| "find_text pat (c # cs) = (if take (length pat) (c # cs) = pat then Some 0 else map_option Suc (find_text pat cs))"

definition rfind_char :: "char \<Rightarrow> string \<Rightarrow> nat option" where
  "rfind_char c s = (if c \<in> set s then Some (length s - 1 - length (takeWhile (\<lambda>x. x \<noteq> c) (rev s))) else None)"

definition getIPCname_p :: "(string \<Rightarrow> string \<Rightarrow> string) \<Rightarrow> RpcEndpoints \<Rightarrow> string \<Rightarrow> CApiEndpointBuilder \<Rightarrow> string" where
  "getIPCname_p getFullFileName endpointId ipcName b =
     (let ipcStr = endpoint_text endpointId;
          pos = (case find_text ''://'' ipcStr of None \<Rightarrow> 0 | Some p \<Rightarrow> p + 3);
          fileName = drop pos ipcStr;
          fileName = (if ipcName = [] then fileName
            else case rfind_char CHR ''.'' fileName of
                None \<Rightarrow> fileName @ ''_'' @ ipcName
              | Some pos1 \<Rightarrow> take pos1 fileName @ ''_'' @ ipcName @ drop pos1 fileName)
      in take pos ipcStr @ getFullFileName (eb_path b) fileName)"

definition eb_port :: "RpcEndpoints \<Rightarrow> u16 \<Rightarrow> CApiEndpointBuilder \<Rightarrow> nat" where
  "eb_port endpointId portOffset b = unat (eb_basePort b) + endpoint_number endpointId + unat portOffset"

definition getClient :: "(string \<Rightarrow> string \<Rightarrow> string) \<Rightarrow> RpcEndpoints \<Rightarrow> string \<Rightarrow> CApiEndpointBuilder \<Rightarrow> string" where
  "getClient getFullFileName endpointId endpointExt b =
     (case parseEndpointExt_p endpointExt of (ipcName, portOffset) \<Rightarrow>
       (case eb_proto b of
          APIPROTO_IPC \<Rightarrow> getIPCname_p getFullFileName endpointId ipcName b
        | APIPROTO_TCP \<Rightarrow> ''tcp://'' @ eb_host b @ '':'' @ dec_text (eb_port endpointId portOffset b)
        | APIPROTO_NA \<Rightarrow> []))"

definition getServer :: "(string \<Rightarrow> string \<Rightarrow> string) \<Rightarrow> RpcEndpoints \<Rightarrow> string \<Rightarrow> CApiEndpointBuilder \<Rightarrow> string" where
  "getServer getFullFileName endpointId endpointExt b =
     (case parseEndpointExt_p endpointExt of (ipcName, portOffset) \<Rightarrow>
       (case eb_proto b of
          APIPROTO_IPC \<Rightarrow> getIPCname_p getFullFileName endpointId ipcName b
        | APIPROTO_TCP \<Rightarrow> ''tcp://*:'' @ dec_text (eb_port endpointId portOffset b)
        | APIPROTO_NA \<Rightarrow> []))"

lemma of_char_byte: "(of_char c :: byte) = word_of_nat (of_char c)"
  by (simp add: of_nat_of_char)

lemma of_char_byte_inject [simp]: "(of_char c :: byte) = of_char d \<longleftrightarrow> c = d"
proof
  assume "(of_char c :: byte) = of_char d"
  then have "(word_of_nat (of_char c) :: byte) = word_of_nat (of_char d)" by (simp only: of_char_byte)
  moreover have "(of_char c :: nat) < 256" "(of_char d :: nat) < 256" by simp_all
  ultimately have "(of_char c :: nat) = of_char d"
    by (simp add: word_of_nat_eq_iff take_bit_eq_mod)
  then show "c = d" by simp
qed simp

lemma from_last_colon_split:
  assumes "of_char CHR '':'' \<notin> set b"
  shows "from_last_colon (a @ of_char CHR '':'' # b) = Some (of_char CHR '':'' # b)"
proof -
  have "takeWhile (\<lambda>x. x \<noteq> of_char CHR '':'') (rev b @ of_char CHR '':'' # rev a) = rev b"
    using assms by (subst takeWhile_append2) auto
  then show ?thesis by (simp only: from_last_colon_def rev_append rev.simps append_assoc) simp
qed

text \<open>
  Under TCP, clients, server and workers of an end point meet: the client connects to the port the server listens
  on, and the address a worker derives from that of the server is the same port of the local host.  Otherwise client and
  server use the same name.
\<close>

lemma endpoints_agree:
  "case eb_proto b of
     APIPROTO_TCP \<Rightarrow> \<exists>port. getClient f ep ext b = ''tcp://'' @ eb_host b @ '':'' @ dec_text port
       \<and> getServer f ep ext b = ''tcp://*:'' @ dec_text port
       \<and> worker_endpoint (str (getServer f ep ext b)) = Some (str (''tcp://127.0.0.1:'' @ dec_text port))
   | _ \<Rightarrow> getClient f ep ext b = getServer f ep ext b"
proof (cases "eb_proto b")
  case APIPROTO_TCP
  obtain name off where ext: "parseEndpointExt_p ext = (name, off)" by fastforce
  let ?t = "dec_text (eb_port ep off b)"
  have digit: "c \<noteq> CHR '':'' \<and> c \<noteq> CHR 0x00" if "c \<in> set ?t" for c
    using dec_text_digits[OF that] by (auto simp: isdigit_def)
  have zero: "(0 :: byte) = of_char (CHR 0x00)" by simp
  have "0 \<notin> set (str ?t)" unfolding zero str_def using digit[of "CHR 0x00"] by (auto simp del: of_char_Char)
  then have cs: "c_str (str (''tcp://*:'' @ ?t)) = str (''tcp://*:'' @ ?t)" by (intro c_str_id) (simp add: str_def)
  have "of_char CHR '':'' \<notin> set (str ?t)" unfolding str_def using digit[of "CHR '':''"] by (auto simp del: of_char_Char)
  from from_last_colon_split[OF this, of "str ''tcp://*''"]
  have "from_last_colon (str (''tcp://*:'' @ ?t)) = Some (str ('':'' @ ?t))" by (simp add: str_def)
  then have "worker_endpoint (str (''tcp://*:'' @ ?t)) = Some (str (''tcp://127.0.0.1:'' @ ?t))"
    unfolding worker_endpoint_def cs by (simp add: str_def)
  then show ?thesis using APIPROTO_TCP ext by (auto simp: getClient_def getServer_def)
qed (simp_all add: getClient_def getServer_def split: prod.splits)

section \<open>Timestamps and nonces\<close>

definition TIMESTAMP_WINDOW_SIZE :: int where "TIMESTAMP_WINDOW_SIZE = 60"

record timestampNonce_t =
  tn_timeS :: int
  tn_nonce :: frame

type_synonym timestampNonceLog_t = "timestampNonce_t list"

definition inTimestampWindow :: "int \<Rightarrow> int \<Rightarrow> int \<Rightarrow> bool" where
  "inTimestampWindow now timestamp refTime =
     (let refTime = (if refTime = 0 then now else refTime) in \<bar>refTime - timestamp\<bar> < TIMESTAMP_WINDOW_SIZE)"

text \<open>\<open>now\<close> is the clock at the start of the call, \<open>now'\<close> at the later reads.\<close>

fun purge_from :: "int \<Rightarrow> int \<Rightarrow> timestampNonceLog_t \<Rightarrow> timestampNonceLog_t" where
  "purge_from now' currentTime [] = []"
| "purge_from now' currentTime (e # es) =
     (if inTimestampWindow now' (tn_timeS e) currentTime then e # es else purge_from now' currentTime es)"

definition purgeTimestampNonceLog :: "int \<Rightarrow> int \<Rightarrow> timestampNonceLog_t \<Rightarrow> timestampNonceLog_t" where
  "purgeTimestampNonceLog now now' tnlog = purge_from now' now tnlog"

definition validateTimestampNoncePair ::
  "int \<Rightarrow> int \<Rightarrow> timestampNonce_t \<Rightarrow> timestampNonceLog_t \<Rightarrow> timestampNonceLog_t \<times> bool" where
  "validateTimestampNoncePair now now' new tnlog =
     (let tnlog = purgeTimestampNonceLog now now' tnlog
      in if \<not> inTimestampWindow now' (tn_timeS new) 0 then (tnlog, False)
         else if \<exists>e \<in> set tnlog. tn_timeS new = tn_timeS e \<and> tn_nonce new = tn_nonce e then (tnlog, False)
         else (tnlog @ [new], True))"

fun validate_all :: "(int \<times> int \<times> timestampNonce_t) list \<Rightarrow> timestampNonceLog_t \<Rightarrow> bool list" where
  "validate_all [] tnlog = []"
| "validate_all ((now, now', p) # rs) tnlog =
     (case validateTimestampNoncePair now now' p tnlog of (tnlog', ok) \<Rightarrow> ok # validate_all rs tnlog')"

text \<open>
  What protects against replay: every pair accepted so far is in the log or has left the window for
  good, as the clock does not go back.
\<close>

definition remembered :: "int \<Rightarrow> timestampNonce_t set \<Rightarrow> timestampNonceLog_t \<Rightarrow> bool" where
  "remembered t acc tnlog \<longleftrightarrow> (\<forall>p \<in> acc. p \<in> set tnlog \<or> tn_timeS p + TIMESTAMP_WINDOW_SIZE \<le> t) \<and> (\<forall>p \<in> set tnlog. tn_timeS p < t + TIMESTAMP_WINDOW_SIZE)"

lemma purge_from_keeps:
  assumes "0 < now" "p \<in> set tnlog" "p \<notin> set (purge_from now' now tnlog)" "tn_timeS p < now + TIMESTAMP_WINDOW_SIZE"
  shows "tn_timeS p + TIMESTAMP_WINDOW_SIZE \<le> now"
  using assms(2,3)
  by (induction tnlog) (use assms(1,4) in \<open>auto simp: inTimestampWindow_def TIMESTAMP_WINDOW_SIZE_def split: if_splits\<close>)

lemma set_purge_from: "set (purge_from now' now tnlog) \<subseteq> set tnlog"
  by (induction tnlog) auto

lemma validate_remembers:
  assumes "remembered t acc tnlog" "t \<le> now" "now \<le> now'" "0 < now"
    and "validateTimestampNoncePair now now' p tnlog = (tnlog', ok)"
  shows "remembered now' (if ok then insert p acc else acc) tnlog'" and "ok \<Longrightarrow> p \<notin> acc"
proof -
  let ?l = "purge_from now' now tnlog"
  have kept: "q \<in> set ?l \<or> tn_timeS q + TIMESTAMP_WINDOW_SIZE \<le> now" if "q \<in> acc" for q
    using that assms(1,2,4) purge_from_keeps[of now q tnlog now'] by (force simp: remembered_def)
  have near: "tn_timeS q < now' + TIMESTAMP_WINDOW_SIZE" if "q \<in> set ?l" for q
    using that assms(1-3) set_purge_from[of now' now tnlog] by (force simp: remembered_def)
  show "remembered now' (if ok then insert p acc else acc) tnlog'"
    using assms(3,4,5) kept near
    by (fastforce simp: remembered_def validateTimestampNoncePair_def purgeTimestampNonceLog_def Let_def
        inTimestampWindow_def split: if_splits)
  show "p \<notin> acc" if ok
  proof
    assume "p \<in> acc"
    then have "p \<in> set ?l \<or> tn_timeS p + TIMESTAMP_WINDOW_SIZE \<le> now" by (rule kept)
    then show False
      using that assms(3,4,5)
      by (auto simp: validateTimestampNoncePair_def purgeTimestampNonceLog_def Let_def inTimestampWindow_def
          TIMESTAMP_WINDOW_SIZE_def split: if_splits)
  qed
qed

lemma validate_all_fresh:
  assumes "remembered t acc tnlog" "sorted (t # concat (map (\<lambda>(now, now', _). [now, now']) rs))" "0 < t"
    and "j < length rs" "validate_all rs tnlog ! j"
  shows "snd (snd (rs ! j)) \<notin> acc"
  using assms
proof (induction rs arbitrary: t acc tnlog j)
  case (Cons r rs)
  obtain now now' p where r: "r = (now, now', p)" by (cases r)
  obtain l ok where v: "validateTimestampNoncePair now now' p tnlog = (l, ok)" by fastforce
  have order: "t \<le> now" "now \<le> now'" "0 < now" "0 < now'" "sorted (now' # concat (map (\<lambda>(now, now', _). [now, now']) rs))"
    using Cons.prems(2,3) r by auto
  note rem = validate_remembers[OF Cons.prems(1) order(1-3) v]
  show ?case
  proof (cases j)
    case 0
    then show ?thesis using Cons.prems(5) rem(2) r v by simp
  next
    case (Suc k)
    from Cons.IH[OF rem(1) order(5,4), of k] Cons.prems(4,5) Suc r v
    show ?thesis by (auto split: if_splits)
  qed
qed simp

lemma validate_all_twice:
  assumes "remembered t acc tnlog" "sorted (t # concat (map (\<lambda>(now, now', _). [now, now']) rs))" "0 < t"
    and "i < j" "j < length rs" "validate_all rs tnlog ! i" "validate_all rs tnlog ! j"
  shows "snd (snd (rs ! i)) \<noteq> snd (snd (rs ! j))"
  using assms
proof (induction rs arbitrary: t acc tnlog i j)
  case (Cons r rs)
  obtain now now' p where r: "r = (now, now', p)" by (cases r)
  obtain l ok where v: "validateTimestampNoncePair now now' p tnlog = (l, ok)" by fastforce
  have order: "t \<le> now" "now \<le> now'" "0 < now" "0 < now'" "sorted (now' # concat (map (\<lambda>(now, now', _). [now, now']) rs))"
    using Cons.prems(2,3) r by auto
  note rem = validate_remembers(1)[OF Cons.prems(1) order(1-3) v]
  obtain k where k: "j = Suc k" using Cons.prems(4) by (cases j) auto
  have k': "k < length rs" "validate_all rs l ! k" using Cons.prems(5,7) k r v by simp_all
  show ?case
  proof (cases i)
    case 0
    then have "ok" using Cons.prems(6) r v by simp
    then show ?thesis using validate_all_fresh[OF rem order(5,4) k'] 0 k r by auto
  next
    case (Suc h)
    then show ?thesis using Cons.IH[OF rem order(5,4), of h k] k k' Cons.prems(4,6) r v by simp
  qed
qed simp

text \<open>
  Claim C34.  No request is accepted twice.  However many pairs of timestamp and nonce are presented, as long as the clock does not
  go back, the log, which forgets old pairs, never accepts the same pair again.
\<close>

theorem nonce_replay_rejected:
  assumes "sorted (concat (map (\<lambda>(now, now', _). [now, now']) rs))" "\<forall>r \<in> set rs. 0 < fst r"
    and "i < j" "j < length rs" "snd (snd (rs ! i)) = snd (snd (rs ! j))"
  shows "\<not> (validate_all rs [] ! i \<and> validate_all rs [] ! j)"
proof -
  obtain r rs' where rs: "rs = r # rs'" using assms(4) by (cases rs) auto
  obtain now now' p where r: "r = (now, now', p)" by (cases r)
  have "remembered now {} []" by (simp add: remembered_def)
  moreover have "sorted (now # concat (map (\<lambda>(now, now', _). [now, now']) rs))" using assms(1) rs r by auto
  moreover have "0 < now" using assms(2) rs r by simp
  ultimately show ?thesis using validate_all_twice[of now "{}" "[]" rs i j] assms(3-5) by blast
qed

theorem nonce_replay_rejected_witness:
  "\<not> (validate_all [(100, 100, \<lparr>tn_timeS = 90, tn_nonce = [1]\<rparr>), (120, 121, \<lparr>tn_timeS = 90, tn_nonce = [1]\<rparr>)] [] ! 0
      \<and> validate_all [(100, 100, \<lparr>tn_timeS = 90, tn_nonce = [1]\<rparr>), (120, 121, \<lparr>tn_timeS = 90, tn_nonce = [1]\<rparr>)] [] ! 1)"
  by (rule nonce_replay_rejected) simp_all

end
