(* ===== verification/Rpc_Server.thy ===== *)
theory Rpc_Server
  imports Rpc_Protocol
begin

text \<open>
  The RPC server of a process (\<^verbatim>\<open>src/rpc/RpcServer.cpp\<close>), the worker that controls the logging
  (\<^verbatim>\<open>src/logging/LogWorker.cpp\<close>) and the publisher of log messages
  (\<^verbatim>\<open>src/logging/RemoteLogPublisher.cpp\<close>).  The loggers are those of the log4cxx library: its operations are a
  parameter over an arbitrary state.
\<close>

section \<open>Log levels\<close>

datatype LogLevel = L_FATAL | L_ERROR | L_WARN | L_INFO | L_DEBUG | L_TRACE

text \<open>The levels of log4cxx; the last stands for those outside the named ones, such as \<^verbatim>\<open>OFF\<close>.\<close>

datatype log4_level = FATAL_INT | ERROR_INT | WARN_INT | INFO_INT | DEBUG_INT | TRACE_INT | OTHER_INT

definition convertLogLevel :: "log4_level option \<Rightarrow> LogLevel option" where
  "convertLogLevel aLevel =
     (case aLevel of None \<Rightarrow> Some L_DEBUG
      | Some l \<Rightarrow>
          (case l of FATAL_INT \<Rightarrow> Some L_FATAL | ERROR_INT \<Rightarrow> Some L_ERROR | WARN_INT \<Rightarrow> Some L_WARN
           | INFO_INT \<Rightarrow> Some L_INFO | DEBUG_INT \<Rightarrow> Some L_DEBUG | TRACE_INT \<Rightarrow> Some L_TRACE | OTHER_INT \<Rightarrow> None))"

primrec log4_of :: "LogLevel \<Rightarrow> log4_level" where
  "log4_of L_FATAL = FATAL_INT"
| "log4_of L_ERROR = ERROR_INT"
| "log4_of L_WARN = WARN_INT"
| "log4_of L_INFO = INFO_INT"
| "log4_of L_DEBUG = DEBUG_INT"
| "log4_of L_TRACE = TRACE_INT"

lemma log_level_roundtrip: "convertLogLevel (Some (log4_of l)) = Some l"
  by (cases l) (simp_all add: convertLogLevel_def)

section \<open>The log worker\<close>

record 's log4 =
  l4_getCurrentLoggers :: "'s \<Rightarrow> string list"
  l4_exists :: "string \<Rightarrow> 's \<Rightarrow> bool"
  l4_getLevel :: "string \<Rightarrow> 's \<Rightarrow> log4_level option"
  l4_setLevel :: "string \<Rightarrow> log4_level \<Rightarrow> 's \<Rightarrow> 's"

record log_pb =
  lp_GetLoggerRequest :: "frame \<Rightarrow> string option"
  lp_SetLogLevelRequest :: "frame \<Rightarrow> (string \<times> LogLevel) option"
  lp_GetLoggersResponse :: "string list \<Rightarrow> frame"
  lp_GetLogLevelResponse :: "LogLevel \<Rightarrow> frame"

definition GET_LOGGERS :: byte where "GET_LOGGERS = 1"
definition GET_LOG_LEVEL :: byte where "GET_LOG_LEVEL = 2"
definition SET_LOG_LEVEL :: byte where "SET_LOG_LEVEL = 3"

definition log_processCmdMsg :: "'m czmq \<Rightarrow> 's log4 \<times> log_pb \<Rightarrow> ('s, 'm, unit) cmd_handler" where
  "log_processCmdMsg z lp cmdId params s =
     (case lp of (l4, pb) \<Rightarrow>
       if cmdId = GET_LOGGERS
       then answer (createResponse z cmdId (lp_GetLoggersResponse pb (l4_getCurrentLoggers l4 s))) s
       else if cmdId = GET_LOG_LEVEL
       then (case lp_GetLoggerRequest pb params of None \<Rightarrow> Some (s, Parse_error, [])
             | Some name \<Rightarrow>
                 if l4_exists l4 name s
                 then (case convertLogLevel (l4_getLevel l4 name s) of None \<Rightarrow> None
                       | Some l \<Rightarrow> answer (createResponse z cmdId (lp_GetLogLevelResponse pb l)) s)
                 else answer (createErrorResponse z cmdId RPC_INVALID_PARAMETERS []) s)
       else if cmdId = SET_LOG_LEVEL
       then (case lp_SetLogLevelRequest pb params of None \<Rightarrow> Some (s, Parse_error, [])
             | Some (name, level) \<Rightarrow>
                 if l4_exists l4 name s
                 then answer (createErrorResponse z cmdId RPC_OK []) (l4_setLevel l4 name (log4_of level) s)
                 else answer (createErrorResponse z cmdId RPC_INVALID_PARAMETERS []) s)
       else answer (createErrorResponse z cmdId RPC_INVALID_COMMAND []) s)"

definition LOGWORKER_IDENTITY :: frame where "LOGWORKER_IDENTITY = str ''LOGWRK''"

definition new_LogWorker :: "frame \<Rightarrow> bool \<Rightarrow> rpc_worker" where
  "new_LogWorker svrAddr allowUninitializedAuth =
     new_rpc_worker svrAddr (str ''logger'') None VIEWER LOGWORKER_IDENTITY allowUninitializedAuth"

lemma log_answers:
  assumes L: "czmq_laws z fr"
  shows "answers_cmd fr c (log_processCmdMsg z lp c p s)"
proof -
  note ok = created_responses[OF L]
  obtain l4 pb where lp: "lp = (l4, pb)" by fastforce
  have "answers_cmd fr c (case convertLogLevel l of None \<Rightarrow> None
      | Some v \<Rightarrow> answer (createResponse z c (lp_GetLogLevelResponse pb v)) s)" for l
    by (cases "convertLogLevel l") (auto intro: answers_cmd_rules ok)
  then show ?thesis
    unfolding log_processCmdMsg_def lp prod.case
    by (intro answers_cmd_rules ok; cases "lp_GetLoggerRequest pb p"; cases "lp_SetLogLevelRequest pb p")
      (auto simp del: if_split intro!: answers_cmd_rules ok)
qed

interpretation log_rpc: rpc_handler log_processCmdMsg
  by unfold_locales (use log_answers in \<open>fastforce simp: answers_cmd_def\<close>)

section \<open>The publisher of log messages\<close>

record log_event =
  le_loggerName :: string
  le_message :: string
  le_timeStamp :: int
  le_level :: "log4_level option"
  le_fileName :: "string option"
  le_lineNumber :: nat
  le_methodName :: string

definition event_location :: "log_event \<Rightarrow> string" where
  "event_location ev =
     (case le_fileName ev of None \<Rightarrow> []
      | Some f \<Rightarrow> f @ '':'' @ dec_text (le_lineNumber ev) @ '' ('' @ le_methodName ev @ '')'')"

text \<open>The text of a \<^verbatim>\<open>LogEvent\<close> is written by generated protobuf code: logger, message, time, level, location.\<close>

definition serializeLogEvent ::
  "'m czmq \<Rightarrow> (string \<Rightarrow> string \<Rightarrow> int \<Rightarrow> LogLevel \<Rightarrow> string \<Rightarrow> frame) \<Rightarrow> log_event \<Rightarrow> 'm \<Rightarrow> 'm option" where
  "serializeLogEvent z pb_LogEvent ev m =
     (case convertLogLevel (le_level ev) of None \<Rightarrow> None
      | Some l \<Rightarrow> Some (pushstr z (str (le_loggerName ev))
          (zm_add z (pb_LogEvent (le_loggerName ev) (le_message ev) (le_timeStamp ev) l (event_location ev)) m)))"

record 'm RemoteLogger =
  rl_logMsgQueue :: "'m list"
  rl_queueRunning :: bool
  rl_queueThread :: bool

definition new_RemoteLogger :: "'m RemoteLogger" where
  "new_RemoteLogger = \<lparr>rl_logMsgQueue = [], rl_queueRunning = True, rl_queueThread = True\<rparr>"

definition rl_push :: "'m \<Rightarrow> 'm RemoteLogger \<Rightarrow> 'm RemoteLogger" where
  "rl_push m s = (if \<not> rl_queueRunning s then s else s\<lparr>rl_logMsgQueue := m # rl_logMsgQueue s\<rparr>)"

definition rl_append ::
  "'m czmq \<Rightarrow> (string \<Rightarrow> string \<Rightarrow> int \<Rightarrow> LogLevel \<Rightarrow> string \<Rightarrow> frame) \<Rightarrow> log_event \<Rightarrow> 'm RemoteLogger \<Rightarrow> 'm RemoteLogger option" where
  "rl_append z pb_LogEvent ev s = map_option (\<lambda>m. rl_push m s) (serializeLogEvent z pb_LogEvent ev (zmsg_new z))"

text \<open>
  A turn of the queue thread, with what it publishes: it waits while there is nothing to do, sends the oldest message, or, once
  stopped, leaves its loop and discards what is left.
\<close>

definition rl_turn :: "'m RemoteLogger \<Rightarrow> 'm RemoteLogger \<times> 'm list" where
  "rl_turn s =
     (if \<not> rl_queueThread s then (s, [])
      else if \<not> rl_queueRunning s then (s\<lparr>rl_logMsgQueue := [], rl_queueThread := False\<rparr>, [])
      else if rl_logMsgQueue s = [] then (s, [])
      else (s\<lparr>rl_logMsgQueue := butlast (rl_logMsgQueue s)\<rparr>, [last (rl_logMsgQueue s)]))"

definition rl_stop :: "'m RemoteLogger \<Rightarrow> 'm RemoteLogger" where
  "rl_stop s = s\<lparr>rl_queueRunning := False\<rparr>"

text \<open>While the publisher runs it is a first-in first-out service; a wake-up without a message changes nothing.\<close>

interpretation rl: message_service "\<lambda>m s. Some (rl_push m s)" "\<lambda>s. Some (rl_turn s)" "\<lambda>() s. s" rl_queueRunning "\<lambda>_. True"
    "\<lambda>s. rev (rl_logMsgQueue s)" "\<lambda>s. rl_queueRunning s \<and> rl_queueThread s"
proof unfold_locales
  show "\<exists>s' out. Some (rl_turn s) = Some (s', out) \<and> (rl_queueRunning s' \<and> rl_queueThread s')
      \<and> rev (rl_logMsgQueue s) = out @ rev (rl_logMsgQueue s')" if "rl_queueRunning s \<and> rl_queueThread s" for s :: "'a RemoteLogger"
    using that by (cases "rl_logMsgQueue s" rule: rev_cases) (simp_all add: rl_turn_def)
qed (auto simp: rl_push_def split: unit.splits)

text \<open>What is published is what was logged, in order, short of the messages still queued.\<close>

lemma log_published_in_order:
  "\<exists>s' acc out. service_run (\<lambda>m s. Some (rl_push m s)) (\<lambda>s. Some (rl_turn s)) (\<lambda>() s. s) rl_queueRunning evs new_RemoteLogger
     = Some (s', acc, out) \<and> acc = out @ rev (rl_logMsgQueue s')"
  using rl.service_fifo[of new_RemoteLogger evs] by (auto simp: new_RemoteLogger_def)

text \<open>A stop discards them.\<close>

lemma log_stop_discards:
  "rl_queueThread s \<Longrightarrow> rl_turn (rl_stop s) = ((rl_stop s)\<lparr>rl_logMsgQueue := [], rl_queueThread := False\<rparr>, [])"
  by (simp add: rl_turn_def rl_stop_def)

section \<open>The server\<close>

text \<open>The workers of a server, each with whether its thread runs and whether the server owns it.\<close>

record worker_data =
  wd_worker :: rpc_worker
  wd_thread :: bool
  wd_isManaged :: bool

record 'm rpc_server =
  rs_serverAddr :: frame
  rs_dispatch :: "'m dispatcher"
  rs_dispatchThread :: bool
  rs_workers :: "worker_data list"

definition addWorker ::
  "'m czmq \<Rightarrow> int \<Rightarrow> conn_result \<Rightarrow> rpc_worker \<Rightarrow> bool \<Rightarrow> 'm rpc_server \<Rightarrow> ('m rpc_server, unit, ('m, 'o) wk_out) outcome" where
  "addWorker z now conn worker isManaged rs =
     (case getService (rw_service worker) (rs_dispatch rs) of None \<Rightarrow> None
      | Some d \<Rightarrow>
          (case connectToServer z now conn (rs_serverAddr rs) worker of None \<Rightarrow> None
           | Some (w, r, out) \<Rightarrow>
               if r \<noteq> Connected then None
               else Some (rs\<lparr>rs_dispatch := d,
                             rs_workers := rs_workers rs @ [\<lparr>wd_worker = w, wd_thread = False, wd_isManaged = isManaged\<rparr>]\<rparr>,
                          (), out)))"

definition new_RpcServer ::
  "'m czmq \<Rightarrow> int \<Rightarrow> conn_result \<Rightarrow> frame \<Rightarrow> ('m rpc_server, unit, ('m, 'o) wk_out) outcome" where
  "new_RpcServer z now conn serverAddr =
     addWorker z now conn (new_LogWorker serverAddr True) True
       \<lparr>rs_serverAddr = serverAddr, rs_dispatch = new_dispatcher now, rs_dispatchThread = False, rs_workers = []\<rparr>"

definition rs_start :: "'m rpc_server \<Rightarrow> 'm rpc_server" where
  "rs_start rs = rs\<lparr>rs_workers := map (\<lambda>w. w\<lparr>wd_thread := True\<rparr>) (rs_workers rs), rs_dispatchThread := True\<rparr>"

text \<open>
  The stop before the threads are joined: every worker, then the dispatcher, is asked to end its loop.  The joins
  return when the loops have ended.
\<close>

definition rs_stop :: "'m rpc_server \<Rightarrow> 'm rpc_server" where
  "rs_stop rs = rs\<lparr>rs_workers := map (\<lambda>w. w\<lparr>wd_worker := rw_cancel (wd_worker w)\<rparr>) (rs_workers rs),
     rs_dispatch := (rs_dispatch rs)\<lparr>d_done := True\<rparr>\<rparr>"

lemma registration_accepted:
  assumes L: "czmq_laws z fr" and d: "disp_inv d" "\<not> d_done d" "d_workers d i = None"
    and i: "i \<noteq> []" "n \<noteq> []" and m: "fr m = i # [] # RPC_WORKER # [cmd_code RPC_REGISTER] # n # rest"
  shows "\<exists>d' out. disp_step z (Turn (Poll_message m) t t') d = Some (d', (), out) \<and> disp_inv d' \<and> srv_of d' i = Some (Some n)"
proof -
  obtain m' where m': "fr m' = [cmd_code RPC_REGISTER] # n # rest" "dispatch_message z t m d = worker_process z t i m' d"
    using dispatch_message_eq[OF L, of m t d] m by (auto simp: header_of_def)
  obtain m2 where m2: "zm_pop z m' = (Some [cmd_code RPC_REGISTER], m2)" "fr m2 = n # rest"
    using pop_command[OF L m'(1)] by blast
  obtain d1 where d1: "worker_require i d = Some d1" "disp_inv d1" "d_done d1 = d_done d" "srv_of d1 i = Some None"
    using worker_require_ok[OF d(1) i(1)] d(3) by auto
  obtain d2 out where d2: "register_worker z t i False m2 d1 = Some (d2, (), out)" "d_done d2 = d_done d1" "disp_inv d2"
      "srv_of d2 i = Some (Some n)"
    using register_worker_ok[OF L d1(2,4) m2(2) i(2), of t] by (auto simp: keeps_fifo_def)
  have "dispatch_message z t m d = Some (d2, (), out)"
    using worker_process_eq[OF L m'(1) i(1) m2(1) d1(1), of t] m'(2) d2(1) d(3) by simp
  moreover obtain d3 o3 where "send_heartbeats z t' d2 = Some (d3, (), o3)" "srv_of d3 = srv_of d2"
      "keeps_fifo fr no_requests d2 d3 o3" using send_heartbeats_ok[OF L d2(3)] by blast
  ultimately show ?thesis using d(2) d2(4) by (simp add: disp_step_def keeps_fifo_def)
qed

text \<open>
  A worker added to a server becomes able to serve: its service is known to the dispatcher at once, so that early requests are queued
  and not refused, and the message it sends on connecting registers it, once the dispatcher reads it, for exactly that
  service.
\<close>

lemma added_worker_registers:
  assumes "czmq_laws z fr" "disp_inv (rs_dispatch rs)" "\<not> d_done (rs_dispatch rs)"
    and "addWorker z now conn w managed rs = Some (rs', u, out)"
    and "0 \<notin> set (rw_service w)" "rw_identity w \<noteq> []" "d_workers (rs_dispatch rs) (rw_identity w) = None"
  shows "d_services (rs_dispatch rs') (rw_service w) \<noteq> None
    \<and> (\<exists>ep r. out = [Connect (rw_identity w) ep, Send r]
        \<and> (\<forall>m t t'. fr m = rw_identity w # fr r \<longrightarrow>
             (\<exists>d' out'. disp_step z (Turn (Poll_message m) t t') (rs_dispatch rs') = Some (d', (), out')
                \<and> disp_inv d' \<and> srv_of d' (rw_identity w) = Some (Some (rw_service w)))))"
proof -
  obtain d w' where d: "getService (rw_service w) (rs_dispatch rs) = Some d"
      "connectToServer z now conn (rs_serverAddr rs) w = Some (w', Connected, out)" "rs_dispatch rs' = d"
    using assms(4) by (auto simp: addWorker_def split: option.splits if_splits)
  have n: "rw_service w \<noteq> []" using d(1) by (auto simp: getService_def findService_def)
  have g: "disp_inv d" "\<not> d_done d" "d_workers d (rw_identity w) = None" "d_services d (rw_service w) \<noteq> None"
    using getService_ok[OF assms(2) n] d(1) assms(3,7) by auto
  obtain ep where out: "out = [Connect (rw_identity w) ep, Send (sendToServer z RPC_REGISTER (rw_service w) None)]"
    using d(2) by (auto simp: connectToServer_def Let_def split: option.splits if_splits)
  have "fr (sendToServer z RPC_REGISTER (rw_service w) None) = [] # RPC_WORKER # [cmd_code RPC_REGISTER] # rw_service w # []"
    using n assms(5) by (simp add: sendToServer_frames[OF assms(1)] c_str_id)
  then have "\<forall>m t t'. fr m = rw_identity w # fr (sendToServer z RPC_REGISTER (rw_service w) None) \<longrightarrow>
      (\<exists>d' out'. disp_step z (Turn (Poll_message m) t t') d = Some (d', (), out')
         \<and> disp_inv d' \<and> srv_of d' (rw_identity w) = Some (Some (rw_service w)))"
    using registration_accepted[OF assms(1) g(1-3) assms(6) n] by simp
  then show ?thesis using out g(4) d(3) by blast
qed

definition example_server :: "frame list rpc_server" where
  "example_server = \<lparr>rs_serverAddr = str ''ipc://apc_rpc.ipc'', rs_dispatch = new_dispatcher 0, rs_dispatchThread = False, rs_workers = []\<rparr>"

lemma added_worker_registers_example:
  "\<exists>rs' out. addWorker list_czmq 0 Connected (new_LogWorker (str ''ipc://apc_rpc.ipc'') True) True example_server
       = Some (rs', (), out :: (frame list, unit) wk_out list)
     \<and> d_services (rs_dispatch rs') (str ''logger'') \<noteq> None"
proof -
  let ?w = "new_LogWorker (str ''ipc://apc_rpc.ipc'') True"
  let ?run = "addWorker list_czmq 0 Connected ?w True example_server :: (_, unit, (frame list, unit) wk_out) outcome"
  have "\<not> Option.is_none ?run" by code_simp
  then obtain rs' out where run: "?run = Some (rs', (), out)" by (cases ?run) (auto simp: Option.is_none_def)
  have w: "rw_service ?w = str ''logger''" "0 \<notin> set (str ''logger'')" "rw_identity ?w \<noteq> []"
    by (simp_all add: new_LogWorker_def new_rpc_worker_def LOGWORKER_IDENTITY_def str_def)
  have "d_services (rs_dispatch rs') (rw_service ?w) \<noteq> None"
  proof (rule added_worker_registers[OF list_czmq_laws _ _ run, THEN conjunct1])
    show "disp_inv (rs_dispatch example_server)" by (simp add: example_server_def new_dispatcher_inv)
  qed (use w in \<open>simp_all add: example_server_def new_dispatcher_def\<close>)
  with run w(1) show ?thesis by auto
qed

end
