(* ===== verification/Input_Arguments.thy ===== *)
theory Input_Arguments
  imports AP_Coupler Serial_Port Rpc_Server
begin

text \<open>
  The command line and the configuration file (\<^verbatim>\<open>common/ProcessInputArguments.h\<close>, \<^verbatim>\<open>common/ProcessInputArguments.cpp\<close>, the class
  \<^verbatim>\<open>CApcProcessInputArguments\<close> of \<^verbatim>\<open>APInterface/apc_main.cpp\<close>, the defaults of \<^verbatim>\<open>APInterface/apc_main.h\<close>).

  The boost library parses: what it finds on the command line and in a file are arguments, as maps from the names
  of the declared options to values of their declared types.  Each option is bound to a member; \<^verbatim>\<open>po::notify\<close> stores the values found
  in the bound members.  The options are a table of lenses on the record of members, with the laws of the table as a locale.
  Names of files come from the boost file system library, the names of log levels from log4cxx.
\<close>

section \<open>Options\<close>

datatype po_value = PoStr string | PoU16 u16 | PoU32 u32 | PoFlag bool

type_synonym variables_map = "string \<rightharpoonup> po_value"

record 'a po_option =
  po_name :: string
  po_typed :: "po_value \<Rightarrow> bool"
  po_get :: "'a \<Rightarrow> po_value"
  po_set :: "po_value \<Rightarrow> 'a \<Rightarrow> 'a"

text \<open>An option takes values of its own type only; the results for other values do not matter.\<close>

fun po_str :: "po_value \<Rightarrow> string" where "po_str (PoStr s) = s" | "po_str _ = []"
fun po_u16 :: "po_value \<Rightarrow> u16" where "po_u16 (PoU16 w) = w" | "po_u16 _ = 0"
fun po_u32 :: "po_value \<Rightarrow> u32" where "po_u32 (PoU32 w) = w" | "po_u32 _ = 0"
fun po_flag :: "po_value \<Rightarrow> bool" where "po_flag (PoFlag b) = b" | "po_flag _ = False"

definition str_option :: "string \<Rightarrow> ('a \<Rightarrow> string) \<Rightarrow> ((string \<Rightarrow> string) \<Rightarrow> 'a \<Rightarrow> 'a) \<Rightarrow> 'a po_option" where
  "str_option name get upd = \<lparr>po_name = name, po_typed = (\<lambda>v. PoStr (po_str v) = v), po_get = (\<lambda>a. PoStr (get a)),
     po_set = (\<lambda>v. upd (\<lambda>_. po_str v))\<rparr>"

definition u16_option :: "string \<Rightarrow> ('a \<Rightarrow> u16) \<Rightarrow> ((u16 \<Rightarrow> u16) \<Rightarrow> 'a \<Rightarrow> 'a) \<Rightarrow> 'a po_option" where
  "u16_option name get upd = \<lparr>po_name = name, po_typed = (\<lambda>v. PoU16 (po_u16 v) = v), po_get = (\<lambda>a. PoU16 (get a)),
     po_set = (\<lambda>v. upd (\<lambda>_. po_u16 v))\<rparr>"

definition u32_option :: "string \<Rightarrow> ('a \<Rightarrow> u32) \<Rightarrow> ((u32 \<Rightarrow> u32) \<Rightarrow> 'a \<Rightarrow> 'a) \<Rightarrow> 'a po_option" where
  "u32_option name get upd = \<lparr>po_name = name, po_typed = (\<lambda>v. PoU32 (po_u32 v) = v), po_get = (\<lambda>a. PoU32 (get a)),
     po_set = (\<lambda>v. upd (\<lambda>_. po_u32 v))\<rparr>"

definition flag_option :: "string \<Rightarrow> ('a \<Rightarrow> bool) \<Rightarrow> ((bool \<Rightarrow> bool) \<Rightarrow> 'a \<Rightarrow> 'a) \<Rightarrow> 'a po_option" where
  "flag_option name get upd = \<lparr>po_name = name, po_typed = (\<lambda>v. PoFlag (po_flag v) = v), po_get = (\<lambda>a. PoFlag (get a)),
     po_set = (\<lambda>v. upd (\<lambda>_. po_flag v))\<rparr>"

definition po_notify :: "'a po_option list \<Rightarrow> variables_map \<Rightarrow> 'a \<Rightarrow> 'a" where
  "po_notify opts vm a = fold (\<lambda>x a. case vm (po_name x) of None \<Rightarrow> a | Some v \<Rightarrow> po_set x v a) opts a"

definition vm_typed :: "'a po_option list \<Rightarrow> variables_map \<Rightarrow> bool" where
  "vm_typed opts vm \<longleftrightarrow> list_all (\<lambda>x. case vm (po_name x) of None \<Rightarrow> True | Some v \<Rightarrow> po_typed x v) opts"

section \<open>Members\<close>

record values_s =
  va_apiProto :: apiproto_t
  va_apiIpcpath :: string
  va_apiHost :: string
  va_apiPort :: u16
  va_wdName :: string
  va_logName :: string
  va_confName :: string
  va_logLevel :: log4_level

text \<open>Besides the values, the two local variables of \<^verbatim>\<open>parse\<close> that are bound to options and read.\<close>

record CProcessInputArguments =
  pa_val :: values_s
  pa_proto :: string
  pa_logLevel :: string

definition DEFAULT_LOG_DIR :: string where "DEFAULT_LOG_DIR = ''logs''"
definition DEFAULT_CONF_DIR :: string where "DEFAULT_CONF_DIR = ''conf''"
definition DEFAULT_API_IPCPATH_DIR :: string where "DEFAULT_API_IPCPATH_DIR = ''var/run''"
definition RESET_SIGNAL_TX :: string where "RESET_SIGNAL_TX = ''TX''"
definition RESET_SIGNAL_DTR :: string where "RESET_SIGNAL_DTR = ''DTR''"

definition default_values :: "string \<Rightarrow> values_s" where
  "default_values baseName = \<lparr>va_apiProto = APIPROTO_IPC, va_apiIpcpath = DEFAULT_API_IPCPATH_DIR, va_apiHost = ''127.0.0.1'', va_apiPort = 9000,
     va_wdName = [], va_logName = baseName @ ''.log'', va_confName = baseName @ ''.conf'', va_logLevel = INFO_INT\<rparr>"

record CApcProcessInputArguments = CProcessInputArguments +
  aa_clientId :: string
  aa_sHostName :: string
  aa_port :: u16
  aa_sApiPortName :: string
  aa_sResetPortName :: string
  aa_baudRate :: u32
  aa_maxQueueSize :: u16
  aa_highQueueWatermark :: u16
  aa_lowQueueWatermark :: u16
  aa_pingTimeout :: u32
  aa_retryDelay :: u32
  aa_retryTimeout :: u32
  aa_maxRetries :: u16
  aa_maxMsgSize :: u16
  aa_maxPacketAge :: u32
  aa_sGpsdHost :: string
  aa_sGpsdPort :: string
  aa_gpsdTimeout :: u32
  aa_gpsdMinSatsInUse :: u16
  aa_gpsMaxStableTime :: u32
  aa_apcMaxQueueSize :: u32
  aa_apcKaTimeout :: u32
  aa_apcfreeBufferTimeout :: u32
  aa_apcReconnectDelay :: u32
  aa_apcDisconnectTimeout :: u32
  aa_resetBootTimeout :: u32
  aa_disconnectShortBootTimeoutMsec :: u32
  aa_disconnectLongBootTimeoutMsec :: u32
  aa_sResetSignal :: string
  aa_bReconnectSerial :: bool
  aa_bGpsdConn :: bool
  aa_sApClkSource :: string
  aa_apClkSource :: EAPClockSource

text \<open>The defaults; the watermarks are three quarters and a tenth of the queue, rounded down.\<close>

named_theorems default_defs "default values of the options"

definition DEFAULT_FILE_NAME :: string where [default_defs]: "DEFAULT_FILE_NAME = ''apc''"
definition DEFAULT_DEV_API_PORT :: string where [default_defs]: "DEFAULT_DEV_API_PORT = ''/dev/ttyUSB4''"
definition DEFAULT_DEV_RESET_PORT :: string where [default_defs]: "DEFAULT_DEV_RESET_PORT = ''/dev/ttyUSB2''"
definition DEFAULT_BAUD_RATE :: u32 where [default_defs]: "DEFAULT_BAUD_RATE = 921600"
definition DEFAULT_MNGR_HOST :: string where [default_defs]: "DEFAULT_MNGR_HOST = ''127.0.0.1''"
definition DEFAULT_MNGR_PORT :: u16 where [default_defs]: "DEFAULT_MNGR_PORT = 9100"
definition APM_DEFAULT_MAX_MSG_SIZE :: u16 where [default_defs]: "APM_DEFAULT_MAX_MSG_SIZE = 256"
definition APM_DEFAULT_MAX_QUEUE_SIZE :: u16 where [default_defs]: "APM_DEFAULT_MAX_QUEUE_SIZE = 16"
definition APM_DEFAULT_HIGH_QUEUE_WATER_MARK :: u16 where [default_defs]: "APM_DEFAULT_HIGH_QUEUE_WATER_MARK = word_of_nat (unat APM_DEFAULT_MAX_QUEUE_SIZE * 75 div 100)"
definition APM_DEFAULT_LOW_QUEUE_WATER_MARK :: u16 where [default_defs]: "APM_DEFAULT_LOW_QUEUE_WATER_MARK = word_of_nat (unat APM_DEFAULT_MAX_QUEUE_SIZE * 10 div 100)"
definition APM_DEFAULT_PING_TIMEOUT :: u32 where [default_defs]: "APM_DEFAULT_PING_TIMEOUT = 1000"
definition APM_DEFAULT_RETRY_DELAY :: u32 where [default_defs]: "APM_DEFAULT_RETRY_DELAY = 100"
definition APM_DEFAULT_MAX_RETRIES :: u16 where [default_defs]: "APM_DEFAULT_MAX_RETRIES = 3"
definition APM_DEFAULT_RETRY_TIMEOUT :: u32 where [default_defs]: "APM_DEFAULT_RETRY_TIMEOUT = 800"
definition APM_DEFAULT_MAX_PACKET_AGE :: u32 where [default_defs]: "APM_DEFAULT_MAX_PACKET_AGE = 1500"
definition GPSD_DEFAULT_HOST :: string where [default_defs]: "GPSD_DEFAULT_HOST = ''localhost''"
definition GPSD_DEFAULT_READ_TIMEOUT :: u32 where [default_defs]: "GPSD_DEFAULT_READ_TIMEOUT = 5000000"
definition GPSD_DEFAULT_MIN_SATS_INUSE :: u16 where [default_defs]: "GPSD_DEFAULT_MIN_SATS_INUSE = 1"
definition GPS_DEFAULT_MAX_STABLE_TIME :: u32 where [default_defs]: "GPS_DEFAULT_MAX_STABLE_TIME = 5"
definition APC_DEFAULT_MAX_QUEUE_SIZE :: u32 where [default_defs]: "APC_DEFAULT_MAX_QUEUE_SIZE = 20"
definition APC_DEFAULT_KATIMEOUT :: u32 where [default_defs]: "APC_DEFAULT_KATIMEOUT = 2000"
definition APC_DEFAULT_FREEBUFFER_TIMEOUT :: u32 where [default_defs]: "APC_DEFAULT_FREEBUFFER_TIMEOUT = 2000"
definition APC_DEFAULT_RECONNECT_DELAY :: u32 where [default_defs]: "APC_DEFAULT_RECONNECT_DELAY = 1000"
definition APC_DEFAULT_DISCONNECT_TIMEOUT :: u32 where [default_defs]: "APC_DEFAULT_DISCONNECT_TIMEOUT = 30000"
definition RESET_BOOT_TIMEOUT :: u32 where [default_defs]: "RESET_BOOT_TIMEOUT = 30000"
definition DISCONNECT_BOOT_TIMEOUT_SHORT :: u32 where [default_defs]: "DISCONNECT_BOOT_TIMEOUT_SHORT = 4000"
definition DISCONNECT_BOOT_TIMEOUT_LONG :: u32 where [default_defs]: "DISCONNECT_BOOT_TIMEOUT_LONG = 30000"

text \<open>The port of the GPS daemon is a constant of its library.\<close>

definition new_CApcProcessInputArguments :: "string \<Rightarrow> CApcProcessInputArguments" where
  "new_CApcProcessInputArguments gpsdPort =
     \<lparr>pa_val = default_values DEFAULT_FILE_NAME, pa_proto = [], pa_logLevel = [],
      aa_clientId = [], aa_sHostName = DEFAULT_MNGR_HOST, aa_port = DEFAULT_MNGR_PORT,
      aa_sApiPortName = DEFAULT_DEV_API_PORT, aa_sResetPortName = DEFAULT_DEV_RESET_PORT, aa_baudRate = DEFAULT_BAUD_RATE,
      aa_maxQueueSize = APM_DEFAULT_MAX_QUEUE_SIZE, aa_highQueueWatermark = APM_DEFAULT_HIGH_QUEUE_WATER_MARK,
      aa_lowQueueWatermark = APM_DEFAULT_LOW_QUEUE_WATER_MARK, aa_pingTimeout = APM_DEFAULT_PING_TIMEOUT,
      aa_retryDelay = APM_DEFAULT_RETRY_DELAY, aa_retryTimeout = APM_DEFAULT_RETRY_TIMEOUT,
      aa_maxRetries = APM_DEFAULT_MAX_RETRIES, aa_maxMsgSize = APM_DEFAULT_MAX_MSG_SIZE,
      aa_maxPacketAge = APM_DEFAULT_MAX_PACKET_AGE, aa_sGpsdHost = GPSD_DEFAULT_HOST, aa_sGpsdPort = gpsdPort,
      aa_gpsdTimeout = GPSD_DEFAULT_READ_TIMEOUT, aa_gpsdMinSatsInUse = GPSD_DEFAULT_MIN_SATS_INUSE,
      aa_gpsMaxStableTime = GPS_DEFAULT_MAX_STABLE_TIME, aa_apcMaxQueueSize = APC_DEFAULT_MAX_QUEUE_SIZE,
      aa_apcKaTimeout = APC_DEFAULT_KATIMEOUT, aa_apcfreeBufferTimeout = APC_DEFAULT_FREEBUFFER_TIMEOUT,
      aa_apcReconnectDelay = APC_DEFAULT_RECONNECT_DELAY, aa_apcDisconnectTimeout = APC_DEFAULT_DISCONNECT_TIMEOUT,
      aa_resetBootTimeout = RESET_BOOT_TIMEOUT, aa_disconnectShortBootTimeoutMsec = DISCONNECT_BOOT_TIMEOUT_SHORT,
      aa_disconnectLongBootTimeoutMsec = DISCONNECT_BOOT_TIMEOUT_LONG, aa_sResetSignal = RESET_SIGNAL_TX,
      aa_bReconnectSerial = True, aa_bGpsdConn = False, aa_sApClkSource = [], aa_apClkSource = MNGRSET\<rparr>"

text \<open>The options that \<^verbatim>\<open>parse\<close> declares itself; \<^verbatim>\<open>help\<close> is bound to nothing.\<close>

definition process_options :: "bool \<Rightarrow> bool \<Rightarrow> 'z CProcessInputArguments_scheme po_option list" where
  "process_options isWdClnt isHost =
     [str_option ''api-proto'' pa_proto pa_proto_update,
      str_option ''api-ipcpath'' (\<lambda>a. va_apiIpcpath (pa_val a)) (\<lambda>f. pa_val_update (va_apiIpcpath_update f))]
     @ (if isHost then [str_option ''api-host'' (\<lambda>a. va_apiHost (pa_val a)) (\<lambda>f. pa_val_update (va_apiHost_update f))] else [])
     @ [u16_option ''api-port'' (\<lambda>a. va_apiPort (pa_val a)) (\<lambda>f. pa_val_update (va_apiPort_update f)),
        str_option ''config-file'' (\<lambda>a. va_confName (pa_val a)) (\<lambda>f. pa_val_update (va_confName_update f)),
        str_option ''log-file'' (\<lambda>a. va_logName (pa_val a)) (\<lambda>f. pa_val_update (va_logName_update f)),
        str_option ''log-level'' pa_logLevel pa_logLevel_update]
     @ (if isWdClnt then [str_option ''wd-name'' (\<lambda>a. va_wdName (pa_val a)) (\<lambda>f. pa_val_update (va_wdName_update f))] else [])"

definition add_options :: "CApcProcessInputArguments po_option list" where
  "add_options =
     [str_option ''client-id'' aa_clientId aa_clientId_update,
      u32_option ''apc-disconnect-timeout'' aa_apcDisconnectTimeout aa_apcDisconnectTimeout_update,
      u32_option ''apc-free-buffer-timeout'' aa_apcfreeBufferTimeout aa_apcfreeBufferTimeout_update,
      u32_option ''apc-ka-timeout'' aa_apcKaTimeout aa_apcKaTimeout_update,
      u32_option ''apc-max-queue-size'' aa_apcMaxQueueSize aa_apcMaxQueueSize_update,
      u32_option ''apc-reconnect-delay'' aa_apcReconnectDelay aa_apcReconnectDelay_update,
      str_option ''api-device'' aa_sApiPortName aa_sApiPortName_update,
      u16_option ''apm-max-msg-size'' aa_maxMsgSize aa_maxMsgSize_update,
      u32_option ''baud'' aa_baudRate aa_baudRate_update,
      u32_option ''gps-max-stable-time'' aa_gpsMaxStableTime aa_gpsMaxStableTime_update,
      str_option ''gpsd-host'' aa_sGpsdHost aa_sGpsdHost_update,
      u16_option ''gpsd-min-sats-in-use'' aa_gpsdMinSatsInUse aa_gpsdMinSatsInUse_update,
      str_option ''gpsd-port'' aa_sGpsdPort aa_sGpsdPort_update,
      u32_option ''gpsd-timeout'' aa_gpsdTimeout aa_gpsdTimeout_update,
      flag_option ''gpsd-conn'' aa_bGpsdConn aa_bGpsdConn_update,
      u16_option ''high-queue-watermark'' aa_highQueueWatermark aa_highQueueWatermark_update,
      str_option ''host'' aa_sHostName aa_sHostName_update,
      u16_option ''low-queue-watermark'' aa_lowQueueWatermark aa_lowQueueWatermark_update,
      u16_option ''max-queue-size'' aa_maxQueueSize aa_maxQueueSize_update,
      u16_option ''max-retries'' aa_maxRetries aa_maxRetries_update,
      u32_option ''ping-timeout'' aa_pingTimeout aa_pingTimeout_update,
      u16_option ''port'' aa_port aa_port_update,
      str_option ''reset-device'' aa_sResetPortName aa_sResetPortName_update,
      u32_option ''retry-delay'' aa_retryDelay aa_retryDelay_update,
      u32_option ''retry-timeout'' aa_retryTimeout aa_retryTimeout_update,
      u32_option ''reset-boot-timeout'' aa_resetBootTimeout aa_resetBootTimeout_update,
      u32_option ''disconnect-boot-timeout-short'' aa_disconnectShortBootTimeoutMsec aa_disconnectShortBootTimeoutMsec_update,
      u32_option ''disconnect-boot-timeout-long'' aa_disconnectLongBootTimeoutMsec aa_disconnectLongBootTimeoutMsec_update,
      str_option ''reset-signal'' aa_sResetSignal aa_sResetSignal_update,
      flag_option ''reconnect-serial'' aa_bReconnectSerial aa_bReconnectSerial_update,
      u32_option ''max-packet-age'' aa_maxPacketAge aa_maxPacketAge_update,
      str_option ''ap-clock-source'' aa_sApClkSource aa_sApClkSource_update]"

definition apc_options :: "CApcProcessInputArguments po_option list" where
  "apc_options = process_options True False @ add_options"

section \<open>Parsing\<close>

text \<open>\<^const>\<open>Inl\<close> is the text of the exception; \<^verbatim>\<open>parse\<close> prints it and returns false.\<close>

definition str2proto_p :: "string \<Rightarrow> string + apiproto_t" where
  "str2proto_p s =
     (if map tolower s = ''ipc'' then Inr APIPROTO_IPC
      else if map tolower s = ''tcp'' then Inr APIPROTO_TCP
      else Inl (''Unsupported protocol: '' @ s))"

definition apc_process :: "CApcProcessInputArguments \<Rightarrow> string + CApcProcessInputArguments" where
  "apc_process a =
     (if aa_clientId a = [] then Inl ''Missing ClientID''
      else if aa_sResetSignal a \<noteq> RESET_SIGNAL_TX \<and> aa_sResetSignal a \<noteq> RESET_SIGNAL_DTR
      then Inl ''Invalid reset-signal value, must be TX or DTR.''
      else if aa_sApClkSource a \<noteq> [] then
        (case clkSrcStringToEnum (aa_sApClkSource a) (aa_apClkSource a) of (src, ok) \<Rightarrow>
           if ok then Inr (a\<lparr>aa_apClkSource := src\<rparr>)
           else Inl (''Invalid ap-clock-source value '' @ aa_sApClkSource a @ '', should be GPS or AUTO.''))
      else Inr a)"

text \<open>
  What the libraries give: the result of parsing the command line, of opening and parsing a file by name, the full name of a file, the log level of a name.
\<close>

record parse_env =
  pe_cmdline :: "string + variables_map"
  pe_config :: "string \<Rightarrow> (string + variables_map) option"
  pe_fullName :: "string \<Rightarrow> string \<Rightarrow> string"
  pe_toLevel :: "string \<Rightarrow> log4_level \<Rightarrow> log4_level"

definition set_confName :: "(string \<Rightarrow> string) \<Rightarrow> 'z CProcessInputArguments_scheme \<Rightarrow> 'z CProcessInputArguments_scheme" where
  "set_confName f = pa_val_update (va_confName_update f)"

definition read_config :: "parse_env \<Rightarrow> 'z CProcessInputArguments_scheme po_option list \<Rightarrow> variables_map
    \<Rightarrow> 'z CProcessInputArguments_scheme \<Rightarrow> string + 'z CProcessInputArguments_scheme" where
  "read_config e opts vm a =
     (case pe_config e (va_confName (pa_val a)) of
        None \<Rightarrow> Inr a
      | Some (Inl err) \<Rightarrow> Inl (''Can not parse file: '' @ va_confName (pa_val a) @ '' ('' @ err @ '')'')
      | Some (Inr cvm) \<Rightarrow> Inr (po_notify opts vm (po_notify opts cvm a)))"

definition finish_values :: "parse_env \<Rightarrow> 'z CProcessInputArguments_scheme \<Rightarrow> string + 'z CProcessInputArguments_scheme" where
  "finish_values e a =
     (case (if pa_proto a = [] then Inr (va_apiProto (pa_val a)) else str2proto_p (pa_proto a)) of
        Inl err \<Rightarrow> Inl err
      | Inr proto \<Rightarrow>
          Inr (a\<lparr>pa_val := (pa_val a)\<lparr>va_apiProto := proto,
                   va_logLevel := (if pa_logLevel a = [] then va_logLevel (pa_val a)
                                   else pe_toLevel e (pa_logLevel a) (va_logLevel (pa_val a))),
                   va_logName := pe_fullName e DEFAULT_LOG_DIR (va_logName (pa_val a))\<rparr>\<rparr>))"

definition parse_args :: "parse_env \<Rightarrow> 'z CProcessInputArguments_scheme po_option list
    \<Rightarrow> ('z CProcessInputArguments_scheme \<Rightarrow> string + 'z CProcessInputArguments_scheme)
    \<Rightarrow> 'z CProcessInputArguments_scheme \<Rightarrow> string + 'z CProcessInputArguments_scheme" where
  "parse_args e opts process_fun a =
     (case pe_cmdline e of Inl err \<Rightarrow> Inl err
      | Inr vm \<Rightarrow>
          let a = po_notify opts vm a in
          if vm ''help'' \<noteq> None then Inl []
          else
            (case read_config e opts vm (set_confName (pe_fullName e DEFAULT_CONF_DIR) a) of Inl err \<Rightarrow> Inl err
             | Inr a \<Rightarrow> (case finish_values e a of Inl err \<Rightarrow> Inl err | Inr a \<Rightarrow> process_fun a)))"

definition apc_parse :: "parse_env \<Rightarrow> CApcProcessInputArguments \<Rightarrow> string + CApcProcessInputArguments" where
  "apc_parse e a = parse_args e apc_options apc_process a"

definition args_toString :: "(string \<Rightarrow> string \<Rightarrow> string) \<Rightarrow> values_s \<Rightarrow> string" where
  "args_toString fullName v =
     (if va_apiProto v = APIPROTO_IPC then
        let ipcsubdir = (if va_apiIpcpath v = [] then DEFAULT_API_IPCPATH_DIR else va_apiIpcpath v)
        in ''API protocol: IPC. IPC directory: '' @ fullName ipcsubdir '' ''
      else ''API protocol: TCP. '' @ va_apiHost v @ '':'' @ dec_text (unat (va_apiPort v)))"

section \<open>Tables of options\<close>

text \<open>Every option has a name and a member of its own.\<close>

locale option_table =
  fixes opts :: "'a po_option list"
  assumes names: "distinct (map po_name opts)"
    and get_set: "x \<in> set opts \<Longrightarrow> po_typed x v \<Longrightarrow> po_get x (po_set x v a) = v"
    and get_other: "x \<in> set opts \<Longrightarrow> y \<in> set opts \<Longrightarrow> po_name x \<noteq> po_name y \<Longrightarrow> po_get x (po_set y v a) = po_get x a"
begin

lemma notify_other:
  assumes "set xs \<subseteq> set opts" and "x \<in> set opts" and "po_name x \<notin> po_name ` set xs"
  shows "po_get x (po_notify xs vm a) = po_get x a"
  using assms
proof (induction xs arbitrary: a)
  case (Cons y xs)
  have "po_get x (case vm (po_name y) of None \<Rightarrow> a | Some v \<Rightarrow> po_set y v a) = po_get x a"
    using get_other[of x y] Cons.prems by (auto split: option.split)
  then show ?case using Cons.IH Cons.prems by (simp add: po_notify_def)
qed (simp add: po_notify_def)

lemma notify_get:
  assumes "x \<in> set opts" and "vm_typed opts vm"
  shows "po_get x (po_notify opts vm a) = (case vm (po_name x) of None \<Rightarrow> po_get x a | Some v \<Rightarrow> v)"
proof -
  obtain xs ys where split: "opts = xs @ x # ys" using split_list[OF assms(1)] by blast
  have n: "po_name x \<notin> po_name ` set xs" "po_name x \<notin> po_name ` set ys" using names split by auto
  have sub: "set xs \<subseteq> set opts" "set ys \<subseteq> set opts" using split by auto
  let ?b = "po_notify xs vm a"
  have run: "po_notify opts vm a = po_notify ys vm (case vm (po_name x) of None \<Rightarrow> ?b | Some v \<Rightarrow> po_set x v ?b)"
    unfolding split by (simp add: po_notify_def split: option.split)
  have typed: "vm (po_name x) = Some v \<Longrightarrow> po_typed x v" for v
    using assms by (auto simp: vm_typed_def list_all_iff split: option.splits)
  show ?thesis
    unfolding run notify_other[OF sub(2) assms(1) n(2)]
    using notify_other[OF sub(1) assms(1) n(1)] get_set[OF assms(1) typed] by (simp split: option.split)
qed

text \<open>Two layers: what the later source has, it decides.\<close>

lemma notify_layers:
  assumes "x \<in> set opts" and "vm_typed opts vm" and "vm_typed opts cvm"
  shows "po_get x (po_notify opts vm (po_notify opts cvm a)) = (case (cvm ++ vm) (po_name x) of None \<Rightarrow> po_get x a | Some v \<Rightarrow> v)"
  using notify_get[OF assms(1,2)] notify_get[OF assms(1,3)] by (simp add: map_add_def split: option.split)

end

lemmas option_defs = str_option_def u16_option_def u32_option_def flag_option_def

lemma process_options_list:
  "process_options True False =
     [str_option ''api-proto'' pa_proto pa_proto_update,
      str_option ''api-ipcpath'' (\<lambda>a. va_apiIpcpath (pa_val a)) (\<lambda>f. pa_val_update (va_apiIpcpath_update f)),
      u16_option ''api-port'' (\<lambda>a. va_apiPort (pa_val a)) (\<lambda>f. pa_val_update (va_apiPort_update f)),
      str_option ''config-file'' (\<lambda>a. va_confName (pa_val a)) (\<lambda>f. pa_val_update (va_confName_update f)),
      str_option ''log-file'' (\<lambda>a. va_logName (pa_val a)) (\<lambda>f. pa_val_update (va_logName_update f)),
      str_option ''log-level'' pa_logLevel pa_logLevel_update,
      str_option ''wd-name'' (\<lambda>a. va_wdName (pa_val a)) (\<lambda>f. pa_val_update (va_wdName_update f))]"
  by (simp add: process_options_def)

lemma apc_options_names: "distinct (map po_name apc_options)"
  unfolding apc_options_def process_options_list add_options_def by (simp add: option_defs)

lemma apc_options_get_set: "x \<in> set apc_options \<Longrightarrow> po_typed x v \<Longrightarrow> po_get x (po_set x v a) = v"
  unfolding apc_options_def process_options_list add_options_def by (auto simp: option_defs)

lemma apc_options_other:
  "list_all (\<lambda>x. list_all (\<lambda>y. po_name x \<noteq> po_name y \<longrightarrow> (\<forall>v a. po_get x (po_set y v a) = po_get x a)) apc_options) apc_options"
  unfolding apc_options_def process_options_list add_options_def by (simp add: option_defs)

interpretation apc_table: option_table apc_options
proof
  show "distinct (map po_name apc_options)" by (rule apc_options_names)
  show "po_get x (po_set x v a) = v" if "x \<in> set apc_options" "po_typed x v" for x v a
    using apc_options_get_set[OF that] .
  show "po_get x (po_set y v a) = po_get x a" if "x \<in> set apc_options" "y \<in> set apc_options" "po_name x \<noteq> po_name y" for x y v a
    using apc_options_other that by (simp add: list_all_iff)
qed

section \<open>What the process is configured with\<close>

text \<open>The file that is read, and what it holds.\<close>

definition config_file :: "parse_env \<Rightarrow> variables_map \<Rightarrow> 'z CProcessInputArguments_scheme \<Rightarrow> string" where
  "config_file e vm a = pe_fullName e DEFAULT_CONF_DIR
     (case vm ''config-file'' of None \<Rightarrow> va_confName (pa_val a) | Some v \<Rightarrow> po_str v)"

definition config_values :: "parse_env \<Rightarrow> variables_map \<Rightarrow> 'z CProcessInputArguments_scheme \<Rightarrow> variables_map" where
  "config_values e vm a = (case pe_config e (config_file e vm a) of Some (Inr cvm) \<Rightarrow> cvm | _ \<Rightarrow> Map.empty)"

definition conf_option :: "'z CProcessInputArguments_scheme po_option" where
  "conf_option = str_option ''config-file'' (\<lambda>a. va_confName (pa_val a)) (\<lambda>f. pa_val_update (va_confName_update f))"

lemma conf_option_in: "conf_option \<in> set apc_options" "po_name conf_option = ''config-file''"
  by (simp_all add: conf_option_def apc_options_def process_options_list option_defs)

lemma notify_confName:
  assumes "vm_typed apc_options vm"
  shows "va_confName (pa_val (po_notify apc_options vm a)) = (case vm ''config-file'' of None \<Rightarrow> va_confName (pa_val a) | Some v \<Rightarrow> po_str v)"
  using arg_cong[OF apc_table.notify_get[OF conf_option_in(1) assms, of a], of po_str]
  unfolding conf_option_in(2) by (simp add: conf_option_def option_defs split: option.splits)

lemma add_options_keep:
  assumes "x \<in> set add_options"
  shows "po_get x (a\<lparr>pa_val := v\<rparr>) = po_get x a" "po_get x (a\<lparr>aa_apClkSource := src\<rparr>) = po_get x a"
    "po_get x (set_confName f a) = po_get x a"
proof -
  have "list_all (\<lambda>x. po_get x (a\<lparr>pa_val := v\<rparr>) = po_get x a \<and> po_get x (a\<lparr>aa_apClkSource := src\<rparr>) = po_get x a
      \<and> po_get x (set_confName f a) = po_get x a) add_options"
    by (simp add: add_options_def option_defs set_confName_def)
  then show "po_get x (a\<lparr>pa_val := v\<rparr>) = po_get x a" "po_get x (a\<lparr>aa_apClkSource := src\<rparr>) = po_get x a"
      "po_get x (set_confName f a) = po_get x a"
    using assms by (simp_all add: list_all_iff)
qed

lemma process_ok: "apc_process a = Inr a' \<Longrightarrow> \<exists>src. a' = a\<lparr>aa_apClkSource := src\<rparr>"
  by (cases a) (auto simp: apc_process_def split: if_splits prod.splits)

lemma finish_ok: "finish_values e a = Inr a' \<Longrightarrow> \<exists>v. a' = a\<lparr>pa_val := v\<rparr> \<and> va_confName v = va_confName (pa_val a)"
  by (auto simp: finish_values_def split: sum.splits if_splits)

text \<open>A parse that succeeds: the values found, then the checks.\<close>

lemma apc_parse_cases:
  assumes "apc_parse e a = Inr a'" and "pe_cmdline e = Inr vm" and "vm_typed apc_options vm"
  defines "b \<equiv> set_confName (pe_fullName e DEFAULT_CONF_DIR) (po_notify apc_options vm a)"
  obtains c v src where "a' = c\<lparr>pa_val := v, aa_apClkSource := src\<rparr>" "va_confName v = va_confName (pa_val c)"
    "(pe_config e (config_file e vm a) = None \<and> c = b)
     \<or> (\<exists>cvm. pe_config e (config_file e vm a) = Some (Inr cvm) \<and> c = po_notify apc_options vm (po_notify apc_options cvm b))"
proof -
  have name: "va_confName (pa_val b) = config_file e vm a"
    using notify_confName[OF assms(3), of a] by (simp add: b_def set_confName_def config_file_def)
  obtain c where c: "read_config e apc_options vm b = Inr c" "(case finish_values e c of Inl err \<Rightarrow> Inl err | Inr a \<Rightarrow> apc_process a) = Inr a'"
    using assms(1,2) by (auto simp: apc_parse_def parse_args_def Let_def b_def split: if_splits sum.splits)
  then obtain d where d: "finish_values e c = Inr d" "apc_process d = Inr a'" by (auto split: sum.splits)
  obtain v src where "d = c\<lparr>pa_val := v\<rparr>" "va_confName v = va_confName (pa_val c)" "a' = d\<lparr>aa_apClkSource := src\<rparr>"
    using finish_ok[OF d(1)] process_ok[OF d(2)] by blast
  moreover have "(pe_config e (config_file e vm a) = None \<and> c = b)
     \<or> (\<exists>cvm. pe_config e (config_file e vm a) = Some (Inr cvm) \<and> c = po_notify apc_options vm (po_notify apc_options cvm b))"
    using c(1) name by (auto simp: read_config_def split: option.splits sum.splits)
  ultimately show thesis using that[where c = c and v = v and src = src] by simp
qed

text \<open>
  Claim C39.  The command line decides over the configuration file, the file over the defaults.  Whenever the arguments are accepted, every
  option of the bridge has the value of the command line if it is given there, else the value of the configuration file if the file
  is there and has it, else the default: although the command line is stored twice, around the file that it names.\<close>

theorem command_line_decides:
  assumes "apc_parse e a = Inr a'" and "pe_cmdline e = Inr vm" and "vm_typed apc_options vm"
    and "vm_typed apc_options (config_values e vm a)" and "x \<in> set add_options"
  shows "po_get x a' = (case vm (po_name x) of Some v \<Rightarrow> v
    | None \<Rightarrow> (case config_values e vm a (po_name x) of Some v \<Rightarrow> v | None \<Rightarrow> po_get x a))"
proof -
  let ?b = "set_confName (pe_fullName e DEFAULT_CONF_DIR) (po_notify apc_options vm a)"
  have x: "x \<in> set apc_options" using assms(5) by (simp add: apc_options_def)
  obtain c v src where c: "a' = c\<lparr>pa_val := v, aa_apClkSource := src\<rparr>"
    "(pe_config e (config_file e vm a) = None \<and> c = ?b)
     \<or> (\<exists>cvm. pe_config e (config_file e vm a) = Some (Inr cvm) \<and> c = po_notify apc_options vm (po_notify apc_options cvm ?b))"
    using apc_parse_cases[OF assms(1-3)] by metis
  have b: "po_get x ?b = (case vm (po_name x) of None \<Rightarrow> po_get x a | Some v \<Rightarrow> v)"
    using add_options_keep(3)[OF assms(5)] apc_table.notify_get[OF x assms(3), of a] by simp
  have get: "po_get x a' = po_get x c" using c(1) add_options_keep[OF assms(5)] by simp
  from c(2) show ?thesis
  proof (elim disjE conjE exE)
    assume "pe_config e (config_file e vm a) = None" "c = ?b"
    then show ?thesis using get b by (simp add: config_values_def split: option.split)
  next
    fix cvm assume "pe_config e (config_file e vm a) = Some (Inr cvm)" and c: "c = po_notify apc_options vm (po_notify apc_options cvm ?b)"
    then have "config_values e vm a = cvm" by (simp add: config_values_def)
    then show ?thesis
      using get c b apc_table.notify_layers[OF x assms(3), of cvm ?b] assms(4) by (simp add: map_add_def split: option.splits)
  qed
qed

text \<open>
  The name of the configuration file that the process keeps is not the name of the file that it read: when the file is named on the
  command line and can be read, storing the command line again overwrites the full name by the name as it was typed.\<close>

lemma config_name_unresolved:
  assumes "apc_parse e a = Inr a'" and "pe_cmdline e = Inr vm" and "vm_typed apc_options vm"
    and "vm ''config-file'' = Some (PoStr f)" and "pe_config e (pe_fullName e DEFAULT_CONF_DIR f) \<noteq> None"
  shows "va_confName (pa_val a') = f"
proof -
  have "config_file e vm a = pe_fullName e DEFAULT_CONF_DIR f" using assms(4) by (simp add: config_file_def)
  then obtain c v src cvm where "a' = c\<lparr>pa_val := v, aa_apClkSource := src\<rparr>" "va_confName v = va_confName (pa_val c)"
      "c = po_notify apc_options vm (po_notify apc_options cvm (set_confName (pe_fullName e DEFAULT_CONF_DIR) (po_notify apc_options vm a)))"
    using apc_parse_cases[OF assms(1-3)] assms(5) by metis
  then show ?thesis using notify_confName[OF assms(3)] assms(4) by simp
qed

section \<open>Example\<close>

text \<open>A file name and a port on the command line, another port and a host in the file.\<close>

definition demo_cmdline :: variables_map where
  "demo_cmdline = [''client-id'' \<mapsto> PoStr ''ap1'', ''config-file'' \<mapsto> PoStr ''my.conf'', ''port'' \<mapsto> PoU16 9200]"

definition demo_config :: variables_map where
  "demo_config = [''port'' \<mapsto> PoU16 9300, ''host'' \<mapsto> PoStr ''mngr'', ''apc-reconnect-delay'' \<mapsto> PoU32 0]"

definition demo_parse_env :: parse_env where
  "demo_parse_env = \<lparr>pe_cmdline = Inr demo_cmdline, pe_config = (\<lambda>f. if f = ''conf/my.conf'' then Some (Inr demo_config) else None),
     pe_fullName = (\<lambda>d f. d @ ''/'' @ f), pe_toLevel = (\<lambda>_ l. l)\<rparr>"

definition demo_args :: CApcProcessInputArguments where
  "demo_args = new_CApcProcessInputArguments ''2947''"

lemma demo_vms: "vm_typed apc_options demo_cmdline" "vm_typed apc_options demo_config"
  unfolding vm_typed_def apc_options_def process_options_list add_options_def
  by (simp_all add: option_defs demo_cmdline_def demo_config_def)

lemma demo_config_values: "config_values demo_parse_env demo_cmdline demo_args = demo_config"
  by (simp add: config_values_def config_file_def demo_parse_env_def demo_cmdline_def DEFAULT_CONF_DIR_def)

lemma demo_parse: "\<exists>a'. apc_parse demo_parse_env demo_args = Inr a'"
proof -
  have "\<not> isl (apc_parse demo_parse_env demo_args)" by code_simp
  then show ?thesis by (cases "apc_parse demo_parse_env demo_args") auto
qed

theorem command_line_decides_witness:
  "\<exists>a'. apc_parse demo_parse_env demo_args = Inr a' \<and> aa_port a' = 9200 \<and> aa_sHostName a' = ''mngr'' \<and> aa_baudRate a' = 921600"
proof -
  obtain a' where a': "apc_parse demo_parse_env demo_args = Inr a'" using demo_parse by blast
  have cmd: "pe_cmdline demo_parse_env = Inr demo_cmdline" by (simp add: demo_parse_env_def)
  note get = command_line_decides[OF a' cmd demo_vms(1), unfolded demo_config_values, OF demo_vms(2)]
  have "u16_option ''port'' aa_port aa_port_update \<in> set add_options"
    "str_option ''host'' aa_sHostName aa_sHostName_update \<in> set add_options"
    "u32_option ''baud'' aa_baudRate aa_baudRate_update \<in> set add_options" by (simp_all add: add_options_def)
  from this[THEN get] show ?thesis
    using a' by (simp add: option_defs demo_cmdline_def demo_config_def demo_args_def new_CApcProcessInputArguments_def default_defs)
qed

lemma config_name_unresolved_example:
  "\<exists>a'. apc_parse demo_parse_env demo_args = Inr a' \<and> pe_config demo_parse_env ''conf/my.conf'' \<noteq> None \<and> va_confName (pa_val a') = ''my.conf''"
proof -
  obtain a' where a': "apc_parse demo_parse_env demo_args = Inr a'" using demo_parse by blast
  have h: "pe_cmdline demo_parse_env = Inr demo_cmdline" "demo_cmdline ''config-file'' = Some (PoStr ''my.conf'')"
    "pe_config demo_parse_env (pe_fullName demo_parse_env DEFAULT_CONF_DIR ''my.conf'') \<noteq> None"
    by (simp_all add: demo_parse_env_def demo_cmdline_def DEFAULT_CONF_DIR_def)
  from config_name_unresolved[OF a' h(1) demo_vms(1) h(2,3)] a' show ?thesis by (simp add: demo_parse_env_def)
qed

end
