(* ===== verification/Node_State.thy ===== *)
theory Node_State
  imports APB_Prelude
begin

text \<open>
  The stop request of the process (\<^verbatim>\<open>common/IChangeNodeState.h\<close>, \<^verbatim>\<open>common/ChangeNodeState.cpp\<close>) and the wait for it in the
  main thread (\<^verbatim>\<open>watchdog/WdClntWrapper_APC.cpp\<close>).

  A section under the mutex is one step.  The waiting thread has a position between its steps; the condition variable wakes it, also
  for no reason.  The signal handler runs inside whatever thread the system interrupts: when that thread is the waiting one and
  holds the mutex, the handler waits for its own thread.
\<close>

section \<open>State\<close>

datatype result_t = NS_NA | NS_STOPPED | NS_MASTER
datatype stopseverity_t = STOP_OK | STOP_ERROR | STOP_FATAL_ERROR

record CChangeNodeState =
  ns_who :: string
  ns_isStop :: bool
  ns_isPromote :: bool
  ns_exitCode :: u32
  ns_stopSeverity :: stopseverity_t

definition new_CChangeNodeState :: CChangeNodeState where
  "new_CChangeNodeState = \<lparr>ns_who = ''Watchdog Server'', ns_isStop = False, ns_isPromote = False, ns_exitCode = 0,
     ns_stopSeverity = STOP_OK\<rparr>"

datatype wait_pos = WsEnter | WsAsleep | WsWoken | WsReturned

definition notify_one :: "wait_pos \<Rightarrow> wait_pos" where
  "notify_one p = (if p = WsAsleep then WsWoken else p)"

section \<open>Operations\<close>

definition ns_stop :: "string \<Rightarrow> stopseverity_t \<Rightarrow> u32 \<Rightarrow> wait_pos \<times> CChangeNodeState \<Rightarrow> wait_pos \<times> CChangeNodeState" where
  "ns_stop who stopSeverity exitCode = (\<lambda>(p, s).
     (notify_one p, s\<lparr>ns_stopSeverity := stopSeverity, ns_exitCode := exitCode, ns_who := who, ns_isStop := True\<rparr>))"

definition ns_promote :: "wait_pos \<times> CChangeNodeState \<Rightarrow> wait_pos \<times> CChangeNodeState" where
  "ns_promote = (\<lambda>(p, s). (notify_one p, s\<lparr>ns_isPromote := True\<rparr>))"

text \<open>The loop condition under the mutex: go to sleep, or return the new state.\<close>

definition waitSignal :: "CChangeNodeState \<Rightarrow> CChangeNodeState \<times> result_t option" where
  "waitSignal s =
     (if \<not> ns_isStop s \<and> \<not> ns_isPromote s then (s, None)
      else if ns_isStop s then (s\<lparr>ns_isStop := False\<rparr>, Some NS_STOPPED)
      else (s\<lparr>ns_isPromote := False\<rparr>, Some NS_MASTER))"

text \<open>One step of \<^verbatim>\<open>CWdClntWrapper::wait\<close>, which calls \<^verbatim>\<open>waitSignal\<close> until the node is stopped.\<close>

definition wd_wait :: "wait_pos \<times> CChangeNodeState \<Rightarrow> wait_pos \<times> CChangeNodeState" where
  "wd_wait = (\<lambda>(p, s).
     if p = WsEnter \<or> p = WsWoken then
       (case waitSignal s of
          (s, None) \<Rightarrow> (WsAsleep, s)
        | (s, Some r) \<Rightarrow> (if r = NS_STOPPED then WsReturned else WsEnter, s))
     else (p, s))"

text \<open>
  The signal handler: \<^const>\<open>None\<close> when it never returns.  The object is created by the first call of \<^verbatim>\<open>getChangeNodeStateObj\<close>, which
  also installs the handler.
\<close>

definition handle_signal :: "bool \<Rightarrow> wait_pos \<times> CChangeNodeState \<Rightarrow> (wait_pos \<times> CChangeNodeState) option" where
  "handle_signal interruptsHolder ps =
     (if interruptsHolder then None else Some (ns_stop ''Watchdog Server'' STOP_OK 0 ps))"

datatype node_event =
    NStop string stopseverity_t u32
  | NPromote
  | NWake
  | NWait

fun node_step :: "node_event \<Rightarrow> wait_pos \<times> CChangeNodeState \<Rightarrow> wait_pos \<times> CChangeNodeState" where
  "node_step (NStop who sv k) ps = ns_stop who sv k ps"
| "node_step NPromote ps = ns_promote ps"
| "node_step NWake (p, s) = (notify_one p, s)"
| "node_step NWait ps = wd_wait ps"

definition node_run :: "node_event list \<Rightarrow> wait_pos \<times> CChangeNodeState" where
  "node_run evs = fold node_step evs (WsEnter, new_CChangeNodeState)"

section \<open>The main thread waits for exactly the stop requests\<close>

lemma node_run_snoc [simp]: "node_run (evs @ [ev]) = node_step ev (node_run evs)"
  by (simp add: node_run_def)

fun is_stop :: "node_event \<Rightarrow> bool" where
  "is_stop (NStop _ _ _) = True"
| "is_stop _ = False"

definition stop_seen :: "node_event list \<Rightarrow> bool" where
  "stop_seen evs \<longleftrightarrow> (\<exists>xs who sv k ys. evs = xs @ NStop who sv k # ys \<and> NWait \<in> set ys)"

lemma stop_seen_snoc: "stop_seen (evs @ [ev]) \<longleftrightarrow> stop_seen evs \<or> (ev = NWait \<and> (\<exists>x \<in> set evs. is_stop x))"
proof
  assume "stop_seen (evs @ [ev])"
  then obtain xs who sv k ys where ys: "evs @ [ev] = xs @ NStop who sv k # ys" "NWait \<in> set ys" unfolding stop_seen_def by blast
  then obtain ys' where "ys = ys' @ [ev]" "evs = xs @ NStop who sv k # ys'"
    by (cases ys rule: rev_cases) auto
  then show "stop_seen evs \<or> (ev = NWait \<and> (\<exists>x \<in> set evs. is_stop x))" using ys(2) unfolding stop_seen_def by (cases "ev = NWait") (force, fastforce)
next
  assume "stop_seen evs \<or> (ev = NWait \<and> (\<exists>x \<in> set evs. is_stop x))"
  then show "stop_seen (evs @ [ev])"
  proof
    assume "stop_seen evs"
    then obtain xs who sv k ys where ys: "evs = xs @ NStop who sv k # ys" "NWait \<in> set ys" unfolding stop_seen_def by blast
    then show ?thesis unfolding stop_seen_def
      by (intro exI[of _ xs] exI[of _ who] exI[of _ sv] exI[of _ k] exI[of _ "ys @ [ev]"]) simp
  next
    assume r: "ev = NWait \<and> (\<exists>x \<in> set evs. is_stop x)"
    then obtain x where x: "x \<in> set evs" "is_stop x" by blast
    obtain who sv k where "x = NStop who sv k" using x(2) by (cases rule: is_stop.cases[of x]) simp_all
    then obtain xs ys where "evs = xs @ NStop who sv k # ys" using split_list[OF x(1)] by blast
    then show ?thesis using r unfolding stop_seen_def
      by (intro exI[of _ xs] exI[of _ who] exI[of _ sv] exI[of _ k] exI[of _ "ys @ [NWait]"]) simp
  qed
qed

lemma node_inv:
  "(fst (node_run evs) = WsReturned \<longleftrightarrow> stop_seen evs)
   \<and> (\<not> stop_seen evs \<longrightarrow> (ns_isStop (snd (node_run evs)) \<longleftrightarrow> (\<exists>x \<in> set evs. is_stop x)))
   \<and> (fst (node_run evs) = WsAsleep \<longrightarrow> \<not> ns_isStop (snd (node_run evs)) \<and> \<not> ns_isPromote (snd (node_run evs)))"
proof (induction evs rule: rev_induct)
  case Nil
  show ?case by (auto simp: node_run_def stop_seen_def new_CChangeNodeState_def)
next
  case (snoc ev evs)
  obtain p s where r: "node_run evs = (p, s)" by (metis surj_pair)
  note IH = snoc.IH[unfolded r fst_conv snd_conv]
  show ?case
  proof (cases ev)
    case NWait
    show ?thesis
    proof (cases "p = WsEnter \<or> p = WsWoken")
      case True
      then have "\<not> stop_seen evs" using IH by auto
      then show ?thesis using True IH NWait r by (auto simp: stop_seen_snoc wd_wait_def waitSignal_def)
    next
      case False
      then have "p = WsAsleep \<or> p = WsReturned" by (cases p) auto
      then show ?thesis using IH NWait r by (auto simp: stop_seen_snoc wd_wait_def)
    qed
  qed (use IH r in \<open>auto simp: stop_seen_snoc ns_stop_def ns_promote_def notify_one_def\<close>)
qed

text \<open>
  Claim C40.  The main thread waits for exactly the stop requests.  Whatever the order of stop requests, promotions, wake-ups without a
  reason and steps of the waiting thread, the wait has returned if and only if the thread made a step after some stop request: no
  request is lost, however it interleaves with promotions and with the thread falling asleep, and nothing else ends the process.\<close>

theorem stop_request_ends_wait:
  "fst (fold node_step evs (WsEnter, new_CChangeNodeState)) = WsReturned
   \<longleftrightarrow> (\<exists>xs who sv k ys. evs = xs @ NStop who sv k # ys \<and> NWait \<in> set ys)"
  using node_inv[of evs] by (simp add: node_run_def stop_seen_def)

text \<open>
  The handler that interrupts the waiting thread inside its section never returns; outside it ends the wait at the next step.\<close>

lemma signal_in_section_blocks:
  "handle_signal True ps = None"
  "handle_signal False (node_run evs) = Some ps' \<Longrightarrow> fst (wd_wait ps') = WsReturned"
proof -
  show "handle_signal True ps = None" by (simp add: handle_signal_def)
  assume "handle_signal False (node_run evs) = Some ps'"
  then have "ps' = node_run (evs @ [NStop ''Watchdog Server'' STOP_OK 0])" by (simp add: handle_signal_def)
  moreover have "stop_seen ((evs @ [NStop ''Watchdog Server'' STOP_OK 0]) @ [NWait])"
    by (subst stop_seen_snoc) auto
  ultimately show "fst (wd_wait ps') = WsReturned"
    using node_inv[of "(evs @ [NStop ''Watchdog Server'' STOP_OK 0]) @ [NWait]"]
    by (simp del: append_assoc)
qed

end
