(* ===== verification/Coupler_Machine.thy ===== *)
theory Coupler_Machine
  imports AP_Coupler
begin

text \<open>
  The state machine thread of the coupler (\<^verbatim>\<open>smThreadFun_p\<close> and the functions it calls in \<^verbatim>\<open>APCoupler.cpp\<close>) as a step
  function: between two steps the thread waits for events or is about to start the manager client.  Other threads post
  events by \<^const>\<open>sendEvent_p\<close> between the steps.
\<close>

section \<open>Waiting for events\<close>

datatype wait_result = WaitBlocked | WaitStop | WaitGot u32 | WaitAgain

text \<open>
  One turn of the loop of \<^verbatim>\<open>waitEvents_p\<close>: without a timeout (zero) it blocks until there are events, else until there
  are events or the time is over.  The events are taken out of the coupler.
\<close>

definition waitEvents_p :: "u32 \<Rightarrow> u32 \<Rightarrow> bool \<Rightarrow> CAPCoupler \<Rightarrow> CAPCoupler \<times> wait_result" where
  "waitEvents_p evMask timeoutMsec isTimeOver c =
     (let timed = (timeoutMsec \<noteq> 0); e = cp_events c in
      if e = 0 \<and> \<not> (timed \<and> isTimeOver) then (c, WaitBlocked)
      else
        let c = c\<lparr>cp_events := 0\<rparr>
        in if e AND E_STOP \<noteq> 0 then (c, WaitStop)
           else if e AND evMask \<noteq> 0 then (c, WaitGot e)
           else if timed \<and> e = 0 \<and> isTimeOver then (c, WaitGot E_TIMEOUT)
           else (c, WaitAgain))"

section \<open>The thread\<close>

text \<open>Where the thread is; after \<^verbatim>\<open>synchStop_p\<close> it either tries to start the client again or prepares the access point.\<close>

datatype after_stop = RetryStart | PrepareFor u32

datatype sm_place =
    SmBlackout u32
  | SmPrepare nat u32
  | SmClientStart
  | SmWaitConnect
  | SmWaitEvent
  | SmSynchStop after_stop
  | SmStopWait
  | SmEnd

type_synonym sm_step = "sm_place \<times> CAPCoupler \<times> coup_out list"

definition BOOT_EVENTS :: u32 where [coup_defs]: "BOOT_EVENTS = E_APM_BOOT OR E_APM_REBOOT"

text \<open>\<^verbatim>\<open>prepareAP_p\<close> up to its wait.\<close>

definition prepareAP_p :: "u32 \<Rightarrow> CAPCoupler \<Rightarrow> sm_step" where
  "prepareAP_p e c =
     (if e AND E_STOP \<noteq> 0 then (SmStopWait, c, [TrDisableAbort, TrDisableJoin, TrDisconnectAP True])
      else if e AND BOOT_EVENTS \<noteq> 0 then (SmClientStart, c, [])
      else if e AND E_APM_LOST \<noteq> 0 then (SmPrepare MAX_NUM_RESET (cp_hwResetTimeoutMsec c), c, [TrDisableAbort, TrHwReset])
      else (SmPrepare MAX_NUM_RESET (if e AND E_AP_RESET \<noteq> 0 then cp_disconnectTimeoutShortMsec c
                                     else cp_disconnectTimeoutLongMsec c), c, [TrDisableAbort, TrDisconnectAP True]))"

text \<open>What follows a stop event: the exception is caught and the access point is disconnected.\<close>

definition on_stop :: "CAPCoupler \<Rightarrow> sm_step" where
  "on_stop c = prepareAP_p E_STOP c"

definition synchStop_p :: "coup_env \<Rightarrow> after_stop \<Rightarrow> CAPCoupler \<Rightarrow> sm_step" where
  "synchStop_p e k c =
     (if co_isConnected e then (SmSynchStop k, c, [ClStop])
      else case k of RetryStart \<Rightarrow> (SmClientStart, c, [ClStop])
           | PrepareFor ev \<Rightarrow> (case prepareAP_p ev c of (p, c, out) \<Rightarrow> (p, c, ClStop # out)))"

text \<open>The thread function up to the first wait, and after the wait for the end of the blackout.\<close>

definition sm_begin :: "coup_env \<Rightarrow> CAPCoupler \<Rightarrow> sm_step" where
  "sm_begin e c =
     (case prepareAP_p E_AP_RESET (fst (leapCheckingTimer_p e False c)) of (p, c, out) \<Rightarrow> (p, c, TrDisableJoin # out))"

definition smThreadFun_p :: "coup_env \<Rightarrow> CAPCoupler \<Rightarrow> sm_step" where
  "smThreadFun_p e c =
     (let sec = secSinceMidnight_p e AP_BLACKOUT False in
      if sec < 0 \<and> ntpIsLeapDay (co_ntp e)
      then (SmBlackout (word_of_int ((AP_BLACKOUT_DURATION + sec) * 1000)), c, [])
      else sm_begin e c)"

definition MASK_CONNECT :: u32 where [coup_defs]:
  "MASK_CONNECT = E_MNGR_CONNECT OR E_MNGR_DISCONNECT OR E_APM_BOOT OR E_APM_LOST OR E_AP_RESET"

definition MASK_RUN :: u32 where [coup_defs]:
  "MASK_RUN = E_MNGR_DISCONNECT OR E_APM_LOST OR E_APM_REBOOT OR E_APM_BOOT OR E_AP_DISCONNECT OR E_AP_RESET"

text \<open>A turn of a wait: blocked and disregarded turns change nothing but the events.\<close>

definition awaiting ::
  "u32 \<Rightarrow> u32 \<Rightarrow> bool \<Rightarrow> sm_place \<Rightarrow> CAPCoupler \<Rightarrow> (CAPCoupler \<Rightarrow> sm_step) \<Rightarrow> (u32 \<Rightarrow> CAPCoupler \<Rightarrow> sm_step) \<Rightarrow> sm_step" where
  "awaiting evMask timeoutMsec isTimeOver here c stopped got =
     (case waitEvents_p evMask timeoutMsec isTimeOver c of
        (c, WaitBlocked) \<Rightarrow> (here, c, [])
      | (c, WaitAgain) \<Rightarrow> (here, c, [])
      | (c, WaitStop) \<Rightarrow> stopped c
      | (c, WaitGot e) \<Rightarrow> got e c)"

definition sm_step :: "coup_env \<Rightarrow> bool \<Rightarrow> sm_place \<Rightarrow> CAPCoupler \<Rightarrow> sm_step" where
  "sm_step e isTimeOver p c = (case p of
      SmBlackout t \<Rightarrow> awaiting 0 t isTimeOver p c on_stop (\<lambda>_. sm_begin e)
    | SmPrepare resets t \<Rightarrow>
        awaiting BOOT_EVENTS t isTimeOver p c on_stop
          (\<lambda>ev c. if ev = E_TIMEOUT then
                    (case resets of 0 \<Rightarrow> (p, c, [NodeStop])
                     | Suc n \<Rightarrow> (SmPrepare n (cp_hwResetTimeoutMsec c), c, [TrHwReset]))
                  else (SmClientStart, c, [TrEnableAbort]))
    | SmClientStart \<Rightarrow>
        (if co_startResult e = APC_OK then (SmWaitConnect, c, [ClStart (cp_client_start_param c)])
         else case synchStop_p e RetryStart c of (p, c, out) \<Rightarrow> (p, c, ClStart (cp_client_start_param c) # out))
    | SmWaitConnect \<Rightarrow>
        awaiting MASK_CONNECT 0 isTimeOver p c on_stop
          (\<lambda>ev c. if ev XOR E_MNGR_CONNECT = 0 then (SmWaitEvent, c, [TrEnableJoin (co_netId e)])
                  else synchStop_p e (PrepareFor ev) c)
    | SmWaitEvent \<Rightarrow> awaiting MASK_RUN 0 isTimeOver p c on_stop (\<lambda>ev. synchStop_p e (PrepareFor ev))
    | SmSynchStop k \<Rightarrow>
        awaiting E_MNGR_DISCONNECT 1000 isTimeOver p c on_stop
          (\<lambda>_ c. case k of RetryStart \<Rightarrow> (SmClientStart, c, []) | PrepareFor ev \<Rightarrow> prepareAP_p ev c)
    | SmStopWait \<Rightarrow>
        awaiting BOOT_EVENTS (cp_disconnectTimeoutLongMsec c) isTimeOver p c (\<lambda>c. (SmEnd, c, []))
          (\<lambda>_ c. (SmEnd, c, [TrEnableAbort]))
    | SmEnd \<Rightarrow> (SmEnd, c, []))"

section \<open>Opening and closing\<close>

record coup_init_param_t =
  ci_transport :: bool
  ci_mngrClient :: bool
  ci_mngrClientParam :: start_param_t
  ci_gps :: bool
  ci_gpsd_conn :: bool
  ci_resetBootTimeoutMsec :: u32
  ci_disconnectShortBootTimeoutMsec :: u32
  ci_disconnectLongBootTimeoutMsec :: u32
  ci_apClkSource :: EAPClockSource

text \<open>A failed assertion gives \<^const>\<open>None\<close>.\<close>

definition coup_open :: "coup_init_param_t \<Rightarrow> CAPCoupler \<Rightarrow> (CAPCoupler \<times> apc_error_t) option" where
  "coup_open p c =
     (if \<not> (ci_mngrClient p \<and> ci_transport p) then None
      else if cp_smThread c then Some (c, APC_ERR_STATE)
      else Some (c\<lparr>cp_transport := ci_transport p, cp_mngrClient := ci_mngrClient p,
                   cp_client_start_param := ci_mngrClientParam p, cp_host := sp_host (ci_mngrClientParam p),
                   cp_port := sp_port (ci_mngrClientParam p), cp_gps := ci_gps p, cp_gpsd_conn := ci_gpsd_conn p,
                   cp_gps_info := \<lparr>gi_satellites_visible = 0, gi_satellites_used = 0\<rparr>,
                   cp_hwResetTimeoutMsec := ci_resetBootTimeoutMsec p,
                   cp_disconnectTimeoutShortMsec := ci_disconnectShortBootTimeoutMsec p,
                   cp_disconnectTimeoutLongMsec := ci_disconnectLongBootTimeoutMsec p,
                   cp_apClkSource := ci_apClkSource p\<rparr>, APC_OK))"

definition coup_start :: "coup_env \<Rightarrow> CAPCoupler \<Rightarrow> sm_step" where
  "coup_start e c = smThreadFun_p e (c\<lparr>cp_smThread := True\<rparr>)"

text \<open>
  \<^verbatim>\<open>stop\<close> posts the stop event and joins the thread, then stops what the coupler uses.  The join is the part in between: the
  steps of the thread until \<^const>\<open>SmEnd\<close>.
\<close>

definition coup_stop_post :: "CAPCoupler \<Rightarrow> unit coup_res" where
  "coup_stop_post c = (if cp_smThread c then sendEvent_p E_STOP c else doing [] c)"

definition coup_stop_rest :: "CAPCoupler \<Rightarrow> CAPCoupler \<times> coup_out list" where
  "coup_stop_rest c =
     (c\<lparr>cp_smThread := False, cp_gps := False, cp_transport := False, cp_mngrClient := False\<rparr>,
      (if cp_gps c then [GpsStop] else []) @ (if cp_mngrClient c then [ClStop] else [])
      @ (if cp_transport c then [TrStop] else []))"

section \<open>Runs of the thread\<close>

text \<open>Successive turns of the thread, each with its environment and whether the time of a wait is over.\<close>

definition sm_turn :: "sm_place \<times> CAPCoupler \<Rightarrow> coup_env \<times> bool \<Rightarrow> (sm_place \<times> CAPCoupler) \<times> coup_out list" where
  "sm_turn s x = (case sm_step (fst x) (snd x) (fst s) (snd s) of (p, c, out) \<Rightarrow> ((p, c), out))"

lemma sm_turn_eq: "sm_turn (p, c) x = ((fst (sm_step (fst x) (snd x) p c), fst (snd (sm_step (fst x) (snd x) p c))),
    snd (snd (sm_step (fst x) (snd x) p c)))"
  by (simp add: sm_turn_def case_prod_beta)

lemma awaiting_cases:
  "awaiting m t over here c stopped got =
    (if cp_events c = 0 then (if t \<noteq> 0 \<and> over then got E_TIMEOUT c else (here, c, []))
     else if cp_events c AND E_STOP \<noteq> 0 then stopped (c\<lparr>cp_events := 0\<rparr>)
     else if cp_events c AND m \<noteq> 0 then got (cp_events c) (c\<lparr>cp_events := 0\<rparr>)
     else (here, c\<lparr>cp_events := 0\<rparr>, []))"
  by (cases c) (simp add: awaiting_def waitEvents_p_def Let_def)

lemma sm_step_stop:
  assumes "cp_events c AND E_STOP \<noteq> 0" and "p \<noteq> SmClientStart" and "p \<noteq> SmStopWait" and "p \<noteq> SmEnd"
  shows "sm_step e over p c = on_stop (c\<lparr>cp_events := 0\<rparr>)"
proof -
  have "cp_events c \<noteq> 0" using assms(1) by auto
  then show ?thesis using assms by (cases p) (simp_all add: sm_step_def awaiting_cases)
qed

lemma on_stop_eq: "on_stop c = (SmStopWait, c, [TrDisableAbort, TrDisableJoin, TrDisconnectAP True])"
  by (simp add: on_stop_def prepareAP_p_def coup_defs)

subsection \<open>An access point that does not boot\<close>

lemma silent_prepare:
  assumes "cp_events c = 0" and "cp_hwResetTimeoutMsec c \<noteq> 0" and "t \<noteq> 0" and "\<forall>x \<in> set xs. snd x"
  shows "snd (run sm_turn (SmPrepare n t, c) xs) =
    replicate (min n (length xs)) TrHwReset @ replicate (length xs - n) NodeStop"
  using assms
proof (induction xs arbitrary: n t)
  case (Cons x xs)
  have IH: "snd (run sm_turn (SmPrepare n t, c) xs) = replicate (min n (length xs)) TrHwReset @ replicate (length xs - n) NodeStop"
    if "t \<noteq> 0" for n t using Cons.IH[OF Cons.prems(1,2) that] Cons.prems(4) by simp
  show ?case
    using Cons.prems IH[of t 0] IH[of "cp_hwResetTimeoutMsec c"]
    by (cases n) (simp_all add: run_simps sm_turn_eq sm_step_def awaiting_cases)
qed (simp add: run_simps)

text \<open>
  Claim C18.  When the access point has to be brought up again and never boots, the coupler disconnects it (or resets it, if it was
  lost), resets it after each of the next three timeouts and from the fourth timeout on asks for the process to be
  stopped; it never starts the manager client meanwhile.\<close>

theorem silent_access_point_stops_process:
  assumes "prepareAP_p ev c = (p, c', out)" and "ev AND (E_STOP OR BOOT_EVENTS) = 0" and "cp_events c = 0"
    and "cp_hwResetTimeoutMsec c \<noteq> 0" and "cp_disconnectTimeoutShortMsec c \<noteq> 0" and "cp_disconnectTimeoutLongMsec c \<noteq> 0"
    and "\<forall>x \<in> set xs. snd x"
  shows "out @ snd (run sm_turn (p, c') xs) =
    [TrDisableAbort, if ev AND E_APM_LOST \<noteq> 0 then TrHwReset else TrDisconnectAP True]
    @ replicate (min 3 (length xs)) TrHwReset @ replicate (length xs - 3) NodeStop"
proof -
  have "ev AND E_STOP = 0" "ev AND BOOT_EVENTS = 0"
    using assms(2) by (simp_all add: bit.conj_disj_distrib or_eq_0_iff)
  then obtain t where "p = SmPrepare 3 t" "t \<noteq> 0" "c' = c"
      "out = [TrDisableAbort, if ev AND E_APM_LOST \<noteq> 0 then TrHwReset else TrDisconnectAP True]"
    using assms(1,4-6) by (auto simp: prepareAP_p_def MAX_NUM_RESET_def split: if_splits)
  then show ?thesis using silent_prepare[OF assms(3,4) _ assms(7), of t 3] by simp
qed

subsection \<open>Stopping\<close>

text \<open>
  Claim C16.  Once the stop event is posted the state machine thread ends after at most three further turns, if the manager
  client can be started and the time of its last wait runs out (or the access point boots): wherever it is, it disables
  the join and disconnects the access point on its way.\<close>

theorem coupler_stop_ends_thread:
  assumes "cp_events c AND E_STOP \<noteq> 0" and "cp_disconnectTimeoutLongMsec c \<noteq> 0"
    and "co_startResult e1 = APC_OK" and "p \<noteq> SmEnd" and "p \<noteq> SmStopWait"
  shows "fst (fst (run sm_turn (p, c) [(e1, o1), (e2, o2), (e3, True)])) = SmEnd
    \<and> TrDisableJoin \<in> set (snd (run sm_turn (p, c) [(e1, o1), (e2, o2)]))
    \<and> TrDisconnectAP True \<in> set (snd (run sm_turn (p, c) [(e1, o1), (e2, o2)]))"
proof -
  have st: "sm_turn (q, d) (e, b) = ((SmStopWait, d\<lparr>cp_events := 0\<rparr>), [TrDisableAbort, TrDisableJoin, TrDisconnectAP True])"
    if "cp_events d AND E_STOP \<noteq> 0" "q \<noteq> SmClientStart" "q \<noteq> SmStopWait" "q \<noteq> SmEnd" for q d e b
    using sm_step_stop[OF that] by (simp add: sm_turn_eq on_stop_eq)
  have fin: "fst (fst (sm_turn (SmStopWait, d) (e, True))) = SmEnd" if "cp_disconnectTimeoutLongMsec d \<noteq> 0" "cp_events d = 0" for d e
    using that by (simp add: sm_turn_eq sm_step_def awaiting_cases)
  have stay: "sm_turn (SmEnd, d) x = ((SmEnd, d), [])" for d x by (simp add: sm_turn_eq sm_step_def)
  have wait: "fst (fst (sm_turn (SmStopWait, d) x)) = SmStopWait \<and> snd (fst (sm_turn (SmStopWait, d) x)) = d
      \<or> fst (fst (sm_turn (SmStopWait, d) x)) = SmEnd" if "cp_events d = 0" for d x
    using that by (simp add: sm_turn_eq sm_step_def awaiting_cases)
  show ?thesis
  proof (cases "p = SmClientStart")
    case True
    have "sm_turn (p, c) (e1, o1) = ((SmWaitConnect, c), [ClStart (cp_client_start_param c)])"
      using True assms(3) by (simp add: sm_turn_eq sm_step_def)
    moreover have "sm_turn (SmWaitConnect, c) (e2, o2) =
        ((SmStopWait, c\<lparr>cp_events := 0\<rparr>), [TrDisableAbort, TrDisableJoin, TrDisconnectAP True])"
      using st[OF assms(1)] by simp
    moreover have "fst (fst (sm_turn (SmStopWait, c\<lparr>cp_events := 0\<rparr>) (e3, True))) = SmEnd"
      using fin assms(2) by simp
    ultimately show ?thesis
      by (simp add: run_simps)
  next
    case False
    let ?d = "c\<lparr>cp_events := 0\<rparr>"
    have 1: "sm_turn (p, c) (e1, o1) = ((SmStopWait, ?d), [TrDisableAbort, TrDisableJoin, TrDisconnectAP True])"
      using st[OF assms(1) False] assms(4,5) by simp
    have "fst (fst (run sm_turn (SmStopWait, ?d) [(e2, o2), (e3, True)])) = SmEnd"
    proof (cases "fst (fst (sm_turn (SmStopWait, ?d) (e2, o2))) = SmEnd")
      case True
      then show ?thesis by (simp add: run_simps) (metis fst_conv prod.collapse stay)
    next
      case False
      then have "fst (sm_turn (SmStopWait, ?d) (e2, o2)) = (SmStopWait, ?d)"
        using wait[of ?d "(e2, o2)"] by (simp add: prod_eq_iff)
      then show ?thesis
        using fin[of ?d e3] assms(2) by (simp add: run_simps)
    qed
    then show ?thesis using 1 by (simp add: run_simps)
  qed
qed

text \<open>
  Claim C35.  As long as the manager client cannot be started and is not connected, the state machine thread tries again and again without ever
  looking at its events: neither a stop event nor the loss of the access point moves it on, so that stopping the coupler
  waits for the manager to become reachable.\<close>

theorem unreachable_manager_blocks_stop:
  assumes "\<forall>x \<in> set xs. co_startResult (fst x) \<noteq> APC_OK \<and> \<not> co_isConnected (fst x)"
  shows "fst (run sm_turn (SmClientStart, c) xs) = (SmClientStart, c)"
  using assms by (induction xs) (simp_all add: run_simps sm_turn_eq sm_step_def synchStop_p_def)

subsection \<open>Examples\<close>

definition demo_start_param :: start_param_t where
  "demo_start_param = \<lparr>sp_host = [], sp_port = 9100, sp_kaTimeout = 1000, sp_freeBufTimeout = 1000,
     sp_reconnectionDelayMsec = 1000, sp_disconnectTimeoutMsec = 5000\<rparr>"

definition demo_coupler :: CAPCoupler where
  "demo_coupler = (new_CAPCoupler demo_start_param False)\<lparr>cp_transport := True, cp_mngrClient := True,
     cp_hwResetTimeoutMsec := 10000, cp_disconnectTimeoutShortMsec := 5000, cp_disconnectTimeoutLongMsec := 60000\<rparr>"

definition demo_coup_env :: coup_env where
  "demo_coup_env = \<lparr>co_now = 1500000000123456789, co_insert = (\<lambda>_. APC_OK), co_portReady = True, co_lastRspTime = 2000,
     co_ntp = (TIME_INS, 37), co_utc = (12, 30, 15), co_isConnected = False, co_startResult = APC_OK, co_netId = 1229,
     co_clkSources = []\<rparr>"

theorem silent_access_point_stops_process_witness:
  "snd (snd (prepareAP_p E_AP_RESET demo_coupler)) @
     snd (run sm_turn (fst (prepareAP_p E_AP_RESET demo_coupler), demo_coupler) (replicate 4 (demo_coup_env, True)))
   = [TrDisableAbort, TrDisconnectAP True, TrHwReset, TrHwReset, TrHwReset, NodeStop]"
proof -
  have p: "prepareAP_p E_AP_RESET demo_coupler = (SmPrepare 3 5000, demo_coupler, [TrDisableAbort, TrDisconnectAP True])"
    by (simp add: prepareAP_p_def coup_defs demo_coupler_def)
  have "\<forall>x \<in> set (replicate 4 (demo_coup_env, True)). snd x" by simp
  then show ?thesis
    using silent_access_point_stops_process[OF p, of "replicate 4 (demo_coup_env, True)"] p
    by (simp add: coup_defs demo_coupler_def new_CAPCoupler_def numeral_3_eq_3)
qed

theorem coupler_stop_ends_thread_witness:
  "fst (fst (run sm_turn (SmWaitEvent, demo_coupler\<lparr>cp_events := E_STOP OR E_APM_LOST\<rparr>)
     [(demo_coup_env, False), (demo_coup_env, False), (demo_coup_env, True)])) = SmEnd"
proof -
  let ?c = "demo_coupler\<lparr>cp_events := E_STOP OR E_APM_LOST\<rparr>"
  have h: "cp_events ?c AND E_STOP \<noteq> 0" "cp_disconnectTimeoutLongMsec ?c \<noteq> 0" "co_startResult demo_coup_env = APC_OK"
    by (simp_all add: coup_defs demo_coupler_def demo_coup_env_def)
  show ?thesis
    using coupler_stop_ends_thread[OF h, of SmWaitEvent False demo_coup_env False demo_coup_env] by simp
qed

theorem unreachable_manager_blocks_stop_witness:
  "fst (run sm_turn (SmClientStart, demo_coupler\<lparr>cp_events := E_STOP\<rparr>)
     (replicate 1000 (demo_coup_env\<lparr>co_startResult := APC_ERR_INIT\<rparr>, True))) = (SmClientStart, demo_coupler\<lparr>cp_events := E_STOP\<rparr>)"
  by (rule unreachable_manager_blocks_stop) (simp add: demo_coup_env_def)

end
