(* ===== verification/Coupler_Props.thy ===== *)
theory Coupler_Props
  imports Coupler_Machine
begin

text \<open>
  Properties of the handlers of the coupler: the packets it hands to the access point, the check of its version, the
  choice of the clock source, the blackout around a leap second, and the calls it makes on the transport while the
  transport is notifying it.
\<close>

lemmas coup_basics = doing_def on_transport_def on_gps_def insert_or_def

section \<open>Packets to the access point\<close>

text \<open>The header of the command as the access point reads it: numbers most significant byte first.\<close>

definition be_word :: "byte list \<Rightarrow> 'a::len word" where
  "be_word bs = le_word (rev bs)"

definition apsend_parse :: "byte list \<Rightarrow> (dn_api_loc_apsend_ctrl_t \<times> byte list) option" where
  "apsend_parse bs = (if length bs < sizeof_dn_api_loc_apsend_ctrl_t then None
     else Some (\<lparr>as_priority = bs ! 0 AND 3, as_linkCtrl = (bs ! 0 AND 4 \<noteq> 0), as_packetId = be_word (take 2 (drop 1 bs)),
       as_frameId = bs ! 3, as_timeslot = be_word (take 4 (drop 4 bs)), as_channel = bs ! 8,
       as_dest = be_word (take 2 (drop 9 bs))\<rparr>, drop 11 bs))"

lemma apsend_bytes_list:
  "apsend_hdr_bytes h @ payload =
    ((as_priority h AND 3) OR (if as_linkCtrl h then 4 else 0)) # le_bytes 2 (as_packetId h) @ as_frameId h #
      le_bytes 4 (as_timeslot h) @ as_channel h # le_bytes 2 (as_dest h) @ payload"
  by (simp add: apsend_hdr_bytes_def)

lemma apsend_parse_parts:
  assumes "length x = 2" and "length y = 4" and "length z = 2"
  shows "apsend_parse (b # x @ f # y @ ch # z @ payload) =
    Some (\<lparr>as_priority = b AND 3, as_linkCtrl = (b AND 4 \<noteq> 0), as_packetId = be_word x, as_frameId = f,
      as_timeslot = be_word y, as_channel = ch, as_dest = be_word z\<rparr>, payload)"
proof -
  obtain x0 x1 where x: "x = [x0, x1]" using assms(1) by (auto simp: length_Suc_conv numeral_2_eq_2)
  obtain y0 y1 y2 y3 where y: "y = [y0, y1, y2, y3]" using assms(2) by (auto simp: length_Suc_conv eval_nat_numeral)
  obtain z0 z1 where z: "z = [z0, z1]" using assms(3) by (auto simp: length_Suc_conv numeral_2_eq_2)
  show ?thesis
    unfolding x y z apsend_parse_def sizeof_dn_api_loc_apsend_ctrl_t_def by (simp add: nth_Cons')
qed

lemma be_word_htons [simp]: "be_word (le_bytes 2 (htons w)) = w"
  by (simp add: be_word_def le_bytes_htons)

lemma be_word_htonl [simp]: "be_word (le_bytes 4 (htonl w)) = w"
  by (simp add: be_word_def le_bytes_htonl)

text \<open>
  A packet of the manager is queued for the access point as one \<^verbatim>\<open>AP_SEND\<close> command whose header the access
  point reads back to exactly the priority, link choice, packet identifier, slot frame, slot, channel offset and destination
  the manager asked for, followed by the payload unchanged.\<close>

lemma manager_packet_reaches_ap:
  assumes "cp_transport c"
  shows "\<exists>rq. coup_dataRx e hdr payload c = Some (c, (), [TrInsert rq]) \<and> rq_cmdId rq = DN_API_LOC_CMD_AP_SEND
    \<and> \<not> rq_isHighPriority rq \<and> apsend_parse (rq_data rq) = Some (apsend_hdr hdr, payload)"
proof -
  let ?h = "apsend_hdr hdr"
  define h' where "h' = ?h\<lparr>as_packetId := htons (as_packetId ?h), as_timeslot := htonl (as_timeslot ?h), as_dest := htons (as_dest ?h)\<rparr>"
  let ?rq = "plain_request DN_API_LOC_CMD_AP_SEND (apsend_hdr_bytes h' @ payload)"
  have out: "coup_dataRx e hdr payload c = Some (c, (), [TrInsert ?rq])"
    using assms by (simp add: coup_dataRx_def sendApSend_def coup_basics Let_def h'_def)
  have first: "(priority_bits q OR 4) AND 3 = priority_bits q" "(priority_bits q OR 4) AND 4 \<noteq> 0"
    "priority_bits q AND 3 = priority_bits q" "priority_bits q AND 4 = 0" for q
    by (cases q; simp)+
  have "apsend_parse (apsend_hdr_bytes h' @ payload) = Some (?h, payload)"
    unfolding apsend_bytes_list apsend_parse_parts[OF length_le_bytes length_le_bytes length_le_bytes]
    using first[of "sh_priority hdr"] by (simp add: h'_def apsend_hdr_def)
  then show ?thesis using out by (simp add: plain_request_def)
qed

lemma manager_packet_reaches_ap_example:
  "\<exists>rq. coup_dataRx demo_coup_env \<lparr>sh_priority = APINTF_HI, sh_isTxDoneRequested = True, sh_txDoneId = 0x1234,
       sh_isLinkInfoSpecified = False, sh_frId = 1, sh_slot = 7, sh_offset = 2, sh_dst = 0x0102\<rparr> [9, 8] demo_coupler
     = Some (demo_coupler, (), [TrInsert rq]) \<and> rq_cmdId rq = DN_API_LOC_CMD_AP_SEND"
proof -
  have "cp_transport demo_coupler" by (simp add: demo_coupler_def)
  from manager_packet_reaches_ap[OF this] show ?thesis by blast
qed

section \<open>Version of the access point\<close>

text \<open>Versions in the order of their numbers: major, minor, patch, build.\<close>

definition version_value :: "nat \<Rightarrow> nat \<Rightarrow> nat \<Rightarrow> nat \<Rightarrow> nat" where
  "version_value major minor patch build = ((major * 256 + minor) * 256 + patch) * 65536 + build"

lemma mixed_radix_less:
  fixes a b x y k :: nat
  assumes "x < k" and "y < k"
  shows "a * k + x < b * k + y \<longleftrightarrow> a < b \<or> a = b \<and> x < y"
proof (cases a b rule: linorder_cases)
  case less
  then have "Suc a * k \<le> b * k" by (intro mult_le_mono1) simp
  then show ?thesis using assms less by simp
next
  case greater
  then have "Suc b * k \<le> a * k" by (intro mult_le_mono1) simp
  then show ?thesis using assms greater by simp
qed simp

lemma mixed_radix_eq:
  fixes a b x y k :: nat
  assumes "x < k" and "y < k"
  shows "a * k + x = b * k + y \<longleftrightarrow> a = b \<and> x = y"
  using mixed_radix_less[OF assms, of a b] mixed_radix_less[OF assms(2,1), of b a]
  by (cases a b rule: linorder_cases; cases x y rule: linorder_cases) auto

lemma word_byte_less: "unat (b :: byte) < 256"
  using unsigned_less[of b, where 'a = nat] by simp

lemma word_u16_less: "unat (w :: u16) < 65536"
  using unsigned_less[of w, where 'a = nat] by simp

lemma too_old_value:
  "too_old [ucast (a :: byte), ucast (b :: byte), ucast (p :: byte), ucast (n :: u16)] MIN_VERSION
    \<longleftrightarrow> version_value (unat a) (unat b) (unat p) (unat n) < version_value 1 4 0 81"
proof -
  have v: "version_value (unat a) (unat b) (unat p) (unat n) < version_value 1 4 0 81 \<longleftrightarrow>
      unat a < 1 \<or> unat a = 1 \<and> (unat b < 4 \<or> unat b = 4 \<and> (unat p < 0 \<or> unat p = 0 \<and> unat n < 81))"
  proof -
    have "(81::nat) < 65536" "(0::nat) < 256" "(4::nat) < 256" by simp_all
    note r = mixed_radix_less[OF word_u16_less[of n] this(1)] mixed_radix_less[OF word_byte_less[of p] this(2)]
      mixed_radix_less[OF word_byte_less[of b] this(3)] mixed_radix_eq[OF word_byte_less[of p] this(2)]
      mixed_radix_eq[OF word_byte_less[of b] this(3)]
    show ?thesis unfolding version_value_def r by blast
  qed
  have w: "unat (ucast x :: u32) = unat x" "unat (ucast y :: u32) = unat y" for x :: byte and y :: u16
    by (simp_all add: unat_ucast_up)
  show ?thesis
    unfolding v MIN_VERSION_def too_old.simps word_less_nat_alt w by auto
qed

text \<open>
  An access point is refused, by a fatal stop through the watchdog, exactly if the version of its application is below
  1.4.0.81 in the order of major, minor, patch and build number; the build number is in network byte order.\<close>

lemma old_access_point_refused:
  assumes "cp_hasWd c" and "coup_handleParamAppInfo v c = Some (c', (), out)"
  shows "out = (if version_value (unat (ver_major v)) (unat (ver_minor v)) (unat (ver_patch v)) (unat (ntohs (ver_build v)))
      < version_value 1 4 0 81 then [WdFatalStop] else [])"
  using assms by (auto simp: coup_handleParamAppInfo_def Let_def doing_def too_old_value)

lemma old_access_point_refused_example:
  "map_option (\<lambda>(c, _, out). out) (coup_handleParamAppInfo \<lparr>ver_major = 1, ver_minor = 4, ver_patch = 0, ver_build = htons 80\<rparr>
     (demo_coupler\<lparr>cp_hasWd := True\<rparr>)) = Some [WdFatalStop]"
proof -
  let ?v = "\<lparr>ver_major = 1, ver_minor = 4, ver_patch = 0, ver_build = htons 80\<rparr>" and ?c = "demo_coupler\<lparr>cp_hasWd := True\<rparr>"
  obtain c' out where r: "coup_handleParamAppInfo ?v ?c = Some (c', (), out)"
    by (auto simp: coup_handleParamAppInfo_def Let_def doing_def)
  have "out = [WdFatalStop]"
    using old_access_point_refused[OF _ r] by (simp add: ntohs_def version_value_def)
  then show ?thesis using r by simp
qed

section \<open>Clock source\<close>

text \<open>The source the access point has to be configured with for good.\<close>

definition permanent_source :: "EAPClockSource \<Rightarrow> byte" where
  "permanent_source s = (if s = PPS then DN_API_AP_CLK_SOURCE_PPS else DN_API_AP_CLK_SOURCE_AUTO)"

definition set_source_request :: "byte \<Rightarrow> bool \<Rightarrow> tr_request" where
  "set_source_request v isReset = \<lparr>rq_cmdId = DN_API_LOC_CMD_SETPARAM, rq_data = [DN_API_PARAM_AP_CLKSRC, v],
     rq_isHighPriority = False, rq_resCallback = (if isReset then Some CB_SetClkSrcResponse else None),
     rq_errRespCallback = Some (ExternErrorResponse CB_SetClkSrcErrorResponse), rq_isSynch = False\<rparr>"

lemma wait_clksource_known: "v \<noteq> CLOCKSOURCR_NONE \<Longrightarrow> wait_clksource n vs v = v"
  by (cases "(n, vs, v)" rule: wait_clksource.cases) simp_all

lemma clkSrc_string_roundtrip:
  "clkSrcStringToEnum (clkSrcEnumToString s) d = (if s = PPS \<or> s = MNGRSET then (s, True) else (d, False))"
proof -
  have "map toupper ''GPS'' = ''GPS''" "map toupper ''AUTO'' = ''AUTO''" "map toupper ''UNKNOWN'' = ''UNKNOWN''" by code_simp+
  then show ?thesis by (cases s) (simp_all add: clkSrcStringToEnum_def clkSrcEnumToString_def)
qed

text \<open>
  What a connecting manager makes the coupler do about the clock source, as a table: an access point that has not told its source is
  reset; one whose permanent source is not the configured one gets it, and a reset once it has confirmed; one that has the configured PPS
  source is left alone; any other gets the current source, internal or network, as configured or as the manager asks,
  without a reset.  So once the permanent source is right no further manager connection resets the access point.\<close>

lemma clock_source_decision:
  assumes "cp_transport c" and "v = wait_clksource 100 (co_clkSources e) (ap_clksource (cp_apInfo c))"
  shows "\<exists>c'. setClockSource_p e isInt c = Some (c', (),
     if v = CLOCKSOURCR_NONE then [TrHwReset]
     else if v \<noteq> permanent_source (cp_apClkSource c) then [TrInsert (set_source_request (permanent_source (cp_apClkSource c)) True)]
     else if cp_apClkSource c = PPS then []
     else [TrInsert (set_source_request
             (if cp_apClkSource c = INTERNAL \<or> cp_apClkSource c = MNGRSET \<and> isInt
              then DN_API_AP_CLK_SOURCE_INTERNAL else DN_API_AP_CLK_SOURCE_NETWORK) False)])"
proof -
  have ne: "DN_API_AP_CLK_SOURCE_PPS \<noteq> CLOCKSOURCR_NONE" "DN_API_AP_CLK_SOURCE_AUTO \<noteq> CLOCKSOURCR_NONE"
    by (simp_all add: dn_defs coup_defs)
  show ?thesis
    using assms ne
    by (cases "cp_apClkSource c")
      (auto simp: setClockSource_p_def Let_def coup_basics set_clksource_def sendSetApClkSource_def sendSetParam_def
        permanent_source_def set_source_request_def)
qed

lemma clock_source_decision_example:
  "\<exists>c'. setClockSource_p (demo_coup_env\<lparr>co_clkSources := [CLOCKSOURCR_NONE, DN_API_AP_CLK_SOURCE_AUTO]\<rparr>) True
      (set_clksource CLOCKSOURCR_NONE (demo_coupler\<lparr>cp_apClkSource := MNGRSET\<rparr>))
    = Some (c', (), [TrInsert (set_source_request DN_API_AP_CLK_SOURCE_INTERNAL False)])"
proof -
  let ?c = "set_clksource CLOCKSOURCR_NONE (demo_coupler\<lparr>cp_apClkSource := MNGRSET\<rparr>)"
  let ?e = "demo_coup_env\<lparr>co_clkSources := [CLOCKSOURCR_NONE, DN_API_AP_CLK_SOURCE_AUTO]\<rparr>"
  have "cp_transport ?c" "DN_API_AP_CLK_SOURCE_AUTO = wait_clksource 100 (co_clkSources ?e) (ap_clksource (cp_apInfo ?c))"
    "cp_apClkSource ?c = MNGRSET" by code_simp+
  then show ?thesis
    using clock_source_decision[of ?c DN_API_AP_CLK_SOURCE_AUTO ?e True]
    by (simp add: permanent_source_def coup_defs dn_defs)
qed

section \<open>Blackout\<close>

lemma secSinceMidnight_next:
  assumes "co_utc e = (h, m, s)" and "0 \<le> h" "h < 24" "0 \<le> m" "m < 60" "0 \<le> s" "s \<le> 60" and "0 \<le> t" "t < 86400"
  shows "0 < secSinceMidnight_p e t True \<or> t = 0 \<and> s = 60" and "secSinceMidnight_p e t True \<le> 86400"
    and "((h * 60 + m) * 60 + s + secSinceMidnight_p e t True) mod 86400 = t"
proof -
  let ?n = "(h * 60 + m) * 60 + s"
  have n: "0 \<le> ?n" "?n \<le> 86400" using assms(2-7) by simp_all
  have eq: "secSinceMidnight_p e t True = (if t \<le> ?n then t - ?n + 86400 else t - ?n)"
    by (simp add: secSinceMidnight_p_def assms(1) Let_def)
  show "secSinceMidnight_p e t True \<le> 86400" unfolding eq using n assms(8,9) by simp
  show "(?n + secSinceMidnight_p e t True) mod 86400 = t" unfolding eq using assms(8,9) by simp
  show "0 < secSinceMidnight_p e t True \<or> t = 0 \<and> s = 60"
    unfolding eq using assms(2-9) by (cases "t = 0") auto
qed

text \<open>
  Claim C26.  The check on a day with a leap second sets the start of the blackout to the next 23:59:29 UTC, at most a day
  ahead, and during the sixty seconds from then on no request of the access point for the time is answered, whatever its clock
  source; the next check is due at the next 23:56:59 UTC.\<close>

theorem no_time_during_blackout:
  assumes "co_utc e0 = (h, m, s)" and "0 \<le> h" "h < 24" "0 \<le> m" "m < 60" "0 \<le> s" "s \<le> 60"
    and "ntpIsLeapDay (co_ntp e0)" and "0 < co_now e0"
    and "leapCheckingTimer_p e0 False c = (c1, due)"
    and "cp_blackoutStart c2 = cp_blackoutStart c1"
    and "cp_blackoutStart c1 < co_now e" and "co_now e < cp_blackoutStart c1 + 60 * 1000000000"
  shows "coup_handleReadyForTime e seqNum c2 = Some (c2, (), [])
    \<and> (\<exists>d. cp_blackoutStart c1 = co_now e0 + d * 1000000000 \<and> 0 < d \<and> d \<le> 86400
         \<and> ((h * 60 + m) * 60 + s + d) mod 86400 = (23 * 60 + 59) * 60 + 29)
    \<and> (\<exists>k. due = Some k \<and> 0 < k \<and> k \<le> 86400 \<and> ((h * 60 + m) * 60 + s + k) mod 86400 = (23 * 60 + 56) * 60 + 59)"
proof -
  note day = assms(2-7)
  have b: "AP_BLACKOUT = (23 * 60 + 59) * 60 + 29" "LEAP_CHECK_TIME = (23 * 60 + 56) * 60 + 59" by (simp_all add: coup_defs)
  note d = secSinceMidnight_next[OF assms(1) day, of AP_BLACKOUT, unfolded b]
    and k = secSinceMidnight_next[OF assms(1) day, of LEAP_CHECK_TIME, unfolded b]
  have c1: "cp_blackoutStart c1 = co_now e0 + secSinceMidnight_p e0 AP_BLACKOUT True * 1000000000"
      "due = Some (secSinceMidnight_p e0 LEAP_CHECK_TIME True)"
    using assms(8,10) by (auto simp: leapCheckingTimer_p_def)
  have ne: "cp_blackoutStart c1 \<noteq> SYSTIME_EMPTY"
    using c1(1) d(1) assms(9) by (simp add: SYSTIME_EMPTY_def b)
  have "coup_handleReadyForTime e seqNum c2 = Some (c2, (), [])"
    using ne assms(11-13) by (simp add: coup_handleReadyForTime_def doing_def AP_BLACKOUT_DURATION_def)
  then show ?thesis using c1 d k by (simp add: b)
qed

theorem no_time_during_blackout_witness:
  "\<exists>c1 due. leapCheckingTimer_p demo_coup_env False demo_coupler = (c1, due)
     \<and> coup_handleReadyForTime (demo_coup_env\<lparr>co_now := cp_blackoutStart c1 + 1000000000\<rparr>) 5 c1 = Some (c1, (), [])"
proof -
  obtain c1 due where t: "leapCheckingTimer_p demo_coup_env False demo_coupler = (c1, due)" by fastforce
  have u: "co_utc demo_coup_env = (12, 30, 15)" "ntpIsLeapDay (co_ntp demo_coup_env)" "0 < co_now demo_coup_env"
    by (simp_all add: demo_coup_env_def ntpIsLeapDay_def)
  show ?thesis
    using no_time_during_blackout[OF u(1) _ _ _ _ _ _ u(2,3) t refl, of "demo_coup_env\<lparr>co_now := cp_blackoutStart c1 + 1000000000\<rparr>" 5] t
    by auto
qed

section \<open>Calls on the transport\<close>

text \<open>
  The transport model lets its upper layer make certain calls while it is being notified, only simple ones
  for a loss, a pause or a resume.
\<close>

fun to_tr_call :: "coup_out \<Rightarrow> tr_call option" where
  "to_tr_call (TrInsert rq) = Some (CallInsert rq)"
| "to_tr_call TrHwReset = Some (Simple CallHwReset)"
| "to_tr_call TrDisableJoin = Some (Simple CallDisableJoin)"
| "to_tr_call (TrSetAPMState s) = Some (Simple (CallSetAPMState s))"
| "to_tr_call _ = None"

fun is_tr :: "coup_out \<Rightarrow> bool" where
  "is_tr (TrInsert _) = True"
| "is_tr TrHwReset = True"
| "is_tr TrDisableJoin = True"
| "is_tr (TrEnableJoin _) = True"
| "is_tr (TrDisconnectAP _) = True"
| "is_tr TrEnableAbort = True"
| "is_tr TrDisableAbort = True"
| "is_tr (TrSetAPMState _) = True"
| "is_tr TrStop = True"
| "is_tr _ = False"

definition tr_calls :: "coup_out list \<Rightarrow> tr_call list" where
  "tr_calls out = map (the \<circ> to_tr_call) (filter is_tr out)"

lemma sendEvent_out:
  "sendEvent_p ev c = Some (c', u, out) \<Longrightarrow> set out \<subseteq> {TrDisableJoin}"
  by (auto simp: sendEvent_p_def coup_basics and_then_eq_Some split: if_splits)

lemma sendGet_out:
  "sendGetParam e k c = Some (c', r, out) \<Longrightarrow> set out \<subseteq> range TrInsert"
  by (auto simp: sendGetParam_def coup_basics split: if_splits)

definition call_ok :: "coup_out \<Rightarrow> bool" where
  "call_ok x \<longleftrightarrow> (is_tr x \<longrightarrow> to_tr_call x \<noteq> None)"

lemma call_ok_simps [simp]: "call_ok (TrInsert rq)" "call_ok TrDisableJoin"
  by (simp_all add: call_ok_def)

lemma sendGet_ok: "sendGetParam e k c = Some (c', r, out) \<Longrightarrow> list_all call_ok out"
  by (auto simp: sendGetParam_def coup_basics split: if_splits)

lemma sendEvent_ok: "sendEvent_p ev c = Some (c', u, out) \<Longrightarrow> list_all call_ok out"
  using sendEvent_out[of ev c c' u out] by (auto simp: list_all_iff)

lemmas get_defs = sendGetApClkSource_def sendGetNetId_def sendGetApMoteInfo_def sendGetApAppInfo_def sendGetApStatus_def

lemma boot_calls_ok:
  "coup_handleAPBoot e c = Some (c', u, out) \<Longrightarrow> list_all call_ok out"
  "coup_handleAPReboot e c = Some (c', u, out) \<Longrightarrow> list_all call_ok out"
  unfolding coup_handleAPBoot_def coup_handleAPReboot_def get_defs and_then_eq_Some doing_def
  by (auto dest!: sendGet_ok sendEvent_ok)

lemma systime_call_ok: "sendSetSystime e k c = Some (c', u, out) \<Longrightarrow> list_all call_ok out"
  by (auto simp: sendSetSystime_def Let_def doing_def split: if_splits)

lemma apm_notif_ok:
  assumes "apm_notif e n c = Some (c', u, out)"
  shows "list_all call_ok out"
proof (cases n)
  case (handleReadyForTime x)
  then show ?thesis
    using assms systime_call_ok by (auto simp: apm_notif_def coup_handleReadyForTime_def Let_def doing_def split: if_splits)
next
  case (handleEvent x)
  then show ?thesis
    using assms by (auto simp: apm_notif_def coup_handleEvent_def get_defs and_then_eq_Some doing_def dest!: sendGet_ok)
next
  case handleAPLost
  then show ?thesis
    using assms unfolding apm_notif_def coup_handleAPLost_def
    by (auto simp: and_then_eq_Some doing_def call_ok_def split: if_splits dest!: sendEvent_ok)
next
  case (handleParamGetTime x)
  then show ?thesis
    using assms by (auto simp: apm_notif_def coup_handleParamGetTime_def Let_def doing_def call_ok_def
        split: if_splits option.splits)
next
  case handleAPBoot
  then show ?thesis using assms boot_calls_ok by (simp add: apm_notif_def)
next
  case handleAPReboot
  then show ?thesis using assms boot_calls_ok by (simp add: apm_notif_def)
qed (use assms in \<open>auto simp: apm_notif_def coup_handleAPReceive_def coup_handleTXDone_def coup_handleParamMacAddress_def
      coup_handleParamMoteInfo_def coup_handleParamAppInfo_def coup_handleParamClkSrc_def coup_handleParamNetId_def
      coup_handleParamApStatus_def coup_handleAPPause_def coup_handleAPResume_def Let_def coup_basics call_ok_def
      split: if_splits\<close>)

lemma simple_notif:
  assumes "apm_notif e n c = Some (c', u, out)" and "n = handleAPLost \<or> n = handleAPPause \<or> n = handleAPResume"
  shows "set (filter is_tr out) \<subseteq> {TrDisableJoin}"
  using assms
  by (auto simp: apm_notif_def coup_handleAPLost_def coup_handleAPPause_def coup_handleAPResume_def and_then_eq_Some doing_def
      split: if_splits dest!: sendEvent_out subsetD)

text \<open>
  Every call the coupler makes on the transport while the transport notifies it is one the transport's model allows
  there: a command to queue, a hardware reset, the end of the join process or the flow state; and while it is told that the access point is
  lost or that the manager has to pause or resume, only the last three.\<close>

lemma coupler_calls_as_assumed:
  assumes "apm_notif e n c = Some (c', u, out)"
  shows "(\<forall>x \<in> set out. is_tr x \<longrightarrow> to_tr_call x \<noteq> None)
    \<and> (n = handleAPLost \<or> n = handleAPPause \<or> n = handleAPResume \<longrightarrow> (\<forall>x \<in> set (tr_calls out). \<exists>s. x = Simple s))"
  using apm_notif_ok[OF assms] simple_notif[OF assms] by (fastforce simp: list_all_iff call_ok_def tr_calls_def)

lemma coupler_calls_as_assumed_example:
  "\<exists>c' out. apm_notif demo_coup_env handleAPLost demo_coupler = Some (c', (), out) \<and> out = [ClSendApLost, TrDisableJoin]
     \<and> (\<forall>x \<in> set (tr_calls out). \<exists>s. x = Simple s)"
proof -
  obtain c' where r: "apm_notif demo_coup_env handleAPLost demo_coupler = Some (c', (), [ClSendApLost, TrDisableJoin])"
    by (simp add: apm_notif_def coup_handleAPLost_def sendEvent_p_def coup_basics demo_coupler_def coup_defs)
  then show ?thesis using coupler_calls_as_assumed[OF r] by blast
qed

section \<open>What the coupler knows of the access point\<close>

text \<open>The buffers of \<^verbatim>\<open>SAPMInfo\<close> have fixed sizes.\<close>

definition ap_info_wf :: "CAPCoupler \<Rightarrow> bool" where
  "ap_info_wf c \<longleftrightarrow> length (ap_mac (cp_apInfo c)) = 8 \<and> length (ap_swVersion (cp_apInfo c)) = 5
     \<and> length (ap_appVersion (cp_apInfo c)) = 5"

fun notif_wf :: "IAPMNotifHandler \<Rightarrow> bool" where
  "notif_wf (handleParamMacAddress mac) = (length mac = 8)"
| "notif_wf (handleParamGetTime gt) = (length (gt_asn gt) = DN_ASN_SIZE)"
| "notif_wf _ = True"

lemma handleCmd_notif_wf: "handleCmd s cmdId pl = Some (s', r, ns) \<Longrightarrow> list_all notif_wf ns"
  unfolding handleCmd_def handleGetParam_def Let_def fits_def by (auto simp: dn_defs split: if_splits)

lemma send_wf:
  "sendGetParam e k c = Some (c', r, out) \<Longrightarrow> c' = c"
  "sendEvent_p ev c = Some (c', u, out) \<Longrightarrow> cp_apInfo c' = cp_apInfo c"
  "sendSetSystime e q c = Some (c', v, out) \<Longrightarrow> c' = c"
  by (auto simp: sendGetParam_def sendEvent_p_def sendSetSystime_def Let_def and_then_eq_Some coup_basics split: if_splits)

lemma boot_wf:
  "coup_handleAPBoot e c = Some (c', u, out) \<Longrightarrow> ap_info_wf c \<Longrightarrow> ap_info_wf c'"
  "coup_handleAPReboot e c = Some (c', u, out) \<Longrightarrow> ap_info_wf c \<Longrightarrow> ap_info_wf c'"
  unfolding coup_handleAPBoot_def coup_handleAPReboot_def get_defs and_then_eq_Some doing_def
  by (auto dest!: send_wf simp: ap_info_wf_def set_apState_def)

lemma apm_notif_defined:
  assumes "cp_transport c" and "cp_gps c" and "notif_wf n"
  shows "\<exists>c' out. apm_notif e n c = Some (c', (), out)"
  using assms
  by (cases n) (simp_all add: apm_notif_def coup_handleAPReceive_def coup_handleEvent_def coup_handleReadyForTime_def
      coup_handleTXDone_def coup_handleParamMacAddress_def
      coup_handleParamMoteInfo_def coup_handleParamAppInfo_def coup_handleParamClkSrc_def coup_handleParamNetId_def
      coup_handleParamGetTime_def coup_handleParamApStatus_def coup_handleAPLost_def coup_handleAPPause_def coup_handleAPResume_def
      coup_handleAPBoot_def coup_handleAPReboot_def get_defs sendGetParam_def sendEvent_p_def sendSetSystime_def
      Let_def coup_basics set_clksource_def ntoh_asn_def DN_ASN_SIZE_def)

lemma apm_notif_wf:
  assumes "apm_notif e n c = Some (c', u, out)" and "notif_wf n" and "ap_info_wf c"
  shows "ap_info_wf c'"
proof (cases n)
  case handleAPBoot
  then show ?thesis using assms boot_wf by (simp add: apm_notif_def)
next
  case handleAPReboot
  then show ?thesis using assms boot_wf by (simp add: apm_notif_def)
next
  case (handleReadyForTime x)
  then show ?thesis
    using assms by (auto simp: apm_notif_def coup_handleReadyForTime_def Let_def doing_def ap_info_wf_def split: if_splits dest!: send_wf)
next
  case (handleEvent x)
  then show ?thesis
    using assms by (auto simp: apm_notif_def coup_handleEvent_def get_defs and_then_eq_Some doing_def dest!: send_wf)
next
  case handleAPLost
  then show ?thesis
    using assms unfolding apm_notif_def coup_handleAPLost_def
    by (auto simp: and_then_eq_Some doing_def ap_info_wf_def split: if_splits dest!: send_wf)
next
  case (handleParamGetTime x)
  then show ?thesis
    using assms by (auto simp: apm_notif_def coup_handleParamGetTime_def Let_def doing_def split: if_splits option.splits)
qed (use assms in \<open>auto simp: apm_notif_def coup_handleAPReceive_def coup_handleTXDone_def coup_handleParamMacAddress_def
      coup_handleParamMoteInfo_def coup_handleParamAppInfo_def coup_handleParamClkSrc_def coup_handleParamNetId_def
      coup_handleParamApStatus_def coup_handleAPPause_def coup_handleAPResume_def Let_def coup_basics ap_info_wf_def
      swver_bytes_def set_apState_def set_clksource_def split: if_splits\<close>)

text \<open>
  Claim C25.  Whatever message of the access point the serializer parses, what the coupler stores of it fits the fixed size buffers of its access point
  record: eight bytes of address and five of each version; and a time it hands on was read from a complete slot number, so that
  handling the notification never fails while the coupler is open.\<close>

theorem ap_messages_keep_info_wf:
  assumes "handleCmd s cmdId pl = Some (s', r, ns)" and "n \<in> set ns" and "ap_info_wf c"
    and "cp_transport c" and "cp_gps c"
  shows "\<exists>c' out. apm_notif e n c = Some (c', (), out) \<and> ap_info_wf c'"
proof -
  have "notif_wf n" using handleCmd_notif_wf[OF assms(1)] assms(2) by (simp add: list_all_iff)
  then show ?thesis
    using apm_notif_defined[OF assms(4,5), of n e] apm_notif_wf[of e n c] assms(3) by blast
qed

theorem ap_messages_keep_info_wf_witness:
  "\<exists>c' out. apm_notif demo_coup_env (handleParamMacAddress [0, 23, 13, 0, 0, 48, 5, 123]) (demo_coupler\<lparr>cp_gps := True\<rparr>)
     = Some (c', (), out) \<and> ap_info_wf c'"
proof -
  have "handleCmd new_CAPMSerializer DN_API_LOC_CMD_GETPARAM [0, DN_API_PARAM_MACADDR, 0, 23, 13, 0, 0, 48, 5, 123] =
      Some (new_CAPMSerializer, APC_OK, [handleParamMacAddress [0, 23, 13, 0, 0, 48, 5, 123]])" by code_simp
  moreover have "ap_info_wf (demo_coupler\<lparr>cp_gps := True\<rparr>)"
    by (simp add: ap_info_wf_def demo_coupler_def new_CAPCoupler_def new_SAPMInfo_def)
  ultimately show ?thesis
    using ap_messages_keep_info_wf[of _ _ _ _ _ _ "handleParamMacAddress [0, 23, 13, 0, 0, 48, 5, 123]" "demo_coupler\<lparr>cp_gps := True\<rparr>" demo_coup_env]
    by (simp add: demo_coupler_def)
qed

end
