(* ===== verification/APC_Session.thy ===== *)
theory APC_Session
  imports APC_Client
begin

text \<open>
  Properties of the client: what it puts on the wire when it sends, what it sends again after a
  reconnection, and when it gives up.
\<close>

section \<open>Sending a packet\<close>

text \<open>A message that does not fit is refused before anything depends on its sequence number.\<close>

lemma prepMsg_too_long:
  assumes "APC_MAX_MSG_SIZE < size1 + size2"
  shows "prepMsg msg APC_MAX_MSG_SIZE type flags q yourSeq p1 size1 p2 size2
       = prepMsg msg APC_MAX_MSG_SIZE type flags q' yourSeq p1 size1 p2 size2"
    and "prepMsg msg APC_MAX_MSG_SIZE type flags q yourSeq p1 size1 p2 size2 = Some (buf, n, r) \<Longrightarrow> r = APC_ERR_SIZE"
  using assms by (auto simp: prepMsg_def Let_def split: if_splits)

lemma sendData_too_long:
  assumes "APC_MAX_MSG_SIZE < unat s1 + unat s2"
  shows "sendData e c type flags q p1 s1 p2 s2 = sendData e c type flags q' p1 s1 p2 s2"
  unfolding sendData_def prepMsg_too_long(1)[OF assms, of _ _ _ q _ _ _ q'] ..

lemma unat_u16: "unat s < 2 ^ 16" for s :: u16
proof -
  have "unat s < 2 ^ LENGTH(16)" by (rule unsigned_less)
  then show ?thesis by simp
qed

lemma addPacket_no_seq:
  assumes "addPacket c type p1 (ucast s1) p2 (ucast s2) = Some (c', r, None)"
  shows "APC_MAX_MSG_SIZE < unat (s1 :: u16) + unat (s2 :: u16)"
proof -
  have "(ucast s1 + ucast s2 :: u32) > word_of_nat APC_MAX_MSG_SIZE"
    using assms by (auto simp: addPacket_def Let_def split: if_splits option.splits)
  moreover have "unat (ucast s1 + ucast s2 :: u32) = unat s1 + unat s2"
    using unat_u16[of s1] unat_u16[of s2] by (simp add: unat_word_ariths unat_ucast_up)
  ultimately show ?thesis by (simp add: word_less_nat_alt APC_MAX_MSG_SIZE_val)
qed

text \<open>
  The sequence number of a packet the cache refuses is never initialised; it does not matter: the
  result of a send does not depend on the value the variable happens to have, for all arguments.\<close>

lemma client_send_ignores_uninitialised:
  "client_sendData_p e g cl type p1 s1 p2 s2 = client_sendData_p e g' cl type p1 s1 p2 s2"
proof (cases "cl_pConnector cl")
  case None
  then show ?thesis by (simp add: client_sendData_p_def)
next
  case con: (Some i)
  show ?thesis
  proof (cases "addPacket (cl_cache cl) type p1 (ucast s1) p2 (ucast s2)")
    case None
    then show ?thesis using con by (simp add: client_sendData_p_def)
  next
    case (Some r)
    then obtain cache err q where add: "addPacket (cl_cache cl) type p1 (ucast s1) p2 (ucast s2) = Some (cache, err, q)"
      by (cases r) auto
    show ?thesis
    proof (cases q)
      case None
      then have "sendData e' c type 0 g p1 s1 p2 s2 = sendData e' c type 0 g' p1 s1 p2 s2" for e' c
        using add addPacket_no_seq sendData_too_long by metis
      then show ?thesis using add None con by (simp add: client_sendData_p_def)
    next
      case (Some s)
      then show ?thesis using add con by (simp add: client_sendData_p_def)
    qed
  qed
qed

section \<open>What a send does to the connector and to the cache\<close>

definition out_msg :: "CAPCConnector \<Rightarrow> apc_msg_type_t \<Rightarrow> u32 \<Rightarrow> byte list \<Rightarrow> rx_msg" where
  "out_msg c type seq pl = \<lparr>rx_type = type, rx_flags = 0, rx_mySeq = seq,
     rx_yourSeq = c_lastReceivedSeqNum c, rx_payload = pl\<rparr>"

lemma arg_ptr:
  assumes "arg_bytes p (ucast (s :: u16)) = Some b"
  shows "unat s \<le> length (ptr_bytes p)" and "take (unat s) (ptr_bytes p) = b" and "unat s = length b"
proof -
  have "s = 0" if "(ucast s :: u32) = 0"
  proof -
    have "unat s = unat (ucast s :: u32)" by (simp add: unat_ucast_up)
    then show ?thesis unfolding that by (simp add: unat_eq_zero)
  qed
  then show "unat s \<le> length (ptr_bytes p)" "take (unat s) (ptr_bytes p) = b" "unat s = length b"
    using assms by (auto simp: arg_bytes_def ptr_bytes_def unat_ucast_up split: option.splits if_splits)
qed

lemma sendData_sent_wire:
  assumes "sendData e c type 0 q p1 s1 p2 s2 = Some (c', APC_OK, out)" and "bufs_inv (waited e c)"
    and "arg_bytes p1 (ucast s1) = Some b1" and "arg_bytes p2 (ucast s2) = Some b2"
    and "length b1 + length b2 < 2 ^ 16"
  shows "out = [SockWrite (wire_bytes (out_msg (waited e c) type q (b1 @ b2)))]
    \<and> sendable APC_MAX_MSG_SIZE (out_msg (waited e c) type q (b1 @ b2))"
  using assms(1,2)
proof (cases rule: sendData_cases)
  case (sent buf n st)
  note a1 = arg_ptr[OF assms(3)] and a2 = arg_ptr[OF assms(4)]
  let ?buf = "c_outbufs (waited e c) ! unat (c_curFreeBufIdx (waited e c))"
  have len: "length ?buf = APC_MAX_MSG_SIZE"
    using grab_bufs(1)[OF assms(2) sent(7)] bufs_inv_outs[OF assms(2)] by simp
  have short: "unat s1 + unat s2 < 2 ^ 16" using assms(5) a1(3) a2(3) by simp
  have m: "out_msg (waited e c) type q (b1 @ b2) = \<lparr>rx_type = type, rx_flags = 0, rx_mySeq = q,
      rx_yourSeq = c_lastReceivedSeqNum (waited e c),
      rx_payload = take (unat s1) (ptr_bytes p1) @ take (unat s2) (ptr_bytes p2)\<rparr>"
    unfolding out_msg_def a1(2) a2(2) ..
  note r = prepMsg_ok_sendable[OF len a1(1) a2(1) short m sent(4)[unfolded prepMsg_ptr[OF a1(1) a2(1)]]]
  show ?thesis unfolding sent(3) using r by simp
qed simp_all

text \<open>Calls on a connector change only the connectors.\<close>

lemma on_conn_Some:
  "on_conn i f cl = Some (cl', r, out) \<longleftrightarrow>
     i < length (cl_conns cl) \<and> (\<exists>c o1. f (cl_conns cl ! i) = Some (c, r, o1)
       \<and> cl' = cl\<lparr>cl_conns := (cl_conns cl)[i := c]\<rparr> \<and> out = map (ConnOut i) o1)"
  by (auto simp: on_conn_def split: option.splits)

lemma conn_stop_out:
  "set (snd (conn_stop e c reason err fl fw sn)) \<subseteq> {SockClose} \<union> range NotifDisconnected"
  by (auto simp: conn_stop_def Let_def split: if_splits)

lemma stop_conn_Some:
  assumes "stop_conn e i reason err fl cl = Some (cl', r, out)"
  shows "\<exists>cs. cl' = cl\<lparr>cl_conns := cs\<rparr>" and "ConnOut j (SockWrite bs) \<notin> set out"
  using assms conn_stop_out[of e "cl_conns cl ! i" reason err fl True True]
  by (auto simp: stop_conn_def on_conn_Some split: prod.splits)

lemma sendData_not_sent:
  assumes "sendData e c type flags q p1 s1 p2 s2 = Some (c', res, out)" and "bufs_inv (waited e c)" and "res \<noteq> APC_OK"
  shows "out = []"
  using assms(1,2) by (cases rule: sendData_cases) (use assms(3) in simp_all)

text \<open>A send while online: the call on the connector, then the stop after a failure.\<close>

definition stop_failed :: "client_env \<Rightarrow> nat \<Rightarrow> apc_error_t \<Rightarrow> CAPCClient \<Rightarrow> unit client_res" where
  "stop_failed e i res cl =
     (if res = APC_ERR_PKTSERIALIZATION then stop_conn (ce_conn e 1) i APC_STOP_WRITE res STOP_FL_DISCONNECT cl
      else if res \<noteq> APC_OK then stop_conn (ce_conn e 1) i APC_STOP_WRITE res STOP_FL_OFFLINE cl
      else Some (cl, (), []))"

lemma client_sendData_p_online:
  assumes "cl_state cl = APCCLIENT_STATE_ONLINE" and "cl_pConnector cl = Some i"
    and "addPacket (cl_cache cl) type p1 (ucast s1) p2 (ucast s2) = Some (cache, err, Some q)"
  shows "client_sendData_p e g cl type p1 s1 p2 s2 =
     and_then (on_conn i (\<lambda>c. sendData (ce_conn e 0) c type 0 q p1 s1 p2 s2) (cl\<lparr>cl_cache := cache\<rparr>))
       (\<lambda>cl res. and_then (stop_failed e i res cl) (\<lambda>cl _. Some (cl, res, [])))"
  using assms by (simp add: client_sendData_p_def stop_failed_def)

lemma stop_failed_Some:
  assumes "stop_failed e i res cl = Some (cl', r, out)"
  shows "cl_cache cl' = cl_cache cl" and "ConnOut j (SockWrite bs) \<notin> set out" and "res = APC_OK \<Longrightarrow> out = []"
proof -
  consider fl where "stop_conn (ce_conn e 1) i APC_STOP_WRITE res fl cl = Some (cl', r, out)" "res \<noteq> APC_OK"
    | "res = APC_OK" "cl' = cl" "out = []"
    using assms unfolding stop_failed_def by (auto split: if_splits)
  note cases = this
  show "cl_cache cl' = cl_cache cl"
    using cases by cases (auto dest!: stop_conn_Some(1))
  show "ConnOut j (SockWrite bs) \<notin> set out"
    using cases by cases (auto dest: stop_conn_Some(2))
  show "res = APC_OK \<Longrightarrow> out = []" using cases by cases auto
qed

definition packet_ok :: "byte list option \<Rightarrow> u16 \<Rightarrow> byte list \<Rightarrow> bool" where
  "packet_ok p s b \<longleftrightarrow> arg_bytes p (ucast s) = Some b"

text \<open>
  Claim C9.  An online client keeps every packet before it writes it: the packet gets the next sequence number and is the
  last of the cache's history whatever happens to the connection; when the send succeeds the socket gets exactly the wire
  image of that packet with that number, and when it fails nothing is written.\<close>

theorem client_send_cached:
  assumes "cl_state cl = APCCLIENT_STATE_ONLINE" and "cl_pConnector cl = Some i"
    and "cache_reach n (cl_cache cl) hist" and "0 < n" and "Suc (length hist) < 2 ^ 64"
    and "packet_ok p1 s1 b1" and "packet_ok p2 s2 b2" and "length b1 + length b2 \<le> APC_MAX_MSG_SIZE"
    and "bufs_inv (waited (ce_conn e 0) (cl_conns cl ! i))"
    and "client_sendData_p e g cl type p1 s1 p2 s2 = Some (cl', res, out)"
  shows "cache_reach n (cl_cache cl') (hist @ [(type, b1 @ b2)])
    \<and> (res = APC_OK \<longrightarrow> out = [ConnOut i (SockWrite (wire_bytes
           (out_msg (waited (ce_conn e 0) (cl_conns cl ! i)) type (word_of_nat (Suc (length hist))) (b1 @ b2))))])
    \<and> (res \<noteq> APC_OK \<longrightarrow> (\<forall>j bs. ConnOut j (SockWrite bs) \<notin> set out))"
proof -
  let ?w = "waited (ce_conn e 0) (cl_conns cl ! i)"
  note b = assms(6,7)[unfolded packet_ok_def]
  obtain cache err where add: "addPacket (cl_cache cl) type p1 (ucast s1) p2 (ucast s2)
      = Some (cache, err, Some (word_of_nat (Suc (length hist))))"
    using addPacket_spec[OF _ assms(5) b assms(8)] cache_reach_rel[OF assms(3,4)] by metis
  have reach: "cache_reach n cache (hist @ [(type, b1 @ b2)])"
    by (rule reach_add[OF assms(3,5) b assms(8) add])
  obtain cl1 o1 o2 where
      s: "on_conn i (\<lambda>c. sendData (ce_conn e 0) c type 0 (word_of_nat (Suc (length hist))) p1 s1 p2 s2)
            (cl\<lparr>cl_cache := cache\<rparr>) = Some (cl1, res, o1)"
      and st: "stop_failed e i res cl1 = Some (cl', (), o2)" and out: "out = o1 @ o2"
    using assms(10) unfolding client_sendData_p_online[OF assms(1,2) add] and_then_eq_Some by fastforce
  from s obtain c o3 where c: "sendData (ce_conn e 0) (cl_conns cl ! i) type 0 (word_of_nat (Suc (length hist))) p1 s1 p2 s2
      = Some (c, res, o3)" and o1: "o1 = map (ConnOut i) o3" and cl1: "cl_cache cl1 = cache"
    unfolding on_conn_Some by auto
  note st' = stop_failed_Some[OF st]
  have "length b1 + length b2 < 2 ^ 16" using assms(8) by (simp add: APC_MAX_MSG_SIZE_val)
  then have "res = APC_OK \<Longrightarrow> o3 = [SockWrite (wire_bytes (out_msg ?w type (word_of_nat (Suc (length hist))) (b1 @ b2)))]"
    using sendData_sent_wire[OF _ assms(9) b] c by simp
  moreover have "res \<noteq> APC_OK \<Longrightarrow> o3 = []" using sendData_not_sent[OF c assms(9)] .
  ultimately show ?thesis using reach cl1 st' out o1 by auto
qed

section \<open>Sending again after a reconnection\<close>

text \<open>
  A connector that accepts a data message: the connection is up, and while the send waits the socket completes writes, so that
  a buffer is free in the end and nothing else changes.
\<close>

definition conn_ready :: "u32 \<Rightarrow> CAPCConnector \<Rightarrow> bool" where
  "conn_ready seq c \<longleftrightarrow> bufs_inv c \<and> c_isWorking c \<and> c_isConnected c \<and> c_lastReceivedSeqNum c = seq"

definition conn_drains :: "conn_env \<Rightarrow> bool" where
  "conn_drains e \<longleftrightarrow> e_writeOk e \<and>
     (\<forall>seq c. conn_ready seq c \<longrightarrow> conn_ready seq (waited e c) \<and> c_numFreeOutBuf (waited e c) \<noteq> 0)"

text \<open>The message for a packet of the cache.\<close>

definition replay_msg :: "u32 \<Rightarrow> u32 \<times> sent_pkt \<Rightarrow> rx_msg" where
  "replay_msg yourSeq v = \<lparr>rx_type = fst (snd v), rx_flags = 0, rx_mySeq = fst v,
     rx_yourSeq = yourSeq, rx_payload = snd (snd v)\<rparr>"

lemma sendData_ready_ptr:
  assumes "conn_ready seq c" and "conn_drains e" and "unat s \<le> length (ptr_bytes p)"
    and m: "m = \<lparr>rx_type = type, rx_flags = 0, rx_mySeq = q, rx_yourSeq = seq, rx_payload = take (unat s) (ptr_bytes p)\<rparr>"
    and "sendable APC_MAX_MSG_SIZE m"
  shows "\<exists>c'. sendData e c type 0 q p s None 0 = Some (c', APC_OK, [SockWrite (wire_bytes m)]) \<and> conn_ready seq c'"
proof -
  let ?w = "waited e c"
  have w: "conn_ready seq ?w" "c_numFreeOutBuf ?w \<noteq> 0" "e_writeOk e"
    using assms(1,2) by (auto simp: conn_drains_def)
  then have inv: "bufs_inv ?w" "c_isWorking ?w" "c_isConnected ?w" "c_lastReceivedSeqNum ?w = seq"
    by (simp_all add: conn_ready_def)
  have guard: "guard_open c type" using assms(1) by (simp add: conn_ready_def guard_open_def)
  obtain c' where c': "sendData e c type 0 q p s None 0 = Some (c', APC_OK, [SockWrite (wire_bytes m)])"
    using sendData_wire[OF inv(1) guard w(2) inv(2) w(3), of s p 0 None m 0 q] assms(3,5) m inv(4)
    by (auto simp: ptr_bytes_def[of None])
  from c' inv(1) have "conn_ready seq c'"
  proof (cases rule: sendData_cases)
    case (sent buf k st)
    have "bufs_inv ((grab ?w)\<lparr>c_inflight := c_inflight ?w @ [unat (c_curFreeBufIdx ?w)],
        c_outbufs := (c_outbufs ?w)[unat (c_curFreeBufIdx ?w) := buf]\<rparr>)"
      using bufs_inv_update[OF grab_bufs(3)[OF inv(1) sent(7)] sent(6)] by simp
    then have "bufs_inv c'" using sent(5) by (subst bufs_inv_cong) simp_all
    then show ?thesis using sent(5) inv by (simp add: conn_ready_def)
  qed simp_all
  then show ?thesis using c' by blast
qed

lemma sendData_ready:
  assumes "conn_ready seq c" and "conn_drains e" and "unat s \<le> length b"
    and "m = \<lparr>rx_type = type, rx_flags = 0, rx_mySeq = q, rx_yourSeq = seq, rx_payload = take (unat s) b\<rparr>"
    and "sendable APC_MAX_MSG_SIZE m"
  shows "\<exists>c'. sendData e c type 0 q (Some b) s None 0 = Some (c', APC_OK, [SockWrite (wire_bytes m)]) \<and> conn_ready seq c'"
  using sendData_ready_ptr[OF assms(1,2) _ _ assms(5), of s "Some b"] assms(3,4) by (simp add: ptr_bytes_def)

text \<open>Packets of the cache go out in order.\<close>

lemma replay_send_one:
  assumes "cl_pConnector cl = Some i" and "i < length (cl_conns cl)" and "conn_ready seq (cl_conns cl ! i)"
    and "conn_drains (ce_conn e k)"
    and p: "unat (m_size p) \<le> APC_MAX_MSG_SIZE" "unat (m_size p) \<le> length (m_payload p)"
    and "sendable APC_MAX_MSG_SIZE (replay_msg seq (pkt_view p))"
  shows "\<exists>c'. replay_send e (Some (cl, k, out)) p =
     (Some (cl\<lparr>cl_conns := (cl_conns cl)[i := c']\<rparr>, Suc k, out @ [ConnOut i (SockWrite (wire_bytes (replay_msg seq (pkt_view p))))]), APC_OK)
     \<and> conn_ready seq c'"
proof -
  have s: "unat (ucast (m_size p) :: u16) = unat (m_size p)"
    using p(1) by (simp add: unsigned_ucast_eq take_bit_eq_mod APC_MAX_MSG_SIZE_val)
  have "replay_msg seq (pkt_view p) = \<lparr>rx_type = m_type p, rx_flags = 0, rx_mySeq = m_seqNumb p, rx_yourSeq = seq,
      rx_payload = take (unat (ucast (m_size p) :: u16)) (m_payload p)\<rparr>"
    by (simp add: replay_msg_def pkt_view_def s)
  then obtain c' where "sendData (ce_conn e k) (cl_conns cl ! i) (m_type p) 0 (m_seqNumb p) (Some (m_payload p))
      (ucast (m_size p)) None 0 = Some (c', APC_OK, [SockWrite (wire_bytes (replay_msg seq (pkt_view p)))])" "conn_ready seq c'"
    using sendData_ready[OF assms(3,4) _ _ assms(7), of "ucast (m_size p)" "m_payload p"] p(2) s by metis
  then show ?thesis using assms(1,2) by (auto simp: replay_send_def on_conn_def)
qed

lemma replay_send_all:
  assumes "cl_pConnector cl = Some i" and "i < length (cl_conns cl)" and "conn_ready seq (cl_conns cl ! i)"
    and "\<forall>k. conn_drains (ce_conn e k)"
    and "\<forall>p \<in> set ps. unat (m_size p) \<le> APC_MAX_MSG_SIZE \<and> unat (m_size p) \<le> length (m_payload p)
           \<and> sendable APC_MAX_MSG_SIZE (replay_msg seq (pkt_view p))"
  shows "\<exists>cs k'. send_all (replay_send e) (Some (cl, k, out)) ps =
     (Some (cl\<lparr>cl_conns := cs\<rparr>, k', out @ map (\<lambda>v. ConnOut i (SockWrite (wire_bytes (replay_msg seq v)))) (map pkt_view ps)), APC_OK)"
  using assms(1-3,5)
proof (induction ps arbitrary: cl k out)
  case Nil
  show ?case by (intro exI[of _ "cl_conns cl"] exI[of _ k]) simp
next
  case (Cons p ps)
  obtain c' where c': "replay_send e (Some (cl, k, out)) p = (Some (cl\<lparr>cl_conns := (cl_conns cl)[i := c']\<rparr>, Suc k,
      out @ [ConnOut i (SockWrite (wire_bytes (replay_msg seq (pkt_view p))))]), APC_OK)" "conn_ready seq c'"
    using replay_send_one[OF Cons.prems(1-3), of e k p out] assms(4) Cons.prems(4) by auto
  let ?cl = "cl\<lparr>cl_conns := (cl_conns cl)[i := c']\<rparr>"
  let ?out = "out @ [ConnOut i (SockWrite (wire_bytes (replay_msg seq (pkt_view p))))]"
  have prem: "cl_pConnector ?cl = Some i" "i < length (cl_conns ?cl)" "conn_ready seq (cl_conns ?cl ! i)"
    using Cons.prems(1,2) c'(2) by simp_all
  obtain cs k' where "send_all (replay_send e) (Some (?cl, Suc k, ?out)) ps = (Some (?cl\<lparr>cl_conns := cs\<rparr>, k',
      ?out @ map (\<lambda>v. ConnOut i (SockWrite (wire_bytes (replay_msg seq v)))) (map pkt_view ps)), APC_OK)"
    using Cons.IH[OF prem, of "Suc k" ?out] Cons.prems(4) by (metis list.set_intros(2))
  then show ?case
    using c'(1) by (intro exI[of _ cs] exI[of _ k']) simp
qed

lemma addPacket_outpkts:
  assumes "addPacket c type p1 s1 p2 s2 = Some (c', r, q)" and "p \<in> set (m_outpkts c')"
  shows "p \<in> set (m_outpkts c) \<or> m_size p \<le> word_of_nat APC_MAX_MSG_SIZE"
proof -
  have upd: "p \<in> set (xs[i := x]) \<Longrightarrow> p \<in> set xs \<or> p = x" for xs i x
    using set_update_subset_insert[of xs i x] by blast
  show ?thesis
    using assms by (auto simp: addPacket_def Let_def not_less split: if_split_asm option.split_asm dest!: upd)
qed

lemma cache_reach_sizes:
  "cache_reach n c hist \<Longrightarrow> \<forall>p \<in> set (m_outpkts c). unat (m_size p) \<le> APC_MAX_MSG_SIZE"
proof (induction rule: cache_reach.induct)
  case reach_new
  then show ?case by (simp add: new_CAPCCache_def cache_clear_def empty_pkt_def)
next
  case (reach_add c hist p1 s1 b1 p2 s2 b2 type c' r q)
  show ?case
  proof
    fix p assume "p \<in> set (m_outpkts c')"
    then consider "p \<in> set (m_outpkts c)" | "m_size p \<le> word_of_nat APC_MAX_MSG_SIZE"
      using addPacket_outpkts[OF reach_add.hyps(6)] by blast
    then show "unat (m_size p) \<le> APC_MAX_MSG_SIZE"
      by cases (use reach_add.IH in \<open>auto simp: word_le_nat_alt APC_MAX_MSG_SIZE_val\<close>)
  qed
next
  case (reach_add_size c hist type p1 s1 p2 s2 c' q)
  then show ?case using addPacket_APC_ERR_SIZE by blast
next
  case (reach_get c hist c' r p)
  have "m_outpkts c' = m_outpkts c"
    using reach_get.hyps(2) by (auto simp: getNextPacket_def Let_def split: if_splits)
  then show ?case using reach_get.IH by simp
qed (simp_all add: cache_clear_def confirmedSeqNum_def prepForGet_def Let_def)

lemma replay_loop_reach:
  "replay_loop fuel getNextPacket send c h = Some (c', h', r) \<Longrightarrow> cache_reach n c hist \<Longrightarrow> cache_reach n c' hist"
proof (induction fuel arbitrary: c h)
  case (Suc fuel)
  obtain c1 e1 p where g: "getNextPacket c = Some (c1, e1, p)"
    using Suc.prems(1) by (auto split: option.splits)
  have c1: "cache_reach n c1 hist" by (rule reach_get[OF Suc.prems(2) g])
  show ?case
  proof (cases p)
    case None
    then show ?thesis using Suc.prems(1) g c1 by (auto split: if_splits)
  next
    case (Some q)
    then show ?thesis using Suc.prems(1) g c1 Suc.IH by (auto simp: Let_def split: if_splits prod.splits)
  qed
qed simp

lemma pending_sizes:
  assumes "cache_reach n c hist" and "0 < n" and "p \<in> set (pending c)"
  shows "unat (m_size p) \<le> APC_MAX_MSG_SIZE \<and> unat (m_size p) \<le> length (m_payload p)"
proof -
  have rel: "cache_rel c hist" using cache_reach_rel[OF assms(1,2)] by simp
  then have "p \<in> set (m_outpkts c)"
    using assms(3) cache_relD(1)[OF rel] by (auto simp: pending_def)
  then show ?thesis using cache_reach_sizes[OF assms(1)] cache_relD(8)[OF rel] by auto
qed

lemma replay_cache_sends:
  assumes reach: "cache_reach n (cl_cache cl) hist" "0 < n" and x: "x \<le> length hist" "length hist - x \<le> unat n"
    and i: "cl_pConnector cl = Some i" "i < length (cl_conns cl)" "conn_ready seq (cl_conns cl ! i)"
    and drains: "\<forall>k. conn_drains (ce_conn e k)"
    and ok: "\<forall>k \<in> {x..<length hist}. sendable APC_MAX_MSG_SIZE (replay_msg seq (sent_view hist k))"
  shows "\<exists>cs cache. replay_cache e (word_of_nat x) cl = Some (cl\<lparr>cl_conns := cs, cl_cache := cache\<rparr>, APC_OK,
       map (\<lambda>k. ConnOut i (SockWrite (wire_bytes (replay_msg seq (sent_view hist k))))) [x..<length hist])
     \<and> cache_reach n cache hist"
proof -
  let ?c = "prepForGet (fst (confirmedSeqNum (cl_cache cl) (word_of_nat x) True))"
  have rel: "cache_rel (cl_cache cl) hist" "length (m_outpkts (cl_cache cl)) = unat n"
    using cache_reach_rel[OF reach] by auto
  have rok: "replay_ok ?c" and pend: "map pkt_view (pending ?c) = map (sent_view hist) [x..<length hist]"
    using pending_after_confirm[OF rel(1) x(1)] x(2) rel(2) by simp_all
  have creach: "cache_reach n ?c hist" by (intro reach_prep reach_confirm reach(1))
  have fuel: "length (pending ?c) < Suc (unat (m_numPackets ?c))"
    using rok by (simp add: replay_ok_def pending_def)
  have "sendable APC_MAX_MSG_SIZE (replay_msg seq (pkt_view p))" if p: "p \<in> set (pending ?c)" for p
  proof -
    have "pkt_view p \<in> set (map (sent_view hist) [x..<length hist])"
      using p unfolding pend[symmetric] by simp
    then show ?thesis using ok by auto
  qed
  then have ps: "\<forall>p \<in> set (pending ?c). unat (m_size p) \<le> APC_MAX_MSG_SIZE \<and> unat (m_size p) \<le> length (m_payload p)
      \<and> sendable APC_MAX_MSG_SIZE (replay_msg seq (pkt_view p))"
    using pending_sizes[OF creach reach(2)] by blast
  let ?out = "map (\<lambda>k. ConnOut i (SockWrite (wire_bytes (replay_msg seq (sent_view hist k))))) [x..<length hist]"
  obtain cs k' where s: "send_all (replay_send e) (Some (cl, 0, [])) (pending ?c) =
      (Some (cl\<lparr>cl_conns := cs\<rparr>, k', ?out), APC_OK)"
    using replay_send_all[OF i drains ps, of 0 "[]"] unfolding pend by (auto simp: comp_def)
  obtain cache where l: "replay_loop (Suc (unat (m_numPackets ?c))) getNextPacket (replay_send e) ?c (Some (cl, 0, []))
      = Some (cache, Some (cl\<lparr>cl_conns := cs\<rparr>, k', ?out), APC_OK)"
    using cache_replay.replay_sends_pending[OF rok fuel, of "replay_send e" "Some (cl, 0, [])"] unfolding s by blast
  show ?thesis
    using replay_loop_reach[OF l creach] unfolding replay_cache_def Let_def l
    by (intro exI[of _ cs] exI[of _ cache]) simp
qed

definition timer_out :: "CAPCClient \<Rightarrow> client_out list" where
  "timer_out cl = (if cl_reconnectTimer cl = None then [] else [TimerCancel])"

lemma client_stopTimer_p_eq: "client_stopTimer_p cl = Some (cl\<lparr>cl_reconnectTimer := None\<rparr>, (), timer_out cl)"
  by (simp add: client_stopTimer_p_def timer_out_def)


section \<open>The deadline of an offline client\<close>

lemma on_conn_frame: "on_conn i f cl = Some (cl', r, out) \<Longrightarrow> \<exists>cs. cl' = cl\<lparr>cl_conns := cs\<rparr>"
  by (auto simp: on_conn_Some)

lemma stop_conn_frame: "stop_conn e i reason err fl cl = Some (cl', r, out) \<Longrightarrow> \<exists>cs. cl' = cl\<lparr>cl_conns := cs\<rparr>"
  unfolding stop_conn_def by (rule on_conn_frame)

lemma conns_update_twice: "\<exists>cs. cl1 = cl\<lparr>cl_conns := cs\<rparr> \<Longrightarrow> \<exists>cs. cl2 = cl1\<lparr>cl_conns := cs\<rparr> \<Longrightarrow> \<exists>cs. cl2 = cl\<lparr>cl_conns := cs\<rparr>"
  by auto

lemma open_conn_frame:
  assumes "open_conn e i mySeq yourSeq fl cl = Some (cl', r, out)"
  shows "\<exists>cs. cl' = cl\<lparr>cl_conns := cs\<rparr>"
proof -
  obtain cl1 r1 o1 cl2 r2 o2 o3 where
      s1: "on_conn i (\<lambda>c. Some (conn_start (ce_conn e 0) c)) cl = Some (cl1, r1, o1)"
      and s2: "(if r1 = APC_OK then on_conn i (\<lambda>c. connect (ce_conn e 1) c (cl_intfId cl1) mySeq yourSeq
              (gps_byte (cl_currentGpsState cl1)) 0 0) cl1 else Some (cl1, r1, [])) = Some (cl2, r2, o2)"
      and s3: "(if r2 \<noteq> APC_OK then and_then (stop_conn (ce_conn e 2) i APC_STOP_CREATE r2 fl cl2)
              (\<lambda>cl _. Some (cl, r2, [])) else Some (cl2, r2, [])) = Some (cl', r, o3)"
    using assms unfolding open_conn_def and_then_eq_Some by blast
  have "\<exists>cs. cl1 = cl\<lparr>cl_conns := cs\<rparr>" by (rule on_conn_frame[OF s1])
  moreover have "\<exists>cs. cl2 = cl1\<lparr>cl_conns := cs\<rparr>"
    using s2 on_conn_frame by (cases "r1 = APC_OK") (auto intro: exI[of _ "cl_conns cl1"])
  moreover have "\<exists>cs. cl' = cl2\<lparr>cl_conns := cs\<rparr>"
    using s3 stop_conn_frame
    by (cases "r2 = APC_OK") (auto simp: and_then_eq_Some intro: exI[of _ "cl_conns cl2"])
  ultimately show ?thesis by auto
qed

text \<open>The fields on which going offline, retrying and giving up depend.\<close>

definition session_view :: "CAPCClient \<Rightarrow> apcclient_state_t \<times> nat \<times> ap_intf_id_t \<times> u32 \<times> bool" where
  "session_view cl = (cl_state cl, cl_disconnectTime cl, cl_intfId cl, cl_disconnectTimeoutMsec cl, cl_hasInput cl)"

lemma session_view_conns [simp]: "session_view (cl\<lparr>cl_conns := cs\<rparr>) = session_view cl"
  "session_view (cl\<lparr>cl_reconnectTimer := t\<rparr>) = session_view cl"
  "session_view (cl\<lparr>cl_pConnector := i\<rparr>) = session_view cl"
  by (simp_all add: session_view_def)

lemma reconnect_p_view:
  assumes "reconnect_p e cl = Some (cl', r, out)"
  shows "session_view cl' = session_view cl"
proof (cases "cl_pConnector cl = None \<and> ce_ipOk e")
  case True
  then obtain i cl1 o1 where "open_conn e i (getLastSent (cl_cache cl)) (cl_lastRxSeqNum cl) STOP_FL_OFFLINE cl1 = Some (cl', o1, out)"
      "session_view cl1 = session_view cl"
    using assms by (auto simp: reconnect_p_def ipConnect_p_def Let_def and_then_eq_Some)
  then show ?thesis using open_conn_frame by fastforce
next
  case False
  then show ?thesis
    using assms by (auto simp: reconnect_p_def ipConnect_p_def client_startTimer_p_def Let_def split: if_splits)
qed

text \<open>What happens to an offline client whose attempts to reconnect fail before the deadline.\<close>

inductive retry :: "CAPCClient \<Rightarrow> CAPCClient \<Rightarrow> bool" for cl where
  retry_none: "retry cl cl"
| retry_started: "retry cl cl1 \<Longrightarrow> client_apcStarted i cl1 = Some (cl2, (), out) \<Longrightarrow> retry cl cl2"
| retry_failed: "retry cl cl1 \<Longrightarrow> pd_flags param = STOP_FL_OFFLINE
    \<Longrightarrow> client_apcDisconnected e i param cl1 = Some (cl2, (), out) \<Longrightarrow> retry cl cl2"
| retry_timer: "retry cl cl1 \<Longrightarrow> ce_now e < cl_disconnectTime cl1
    \<Longrightarrow> reconnectTimerFun_p e err cl1 = Some (cl2, (), out) \<Longrightarrow> retry cl cl2"
| retry_send: "retry cl cl1 \<Longrightarrow> client_sendData_p e g cl1 type p1 s1 p2 s2 = Some (cl2, r, out) \<Longrightarrow> retry cl cl2"

inductive_cases retry_step: "retry cl cl'"

lemma retry_view:
  assumes "retry cl cl'" and "cl_state cl = APCCLIENT_STATE_OFFLINE" and "cl_disconnectTime cl \<noteq> TIME_EMPTY"
    and "cl_intfId cl \<noteq> APINTFID_EMPTY" and "cl_disconnectTimeoutMsec cl \<noteq> 0"
  shows "session_view cl' = session_view cl"
  using assms
proof (induction rule: retry.induct)
  case (retry_started cl1 i cl2 out)
  then show ?case by (auto simp: client_apcStarted_def)
next
  case (retry_failed cl1 param e i cl2 out)
  then have v: "session_view cl1 = session_view cl" by simp
  then show ?case
    using retry_failed.hyps(2,3) retry_failed.prems
    by (auto simp: session_view_def client_apcDisconnected_def client_stopTimer_p_eq client_startTimer_p_def Let_def
        split: if_splits)
next
  case (retry_timer cl1 e err cl2 out)
  let ?cl = "cl1\<lparr>cl_reconnectTimer := map_option (\<lambda>_. False) (cl_reconnectTimer cl1)\<rparr>"
  have v: "session_view cl1 = session_view cl" using retry_timer by simp
  show ?case
  proof (cases err)
    case True
    then show ?thesis using retry_timer.hyps(3) v by (simp add: reconnectTimerFun_p_def)
  next
    case False
    then obtain cl3 r3 o3 where "reconnect_p e ?cl = Some (cl3, r3, o3)" "cl2 = cl3"
      using retry_timer.hyps(2,3) v retry_timer.prems(1)
      by (auto simp: reconnectTimerFun_p_def session_view_def and_then_eq_Some)
    then show ?thesis using reconnect_p_view v by fastforce
  qed
next
  case (retry_send cl1 e g type p1 s1 p2 s2 cl2 r out)
  then show ?case by (auto simp: session_view_def client_sendData_p_def)
qed simp

text \<open>
  Claim C10.  Going offline sets one deadline.  However many attempts to reconnect fail before it, and whatever is
  sent meanwhile, the client stays offline and the deadline stays where it was; when the timer fires at or after the
  deadline and no attempt is under way, the client is disconnected, the owner is told exactly once, and later timer events do nothing.\<close>

theorem client_gives_up_at_deadline:
  assumes "retry cl cl'" and "cl_state cl = APCCLIENT_STATE_OFFLINE" and "cl_disconnectTime cl \<noteq> TIME_EMPTY"
    and "cl_intfId cl \<noteq> APINTFID_EMPTY" and "cl_disconnectTimeoutMsec cl \<noteq> 0" and "cl_hasInput cl"
    and "cl_pConnector cl' = None" and "cl_disconnectTime cl \<le> ce_now e"
  shows "cl_state cl' = APCCLIENT_STATE_OFFLINE \<and> cl_disconnectTime cl' = cl_disconnectTime cl \<and>
    (\<exists>cl2 pre. reconnectTimerFun_p e False cl' = Some (cl2, (), pre @ [UserCall (in_disconnected APC_STOP_TIMEOUT)])
       \<and> set pre \<subseteq> {TimerCancel} \<and> cl_state cl2 = APCCLIENT_STATE_DISCONNECT
       \<and> (\<forall>e' err. \<exists>cl3. reconnectTimerFun_p e' err cl2 = Some (cl3, (), []) \<and> cl_state cl3 = APCCLIENT_STATE_DISCONNECT))"
proof -
  have v: "cl_state cl' = APCCLIENT_STATE_OFFLINE" "cl_disconnectTime cl' = cl_disconnectTime cl" "cl_hasInput cl'"
    using retry_view[OF assms(1-5)] assms(2,6) by (simp_all add: session_view_def)
  let ?cl2 = "cl'\<lparr>cl_state := APCCLIENT_STATE_DISCONNECT, cl_reconnectTimer := None, cl_disconnectTime := TIME_EMPTY\<rparr>"
  have fire: "reconnectTimerFun_p e False cl' = Some (?cl2, (), timer_out cl' @ [UserCall (in_disconnected APC_STOP_TIMEOUT)])"
    using v assms(7,8)
    by (simp add: reconnectTimerFun_p_def disconnect_p_def client_stopTimer_p_eq user_call_def timer_out_def)
  have pre: "set (timer_out cl') \<subseteq> {TimerCancel}" by (simp add: timer_out_def)
  have later: "\<exists>cl3. reconnectTimerFun_p e' err ?cl2 = Some (cl3, (), []) \<and> cl_state cl3 = APCCLIENT_STATE_DISCONNECT" for e' err
    by (simp add: reconnectTimerFun_p_def)
  show ?thesis
    using v(1,2) fire pre later by (intro conjI exI[of _ ?cl2] exI[of _ "timer_out cl'"]) simp_all
qed

section \<open>Examples\<close>

text \<open>A connected client of a manager, and an environment in which the socket completes one write whenever a send waits.\<close>

definition drain_env :: conn_env where
  "drain_env = quiet_env\<lparr>e_wakes := [(complete_buf, False)]\<rparr>"

definition demo_client_env :: client_env where
  "demo_client_env = \<lparr>ce_now = 100, ce_conn = (\<lambda>_. drain_env), ce_resetOk = True, ce_ipOk = False, ce_timerOk = True,
     ce_swVersion = []\<rparr>"

definition demo_client :: "CAPCCache \<Rightarrow> CAPCClient" where
  "demo_client c = (new_CAPCClient 2)\<lparr>cl_cache := c, cl_intfId := 5, cl_hasInput := True, cl_pConnector := Some 0,
     cl_conns := [demo_conn\<lparr>c_isConnected := True\<rparr>], cl_disconnectTimeoutMsec := 10, cl_reconnectionDelayMsec := 1\<rparr>"

lemma complete_buf_ready:
  assumes "conn_ready seq c" and "c_numFreeOutBuf c = 0"
  shows "conn_ready seq (complete_buf c) \<and> c_numFreeOutBuf (complete_buf c) \<noteq> 0"
proof -
  have inv: "bufs_inv c" using assms(1) by (simp add: conn_ready_def)
  then have "c_inflight c \<noteq> []" using assms(2) by (cases rule: bufs_inv_cases) simp_all
  then have "bufs_inv (complete_buf c)" using out_ring.release_used[OF inv] by simp
  then show ?thesis
    using assms by (simp add: conn_ready_def complete_buf_def freeBuf_p_def buf_defs)
qed

lemma drain_env_drains: "conn_drains drain_env"
  unfolding conn_drains_def
proof (intro conjI allI impI)
  show "e_writeOk drain_env" by (simp add: drain_env_def quiet_env_def)
  fix seq c assume r: "conn_ready seq c"
  show "conn_ready seq (waited drain_env c)" "c_numFreeOutBuf (waited drain_env c) \<noteq> 0"
    using r complete_buf_ready[OF r] by (auto simp: drain_env_def quiet_env_def conn_ready_def)
qed

lemma demo_client_ready:
  "cl_pConnector (demo_client c) = Some 0" "length (cl_conns (demo_client c)) = 1"
  "conn_ready 0 (cl_conns (demo_client c) ! 0)" "cl_cache (demo_client c) = c" "cl_intfId (demo_client c) = 5"
  using demo_conn_simps bufs_inv_cong[of "demo_conn\<lparr>c_isConnected := True\<rparr>" demo_conn]
  by (simp_all add: demo_client_def conn_ready_def)


theorem client_send_cached_witness:
  "\<exists>cl' out. client_sendData_p demo_client_env 0 ((demo_client (new_CAPCCache 2))\<lparr>cl_state := APCCLIENT_STATE_ONLINE\<rparr>)
       4 (Some [1, 2]) 2 None 0 = Some (cl', APC_OK, out)
     \<and> cache_reach 2 (cl_cache cl') [(4, [1, 2])]"
proof -
  let ?cl = "(demo_client (new_CAPCCache 2))\<lparr>cl_state := APCCLIENT_STATE_ONLINE\<rparr>"
  have p: "packet_ok (Some [1, 2]) 2 [1, 2]" "packet_ok None 0 []" by (simp_all add: packet_ok_def arg_bytes_def)
  have reach: "cache_reach 2 (cl_cache ?cl) []" using demo_client_ready(4) reach_new by simp
  obtain c e where add: "addPacket (cl_cache ?cl) 4 (Some [1, 2]) (ucast (2 :: u16)) None (ucast (0 :: u16)) = Some (c, e, Some 1)"
    using addPacket_spec[OF _ _ p[unfolded packet_ok_def], of "cl_cache ?cl" "[]" 4] cache_reach_rel[OF reach]
    by (auto simp: APC_MAX_MSG_SIZE_val)
  have ready: "conn_ready 0 (cl_conns ?cl ! 0)" "cl_pConnector ?cl = Some 0" using demo_client_ready by simp_all
  have d: "conn_drains (ce_conn demo_client_env 0)" using drain_env_drains by (simp add: demo_client_env_def)
  obtain c' where s: "sendData (ce_conn demo_client_env 0) (cl_conns ?cl ! 0) 4 0 1 (Some [1, 2]) 2 None 0
      = Some (c', APC_OK, [SockWrite (wire_bytes \<lparr>rx_type = 4, rx_flags = 0, rx_mySeq = 1, rx_yourSeq = 0,
          rx_payload = take (unat (2 :: u16)) [1, 2]\<rparr>)])"
    using sendData_ready[OF ready(1) d, of 2 "[1, 2]" _ 4 1, OF _ refl]
    by (auto simp: sendable_def convert_def apc_const_defs wire_simps)
  obtain cl' out where r: "client_sendData_p demo_client_env 0 ?cl 4 (Some [1, 2]) 2 None 0 = Some (cl', APC_OK, out)"
    using client_sendData_p_online[OF _ ready(2) add, of demo_client_env 0] s demo_client_ready(2)[of "new_CAPCCache 2"]
    by (simp add: on_conn_def stop_failed_def)
  have w: "bufs_inv (waited (ce_conn demo_client_env 0) (cl_conns ?cl ! 0))"
    using d ready(1) by (auto simp: conn_drains_def conn_ready_def)
  show ?thesis
    using client_send_cached[OF _ ready(2) reach _ _ p _ w r] r by (auto simp: APC_MAX_MSG_SIZE_val)
qed

theorem client_gives_up_at_deadline_witness:
  "\<exists>cl cl'. retry cl cl' \<and> cl_state cl' = APCCLIENT_STATE_OFFLINE
     \<and> (\<exists>cl2 pre. reconnectTimerFun_p (demo_client_env\<lparr>ce_now := 200\<rparr>) False cl'
          = Some (cl2, (), pre @ [UserCall (in_disconnected APC_STOP_TIMEOUT)]) \<and> cl_state cl2 = APCCLIENT_STATE_DISCONNECT)"
proof -
  let ?cl = "(demo_client (new_CAPCCache 2))\<lparr>cl_state := APCCLIENT_STATE_OFFLINE, cl_pConnector := None, cl_disconnectTime := 150\<rparr>"
  obtain cl' where t: "reconnectTimerFun_p demo_client_env False ?cl = Some (cl', (), [TimerWait 1])"
    and "cl_pConnector cl' = None"
    by (simp add: reconnectTimerFun_p_def reconnect_p_def ipConnect_p_def client_startTimer_p_def demo_client_env_def
        demo_client_def new_CAPCClient_def)
  moreover have "retry ?cl cl'"
    by (rule retry_timer[OF retry_none _ t]) (simp add: demo_client_env_def)
  ultimately show ?thesis
    using client_gives_up_at_deadline[of ?cl cl' "demo_client_env\<lparr>ce_now := 200\<rparr>"]
    by (fastforce simp: demo_client_def TIME_EMPTY_def apc_const_defs)
qed

end
