(* ===== verification/APM_Link.thy ===== *)
theory APM_Link
  imports APM_Transport
begin

text \<open>
  Properties of the transport to the access point: the link never stalls, flow control calls alternate, repeated
  notifications are handled once, and what a high priority command does to the command in flight.
\<close>

section \<open>What an operation may do\<close>

text \<open>
  The flow control calls the upper layer sees: a pause only while running, a resume only while paused; a boot
  starts afresh.
\<close>

fun flow_step :: "apm_flow_control_t \<Rightarrow> apm_out \<Rightarrow> apm_flow_control_t option" where
  "flow_step s (ApmNotif handleAPPause) = (if s = APM_FLOW_NORMAL then Some APM_FLOW_PAUSE else None)"
| "flow_step s (ApmNotif handleAPResume) = (if s = APM_FLOW_PAUSE then Some APM_FLOW_NORMAL else None)"
| "flow_step s (ApmNotif handleAPBoot) = Some APM_FLOW_NORMAL"
| "flow_step s (ApmNotif handleAPReboot) = Some APM_FLOW_NORMAL"
| "flow_step s _ = Some s"

fun flow_run :: "apm_flow_control_t \<Rightarrow> apm_out list \<Rightarrow> apm_flow_control_t option" where
  "flow_run s [] = Some s"
| "flow_run s (x # xs) = Option.bind (flow_step s x) (\<lambda>s. flow_run s xs)"

lemma flow_run_append: "flow_run s (xs @ ys) = Option.bind (flow_run s xs) (\<lambda>s. flow_run s ys)"
proof (induction xs arbitrary: s)
  case (Cons x xs)
  then show ?case by (cases "flow_step s x") simp_all
qed simp

text \<open>The link between two operations, and within one.\<close>

definition gave_up :: "CAPMTransport \<Rightarrow> bool" where
  "gave_up t \<longleftrightarrow> ucast (ti_maxRetries (tr_params t)) \<le> tr_curRetryCount t"

definition link_weak :: "CAPMTransport \<Rightarrow> bool" where
  "link_weak t \<longleftrightarrow> (tr_pending t \<longrightarrow> tr_outputQueue t \<noteq> []) \<and> length (tr_outputQueue t) \<le> tr_capacity t
     \<and> (tr_pending t \<longrightarrow> tr_outputTimer t \<noteq> None \<or> gave_up t)"

definition link_inv :: "CAPMTransport \<Rightarrow> bool" where
  "link_inv t \<longleftrightarrow> link_weak t \<and> (tr_outputQueue t \<noteq> [] \<longrightarrow> tr_pending t)"

definition step_ok :: "CAPMTransport \<Rightarrow> CAPMTransport \<Rightarrow> apm_out list \<Rightarrow> bool" where
  "step_ok t t' out \<longleftrightarrow> (link_weak t \<longrightarrow> link_weak t') \<and> (link_inv t \<longrightarrow> link_inv t')
     \<and> tr_capacity t' = tr_capacity t \<and> flow_run (tr_mngrInputState t) out = Some (tr_mngrInputState t')"

lemma step_ok_refl: "step_ok t t []"
  by (simp add: step_ok_def)

lemma step_ok_trans: "step_ok t t1 o1 \<Longrightarrow> step_ok t1 t2 o2 \<Longrightarrow> step_ok t t2 (o1 @ o2)"
  by (auto simp: step_ok_def flow_run_append)

text \<open>The part of the state the link depends on; operations that keep it are harmless.\<close>

definition link_view where
  "link_view t = (tr_outputQueue t, tr_pending t, tr_outputTimer t, tr_curRetryCount t, tr_params t, tr_capacity t)"

lemma link_view_eqD:
  assumes "link_view t' = link_view t"
  shows "link_weak t' = link_weak t" "link_inv t' = link_inv t" "tr_capacity t' = tr_capacity t"
  using assms by (simp_all add: link_view_def link_weak_def link_inv_def gave_up_def)

lemma step_ok_view:
  assumes "link_view t' = link_view t" and "flow_run (tr_mngrInputState t) out = Some (tr_mngrInputState t')"
  shows "step_ok t t' out"
  using link_view_eqD[OF assms(1)] assms(2) by (simp add: step_ok_def)

section \<open>Simple calls\<close>

lemma simple_step_view [simp]:
  "link_view (fst (simple_step t s)) = link_view t" "tr_mngrInputState (fst (simple_step t s)) = tr_mngrInputState t"
  "tr_notifPacketId (fst (simple_step t s)) = tr_notifPacketId t" "tr_respPacketId (fst (simple_step t s)) = tr_respPacketId t"
  by (cases s; simp add: link_view_def hwResetAP_def disableJoin_def setJoinProcessState_p_def setAPMState_def Let_def)+

lemma simple_step_flow: "step_ok t (fst (simple_step t s)) (snd (simple_step t s))"
  by (rule step_ok_view) (simp, cases s, simp_all add: hwResetAP_def disableJoin_def setJoinProcessState_p_def setAPMState_def Let_def)

lemma tell_view [simp]:
  "link_view (fst (tell e n t)) = link_view t" "tr_mngrInputState (fst (tell e n t)) = tr_mngrInputState t"
  "tr_notifPacketId (fst (tell e n t)) = tr_notifPacketId t" "tr_respPacketId (fst (tell e n t)) = tr_respPacketId t"
  using run_view[where f = link_view and step = simple_step] run_view[where f = tr_mngrInputState and step = simple_step]
    run_view[where f = tr_notifPacketId and step = simple_step] run_view[where f = tr_respPacketId and step = simple_step]
  by (simp_all add: tell_def case_prod_beta)

lemma simple_step_quiet: "x \<in> set (snd (simple_step t s)) \<Longrightarrow> x = SerResetAP"
  by (cases s) (simp_all add: hwResetAP_def)

lemma simple_run_quiet: "x \<in> set (snd (run simple_step t cs)) \<Longrightarrow> x = SerResetAP"
  by (induction cs arbitrary: t) (auto simp: run_simps dest: simple_step_quiet)

lemma flow_run_quiet: "\<forall>x \<in> set xs. x = SerResetAP \<Longrightarrow> flow_run s xs = Some s"
  by (induction xs) simp_all

lemma tell_flow: "flow_run s (snd (tell e n t)) = flow_step s (ApmNotif n)"
  using flow_run_quiet[of "snd (run simple_step t (te_simple e n))"] simple_run_quiet[of _ t "te_simple e n"]
  by (cases "flow_step s (ApmNotif n)") (auto simp: tell_def case_prod_beta)

section \<open>Sending and queueing\<close>

lemma sendCommand_fields [simp]:
  "tr_outputQueue (fst (sendCommand e c d b t)) = tr_outputQueue t"
  "tr_pending (fst (sendCommand e c d b t))"
  "tr_outputTimer (fst (sendCommand e c d b t)) = Some (ti_retryTimeout (tr_params t))"
  "tr_capacity (fst (sendCommand e c d b t)) = tr_capacity t"
  "tr_mngrInputState (fst (sendCommand e c d b t)) = tr_mngrInputState t"
  "tr_params (fst (sendCommand e c d b t)) = tr_params t"
  "tr_respPacketId (fst (sendCommand e c d b t)) = tr_respPacketId t"
  "tr_notifPacketId (fst (sendCommand e c d b t)) = tr_notifPacketId t"
  by (simp_all add: sendCommand_def Let_def startPingTimer_def startRetryTimer_def)

lemma sendCommand_flow [simp]: "flow_run s (snd (sendCommand e c d b t)) = Some s"
  by (simp add: sendCommand_def Let_def)

lemma send_fields [simp]:
  "tr_outputQueue (fst (send e b t)) = tr_outputQueue t" "tr_capacity (fst (send e b t)) = tr_capacity t"
  "tr_mngrInputState (fst (send e b t)) = tr_mngrInputState t" "tr_params (fst (send e b t)) = tr_params t"
  "tr_respPacketId (fst (send e b t)) = tr_respPacketId t" "tr_notifPacketId (fst (send e b t)) = tr_notifPacketId t"
  "flow_run s (snd (send e b t)) = Some s"
  by (simp_all add: send_def split: list.split)

lemma send_weak: "link_weak t \<Longrightarrow> link_weak (fst (send e b t))"
  by (auto simp: link_weak_def send_def split: list.split)

text \<open>A new send on a ready port leaves no command waiting for nothing.\<close>

lemma send_new_inv:
  assumes "link_weak t" and "te_ready e"
  shows "link_inv (fst (send e True t))"
  using assms by (auto simp: link_inv_def link_weak_def send_def split: list.split)

lemma sendAPLost_ok: "step_ok t (fst (sendAPLostNotif_p e t)) (snd (sendAPLostNotif_p e t))"
proof (rule step_ok_view)
  have "link_view (fst (sendAPLostNotif_p e t)) = link_view (fst (tell e handleAPLost t))"
    by (simp add: sendAPLostNotif_p_def case_prod_beta Let_def setAPConnectionState_p_def link_view_def)
  then show "link_view (fst (sendAPLostNotif_p e t)) = link_view t" by simp
  show "flow_run (tr_mngrInputState t) (snd (sendAPLostNotif_p e t)) = Some (tr_mngrInputState (fst (sendAPLostNotif_p e t)))"
    by (simp add: sendAPLostNotif_p_def case_prod_beta Let_def setAPConnectionState_p_def tell_flow)
qed

text \<open>A pause or a resume of the manager, whichever it is.\<close>

definition switch_flow :: "tr_env \<Rightarrow> IAPMNotifHandler \<Rightarrow> apm_flow_control_t \<Rightarrow> CAPMTransport \<Rightarrow> tr_step" where
  "switch_flow e n s t = (case tell e n t of (t, out) \<Rightarrow> (t\<lparr>tr_mngrInputState := s\<rparr>, out))"

lemma switch_flow_view [simp]:
  "link_view (fst (switch_flow e n s t)) = link_view t" "tr_mngrInputState (fst (switch_flow e n s t)) = s"
  using tell_view(1)[of e n t] by (simp_all add: switch_flow_def case_prod_beta link_view_def)

lemma switch_flow_ok:
  assumes "flow_step (tr_mngrInputState t) (ApmNotif n) = Some s"
  shows "step_ok t (fst (switch_flow e n s t)) (snd (switch_flow e n s t))"
  by (rule step_ok_view) (simp, simp add: switch_flow_def case_prod_beta tell_flow assms)

lemma timer_views [simp]:
  "link_view (startQueueCheckTimer t) = link_view t" "link_view (startPingTimer t) = link_view t"
  "link_view (stopPingTimer t) = link_view t" "link_view (startPPSTimer t) = link_view t"
  "tr_mngrInputState (startQueueCheckTimer t) = tr_mngrInputState t" "tr_mngrInputState (startPingTimer t) = tr_mngrInputState t"
  "tr_mngrInputState (stopPingTimer t) = tr_mngrInputState t" "tr_mngrInputState (startPPSTimer t) = tr_mngrInputState t"
  by (simp_all add: link_view_def startQueueCheckTimer_def startPingTimer_def stopPingTimer_def startPPSTimer_def)

text \<open>A command that is accepted: queued, sent, the manager paused, the timer started.\<close>

definition queued_command :: "tr_env \<Rightarrow> tr_request \<Rightarrow> APMCommand" where
  "queued_command e rq = \<lparr>ac_cmdId = rq_cmdId rq, ac_payload = rq_data rq, ac_isSynch = rq_isSynch rq,
     ac_resCallback = rq_resCallback rq, ac_errResCallback = rq_errRespCallback rq, ac_timestamp = te_now e\<rparr>"

definition enqueue :: "tr_env \<Rightarrow> tr_request \<Rightarrow> CAPMTransport \<Rightarrow> CAPMTransport" where
  "enqueue e rq t = t\<lparr>tr_stats := (tr_stats t)\<lparr>st_numPacketsQueued := st_numPacketsQueued (tr_stats t) + 1\<rparr>,
     tr_outputQueue := (if rq_isHighPriority rq then queued_command e rq # tr_outputQueue t
                        else tr_outputQueue t @ [queued_command e rq])\<rparr>"

definition pause_if_high :: "tr_env \<Rightarrow> CAPMTransport \<Rightarrow> tr_step" where
  "pause_if_high e t =
     (if tr_mngrInputState t = APM_FLOW_NORMAL \<and> length (tr_outputQueue t) \<ge> unat (ti_highQueueWatermark (tr_params t))
      then switch_flow e handleAPPause APM_FLOW_PAUSE t else (t, []))"

lemma insertMsg_ready:
  assumes "te_ready e" and "length (tr_outputQueue t) \<noteq> tr_capacity t"
  shows "insertMsg e rq t =
    (case send e True (enqueue e rq t) of (t1, out1) \<Rightarrow> case pause_if_high e t1 of (t2, out2) \<Rightarrow>
       (if length (tr_outputQueue t2) > 0 then startQueueCheckTimer t2 else t2, APC_OK, out1 @ out2))"
  unfolding insertMsg_def Let_def queued_command_def[symmetric] enqueue_def[symmetric] pause_if_high_def switch_flow_def
  using assms by (simp add: case_prod_beta)

lemma enqueue_fields [simp]:
  "tr_pending (enqueue e rq t) = tr_pending t" "tr_outputTimer (enqueue e rq t) = tr_outputTimer t"
  "tr_curRetryCount (enqueue e rq t) = tr_curRetryCount t" "tr_params (enqueue e rq t) = tr_params t"
  "tr_capacity (enqueue e rq t) = tr_capacity t" "tr_mngrInputState (enqueue e rq t) = tr_mngrInputState t"
  "tr_outputQueue (enqueue e rq t) \<noteq> []" "length (tr_outputQueue (enqueue e rq t)) = Suc (length (tr_outputQueue t))"
  "tr_respPacketId (enqueue e rq t) = tr_respPacketId t" "tr_notifPacketId (enqueue e rq t) = tr_notifPacketId t"
  by (simp_all add: enqueue_def)

lemma enqueue_weak: "link_weak t \<Longrightarrow> length (tr_outputQueue t) \<noteq> tr_capacity t \<Longrightarrow> link_weak (enqueue e rq t)"
  by (simp add: link_weak_def gave_up_def)

lemma pause_if_high_ok: "step_ok t (fst (pause_if_high e t)) (snd (pause_if_high e t))"
  by (simp add: pause_if_high_def step_ok_refl switch_flow_ok)

lemma step_ok_result_view: "step_ok t t' out \<Longrightarrow> link_view t'' = link_view t' \<Longrightarrow>
    tr_mngrInputState t'' = tr_mngrInputState t' \<Longrightarrow> step_ok t t'' out"
  using link_view_eqD[of t'' t'] by (simp add: step_ok_def)

lemma insertMsg_cases [consumes 1, case_names offline full sent]:
  assumes "insertMsg e rq t = (t', res, out)"
  obtains "\<not> te_ready e" "sendAPLostNotif_p e t = (t', out)" "res = APC_ERR_STATE"
  | "te_ready e" "length (tr_outputQueue t) = tr_capacity t" "t' = t" "res = APC_ERR_OUTBUFOVERFLOW" "out = []"
  | t1 out1 t2 out2 where "te_ready e" "length (tr_outputQueue t) \<noteq> tr_capacity t"
      "send e True (enqueue e rq t) = (t1, out1)" "pause_if_high e t1 = (t2, out2)"
      "t' = (if length (tr_outputQueue t2) > 0 then startQueueCheckTimer t2 else t2)" "res = APC_OK" "out = out1 @ out2"
proof (cases "te_ready e \<and> length (tr_outputQueue t) \<noteq> tr_capacity t")
  case True
  then show thesis using that(3) assms by (auto simp: insertMsg_ready split: prod.splits)
next
  case False
  then show thesis using that(1,2) assms by (auto simp: insertMsg_def Let_def split: prod.splits if_splits)
qed

lemma insertMsg_ok:
  assumes "insertMsg e rq t = (t', res, out)"
  shows "step_ok t t' out"
  using assms
proof (cases rule: insertMsg_cases)
  case offline
  then show ?thesis using sendAPLost_ok[of t e] by simp
next
  case full
  then show ?thesis by (simp add: step_ok_refl)
next
  case (sent t1 out1 t2 out2)
  have "step_ok t t1 out1"
    using enqueue_weak[OF _ sent(2), of e rq] send_new_inv[OF _ sent(1), of "enqueue e rq t"]
      send_fields(2,3)[of e True "enqueue e rq t"] send_fields(7)[of _ e True "enqueue e rq t"] sent(3)
    by (auto simp: step_ok_def link_inv_def)
  moreover have "step_ok t1 t2 out2" using pause_if_high_ok[of t1 e] sent(4) by simp
  ultimately have "step_ok t t2 out" unfolding sent(7) by (rule step_ok_trans)
  then show ?thesis by (rule step_ok_result_view) (simp_all add: sent(5))
qed

section \<open>Calls on the upper layer\<close>

lemma call_step_ok: "step_ok t (fst (call_step e t c)) (snd (call_step e t c))"
proof (cases c)
  case (CallInsert rq)
  then show ?thesis using insertMsg_ok[of e rq t] by (cases "insertMsg e rq t") simp
qed (simp add: simple_step_flow)

lemma calls_ok: "step_ok t (fst (run (call_step e) t cs)) (snd (run (call_step e) t cs))"
  by (rule run_rel[where R = step_ok]) (rule call_step_ok, rule step_ok_refl, rule step_ok_trans)

lemma upper_ok:
  assumes "flow_step s o1 = Some (tr_mngrInputState t)" and "link_weak t0 \<Longrightarrow> link_weak t" and "link_inv t0 \<Longrightarrow> link_inv t"
    and "tr_capacity t = tr_capacity t0" and "s = tr_mngrInputState t0"
  shows "step_ok t0 (fst (upper e o1 t)) (snd (upper e o1 t))"
  using calls_ok[of t e "te_react e o1"] assms by (simp add: upper_def case_prod_beta step_ok_def)

lemma startJoin_ok: "step_ok t (fst (startJoin_p e t)) (snd (startJoin_p e t))"
proof -
  obtain t1 r1 o1 where i1: "insertMsg e (plain_request DN_API_LOC_CMD_GETPARAM [DN_API_PARAM_MACADDR]) t = (t1, r1, o1)"
    by (rule prod_cases3)
  obtain t2 r2 o2 where i2: "insertMsg e (plain_request DN_API_LOC_CMD_SETPARAM
      (DN_API_PARAM_NETID # le_bytes 2 (htons (ucast (tr_netId t1))))) t1 = (t2, r2, o2)"
    by (rule prod_cases3)
  obtain t3 r3 o3 where i3: "insertMsg e (plain_request DN_API_LOC_CMD_JOIN []) t2 = (t3, r3, o3)"
    by (rule prod_cases3)
  have "step_ok t t3 (o1 @ o2 @ o3)"
    using step_ok_trans[OF insertMsg_ok[OF i1] step_ok_trans[OF insertMsg_ok[OF i2] insertMsg_ok[OF i3]]] .
  then have "step_ok t (t3\<lparr>tr_isRunning := True\<rparr>) (o1 @ o2 @ o3)"
    by (rule step_ok_result_view) (simp_all add: link_view_def)
  then show ?thesis by (simp add: startJoin_p_def i1 i2 i3)
qed

lemma clear_ok: "link_inv (clearOutputQueue t)" "tr_mngrInputState (clearOutputQueue t) = APM_FLOW_NORMAL"
  "tr_capacity (clearOutputQueue t) = tr_capacity t"
  by (simp_all add: clearOutputQueue_def stopPingTimer_def stopRetryTimer_def link_inv_def link_weak_def)

lemma link_inv_weak: "link_inv t \<Longrightarrow> link_weak t"
  by (simp add: link_inv_def)

lemma boot_ok: "step_ok t (fst (tr_handleAPBoot e t)) (snd (tr_handleAPBoot e t))"
proof -
  let ?c = "clearOutputQueue t"
  have up: "step_ok t (fst (upper e o1 ?c)) (snd (upper e o1 ?c))" if "o1 = ApmNotif handleAPBoot \<or> o1 = ApmNotif handleAPReboot" for o1
    using that clear_ok[of t] by (intro upper_ok[where s = "tr_mngrInputState t"]) (auto simp: link_inv_weak)
  show ?thesis
  proof (cases "tr_isRunning ?c")
    case True
    have "step_ok t ((fst (upper e (ApmNotif handleAPReboot) ?c))\<lparr>tr_isRunning := False\<rparr>) (snd (upper e (ApmNotif handleAPReboot) ?c))"
      by (rule step_ok_result_view[OF up]) (simp_all add: link_view_def)
    then show ?thesis using True by (simp add: tr_handleAPBoot_def Let_def case_prod_beta)
  next
    case False
    let ?u = "upper e (ApmNotif handleAPBoot) ?c"
    let ?s = "fst (setAPConnectionState_p True (fst ?u))"
    have s: "step_ok t ?s (snd ?u)"
      by (rule step_ok_result_view[OF up]) (simp_all add: link_view_def setAPConnectionState_p_def Let_def)
    then show ?thesis
      using False step_ok_trans[OF s startJoin_ok[of ?s e]] by (simp add: tr_handleAPBoot_def Let_def case_prod_beta)
  qed
qed

definition no_flow :: "IAPMNotifHandler \<Rightarrow> bool" where
  "no_flow n \<longleftrightarrow> n \<noteq> handleAPPause \<and> n \<noteq> handleAPResume"

lemma notify_ok: "no_flow n \<Longrightarrow> step_ok t (fst (tr_notify e n t)) (snd (tr_notify e n t))"
  by (cases n) (simp_all add: no_flow_def tr_notify_def sendAPLost_ok boot_ok step_ok_refl upper_ok[OF _ _ _ refl refl])

lemma handleCmd_no_flow: "handleCmd s cmdId pl = Some (s', r, ns) \<Longrightarrow> list_all no_flow ns"
  unfolding handleCmd_def handleGetParam_def Let_def no_flow_def by (auto split: if_splits)

lemma notifies_ok: "list_all no_flow ns \<Longrightarrow>
   step_ok t (fst (run (\<lambda>t n. tr_notify e n t) t ns)) (snd (run (\<lambda>t n. tr_notify e n t) t ns))"
  by (rule run_rel[where R = step_ok]) (auto simp: list_all_iff intro: notify_ok step_ok_refl step_ok_trans)

lemma tr_handleCmd_ok:
  assumes "tr_handleCmd e cmdId data t = Some (t', res, out)"
  shows "step_ok t t' out" and "res = APC_OK"
proof -
  obtain s ns where cmd: "handleCmd (tr_cmdHandler t) cmdId data = Some (s, res, ns)"
      and r: "run (\<lambda>t n. tr_notify e n t) (t\<lparr>tr_cmdHandler := s\<rparr>) ns = (t', out)"
    using assms by (auto simp: tr_handleCmd_def split: option.splits prod.splits)
  have "step_ok t (t\<lparr>tr_cmdHandler := s\<rparr>) []" by (rule step_ok_view) (simp_all add: link_view_def)
  then show "step_ok t t' out"
    using notifies_ok[OF handleCmd_no_flow[OF cmd], of "t\<lparr>tr_cmdHandler := s\<rparr>" e] step_ok_trans r by fastforce
  show "res = APC_OK" using handleCmd_once[OF cmd] by simp
qed

section \<open>Messages and timers\<close>

lemma stats_ok: "step_ok t (t\<lparr>tr_stats := s\<rparr>) []" "step_ok t (t\<lparr>tr_notifPacketId := k\<rparr>) []"
  by (rule step_ok_view; simp add: link_view_def)+

lemma sendAck_ok: "step_ok t (fst (sendAck c k rc t)) (snd (sendAck c k rc t))"
  by (rule step_ok_view) (simp_all add: sendAck_def link_view_def)

text \<open>A notification in full: what the handler does, then the acknowledgement.\<close>

lemma handleNotification_cases [consumes 1, case_names repeated paused handled]:
  assumes "handleNotification e hdr data t = Some (t', res, out)"
  obtains s where "hd_flags hdr AND 2 = tr_notifPacketId t" "\<not> hd_flags hdr AND 8 > 0" "res = APC_OK"
      "(t', out) = sendAck (hd_cmdId hdr) (hd_flags hdr AND 2) 0 (t\<lparr>tr_stats := s\<rparr>)"
  | s where "hd_flags hdr AND 2 \<noteq> tr_notifPacketId t \<or> hd_flags hdr AND 8 > 0"
      "tr_apInputState t = APM_FLOW_PAUSE" "hd_cmdId hdr = DN_API_LOC_NOTIF_AP_RECEIVE" "res = APC_ERR_STATE"
      "(t', out) = sendAck (hd_cmdId hdr) (hd_flags hdr AND 2) DN_API_RC_NO_RESOURCES (t\<lparr>tr_stats := s\<rparr>)"
  | s t1 out1 out2 where "hd_flags hdr AND 2 \<noteq> tr_notifPacketId t \<or> hd_flags hdr AND 8 > 0"
      "\<not> (tr_apInputState t = APM_FLOW_PAUSE \<and> hd_cmdId hdr = DN_API_LOC_NOTIF_AP_RECEIVE)" "res = APC_OK"
      "tr_handleCmd e (hd_cmdId hdr) data (t\<lparr>tr_stats := s\<rparr>) = Some (t1, APC_OK, out1)"
      "(t', out2) = sendAck (hd_cmdId hdr) (hd_flags hdr AND 2) 0 (t1\<lparr>tr_notifPacketId := hd_flags hdr AND 2\<rparr>)"
      "out = out1 @ out2"
proof -
  consider "hd_flags hdr AND 2 = tr_notifPacketId t \<and> \<not> hd_flags hdr AND 8 > 0"
    | "(hd_flags hdr AND 2 \<noteq> tr_notifPacketId t \<or> hd_flags hdr AND 8 > 0)
         \<and> tr_apInputState t = APM_FLOW_PAUSE \<and> hd_cmdId hdr = DN_API_LOC_NOTIF_AP_RECEIVE"
    | "(hd_flags hdr AND 2 \<noteq> tr_notifPacketId t \<or> hd_flags hdr AND 8 > 0)
         \<and> \<not> (tr_apInputState t = APM_FLOW_PAUSE \<and> hd_cmdId hdr = DN_API_LOC_NOTIF_AP_RECEIVE)"
    by blast
  then show thesis
  proof cases
    case 1
    then show thesis
      using assms by (intro that(1)) (auto simp: handleNotification_def Let_def error_rc_def case_prod_beta)
  next
    case 2
    then show thesis
      using assms by (intro that(2)) (auto simp: handleNotification_def Let_def case_prod_beta)
  next
    case 3
    let ?t = "t\<lparr>tr_stats := (tr_stats t)\<lparr>st_numBytesRecv := st_numBytesRecv (tr_stats t) + word_of_nat (length data),
                   st_numPktsRecv := st_numPktsRecv (tr_stats t) + 1\<rparr>\<rparr>"
    obtain t1 r1 o1 o2 where cmd: "tr_handleCmd e (hd_cmdId hdr) data ?t = Some (t1, r1, o1)"
      and ack: "(let t = (if r1 = APC_OK then t1\<lparr>tr_notifPacketId := hd_flags hdr AND 2\<rparr> else t1);
                   (t, out) = sendAck (hd_cmdId hdr) (hd_flags hdr AND 2) (error_rc r1) t in Some (t, r1, out)) = Some (t', res, o2)"
      and out: "out = o1 @ o2"
      using assms 3 unfolding handleNotification_def Let_def by (auto simp: and_then_eq_Some)
    have r1: "r1 = APC_OK" using tr_handleCmd_ok[OF cmd] by simp
    show thesis
      using that(3)[of _ t1 o1 o2] 3 cmd ack out r1 by (auto simp: Let_def case_prod_beta error_rc_def)
  qed
qed

lemma handleNotification_ok:
  assumes "handleNotification e hdr data t = Some (t', res, out)"
  shows "step_ok t t' out"
  using assms
proof (cases rule: handleNotification_cases)
  case (repeated s)
  then show ?thesis
    using step_ok_trans[OF stats_ok(1)[of t s] sendAck_ok] by (metis append_Nil fst_conv snd_conv)
next
  case (paused s)
  then show ?thesis
    using step_ok_trans[OF stats_ok(1)[of t s] sendAck_ok] by (metis append_Nil fst_conv snd_conv)
next
  case (handled s t1 out1 out2)
  have "step_ok t t1 out1"
    using step_ok_trans[OF stats_ok(1)[of t s] tr_handleCmd_ok(1)[OF handled(4)]] by simp
  moreover have "step_ok t1 t' out2"
    using step_ok_trans[OF stats_ok(2)[of t1 "hd_flags hdr AND 2"] sendAck_ok] handled(5)
    by (metis append_Nil fst_conv snd_conv)
  ultimately show ?thesis unfolding handled(6) by (rule step_ok_trans)
qed

lemma take_response_weak:
  assumes "link_weak t" and "tr_outputQueue t = front # rest"
  shows "link_weak (fst (take_response e rc front (note_response e n t)))"
  using assms by (simp add: take_response_def note_response_def Let_def link_weak_def stopRetryTimer_def startNackRetryTimer_def)

lemma take_response_flow [simp]:
  "tr_mngrInputState (fst (take_response e rc front (note_response e n t))) = tr_mngrInputState t"
  "tr_notifPacketId (fst (take_response e rc front (note_response e n t))) = tr_notifPacketId t"
  "tr_capacity (fst (take_response e rc front (note_response e n t))) = tr_capacity t"
  by (simp_all add: take_response_def note_response_def Let_def stopRetryTimer_def startNackRetryTimer_def)

definition resume_if_low :: "tr_env \<Rightarrow> bool \<Rightarrow> CAPMTransport \<Rightarrow> tr_step" where
  "resume_if_low e low t =
     (if tr_mngrInputState t = APM_FLOW_PAUSE \<and> low then switch_flow e handleAPResume APM_FLOW_NORMAL t else (t, []))"

lemma resume_if_low_ok: "step_ok t (fst (resume_if_low e low t)) (snd (resume_if_low e low t))"
  by (simp add: resume_if_low_def step_ok_refl switch_flow_ok)

lemma deliver_ok:
  assumes "deliver_response e cmdId rc data front t = Some (t', res, out)"
  shows "step_ok t t' out" and "res = APC_OK"
proof -
  have *: "step_ok t t' out" if "upper e o1 t = (t', out)" "\<And>s. flow_step s o1 = Some s" for o1
    using upper_ok[of "tr_mngrInputState t" o1 t t e] that by simp
  have **: "step_ok t t' out" if "run (\<lambda>t n. tr_notify e n t) t (handleError_p cmdId rc) = (t', out)"
    using notifies_ok[of "handleError_p cmdId rc" t e] that by (simp add: handleError_p_def no_flow_def)
  have reset: "step_ok t t [SerResetAP]" for t by (rule step_ok_view) simp_all
  show "step_ok t t' out"
    using assms unfolding deliver_response_def
    by (auto split: if_splits option.splits err_callback.splits prod.splits
        intro: * ** reset step_ok_refl tr_handleCmd_ok)
  show "res = APC_OK"
    using assms unfolding deliver_response_def
    by (auto split: if_splits option.splits err_callback.splits prod.splits dest: tr_handleCmd_ok)
qed

lemma handleResponse_eq:
  assumes "tr_outputQueue t = front # rest" and "data \<noteq> []"
  shows "handleResponse e hdr data t =
    (case take_response e (data ! 0) front (note_response e (length data) t) of (t1, low) \<Rightarrow>
     case resume_if_low e low t1 of (t2, o1) \<Rightarrow>
       and_then (Some (t2, (), o1))
         (\<lambda>t _. and_then (deliver_response e (hd_cmdId hdr) (data ! 0) data front t)
             (\<lambda>t res. case send e True t of (t, out) \<Rightarrow> Some (t, res, out))))"
proof -
  have q: "tr_outputQueue (note_response e (length data) t) = front # rest"
    using assms(1) by (simp add: note_response_def stopRetryTimer_def Let_def)
  show ?thesis
    using assms(2) unfolding handleResponse_def Let_def q resume_if_low_def switch_flow_def by (simp add: case_prod_beta)
qed

lemma handleResponse_cases [consumes 1, case_names stray taken]:
  assumes "handleResponse e hdr data t = Some (t', res, out)"
  obtains "tr_outputQueue t = []" "res = APC_ERR_STATE" "out = []"
  | front rest low t1 t2 t3 o1 o2 o3 where "tr_outputQueue t = front # rest" "data \<noteq> []"
      "take_response e (data ! 0) front (note_response e (length data) t) = (t1, low)"
      "resume_if_low e low t1 = (t2, o1)"
      "deliver_response e (hd_cmdId hdr) (data ! 0) data front t2 = Some (t3, res, o2)"
      "send e True t3 = (t', o3)" "out = o1 @ o2 @ o3"
proof (cases "tr_outputQueue t")
  case Nil
  then show thesis
    using assms that(1) by (auto simp: handleResponse_def note_response_def stopRetryTimer_def Let_def split: if_splits)
next
  case (Cons front rest)
  let ?n = "note_response e (length data) t"
  have d: "data \<noteq> []" using assms by (auto simp: handleResponse_def)
  obtain t1 low where t1: "take_response e (data ! 0) front ?n = (t1, low)" by fastforce
  obtain t2 o1 where t2: "resume_if_low e low t1 = (t2, o1)" by fastforce
  have "and_then (Some (t2, (), o1))
       (\<lambda>t _. and_then (deliver_response e (hd_cmdId hdr) (data ! 0) data front t)
           (\<lambda>t res. case send e True t of (t, out) \<Rightarrow> Some (t, res, out))) = Some (t', res, out)"
    using assms unfolding handleResponse_eq[OF Cons d] by (simp add: t1 t2)
  then show thesis
    using that(2)[OF Cons d t1 t2] unfolding and_then_eq_Some by (auto simp: case_prod_beta prod_eq_iff)
qed

lemma handleResponse_ok:
  assumes "handleResponse e hdr data t = Some (t', res, out)" and "link_inv t" and "te_ready e" and "tr_outputQueue t \<noteq> []"
  shows "link_inv t' \<and> tr_capacity t' = tr_capacity t \<and> flow_run (tr_mngrInputState t) out = Some (tr_mngrInputState t')"
  using assms(1)
proof (cases rule: handleResponse_cases)
  case (taken front rest low t1 t2 t3 o1 o2 o3)
  have w1: "link_weak t1" "tr_mngrInputState t1 = tr_mngrInputState t" "tr_capacity t1 = tr_capacity t"
    using take_response_weak[OF link_inv_weak[OF assms(2)] taken(1), of e "data ! 0" "length data"]
      take_response_flow(1,3)[of e "data ! 0" front "length data" t] taken(3) by simp_all
  have "step_ok t1 t3 (o1 @ o2)"
    using resume_if_low_ok[of t1 e low] taken(4) deliver_ok(1)[OF taken(5)] by (auto intro: step_ok_trans)
  then have w3: "link_weak t3" "tr_capacity t3 = tr_capacity t" "flow_run (tr_mngrInputState t) (o1 @ o2) = Some (tr_mngrInputState t3)"
    using w1 by (simp_all add: step_ok_def)
  then show ?thesis
    using send_new_inv[OF w3(1) assms(3)] send_fields(2,3)[of e True t3] send_fields(7)[of _ e True t3] taken(6,7)
    by (simp add: flow_run_append[of _ "o1 @ o2" o3, simplified])
qed (use assms(4) in simp_all)

section \<open>Every history\<close>

datatype link_event =
    EvInsert tr_request
  | EvData "byte list"
  | EvRetry
  | EvQueueCheck
  | EvPing
  | EvPPS
  | EvEnableJoin u32
  | EvDisconnect bool
  | EvSimple simple_call
  | EvAbort bool
  | EvClearStatistics

text \<open>One event at the transport; a timer expires only while a wait is pending.\<close>

fun link_next :: "tr_env \<Rightarrow> link_event \<Rightarrow> CAPMTransport \<Rightarrow> tr_step option" where
  "link_next e (EvInsert rq) t = (case insertMsg e rq t of (t, _, out) \<Rightarrow> Some (t, out))"
| "link_next e (EvData d) t = map_option (\<lambda>(t, _, out). (t, out)) (tr_dataReceived e d t)"
| "link_next e EvRetry t = (if tr_outputTimer t = None then None else Some (handleRetryTimeout e t))"
| "link_next e EvQueueCheck t = (if tr_queueCheckTimer t = None then None else Some (handleQueueCheckTimeout e t))"
| "link_next e EvPing t = (if tr_pingTimer t = None then None else Some (handlePingTimeout e t))"
| "link_next e EvPPS t = (if tr_ppsTimer t = None then None else Some (handlePPSTimeout t, []))"
| "link_next e (EvEnableJoin n) t = Some (enableJoin e n t)"
| "link_next e (EvDisconnect b) t = Some (disconnectAP e b t)"
| "link_next e (EvSimple c) t = Some (simple_step t c)"
| "link_next e (EvAbort b) t = Some (if b then enableAbort t else disableAbort t, [])"
| "link_next e EvClearStatistics t = Some (clearAPMStatistics t, [])"

inductive link_reach :: "tr_init_param_t \<Rightarrow> CAPMTransport \<Rightarrow> apm_out list \<Rightarrow> bool" for p where
  opened: "link_reach p (tr_open p (new_CAPMTransport b)) []"
| step: "link_reach p t out \<Longrightarrow> te_ready e \<Longrightarrow> link_next e ev t = Some (t', out') \<Longrightarrow> link_reach p t' (out @ out')"

lemma view_ok: "link_view t' = link_view t \<Longrightarrow> tr_mngrInputState t' = tr_mngrInputState t \<Longrightarrow> step_ok t t' []"
  by (rule step_ok_view) simp_all

lemma retry_ok:
  assumes "link_inv t"
  shows "link_inv (fst (handleRetryTimeout e t)) \<and> tr_capacity (fst (handleRetryTimeout e t)) = tr_capacity t
    \<and> flow_run (tr_mngrInputState t) (snd (handleRetryTimeout e t)) = Some (tr_mngrInputState (fst (handleRetryTimeout e t)))"
proof -
  let ?t = "t\<lparr>tr_outputTimer := None\<rparr>"
  show ?thesis
  proof (cases "tr_curRetryCount t < ucast (ti_maxRetries (tr_params t))")
    case True
    have "tr_pending (fst (sendRetry e ?t)) = tr_pending t"
      by (auto simp: sendRetry_def send_def split: list.split)
    moreover have "flow_run s (if b then [SerReopen] else []) = Some s" for s b by simp
    ultimately show ?thesis
      using assms True
      by (simp add: handleRetryTimeout_def Let_def case_prod_beta startRetryTimer_def sendRetry_def link_inv_def
          link_weak_def flow_run_append)
  next
    case False
    then have "link_inv (stopPingTimer ?t)"
      using assms by (auto simp: stopPingTimer_def link_inv_def link_weak_def gave_up_def)
    moreover have "step_ok (stopPingTimer ?t) (fst (sendAPLostNotif_p e (stopPingTimer ?t))) (snd (sendAPLostNotif_p e (stopPingTimer ?t)))"
      by (rule sendAPLost_ok)
    moreover have "step_ok t1 (fst (hwResetAP t1)) (snd (hwResetAP t1) @ (if b then [StopNode] else []))" for t1 b
      by (rule step_ok_view) (simp_all add: hwResetAP_def link_view_def)
    ultimately show ?thesis
      using False by (auto simp: handleRetryTimeout_def Let_def case_prod_beta step_ok_def flow_run_append stopPingTimer_def)
  qed
qed

lemma queue_check_ok: "step_ok t (fst (handleQueueCheckTimeout e t)) (snd (handleQueueCheckTimeout e t))"
proof -
  let ?t = "t\<lparr>tr_queueCheckTimer := None\<rparr>"
  have off: "step_ok t ?t []" by (rule view_ok) (simp_all add: link_view_def)
  have resume: "step_ok ?t (fst (sendMgrResume e ?t)) (snd (sendMgrResume e ?t))"
    using resume_if_low_ok[of ?t e True] by (simp add: sendMgrResume_def resume_if_low_def switch_flow_def Let_def split: if_splits)
  have pause: "step_ok t (startQueueCheckTimer (fst (switch_flow e handleAPPause APM_FLOW_PAUSE ?t)))
      (snd (switch_flow e handleAPPause APM_FLOW_PAUSE ?t))" if "tr_mngrInputState t = APM_FLOW_NORMAL"
    using step_ok_trans[OF off switch_flow_ok[of ?t handleAPPause APM_FLOW_PAUSE e]] that
    by (auto intro: step_ok_result_view)
  have keep: "step_ok t (startQueueCheckTimer ?t) []" using off by (rule step_ok_result_view) simp_all
  show ?thesis
    using pause keep step_ok_trans[OF off resume]
    by (auto simp: handleQueueCheckTimeout_def Let_def case_prod_beta switch_flow_def split: list.splits)
qed

lemma ping_ok: "step_ok t (fst (handlePingTimeout e t)) (snd (handlePingTimeout e t))"
proof -
  let ?t = "t\<lparr>tr_pingTimer := None\<rparr>"
  have off: "step_ok t ?t []" by (rule view_ok) (simp_all add: link_view_def)
  obtain t' r out where i: "sendPing e ?t = (t', r, out)" by (rule prod_cases3)
  have "step_ok t t' out" using step_ok_trans[OF off insertMsg_ok] i by (simp add: sendPing_def)
  then show ?thesis
    using off i by (auto simp: handlePingTimeout_def Let_def intro: step_ok_result_view)
qed

lemma pps_view: "link_view (handlePPSTimeout t) = link_view t" "tr_mngrInputState (handlePPSTimeout t) = tr_mngrInputState t"
  by (simp_all add: handlePPSTimeout_def Let_def case_prod_beta link_view_def startPPSTimer_def)

lemma enableJoin_ok: "step_ok t (fst (enableJoin e n t)) (snd (enableJoin e n t))"
proof -
  let ?t = "t\<lparr>tr_netId := n, tr_isMngrConnected := True\<rparr>"
  have "step_ok t ?t []" by (rule view_ok) (simp_all add: link_view_def)
  then show ?thesis
    using step_ok_trans[OF _ startJoin_ok[of ?t e], of t "[]"] by (simp add: enableJoin_def setJoinProcessState_p_def Let_def)
qed

lemma link_next_inv:
  assumes "link_next e ev t = Some (t', out)" and "te_ready e" and "link_inv t"
  shows "link_inv t' \<and> tr_capacity t' = tr_capacity t \<and> flow_run (tr_mngrInputState t) out = Some (tr_mngrInputState t')"
proof -
  have ok: ?thesis if "step_ok t t' out" using that assms(3) by (simp add: step_ok_def)
  show ?thesis
  proof (cases ev)
    case (EvInsert rq)
    then show ?thesis using assms(1) insertMsg_ok ok by (auto split: prod.splits)
  next
    case (EvData d)
    then obtain res where d: "tr_dataReceived e d t = Some (t', res, out)" using assms(1) by auto
    let ?t = "startPingTimer t"
    have p: "link_inv ?t" "tr_mngrInputState ?t = tr_mngrInputState t" "tr_capacity ?t = tr_capacity t"
      using link_view_eqD(2,3)[of ?t t] assms(3) by simp_all
    show ?thesis
      using d p assms(2) handleNotification_ok[of e _ _ ?t t' res out] handleResponse_ok[of e _ _ ?t t' res out]
      unfolding tr_dataReceived_def handleMsg_def Let_def
      by (auto simp: step_ok_def split: if_splits list.splits)
  next
    case EvRetry
    then show ?thesis using assms retry_ok[of t e] by (auto split: if_splits)
  next
    case EvQueueCheck
    then show ?thesis using assms(1) queue_check_ok[of t e] ok by (auto split: if_splits)
  next
    case EvPing
    then show ?thesis using assms(1) ping_ok[of t e] ok by (auto split: if_splits)
  next
    case EvPPS
    then show ?thesis using assms(1) pps_view[of t] view_ok ok by (auto split: if_splits)
  next
    case (EvEnableJoin n)
    then show ?thesis using assms(1) enableJoin_ok[of t e n] ok by auto
  next
    case (EvDisconnect b)
    then show ?thesis using assms(1) insertMsg_ok ok by (auto simp: disconnectAP_def split: prod.splits)
  next
    case (EvSimple c)
    then show ?thesis using assms(1) simple_step_flow[of t c] ok by auto
  next
    case (EvAbort b)
    then show ?thesis using assms(1) ok view_ok[of t' t]
      by (auto simp: enableAbort_def disableAbort_def link_view_def split: if_splits)
  next
    case EvClearStatistics
    then show ?thesis using assms(1) ok view_ok[of t' t] by (auto simp: clearAPMStatistics_def link_view_def)
  qed
qed

lemma link_reach_inv:
  "link_reach p t out \<Longrightarrow> link_inv t \<and> tr_capacity t = unat (ti_maxQueueSize p)
     \<and> flow_run APM_FLOW_NORMAL out = Some (tr_mngrInputState t)"
proof (induction rule: link_reach.induct)
  case (opened b)
  show ?case by (simp add: tr_open_def startPPSTimer_def new_CAPMTransport_def link_inv_def link_weak_def)
next
  case (step t out e ev t' out')
  then show ?case using link_next_inv[OF step.hyps(3,2)] by (simp add: flow_run_append)
qed

text \<open>
  Claim C12.  While the serial port stays ready the link to the access point never stalls: between any two events, whatever
  they are, the queue holds at most the configured number of commands; a command waits in the queue exactly
  if one has been sent and awaits its response; and then the retry timer runs, unless all retries are used up, when the access
  point has been given up.\<close>

theorem link_never_stalls:
  assumes "link_reach p t out"
  shows "length (tr_outputQueue t) \<le> unat (ti_maxQueueSize p) \<and> (tr_outputQueue t \<noteq> [] \<longleftrightarrow> tr_pending t)
    \<and> (tr_pending t \<longrightarrow> tr_outputTimer t \<noteq> None \<or> ucast (ti_maxRetries (tr_params t)) \<le> tr_curRetryCount t)"
  using link_reach_inv[OF assms] by (auto simp: link_inv_def link_weak_def gave_up_def)

text \<open>
  The manager is told to pause only while it runs and to resume only while it is paused, over every history of
  the link, and the transport's own note of the manager's state agrees with what the calls add up
  to.  A boot of the access point, which drops the queue, starts over from the running state.\<close>

lemma flow_calls_alternate:
  assumes "link_reach p t out"
  shows "flow_run APM_FLOW_NORMAL out = Some (tr_mngrInputState t)"
  using link_reach_inv[OF assms] by simp

text \<open>A history: one command queued, sent and answered.\<close>

definition demo_tr_env :: tr_env where
  "demo_tr_env = \<lparr>te_now = 5, te_ready = True, te_simple = (\<lambda>_. []), te_react = (\<lambda>_. [])\<rparr>"

definition demo_tr :: CAPMTransport where
  "demo_tr = tr_open default_tr_init_param (new_CAPMTransport False)"

definition demo_tr_sent :: CAPMTransport where
  "demo_tr_sent = fst (insertMsg demo_tr_env (plain_request DN_API_LOC_CMD_JOIN [7]) demo_tr)"

lemma demo_tr_reach:
  "link_reach default_tr_init_param demo_tr_sent [SerWrite [DN_API_LOC_CMD_JOIN, 1, 0, 7]]"
proof -
  have "link_next demo_tr_env (EvInsert (plain_request DN_API_LOC_CMD_JOIN [7])) demo_tr =
      Some (demo_tr_sent, [SerWrite [DN_API_LOC_CMD_JOIN, 1, 0, 7]])"
    by code_simp
  moreover have "te_ready demo_tr_env" by (simp add: demo_tr_env_def)
  ultimately show ?thesis
    using link_reach.step[OF link_reach.opened] unfolding demo_tr_def by fastforce
qed

theorem link_never_stalls_witness:
  "length (tr_outputQueue demo_tr_sent) \<le> 16 \<and> tr_outputQueue demo_tr_sent \<noteq> [] \<and> tr_pending demo_tr_sent
     \<and> tr_outputTimer demo_tr_sent = Some 1200"
proof -
  have "tr_outputTimer demo_tr_sent = Some 1200" "tr_pending demo_tr_sent" by code_simp+
  then show ?thesis
    using link_never_stalls[OF demo_tr_reach] by (simp add: default_tr_init_param_def)
qed

text \<open>The same with a high watermark of one: the manager is paused at once.\<close>

definition demo_low_params :: tr_init_param_t where
  "demo_low_params = new_tr_init_param 4 1 1 1500 100 1200 3 256 1500"

definition demo_tr_paused :: CAPMTransport where
  "demo_tr_paused = fst (insertMsg demo_tr_env (plain_request DN_API_LOC_CMD_JOIN [7])
     (tr_open demo_low_params (new_CAPMTransport False)))"

lemma demo_tr_paused_reach:
  "link_reach demo_low_params demo_tr_paused [SerWrite [DN_API_LOC_CMD_JOIN, 1, 0, 7], ApmNotif handleAPPause]"
proof -
  have "link_next demo_tr_env (EvInsert (plain_request DN_API_LOC_CMD_JOIN [7])) (tr_open demo_low_params (new_CAPMTransport False)) =
      Some (demo_tr_paused, [SerWrite [DN_API_LOC_CMD_JOIN, 1, 0, 7], ApmNotif handleAPPause])"
    by code_simp
  moreover have "te_ready demo_tr_env" by (simp add: demo_tr_env_def)
  ultimately show ?thesis
    using link_reach.step[OF link_reach.opened] by fastforce
qed

lemma flow_calls_alternate_example:
  "tr_mngrInputState demo_tr_paused = APM_FLOW_PAUSE"
  using flow_calls_alternate[OF demo_tr_paused_reach] by simp

section \<open>Retries\<close>

text \<open>The frame of a command as it is written.\<close>

definition cmd_frame :: "APMCommand \<Rightarrow> byte \<Rightarrow> byte list" where
  "cmd_frame c k = hdr_serialize (new_apt_hdr_s (ac_cmdId c) (word_of_nat (length (ac_payload c)))
     (if ac_isSynch c then k OR 8 else k)) @ ac_payload c"

lemma send_retry_eq:
  assumes "te_ready e" and "tr_pending t" and "tr_outputQueue t = c # rest"
  shows "snd (send e False t) = [SerWrite (cmd_frame c (tr_respPacketId t))]"
  using assms by (simp add: send_def sendCommand_def Let_def cmd_frame_def)

lemma send_new_eq:
  assumes "te_ready e" and "\<not> tr_pending t" and "tr_outputQueue t = c # rest"
  shows "snd (send e True t) = [SerWrite (cmd_frame c (tr_respPacketId t))]"
  using assms by (simp add: send_def sendCommand_def Let_def cmd_frame_def)

lemma send_retry_keeps [simp]:
  "tr_pending (fst (send e False t)) = tr_pending t" "tr_curRetryCount (fst (send e False t)) = tr_curRetryCount t"
  "tr_reconnectSerial (fst (send e False t)) = tr_reconnectSerial t" "tr_abortEnabled (fst (send e False t)) = tr_abortEnabled t"
  by (auto simp: send_def sendCommand_def Let_def startPingTimer_def startRetryTimer_def split: list.split)

text \<open>A command that is never answered: the retry timer expires again and again.\<close>

lemma retries:
  assumes "\<forall>e \<in> set es. te_ready e" and "tr_pending t" and "tr_outputQueue t = c # rest"
    and "tr_curRetryCount t = word_of_nat k" and "k + length es \<le> unat (ti_maxRetries (tr_params t))"
  shows "snd (run (\<lambda>t e. handleRetryTimeout e t) t es) =
      concat (map (\<lambda>i. (if tr_reconnectSerial t \<and> i > 0 then [SerReopen] else []) @ [SerWrite (cmd_frame c (tr_respPacketId t))])
        [k..<k + length es])
    \<and> (let t' = fst (run (\<lambda>t e. handleRetryTimeout e t) t es) in
       tr_curRetryCount t' = word_of_nat (k + length es) \<and> tr_params t' = tr_params t
       \<and> tr_reconnectSerial t' = tr_reconnectSerial t \<and> tr_abortEnabled t' = tr_abortEnabled t)"
  using assms
proof (induction es arbitrary: t k)
  case (Cons e es)
  let ?t = "fst (handleRetryTimeout e t)"
  have "unat (ti_maxRetries (tr_params t)) < 2 ^ LENGTH(16)" by (rule unsigned_less)
  then have small: "k < 2 ^ 16" using Cons.prems(5) by simp
  then have lt: "tr_curRetryCount t < ucast (ti_maxRetries (tr_params t))"
    using Cons.prems(4,5) by (simp add: word_less_nat_alt unat_of_nat unat_ucast_up)
  have pos: "tr_curRetryCount t > 0 \<longleftrightarrow> k > 0"
    using small Cons.prems(4) by (simp add: word_less_nat_alt unat_of_nat)
  have t': "tr_pending ?t" "tr_outputQueue ?t = c # rest" "tr_curRetryCount ?t = word_of_nat (Suc k)"
      "tr_params ?t = tr_params t" "tr_reconnectSerial ?t = tr_reconnectSerial t" "tr_abortEnabled ?t = tr_abortEnabled t"
      "tr_respPacketId ?t = tr_respPacketId t"
    using lt Cons.prems by (simp_all add: handleRetryTimeout_def Let_def case_prod_beta sendRetry_def startRetryTimer_def)
  have "snd (handleRetryTimeout e t) =
      (if tr_reconnectSerial t \<and> k > 0 then [SerReopen] else []) @ [SerWrite (cmd_frame c (tr_respPacketId t))]"
    using lt pos Cons.prems by (simp add: handleRetryTimeout_def Let_def case_prod_beta sendRetry_def send_retry_eq)
  then show ?case
    using Cons.IH[of ?t "Suc k"] Cons.prems t'
    by (simp add: run_simps Let_def upt_conv_Cons del: upt_Suc)
qed (simp add: run_simps)



section \<open>Notifications arrive once\<close>

text \<open>A notification frame, and the same frame received several times.\<close>

definition notif_frame :: "byte \<Rightarrow> byte \<Rightarrow> byte list \<Rightarrow> byte list" where
  "notif_frame cmdId pktId data = [cmdId, word_of_nat (length data), pktId] @ data"

fun receive_all :: "byte list \<Rightarrow> tr_env list \<Rightarrow> CAPMTransport \<Rightarrow> tr_step option" where
  "receive_all d [] t = Some (t, [])"
| "receive_all d (e # es) t = (case tr_dataReceived e d t of None \<Rightarrow> None
     | Some (t, _, out) \<Rightarrow> map_option (\<lambda>(t, outs). (t, out @ outs)) (receive_all d es t))"

lemma received_notif:
  assumes "pktId = 0 \<or> pktId = 2"
  shows "tr_dataReceived e (notif_frame cmdId pktId data) t =
    handleNotification e \<lparr>hd_cmdId = cmdId, hd_length = word_of_nat (length data), hd_flags = pktId\<rparr> data (startPingTimer t)"
  using assms by (auto simp: tr_dataReceived_def notif_frame_def sizeof_apt_hdr_s_def handleMsg_def Let_def)

lemma ack_frame:
  assumes "pktId = 0 \<or> pktId = 2"
  shows "snd (sendAck cmdId pktId rc t) = [SerWrite [cmdId, 0, pktId + 1, rc]]"
  using assms by (auto simp: sendAck_def hdr_serialize_def new_apt_hdr_s_def)

lemma repeated_notif:
  assumes "pktId = 0 \<or> pktId = 2" and "tr_notifPacketId t = pktId"
  shows "\<exists>t'. tr_dataReceived e (notif_frame cmdId pktId data) t = Some (t', APC_OK, [SerWrite [cmdId, 0, pktId + 1, 0]])
    \<and> tr_notifPacketId t' = pktId \<and> link_view t' = link_view t"
proof -
  have "pktId AND 2 = pktId" "\<not> pktId AND 8 > 0" using assms(1) by auto
  then show ?thesis
    using assms(2) ack_frame[OF assms(1), of cmdId 0] unfolding received_notif[OF assms(1)]
    by (simp add: handleNotification_def Let_def case_prod_beta error_rc_def startPingTimer_def)
       (simp add: sendAck_def link_view_def)
qed

lemma repeats_are_acked:
  assumes "pktId = 0 \<or> pktId = 2" and "tr_notifPacketId t = pktId"
  shows "\<exists>t'. receive_all (notif_frame cmdId pktId data) es t = Some (t', replicate (length es) (SerWrite [cmdId, 0, pktId + 1, 0]))
    \<and> link_view t' = link_view t"
  using assms(2)
proof (induction es arbitrary: t)
  case (Cons e es)
  obtain t1 where t1: "tr_dataReceived e (notif_frame cmdId pktId data) t = Some (t1, APC_OK, [SerWrite [cmdId, 0, pktId + 1, 0]])"
      "tr_notifPacketId t1 = pktId" "link_view t1 = link_view t"
    using repeated_notif[OF assms(1) Cons.prems, of e cmdId data] by blast
  then show ?case using Cons.IH[OF t1(2)] by auto
qed simp



section \<open>Priority\<close>

definition serial_writes :: "apm_out list \<Rightarrow> byte list list" where
  "serial_writes out = concat (map (\<lambda>x. case x of SerWrite d \<Rightarrow> [d] | _ \<Rightarrow> []) out)"

lemma serial_writes_simps [simp]:
  "serial_writes [] = []" "serial_writes (SerWrite d # out) = d # serial_writes out"
  "serial_writes (a @ b) = serial_writes a @ serial_writes b" "serial_writes (ApmNotif n # out) = serial_writes out"
  by (simp_all add: serial_writes_def)

lemma serial_writes_quiet: "\<forall>x \<in> set xs. x = SerResetAP \<Longrightarrow> serial_writes xs = []"
  by (induction xs) (simp_all add: serial_writes_def)

lemma tell_writes: "serial_writes (snd (tell e n t)) = []"
  using serial_writes_quiet[of "snd (run simple_step t (te_simple e n))"] simple_run_quiet[of _ t "te_simple e n"]
  by (auto simp: tell_def case_prod_beta)

lemma switch_flow_keeps [simp]:
  "serial_writes (snd (switch_flow e n s t)) = []" "tr_respPacketId (fst (switch_flow e n s t)) = tr_respPacketId t"
  using tell_writes[of e n t] tell_view(4)[of e n t] by (simp_all add: switch_flow_def case_prod_beta)

lemma view_queue: "link_view t' = link_view t \<Longrightarrow> tr_outputQueue t' = tr_outputQueue t \<and> tr_pending t' = tr_pending t"
  by (simp add: link_view_def)

lemma insert_while_pending:
  assumes "te_ready e" and "tr_pending t" and "length (tr_outputQueue t) \<noteq> tr_capacity t" and "rq_isHighPriority rq"
    and "insertMsg e rq t = (t1, res, out)"
  shows "res = APC_OK" and "serial_writes out = []" and "tr_outputQueue t1 = queued_command e rq # tr_outputQueue t"
    and "tr_pending t1" and "tr_respPacketId t1 = tr_respPacketId t"
proof -
  let ?p = "pause_if_high e (enqueue e rq t)"
  have s: "send e True (enqueue e rq t) = (enqueue e rq t, [])"
    using assms(1,2) by (simp add: send_def split: list.split)
  have p: "link_view (fst ?p) = link_view (enqueue e rq t)" "serial_writes (snd ?p) = []"
      "tr_respPacketId (fst ?p) = tr_respPacketId t"
    by (simp_all add: pause_if_high_def)
  have t1: "res = APC_OK \<and> out = snd ?p \<and> (t1 = startQueueCheckTimer (fst ?p) \<or> t1 = fst ?p)"
    using assms(5) unfolding insertMsg_ready[OF assms(1,3)] s by (auto simp: case_prod_beta)
  have q: "tr_outputQueue (fst ?p) = queued_command e rq # tr_outputQueue t \<and> tr_pending (fst ?p)"
    using view_queue[OF p(1)] assms(2,4) by (simp add: enqueue_def)
  show "res = APC_OK" "serial_writes out = []" "tr_outputQueue t1 = queued_command e rq # tr_outputQueue t"
    "tr_pending t1" "tr_respPacketId t1 = tr_respPacketId t"
    using t1 p q by (auto simp: startQueueCheckTimer_def)
qed

lemma resume_if_low_keeps:
  "tr_outputQueue (fst (resume_if_low e low t)) = tr_outputQueue t" "tr_pending (fst (resume_if_low e low t)) = tr_pending t"
  "tr_respPacketId (fst (resume_if_low e low t)) = tr_respPacketId t" "serial_writes (snd (resume_if_low e low t)) = []"
  using view_queue[OF switch_flow_view(1)[of e handleAPResume APM_FLOW_NORMAL t]] by (simp_all add: resume_if_low_def)

text \<open>
  Claim C33.  A command of high priority that arrives while another command with the same identifier awaits its response goes to the front of the
  queue without being sent; the response, meant for the command in flight, is taken for it: it is removed although it
  was never written to the serial port, and the command that was answered is sent a second time.\<close>

theorem priority_command_swallowed:
  assumes "te_ready e" and "te_ready e'" and "tr_pending t" and "tr_outputQueue t = front # rest"
    and "length (tr_outputQueue t) < tr_capacity t" and "tr_respPacketId t = 0 \<or> tr_respPacketId t = 2"
    and "rq_isHighPriority rq" and "rq_cmdId rq = ac_cmdId front"
    and "insertMsg e rq t = (t1, res, out)"
    and "response = [ac_cmdId front, 1, tr_respPacketId t OR 1, DN_API_RC_OK]"
  shows "res = APC_OK \<and> serial_writes out = []
    \<and> (\<exists>t2 out2. tr_dataReceived e' response t1 = Some (t2, APC_OK, out2) \<and> tr_outputQueue t2 = front # rest
         \<and> serial_writes out2 = [cmd_frame front (tr_respPacketId t XOR 2)])"
proof -
  note i = insert_while_pending[OF assms(1,3) _ assms(7,9)]
  let ?new = "queued_command e rq" and ?t = "startPingTimer t1"
  have q: "tr_outputQueue ?t = ?new # front # rest" "tr_respPacketId ?t = tr_respPacketId t" "tr_pending ?t"
    using i(3-5) assms(4,5) by (simp_all add: startPingTimer_def)
  have fl: "(tr_respPacketId t OR 1) AND 1 \<noteq> 0" "(tr_respPacketId t OR 1) AND 2 = tr_respPacketId t" using assms(6) by auto
  have new: "ac_cmdId ?new = ac_cmdId front" using assms(8) by (simp add: queued_command_def)
  let ?hdr = "\<lparr>hd_cmdId = ac_cmdId front, hd_length = 1, hd_flags = tr_respPacketId t OR 1\<rparr>"
  have recv: "tr_dataReceived e' response t1 = handleResponse e' ?hdr [DN_API_RC_OK] ?t"
    using q fl new unfolding assms(10) tr_dataReceived_def handleMsg_def Let_def by (simp add: sizeof_apt_hdr_s_def)
  obtain t2 low where tk: "take_response e' DN_API_RC_OK ?new (note_response e' 1 ?t) = (t2, low)" by fastforce
  obtain t3 o1 where rs: "resume_if_low e' low t2 = (t3, o1)" by fastforce
  have t2: "tr_outputQueue t2 = front # rest" "\<not> tr_pending t2" "tr_respPacketId t2 = tr_respPacketId t XOR 2"
    using tk q by (auto simp: take_response_def note_response_def stopRetryTimer_def Let_def DN_API_RC_OK_def DN_API_RC_NO_RESOURCES_def)
  have t3: "tr_outputQueue t3 = front # rest" "\<not> tr_pending t3" "tr_respPacketId t3 = tr_respPacketId t XOR 2" "serial_writes o1 = []"
    using t2 rs resume_if_low_keeps[of e' low t2] by simp_all
  have "handleResponse e' ?hdr [DN_API_RC_OK] ?t = Some (fst (send e' True t3), APC_OK, o1 @ snd (send e' True t3))"
    using tk rs by (simp add: handleResponse_eq[OF q(1)] deliver_response_def case_prod_beta)
  then show ?thesis
    using i(1,2) assms(4,5) recv t3 send_new_eq[OF assms(2) t3(2,1)] by simp
qed

theorem priority_command_swallowed_witness:
  "\<exists>t1 t2 out2. insertMsg demo_tr_env \<lparr>rq_cmdId = DN_API_LOC_CMD_JOIN, rq_data = [9], rq_isHighPriority = True, rq_resCallback = None,
       rq_errRespCallback = None, rq_isSynch = False\<rparr> demo_tr_sent = (t1, APC_OK, [])
     \<and> tr_dataReceived demo_tr_env [DN_API_LOC_CMD_JOIN, 1, 1, 0] t1 = Some (t2, APC_OK, out2)
     \<and> map ac_payload (tr_outputQueue t2) = [[7]] \<and> serial_writes out2 = [[DN_API_LOC_CMD_JOIN, 1, 2, 7]]"
proof -
  let ?rq = "\<lparr>rq_cmdId = DN_API_LOC_CMD_JOIN, rq_data = [9], rq_isHighPriority = True, rq_resCallback = None,
       rq_errRespCallback = None, rq_isSynch = False\<rparr>"
  let ?f = "hd (tr_outputQueue demo_tr_sent)"
  obtain t1 where ins: "insertMsg demo_tr_env ?rq demo_tr_sent = (t1, APC_OK, [])"
  proof -
    have "snd (insertMsg demo_tr_env ?rq demo_tr_sent) = (APC_OK, [])" by code_simp
    then show thesis using that by (metis prod.collapse)
  qed
  have q: "tr_outputQueue demo_tr_sent = [?f]" "tr_pending demo_tr_sent" "te_ready demo_tr_env"
      "tr_respPacketId demo_tr_sent = 0" "length (tr_outputQueue demo_tr_sent) < tr_capacity demo_tr_sent"
      "DN_API_LOC_CMD_JOIN = ac_cmdId ?f" "[DN_API_LOC_CMD_JOIN, 1, 1, 0] = [ac_cmdId ?f, 1, tr_respPacketId demo_tr_sent OR 1, DN_API_RC_OK]"
      "cmd_frame ?f (tr_respPacketId demo_tr_sent XOR 2) = [DN_API_LOC_CMD_JOIN, 1, 2, 7]" "map ac_payload (tr_outputQueue demo_tr_sent) = [[7]]"
    by code_simp+
  show ?thesis
    using priority_command_swallowed[OF q(3,3,2,1,5) _ _ _ ins q(7)] q(4,6,8,9) ins unfolding q(1)[symmetric] by auto
qed

end
