(* ===== verification/Bridge_Uplink.thy ===== *)
theory Bridge_Uplink
  imports Coupler_Props Serial_Port APC_Session APM_Link
begin

text \<open>
  The components put together for the direction from the access point to the manager: frames of the serial port go to the
  transport (\<^verbatim>\<open>CAPMTransport::dataReceived\<close>), its notifications to the coupler (\<^verbatim>\<open>IAPMNotifHandler\<close>), and the calls of the coupler to the
  manager client (\<^verbatim>\<open>IAPCClient\<close>), as \<^verbatim>\<open>CAPCoupler::open\<close> wires them.
\<close>

section \<open>The bridge\<close>

record bridge =
  br_tr :: CAPMTransport
  br_coup :: CAPCoupler
  br_client :: CAPCClient

text \<open>What a message meets: the environments of the three components, and the content of the uninitialised local \<^verbatim>\<open>seqNum\<close>.\<close>

record bridge_env =
  be_tr :: tr_env
  be_coup :: coup_env
  be_client :: client_env
  be_seq :: u32

text \<open>The transport's view of the coupler: the calls the coupler makes on the transport while it is notified.\<close>

definition coup_calls :: "coup_env \<Rightarrow> CAPCoupler \<Rightarrow> IAPMNotifHandler \<Rightarrow> tr_call list" where
  "coup_calls e c n = (case apm_notif e n c of None \<Rightarrow> [] | Some (_, _, out) \<Rightarrow> tr_calls out)"

definition coup_simple :: "coup_env \<Rightarrow> CAPCoupler \<Rightarrow> IAPMNotifHandler \<Rightarrow> simple_call list" where
  "coup_simple e c n = concat (map (\<lambda>x. case x of Simple s \<Rightarrow> [s] | CallInsert _ \<Rightarrow> []) (coup_calls e c n))"

definition coupled :: "coup_env \<Rightarrow> CAPCoupler \<Rightarrow> tr_env \<Rightarrow> tr_env" where
  "coupled e c te = te\<lparr>te_simple := coup_simple e c,
     te_react := (\<lambda>x. case x of ApmNotif n \<Rightarrow> coup_calls e c n | _ \<Rightarrow> te_react te x)\<rparr>"

text \<open>The coupler handles the notifications, the client the calls of the coupler; calls on other parts do not concern them.\<close>

fun coup_all :: "coup_env \<Rightarrow> apm_out list \<Rightarrow> CAPCoupler \<Rightarrow> unit coup_res" where
  "coup_all e [] c = doing [] c"
| "coup_all e (ApmNotif n # xs) c = and_then (apm_notif e n c) (\<lambda>c _. coup_all e xs c)"
| "coup_all e (_ # xs) c = coup_all e xs c"

definition client_call :: "client_env \<Rightarrow> u32 \<Rightarrow> coup_out \<Rightarrow> CAPCClient \<Rightarrow> apc_error_t client_res" where
  "client_call e g x cl = (case x of
      ClSendData d \<Rightarrow> client_sendData e g cl d (word_of_nat (length d))
    | ClSendTxDone p \<Rightarrow> sendTxDone e g cl p
    | ClSendTimeMap p \<Rightarrow> sendTimeMap e g cl p
    | ClSendApLost \<Rightarrow> sendApLost e g cl
    | ClSendPause \<Rightarrow> sendPause e g cl
    | ClSendResume \<Rightarrow> sendResume e g cl
    | ClSendGpsLock s \<Rightarrow> sendGpsLock cl s
    | _ \<Rightarrow> Some (cl, APC_OK, []))"

fun client_calls :: "client_env \<Rightarrow> u32 \<Rightarrow> coup_out list \<Rightarrow> CAPCClient \<Rightarrow> unit client_res" where
  "client_calls e g [] cl = Some (cl, (), [])"
| "client_calls e g (x # xs) cl = and_then (client_call e g x cl) (\<lambda>cl _. client_calls e g xs cl)"

text \<open>One frame of the serial port.\<close>

definition bridge_frame :: "bridge_env \<Rightarrow> byte list \<Rightarrow> bridge \<Rightarrow> (bridge \<times> apm_out list \<times> client_out list) option" where
  "bridge_frame e frame b =
     (case tr_dataReceived (coupled (be_coup e) (br_coup b) (be_tr e)) frame (br_tr b) of None \<Rightarrow> None
      | Some (t, _, out) \<Rightarrow>
        (case coup_all (be_coup e) out (br_coup b) of None \<Rightarrow> None
         | Some (c, _, calls) \<Rightarrow>
           (case client_calls (be_client e) (be_seq e) calls (br_client b) of None \<Rightarrow> None
            | Some (cl, _, cout) \<Rightarrow> Some (\<lparr>br_tr = t, br_coup = c, br_client = cl\<rparr>, out, cout))))"

fun bridge_run :: "(bridge_env \<times> byte list) list \<Rightarrow> bridge \<Rightarrow> (bridge \<times> apm_out list \<times> client_out list) option" where
  "bridge_run [] b = Some (b, [], [])"
| "bridge_run ((e, frame) # fs) b = (case bridge_frame e frame b of None \<Rightarrow> None
     | Some (b, out, cout) \<Rightarrow> map_option (\<lambda>(b, out', cout'). (b, out @ out', cout @ cout')) (bridge_run fs b))"

text \<open>What goes to the socket of the manager connection.\<close>

definition socket_bytes :: "client_out list \<Rightarrow> byte list" where
  "socket_bytes out = concat (map (\<lambda>x. case x of ConnOut _ (SockWrite bs) \<Rightarrow> bs | _ \<Rightarrow> []) out)"

lemma socket_bytes_simps [simp]:
  "socket_bytes [] = []" "socket_bytes (a @ b) = socket_bytes a @ socket_bytes b"
  "socket_bytes (ConnOut i (SockWrite bs) # out) = bs @ socket_bytes out"
  by (simp_all add: socket_bytes_def)

lemma bridge_run_append:
  "bridge_run (xs @ ys) b = (case bridge_run xs b of None \<Rightarrow> None
     | Some (b, out, cout) \<Rightarrow> map_option (\<lambda>(b, out', cout'). (b, out @ out', cout @ cout')) (bridge_run ys b))"
proof (induction xs b rule: bridge_run.induct)
  case (1 b)
  show ?case by (cases "bridge_run ys b") auto
next
  case (2 e frame fs b)
  then show ?case
    by (auto simp: map_option_case split: option.splits)
qed

section \<open>Packets of the mesh network\<close>

text \<open>
  Packets as the access point sends them: the packet identifier alternates, and a packet is sent \<open>k\<close> times more than once because
  its acknowledgement was late.
\<close>

fun uplink_frames :: "byte \<Rightarrow> (byte list \<times> nat) list \<Rightarrow> byte list list" where
  "uplink_frames prev [] = []"
| "uplink_frames prev ((data, k) # ps) =
     replicate (Suc k) (notif_frame DN_API_LOC_NOTIF_AP_RECEIVE (2 - prev) data) @ uplink_frames (2 - prev) ps"

fun uplink_acks :: "byte \<Rightarrow> (byte list \<times> nat) list \<Rightarrow> byte list list" where
  "uplink_acks prev [] = []"
| "uplink_acks prev ((data, k) # ps) =
     replicate (Suc k) [DN_API_LOC_NOTIF_AP_RECEIVE, 0, 2 - prev + 1, 0] @ uplink_acks (2 - prev) ps"

definition uplink_ready :: "byte \<Rightarrow> CAPMTransport \<Rightarrow> bool" where
  "uplink_ready pktId t \<longleftrightarrow> (pktId = 0 \<or> pktId = 2) \<and> tr_notifPacketId t = pktId \<and> tr_apInputState t = APM_FLOW_NORMAL"

lemma receive_repeated:
  assumes "uplink_ready pktId t"
  shows "\<exists>t' r. tr_dataReceived e (notif_frame cmdId pktId data) t = Some (t', r, [SerWrite [cmdId, 0, pktId + 1, 0]])
    \<and> uplink_ready pktId t'"
proof -
  have p: "pktId = 0 \<or> pktId = 2" "tr_notifPacketId t = pktId" "tr_apInputState t = APM_FLOW_NORMAL"
    using assms by (simp_all add: uplink_ready_def)
  have "pktId AND 2 = pktId" "\<not> pktId AND 8 > 0" using p(1) by auto
  then show ?thesis
    using p ack_frame[OF p(1), of cmdId 0] unfolding received_notif[OF p(1)] uplink_ready_def
    by (simp add: handleNotification_def Let_def case_prod_beta error_rc_def startPingTimer_def)
       (simp add: sendAck_def)
qed

lemma handleCmd_receive:
  assumes "te_react e (ApmNotif (handleAPReceive data)) = []"
  shows "tr_handleCmd e DN_API_LOC_NOTIF_AP_RECEIVE data t =
    Some (t\<lparr>tr_cmdHandler := (tr_cmdHandler t)\<lparr>m_bootCounter := 0\<rparr>\<rparr>, APC_OK, [ApmNotif (handleAPReceive data)])"
proof -
  have "tr_notify e (handleAPReceive data) u = (u, [ApmNotif (handleAPReceive data)])" for u
    using assms by (simp add: tr_notify_def upper_def run_simps)
  then show ?thesis by (simp add: tr_handleCmd_def handleCmd_def run_simps dn_defs case_prod_beta)
qed

lemma receive_new:
  assumes "uplink_ready prev t" and "te_react e (ApmNotif (handleAPReceive data)) = []"
  shows "\<exists>t' r. tr_dataReceived e (notif_frame DN_API_LOC_NOTIF_AP_RECEIVE (2 - prev) data) t =
      Some (t', r, [ApmNotif (handleAPReceive data), SerWrite [DN_API_LOC_NOTIF_AP_RECEIVE, 0, 2 - prev + 1, 0]])
    \<and> uplink_ready (2 - prev) t'"
proof -
  let ?id = "2 - prev"
  have p: "?id = 0 \<or> ?id = 2" "tr_notifPacketId t = prev" "tr_apInputState t = APM_FLOW_NORMAL" "?id \<noteq> prev"
    using assms(1) by (auto simp: uplink_ready_def)
  have "?id AND 2 = ?id" using p(1) by auto
  then show ?thesis
    using p ack_frame[OF p(1), of DN_API_LOC_NOTIF_AP_RECEIVE 0] unfolding received_notif[OF p(1)] uplink_ready_def
    by (simp add: handleNotification_def Let_def case_prod_beta error_rc_def startPingTimer_def handleCmd_receive[OF assms(2)])
       (simp add: sendAck_def)
qed

section \<open>The client\<close>

text \<open>A client with an established session over connector \<open>i\<close>, and the packets it has sent so far.\<close>

definition session_up :: "nat \<Rightarrow> u32 \<Rightarrow> u32 \<Rightarrow> sent_pkt list \<Rightarrow> CAPCClient \<Rightarrow> bool" where
  "session_up i seq n hist cl \<longleftrightarrow> cl_state cl = APCCLIENT_STATE_ONLINE \<and> cl_pConnector cl = Some i \<and> i < length (cl_conns cl)
     \<and> conn_ready seq (cl_conns cl ! i) \<and> cache_reach n (cl_cache cl) hist"

definition uplink_msg :: "u32 \<Rightarrow> nat \<Rightarrow> byte list \<Rightarrow> rx_msg" where
  "uplink_msg seq k data = \<lparr>rx_type = APC_NET_RX, rx_flags = 0, rx_mySeq = word_of_nat k, rx_yourSeq = seq, rx_payload = data\<rparr>"

definition uplink_fits :: "byte list \<Rightarrow> bool" where
  "uplink_fits data \<longleftrightarrow> sizeof_apc_hdr_s + length data \<le> APC_MAX_MSG_SIZE"

lemma uplink_msg_sendable: "uplink_fits data \<Longrightarrow> sendable APC_MAX_MSG_SIZE (uplink_msg seq k data)"
  by (simp add: sendable_def uplink_msg_def uplink_fits_def convert_def apc_const_defs wire_simps APC_MAX_MSG_SIZE_val)

text \<open>The message that carries a packet of the client's history.\<close>

definition sent_msg :: "u32 \<Rightarrow> nat \<Rightarrow> sent_pkt \<Rightarrow> rx_msg" where
  "sent_msg seq k pkt = \<lparr>rx_type = fst pkt, rx_flags = 0, rx_mySeq = word_of_nat k, rx_yourSeq = seq, rx_payload = snd pkt\<rparr>"

lemma client_sends:
  assumes "session_up i seq n hist cl" and "0 < n" and "Suc (length hist) < 2 ^ 64" and "uplink_fits (ptr_bytes p)"
    and "conn_drains (ce_conn e 0)" and "unat s = length (ptr_bytes p)"
    and "sendable APC_MAX_MSG_SIZE (sent_msg seq (Suc (length hist)) (type, ptr_bytes p))"
  shows "\<exists>cl'. client_sendData_p e g cl type p s None 0 =
      Some (cl', APC_OK, [ConnOut i (SockWrite (wire_bytes (sent_msg seq (Suc (length hist)) (type, ptr_bytes p))))])
    \<and> session_up i seq n (hist @ [(type, ptr_bytes p)]) cl'"
proof -
  have len: "length (ptr_bytes p) \<le> APC_MAX_MSG_SIZE" using assms(4) by (simp add: uplink_fits_def)
  have s: "unat (ucast s :: u32) = length (ptr_bytes p)"
    using assms(6) len by (simp add: APC_MAX_MSG_SIZE_val unsigned_ucast_eq take_bit_eq_mod unsigned_of_nat)
  have b: "arg_bytes p (ucast s) = Some (ptr_bytes p)" "arg_bytes None (ucast (0 :: u16)) = Some []"
    using s by (auto simp: arg_bytes_def ptr_bytes_def unat_eq_0 split: option.splits)
  have up: "cl_state cl = APCCLIENT_STATE_ONLINE" "cl_pConnector cl = Some i" "i < length (cl_conns cl)"
      "conn_ready seq (cl_conns cl ! i)" "cache_reach n (cl_cache cl) hist"
    using assms(1) by (simp_all add: session_up_def)
  have fit: "length (ptr_bytes p) + length [] \<le> APC_MAX_MSG_SIZE" using len by simp
  obtain cache err where add: "addPacket (cl_cache cl) type p (ucast s) None (ucast (0 :: u16))
      = Some (cache, err, Some (word_of_nat (Suc (length hist))))"
    using addPacket_spec[OF _ assms(3) b fit] cache_reach_rel[OF up(5) assms(2)] by metis
  have reach: "cache_reach n cache (hist @ [(type, ptr_bytes p)])"
    using reach_add[OF up(5) assms(3) b fit add] by simp
  obtain c' where c': "sendData (ce_conn e 0) (cl_conns cl ! i) type 0 (word_of_nat (Suc (length hist))) p s None 0
      = Some (c', APC_OK, [SockWrite (wire_bytes (sent_msg seq (Suc (length hist)) (type, ptr_bytes p)))])" "conn_ready seq c'"
    using sendData_ready_ptr[OF up(4) assms(5) _ _ assms(7), of s p type "word_of_nat (Suc (length hist))"] assms(6)
    by (auto simp: sent_msg_def)
  show ?thesis
    using up reach c' unfolding client_sendData_p_online[OF up(1,2) add]
    by (simp add: on_conn_def stop_failed_def session_up_def)
qed

lemma client_sends_uplink:
  assumes "session_up i seq n hist cl" and "0 < n" and "Suc (length hist) < 2 ^ 64" and "uplink_fits data"
    and "conn_drains (ce_conn e 0)"
  shows "\<exists>cl'. client_sendData e g cl data (word_of_nat (length data)) =
      Some (cl', APC_OK, [ConnOut i (SockWrite (wire_bytes (uplink_msg seq (Suc (length hist)) data)))])
    \<and> session_up i seq n (hist @ [(APC_NET_RX, data)]) cl'"
proof -
  have m: "sent_msg seq k (APC_NET_RX, ptr_bytes (Some data)) = uplink_msg seq k data" for k
    by (simp add: sent_msg_def uplink_msg_def ptr_bytes_def)
  have "unat (ucast (word_of_nat (length data) :: u32) :: u16) = length (ptr_bytes (Some data))"
    using assms(4) by (simp add: uplink_fits_def APC_MAX_MSG_SIZE_val ptr_bytes_def unsigned_ucast_eq take_bit_eq_mod unsigned_of_nat)
  from client_sends[OF assms(1-3) _ assms(5) this, of APC_NET_RX g] show ?thesis
    using assms(4) uplink_msg_sendable[OF assms(4)] unfolding client_sendData_def m by (simp add: ptr_bytes_def)
qed

section \<open>From frames to messages\<close>

definition uplink_state :: "byte \<Rightarrow> nat \<Rightarrow> u32 \<Rightarrow> u32 \<Rightarrow> sent_pkt list \<Rightarrow> bridge \<Rightarrow> bool" where
  "uplink_state pktId i seq n hist b \<longleftrightarrow> uplink_ready pktId (br_tr b) \<and> cp_mngrClient (br_coup b) \<and> session_up i seq n hist (br_client b)"

lemma bridge_new_packet:
  assumes "uplink_state prev i seq n hist b" and "0 < n" and "Suc (length hist) < 2 ^ 64" and "uplink_fits data"
    and "conn_drains (ce_conn (be_client e) 0)"
  shows "\<exists>b'. bridge_frame e (notif_frame DN_API_LOC_NOTIF_AP_RECEIVE (2 - prev) data) b = Some (b',
      [ApmNotif (handleAPReceive data), SerWrite [DN_API_LOC_NOTIF_AP_RECEIVE, 0, 2 - prev + 1, 0]],
      [ConnOut i (SockWrite (wire_bytes (uplink_msg seq (Suc (length hist)) data)))])
    \<and> uplink_state (2 - prev) i seq n (hist @ [(APC_NET_RX, data)]) b'"
proof -
  have st: "uplink_ready prev (br_tr b)" "cp_mngrClient (br_coup b)" "session_up i seq n hist (br_client b)"
    using assms(1) by (simp_all add: uplink_state_def)
  have notif: "apm_notif (be_coup e) (handleAPReceive data) (br_coup b) = Some (br_coup b, (), [ClSendData data])"
    using st(2) by (simp add: apm_notif_def coup_handleAPReceive_def doing_def)
  then have "te_react (coupled (be_coup e) (br_coup b) (be_tr e)) (ApmNotif (handleAPReceive data)) = []"
    by (simp add: coupled_def coup_calls_def tr_calls_def)
  from receive_new[OF st(1) this] client_sends_uplink[OF st(3) assms(2-5), of "be_seq e"] show ?thesis
    using notif st(2) by (auto simp: bridge_frame_def doing_def client_call_def uplink_state_def)
qed

lemma bridge_repeated_packet:
  assumes "uplink_state pktId i seq n hist b"
  shows "\<exists>b'. bridge_frame e (notif_frame DN_API_LOC_NOTIF_AP_RECEIVE pktId data) b = Some (b',
      [SerWrite [DN_API_LOC_NOTIF_AP_RECEIVE, 0, pktId + 1, 0]], []) \<and> uplink_state pktId i seq n hist b'"
  using receive_repeated[of pktId "br_tr b" "coupled (be_coup e) (br_coup b) (be_tr e)" DN_API_LOC_NOTIF_AP_RECEIVE data] assms
  by (auto simp: bridge_frame_def doing_def uplink_state_def)

lemma bridge_repeats:
  assumes "uplink_state pktId i seq n hist b" and "length es = k"
  shows "\<exists>b'. bridge_run (zip es (replicate k (notif_frame DN_API_LOC_NOTIF_AP_RECEIVE pktId data))) b = Some (b',
      replicate k (SerWrite [DN_API_LOC_NOTIF_AP_RECEIVE, 0, pktId + 1, 0]), []) \<and> uplink_state pktId i seq n hist b'"
  using assms
proof (induction es arbitrary: k b)
  case (Cons e es)
  obtain b1 where b1: "bridge_frame e (notif_frame DN_API_LOC_NOTIF_AP_RECEIVE pktId data) b = Some (b1,
      [SerWrite [DN_API_LOC_NOTIF_AP_RECEIVE, 0, pktId + 1, 0]], [])" "uplink_state pktId i seq n hist b1"
    using bridge_repeated_packet[OF Cons.prems(1)] by blast
  then show ?case using Cons.IH[OF b1(2)] Cons.prems(2) by (cases k) auto
qed simp

text \<open>The messages for the manager, numbered from \<open>k + 1\<close>.\<close>

fun uplink_msgs :: "u32 \<Rightarrow> nat \<Rightarrow> (byte list \<times> nat) list \<Rightarrow> rx_msg list" where
  "uplink_msgs seq k [] = []"
| "uplink_msgs seq k ((data, _) # ps) = uplink_msg seq (Suc k) data # uplink_msgs seq (Suc k) ps"

definition sock_writes :: "nat \<Rightarrow> rx_msg list \<Rightarrow> client_out list" where
  "sock_writes i ms = map (\<lambda>m. ConnOut i (SockWrite (wire_bytes m))) ms"

text \<open>Whoever reads what was written to the socket, in chunks cut anywhere, gets the messages back.\<close>

lemma socket_messages:
  assumes "list_all (sendable APC_MAX_MSG_SIZE) ms" and "concat chunks = socket_bytes (sock_writes i ms)"
  shows "\<exists>s'. rx_chunks collect (new_CAPCSerializer APC_MAX_MSG_SIZE) [] chunks = Some (s', ms, APC_OK)"
proof -
  have "socket_bytes (sock_writes i ms) = concat (map wire_bytes ms)"
    by (induction ms) (simp_all add: sock_writes_def)
  moreover have "sizeof_apc_hdr_s \<le> APC_MAX_MSG_SIZE" "APC_MAX_MSG_SIZE < 2 ^ 64"
    by (simp_all add: sizeof_apc_hdr_s_def APC_MAX_MSG_SIZE_val)
  ultimately show ?thesis
    using rx_chunks_spec[OF new_CAPCSerializer_rel, of APC_MAX_MSG_SIZE collect "[]" chunks] rx_wire_stream[OF assms(1), of "[]"] assms(2)
    by auto
qed

lemma bridge_uplink:
  assumes "uplink_state prev i seq n hist b" and "0 < n" and "length hist + length ps < 2 ^ 64"
    and "list_all (\<lambda>p. uplink_fits (fst p)) ps" and "length es = length (uplink_frames prev ps)"
    and "list_all (\<lambda>e. conn_drains (ce_conn (be_client e) 0)) es"
  shows "\<exists>b' out. bridge_run (zip es (uplink_frames prev ps)) b = Some (b', out, sock_writes i (uplink_msgs seq (length hist) ps))
    \<and> serial_writes out = uplink_acks prev ps
    \<and> cache_reach n (cl_cache (br_client b')) (hist @ map (\<lambda>p. (APC_NET_RX, fst p)) ps)"
  using assms(1,3-6)
proof (induction prev ps arbitrary: b hist es rule: uplink_frames.induct)
  case (1 prev)
  then show ?case by (auto simp: uplink_state_def session_up_def sock_writes_def)
next
  case (2 prev data k ps)
  let ?f = "notif_frame DN_API_LOC_NOTIF_AP_RECEIVE (2 - prev) data"
  let ?ack = "SerWrite [DN_API_LOC_NOTIF_AP_RECEIVE, 0, 2 - prev + 1, 0]"
  obtain e es1 es2 where es: "es = e # es1 @ es2" "length es1 = k" "length es2 = length (uplink_frames (2 - prev) ps)"
  proof -
    obtain e es' where "es = e # es'" using 2(5) by (cases es) auto
    then show thesis using that[of e "take k es'" "drop k es'"] 2(5) by auto
  qed
  obtain b1 where b1: "bridge_frame e ?f b = Some (b1, [ApmNotif (handleAPReceive data), ?ack],
        [ConnOut i (SockWrite (wire_bytes (uplink_msg seq (Suc (length hist)) data)))])"
      "uplink_state (2 - prev) i seq n (hist @ [(APC_NET_RX, data)]) b1"
    using bridge_new_packet[OF 2(2) assms(2), of data e] 2(3,4,6) es(1) by auto
  obtain b2 where b2: "bridge_run (zip es1 (replicate k ?f)) b1 = Some (b2, replicate k ?ack, [])"
      "uplink_state (2 - prev) i seq n (hist @ [(APC_NET_RX, data)]) b2"
    using bridge_repeats[OF b1(2) es(2)] by blast
  obtain b3 out where b3: "bridge_run (zip es2 (uplink_frames (2 - prev) ps)) b2 =
        Some (b3, out, sock_writes i (uplink_msgs seq (Suc (length hist)) ps))"
      "serial_writes out = uplink_acks (2 - prev) ps"
      "cache_reach n (cl_cache (br_client b3)) (hist @ (APC_NET_RX, data) # map (\<lambda>p. (APC_NET_RX, fst p)) ps)"
    using 2(1)[OF b2(2), of es2] 2(3,4,6) es by auto
  have z: "zip es (uplink_frames prev ((data, k) # ps)) =
      (e, ?f) # zip es1 (replicate k ?f) @ zip es2 (uplink_frames (2 - prev) ps)"
    using es by simp
  have "serial_writes (replicate k (SerWrite a)) = replicate k a" for a by (induction k) simp_all
  then show ?case
    unfolding z using b1(1) b2(1) b3 by (simp add: bridge_run_append sock_writes_def)
qed

text \<open>
  Claim C1.  Packets of the mesh network reach the manager.  The access point sends packets over the serial line, each with the next packet
  identifier and possibly several times in a row; the bytes of their frames arrive in pieces cut anywhere.  While the session with the manager is up, the
  serial port, the transport, the coupler and the client together acknowledge every frame, and whoever reads the bytes
  written to the manager's socket, in chunks cut anywhere, gets every packet exactly once, in order, unchanged, as an \<^verbatim>\<open>APC_NET_RX\<close> message with the next
  sequence number; the packets are in the cache for a replay.\<close>

theorem mote_packets_reach_manager:
  assumes serial: "sr_encoder r = Some enc" "hdlc_idle enc" "m_handler enc" "sr_hasHandler r"
    and pieces: "concat pieces = concat (map encodeHDLC (uplink_frames prev ps))" "\<forall>c \<in> set pieces. length c \<le> length (sr_input r)"
    and state: "uplink_state prev i seq n hist b" "0 < n" "length hist + length ps < 2 ^ 64"
    and fits: "list_all (\<lambda>p. uplink_fits (fst p)) ps"
    and envs: "length es = length (uplink_frames prev ps)" "list_all (\<lambda>e. conn_drains (ce_conn (be_client e) 0)) es"
  shows "\<exists>r' sout b' out cout. read_all pieces r = Some (r', sout) \<and> bridge_run (zip es (delivered sout)) b = Some (b', out, cout)
    \<and> serial_writes out = uplink_acks prev ps
    \<and> cache_reach n (cl_cache (br_client b')) (hist @ map (\<lambda>p. (APC_NET_RX, fst p)) ps)
    \<and> (\<forall>chunks. concat chunks = socket_bytes cout \<longrightarrow>
         (\<exists>s'. rx_chunks (\<lambda>got m. (got @ [m], APC_OK)) (new_CAPCSerializer APC_MAX_MSG_SIZE) [] chunks
            = Some (s', uplink_msgs seq (length hist) ps, APC_OK)))"
proof -
  have "list_all (\<lambda>f. f \<noteq> []) (uplink_frames prev ps)"
    by (induction prev ps rule: uplink_frames.induct) (auto simp: notif_frame_def list_all_iff)
  then have "snd (run addByte enc (concat pieces)) = uplink_frames prev ps"
    using hdlc_codec.decode_stream[of enc "uplink_frames prev ps"] serial(2,3) pieces(1) by simp
  then obtain r' sout where sout: "read_all pieces r = Some (r', sout)" "delivered sout = uplink_frames prev ps"
    using read_all_parses[OF serial(1,4) pieces(2)] by auto
  obtain b' out where run: "bridge_run (zip es (uplink_frames prev ps)) b = Some (b', out, sock_writes i (uplink_msgs seq (length hist) ps))"
      "serial_writes out = uplink_acks prev ps"
      "cache_reach n (cl_cache (br_client b')) (hist @ map (\<lambda>p. (APC_NET_RX, fst p)) ps)"
    using bridge_uplink[OF state fits envs] by blast
  have "list_all (sendable APC_MAX_MSG_SIZE) (uplink_msgs seq k ps)" for k
    using fits by (induction seq k ps rule: uplink_msgs.induct) (simp_all add: uplink_msg_sendable)
  then have "\<exists>s'. rx_chunks collect (new_CAPCSerializer APC_MAX_MSG_SIZE) [] chunks = Some (s', uplink_msgs seq (length hist) ps, APC_OK)"
    if "concat chunks = socket_bytes (sock_writes i (uplink_msgs seq (length hist) ps))" for chunks
    using socket_messages that by blast
  then show ?thesis
    using sout run
    by (intro exI[of _ r'] exI[of _ sout] exI[of _ b'] exI[of _ out] exI[of _ "sock_writes i (uplink_msgs seq (length hist) ps)"]) auto
qed

text \<open>Two packets, the first of which is sent twice, byte by byte over the line.\<close>

theorem mote_packets_reach_manager_witness:
  "\<exists>r' sout b' out cout s'.
     read_all (map (\<lambda>x. [x]) (concat (map encodeHDLC (uplink_frames 0 [([0x7E, 1], 1), ([9], 0)]))))
       ((new_CSerialPort AP_RESET_SIGNAL_TX 115200 True)\<lparr>sr_hasHandler := True\<rparr>) = Some (r', sout)
     \<and> bridge_run (zip (replicate 3 \<lparr>be_tr = demo_tr_env, be_coup = demo_coup_env, be_client = demo_client_env, be_seq = 0\<rparr>) (delivered sout))
         \<lparr>br_tr = demo_tr\<lparr>tr_notifPacketId := 0\<rparr>, br_coup = demo_coupler,
          br_client = (demo_client (new_CAPCCache 2))\<lparr>cl_state := APCCLIENT_STATE_ONLINE\<rparr>\<rparr> = Some (b', out, cout)
     \<and> rx_chunks (\<lambda>got m. (got @ [m], APC_OK)) (new_CAPCSerializer APC_MAX_MSG_SIZE) [] [socket_bytes cout]
         = Some (s', [uplink_msg 0 1 [0x7E, 1], uplink_msg 0 2 [9]], APC_OK)"
proof -
  let ?r = "(new_CSerialPort AP_RESET_SIGNAL_TX 115200 True)\<lparr>sr_hasHandler := True\<rparr>"
  let ?ps = "[([0x7E, 1], 1), ([9], 0)] :: (byte list \<times> nat) list"
  let ?cl = "(demo_client (new_CAPCCache 2))\<lparr>cl_state := APCCLIENT_STATE_ONLINE\<rparr>"
  let ?b = "\<lparr>br_tr = demo_tr\<lparr>tr_notifPacketId := 0\<rparr>, br_coup = demo_coupler, br_client = ?cl\<rparr>"
  let ?es = "replicate 3 \<lparr>be_tr = demo_tr_env, be_coup = demo_coup_env, be_client = demo_client_env, be_seq = 0\<rparr>"
  have s: "sr_encoder ?r = Some (new_CHDLC 256 True)" "hdlc_idle (new_CHDLC 256 True)" "m_handler (new_CHDLC 256 True)" "sr_hasHandler ?r"
    by (simp_all add: new_CSerialPort_def MAX_HDLC_BUFFER_LEN_def hdlc_idle_def new_CHDLC_def hdlc_reset_def)
  have pieces: "concat (map (\<lambda>x. [x]) bs) = bs" "\<forall>c \<in> set (map (\<lambda>x. [x]) bs). length c \<le> length (sr_input ?r)" for bs :: "byte list"
    by (induction bs) (simp_all add: new_CSerialPort_def INPUT_BUFFER_LEN_def)
  have tr: "uplink_ready 0 (demo_tr\<lparr>tr_notifPacketId := 0\<rparr>)"
  proof -
    have "tr_apInputState demo_tr = APM_FLOW_NORMAL" by code_simp
    then show ?thesis by (simp add: uplink_ready_def)
  qed
  have st: "uplink_state 0 0 0 2 [] ?b"
    using demo_client_ready tr reach_new by (simp add: uplink_state_def session_up_def demo_coupler_def)
  have fit: "list_all (\<lambda>p. uplink_fits (fst p)) ?ps" by (simp add: uplink_fits_def sizeof_apc_hdr_s_def APC_MAX_MSG_SIZE_val)
  have env: "length ?es = length (uplink_frames 0 ?ps)" "list_all (\<lambda>e. conn_drains (ce_conn (be_client e) 0)) ?es"
    using drain_env_drains by (simp_all add: list_all_iff demo_client_env_def)
  have n: "(0 :: u32) < 2" "length ([] :: sent_pkt list) + length ?ps < 2 ^ 64" by simp_all
  obtain r' sout b' out cout where res: "read_all (map (\<lambda>x. [x]) (concat (map encodeHDLC (uplink_frames 0 ?ps)))) ?r = Some (r', sout)"
      "bridge_run (zip ?es (delivered sout)) ?b = Some (b', out, cout)"
      "\<forall>chunks. concat chunks = socket_bytes cout \<longrightarrow>
         (\<exists>s'. rx_chunks (\<lambda>got m. (got @ [m], APC_OK)) (new_CAPCSerializer APC_MAX_MSG_SIZE) [] chunks
            = Some (s', uplink_msgs 0 (length ([] :: sent_pkt list)) ?ps, APC_OK))"
    using mote_packets_reach_manager[OF s pieces(1) pieces(2) st n fit env] by blast
  have "uplink_msgs 0 (length ([] :: sent_pkt list)) ?ps = [uplink_msg 0 1 [0x7E, 1], uplink_msg 0 2 [9]]"
    by (simp add: numeral_2_eq_2)
  then show ?thesis using res(1,2) spec[OF res(3), of "[socket_bytes cout]"] by auto
qed

end
