(* ===== verification/Bridge_Downlink.thy ===== *)
theory Bridge_Downlink
  imports Bridge_Uplink
begin

text \<open>
  The components put together for the direction from the manager to the access point: bytes of the manager's socket
  (\<^verbatim>\<open>CAPCConnector::handle_read_p\<close>) become notifications that the connector posts to the notification thread
  (\<^verbatim>\<open>CAPCCtrlNotifThread\<close>), the thread calls the client (\<^verbatim>\<open>IAPCConnectorNotif\<close>), the client calls the coupler
  (\<^verbatim>\<open>IAPCClientNotif\<close>) and the coupler queues commands at the transport.  Reads of the socket and steps of the thread
  interleave in any order.
\<close>

section \<open>Notifications of a connector\<close>

definition conn_notifs :: "client_out list \<Rightarrow> notif_call list" where
  "conn_notifs out = concat (map (\<lambda>x. case x of
      ConnOut i NotifStarted \<Rightarrow> [apcStarted i]
    | ConnOut i (NotifConnected p) \<Rightarrow> [apcConnected i p]
    | ConnOut i (NotifDisconnected p) \<Rightarrow> [apcDisconnected i p]
    | ConnOut i (NotifReceived p pl) \<Rightarrow> [messageReceived p pl]
    | _ \<Rightarrow> []) out)"

fun notif_posts :: "notif_call list \<Rightarrow> CAPCCtrlNotifThread \<Rightarrow> CAPCCtrlNotifThread option" where
  "notif_posts [] t = Some t"
| "notif_posts (m # ms) t = Option.bind (notif_post m t) (notif_posts ms)"

section \<open>From the thread to the transport\<close>

text \<open>The environment of a connector that the client stops while it is notified comes in addition.\<close>

record down_env = bridge_env +
  de_stop :: conn_env

definition client_notif :: "client_env \<Rightarrow> conn_env \<Rightarrow> notif_call \<Rightarrow> CAPCClient \<Rightarrow> unit client_res" where
  "client_notif e es call cl = (case call of
      apcStarted i \<Rightarrow> client_apcStarted i cl
    | apcConnected i p \<Rightarrow> client_apcConnected e es i p cl
    | apcDisconnected i p \<Rightarrow> client_apcDisconnected e i p cl
    | messageReceived p pl \<Rightarrow> client_messageReceived p pl cl)"

fun coup_users :: "coup_env \<Rightarrow> client_out list \<Rightarrow> CAPCoupler \<Rightarrow> unit coup_res" where
  "coup_users e [] c = doing [] c"
| "coup_users e (UserCall u # xs) c = and_then (mngr_notif e u c) (\<lambda>c _. coup_users e xs c)"
| "coup_users e (_ # xs) c = coup_users e xs c"

text \<open>
  One call of the thread.  The calls that the coupler makes on the transport run there in order; what the transport
  reports back meanwhile (a pause of the manager) goes through the coupler to the client again.
\<close>

definition bridge_notif :: "down_env \<Rightarrow> notif_call \<Rightarrow> bridge \<Rightarrow> (bridge \<times> apm_out list \<times> client_out list) option" where
  "bridge_notif e call b =
     (case client_notif (be_client e) (de_stop e) call (br_client b) of None \<Rightarrow> None
      | Some (cl, _, cout) \<Rightarrow>
        (case coup_users (be_coup e) cout (br_coup b) of None \<Rightarrow> None
         | Some (c, _, calls) \<Rightarrow>
           (case run (call_step (coupled (be_coup e) c (be_tr e))) (br_tr b) (tr_calls calls) of (t, out) \<Rightarrow>
             (case coup_all (be_coup e) out c of None \<Rightarrow> None
              | Some (c, _, calls') \<Rightarrow>
                (case client_calls (be_client e) (be_seq e) (calls @ calls') cl of None \<Rightarrow> None
                 | Some (cl, _, cout') \<Rightarrow> Some (\<lparr>br_tr = t, br_coup = c, br_client = cl\<rparr>, out, cout @ cout'))))))"

fun bridge_notifs :: "down_env \<Rightarrow> notif_call list \<Rightarrow> bridge \<Rightarrow> (bridge \<times> apm_out list \<times> client_out list) option" where
  "bridge_notifs e [] b = Some (b, [], [])"
| "bridge_notifs e (m # ms) b = (case bridge_notif e m b of None \<Rightarrow> None
     | Some (b, out, cout) \<Rightarrow> map_option (\<lambda>(b, out', cout'). (b, out @ out', cout @ cout')) (bridge_notifs e ms b))"

section \<open>Reads and steps of the thread\<close>

record downlink =
  dl_bridge :: bridge
  dl_notif :: CAPCCtrlNotifThread

datatype down_event =
    NetRead conn_env "byte list"
  | NotifStep down_env

definition down_read :: "nat \<Rightarrow> conn_env \<Rightarrow> byte list \<Rightarrow> downlink \<Rightarrow> (downlink \<times> apm_out list \<times> client_out list) option" where
  "down_read i e data d =
     (case on_conn i (\<lambda>c. map_option (\<lambda>(c, out). (c, (), out)) (handle_read_p e c False data)) (br_client (dl_bridge d)) of
        None \<Rightarrow> None
      | Some (cl, _, out) \<Rightarrow> map_option (\<lambda>n. (\<lparr>dl_bridge = (dl_bridge d)\<lparr>br_client := cl\<rparr>, dl_notif = n\<rparr>, [], out))
          (notif_posts (conn_notifs out) (dl_notif d)))"

definition down_serve :: "down_env \<Rightarrow> downlink \<Rightarrow> (downlink \<times> apm_out list \<times> client_out list) option" where
  "down_serve e d =
     (case threadFun (dl_notif d) of None \<Rightarrow> None
      | Some (n, calls) \<Rightarrow> map_option (\<lambda>(b, out, cout). (\<lparr>dl_bridge = b, dl_notif = n\<rparr>, out, cout))
          (bridge_notifs e calls (dl_bridge d)))"

fun down_step :: "nat \<Rightarrow> down_event \<Rightarrow> downlink \<Rightarrow> (downlink \<times> apm_out list \<times> client_out list) option" where
  "down_step i (NetRead e data) d = down_read i e data d"
| "down_step i (NotifStep e) d = down_serve e d"

fun down_run :: "nat \<Rightarrow> down_event list \<Rightarrow> downlink \<Rightarrow> (downlink \<times> apm_out list \<times> client_out list) option" where
  "down_run i [] d = Some (d, [], [])"
| "down_run i (ev # evs) d = (case down_step i ev d of None \<Rightarrow> None
     | Some (d, out, cout) \<Rightarrow> map_option (\<lambda>(d, out', cout'). (d, out @ out', cout @ cout')) (down_run i evs d))"

section \<open>The connector\<close>

text \<open>A connector with an established session that has received the bytes \<open>p\<close> of its next message.\<close>

definition serving :: "ap_intf_id_t \<Rightarrow> byte list \<Rightarrow> CAPCConnector \<Rightarrow> bool" where
  "serving k p c \<longleftrightarrow> bufs_inv c \<and> c_isWorking c \<and> c_isConnected c \<and> c_hasNotif c \<and> c_intfId c = k
     \<and> ser_rel APC_MAX_MSG_SIZE (c_serializer c) p"

text \<open>Reads and writes can be started, and a buffer becomes free in time; nothing else happens to the connector meanwhile.\<close>

definition conn_serves :: "conn_env \<Rightarrow> bool" where
  "conn_serves e \<longleftrightarrow> e_readOk e \<and> e_writeOk e
     \<and> (\<forall>k p c. serving k p c \<longrightarrow> serving k p (waited e c) \<and> c_numFreeOutBuf (waited e c) \<noteq> 0)"

definition msg_param :: "ap_intf_id_t \<Rightarrow> rx_msg \<Rightarrow> param_received_s" where
  "msg_param k m = \<lparr>pr_apcId = k, pr_flags = rx_flags m, pr_mySeq = rx_mySeq m, pr_yourSeq = rx_yourSeq m, pr_type = rx_type m\<rparr>"

definition msg_call :: "ap_intf_id_t \<Rightarrow> rx_msg \<Rightarrow> notif_call" where
  "msg_call k m = messageReceived (msg_param k m) (rx_payload m)"

text \<open>Messages that carry a packet for the mesh network.\<close>

definition downlink_msg :: "rx_msg \<Rightarrow> bool" where
  "downlink_msg m \<longleftrightarrow> sendable APC_MAX_MSG_SIZE m \<and> rx_type m = APC_NET_TX \<and> sizeof_apc_msg_net_tx_s \<le> length (rx_payload m)"

lemma serving_cong:
  assumes "c_outbufs c' = c_outbufs c" "c_numFreeOutBuf c' = c_numFreeOutBuf c" "c_curFreeBufIdx c' = c_curFreeBufIdx c"
    "c_inflight c' = c_inflight c" "c_isWorking c' = c_isWorking c" "c_isConnected c' = c_isConnected c"
    "c_hasNotif c' = c_hasNotif c" "c_intfId c' = c_intfId c" "c_serializer c' = c_serializer c"
  shows "serving k p c' = serving k p c"
  using assms bufs_inv_cong[of c' c] by (simp add: serving_def)

lemma receive_packet:
  assumes "serving k p c" and "downlink_msg m"
  shows "\<exists>c'. conn_messageReceived e k (c, out) m = ((c', out @ [NotifReceived (msg_param k m) (rx_payload m)]), APC_OK)
    \<and> serving k p c'"
proof -
  let ?c = "note_received (c\<lparr>c_numRcvPkt := c_numRcvPkt c + 1\<rparr>) (rx_mySeq m)"
  have t: "rx_type m = APC_NET_TX" "APC_NET_TX \<noteq> APC_CONNECT" "APC_NET_TX \<noteq> APC_DISCONNECT"
    using assms(2) by (simp_all add: downlink_msg_def apc_const_defs)
  have "serving k p ?c = serving k p c" by (rule serving_cong) (simp_all add: note_received_def)
  then have "serving k p ?c" using assms(1) by simp
  then show ?thesis
    using assms(1) t unfolding conn_messageReceived_def by (simp add: Let_def serving_def msg_param_def)
qed

text \<open>The messages in a chunk, whoever receives them.\<close>

lemma rx_byte_msgs:
  assumes "rx_byte M collect q [] b = (q', ms, APC_OK)"
  shows "rx_byte M handler q h b = (q', (case ms of [] \<Rightarrow> (h, APC_OK) | m # _ \<Rightarrow> handler h m)) \<and> length ms \<le> 1"
  using assms by (auto simp: rx_byte_def finish_msg_def Let_def case_prod_beta split: if_splits)

lemma rx_bytes_packets:
  assumes "rx_bytes APC_MAX_MSG_SIZE collect q got bs = (q', got @ ms, APC_OK)" and "list_all downlink_msg ms" and "serving k p c"
  shows "\<exists>c'. rx_bytes APC_MAX_MSG_SIZE (conn_messageReceived e k) q (c, out) bs =
      (q', (c', out @ map (\<lambda>m. NotifReceived (msg_param k m) (rx_payload m)) ms), APC_OK) \<and> serving k p c'"
  using assms
proof (induction bs arbitrary: q got ms c out)
  case (Cons b bs)
  let ?H = "conn_messageReceived e k"
  obtain q1 ns r where b: "rx_byte APC_MAX_MSG_SIZE collect q [] b = (q1, ns, r)" by (metis prod_cases3)
  then have "rx_byte APC_MAX_MSG_SIZE collect q got b = (q1, got @ ns, r)" using rx_byte_collect[of APC_MAX_MSG_SIZE q got b] by simp
  then have rest: "r = APC_OK" "rx_bytes APC_MAX_MSG_SIZE collect q1 (got @ ns) bs = (q', got @ ms, APC_OK)"
    using Cons.prems(1) by (auto split: if_splits)
  obtain ms' where ms': "ms = ns @ ms'"
    using rx_bytes_run[OF rest(2)] by (metis append_assoc append_take_drop_id same_append_eq)
  have one: "rx_byte APC_MAX_MSG_SIZE ?H q (c, out) b = (q1, (case ns of [] \<Rightarrow> ((c, out), APC_OK) | m # _ \<Rightarrow> ?H (c, out) m))" "length ns \<le> 1"
    using rx_byte_msgs[of _ q b q1 ns ?H "(c, out)"] b rest(1) by auto
  obtain c1 where c1: "rx_byte APC_MAX_MSG_SIZE ?H q (c, out) b =
      (q1, (c1, out @ map (\<lambda>m. NotifReceived (msg_param k m) (rx_payload m)) ns), APC_OK)" "serving k p c1"
  proof (cases ns)
    case Nil
    then show thesis using that[of c] one Cons.prems(3) by simp
  next
    case ns: (Cons m ns')
    then have "ns = [m]" "downlink_msg m" using one(2) Cons.prems(2) ms' by auto
    then show thesis using that receive_packet[OF Cons.prems(3), of m e out] one(1) by auto
  qed
  have "rx_bytes APC_MAX_MSG_SIZE collect q1 (got @ ns) bs = (q', (got @ ns) @ ms', APC_OK)" using rest(2) ms' by simp
  from Cons.IH[OF this _ c1(2), of "out @ map (\<lambda>m. NotifReceived (msg_param k m) (rx_payload m)) ns"] Cons.prems(2) ms' c1(1)
  show ?case by auto
qed simp

text \<open>Calls on the socket.\<close>

fun is_sock :: "conn_out \<Rightarrow> bool" where
  "is_sock (SockWrite _) = True"
| "is_sock SockRead = True"
| "is_sock _ = False"

lemma send_ka_serving:
  assumes "serving k p c" and "conn_serves e"
  shows "\<exists>c' bs. send_ka_p e c = Some (c', APC_OK, [SockWrite bs]) \<and> serving k p c'"
proof -
  let ?w = "waited e c"
  have w: "serving k p ?w" "c_numFreeOutBuf ?w \<noteq> 0" "e_writeOk e" using assms by (auto simp: conn_serves_def)
  have inv: "bufs_inv ?w" "c_isWorking ?w" using w(1) by (simp_all add: serving_def)
  have guard: "guard_open c APC_KA" using assms(1) by (simp add: serving_def guard_open_def)
  define m where "m = \<lparr>rx_type = APC_KA, rx_flags = APC_HDR_FLAGS_NOTRACK, rx_mySeq = 0, rx_yourSeq = c_lastReceivedSeqNum ?w, rx_payload = []\<rparr>"
  have "sendable APC_MAX_MSG_SIZE m"
    by (simp add: sendable_def m_def convert_def apc_const_defs wire_simps APC_MAX_MSG_SIZE_val)
  then obtain c' where c': "send_ka_p e c = Some (c', APC_OK, [SockWrite (wire_bytes m)])"
    using sendData_wire[OF inv(1) guard w(2) inv(2) w(3), of 0 None 0 None m APC_HDR_FLAGS_NOTRACK 0]
    unfolding send_ka_p_def by (auto simp: ptr_bytes_def m_def)
  from c'[unfolded send_ka_p_def] inv(1) have "serving k p c'"
  proof (cases rule: sendData_cases)
    case (sent buf n st)
    have "bufs_inv ((grab ?w)\<lparr>c_inflight := c_inflight ?w @ [unat (c_curFreeBufIdx ?w)],
        c_outbufs := (c_outbufs ?w)[unat (c_curFreeBufIdx ?w) := buf]\<rparr>)"
      using bufs_inv_update[OF grab_bufs(3)[OF inv(1) sent(7)] sent(6)] by simp
    then have "bufs_inv c'" using sent(5) by (subst bufs_inv_cong) simp_all
    then show ?thesis using sent(5) w(1) by (simp add: serving_def grab_def Let_def)
  qed simp_all
  then show ?thesis using c' by blast
qed

lemma read_next_serving:
  assumes "serving k p c" and "conn_serves e"
  shows "\<exists>c' out. handle_read_next e c = Some (c', out) \<and> serving k p c' \<and> list_all is_sock out"
proof -
  have "e_readOk e" using assms(2) by (simp add: conn_serves_def)
  then show ?thesis
    using send_ka_serving[OF assms] assms(1) by (auto simp: handle_read_next_def async_read_p_def)
qed

lemma read_serving:
  assumes "serving k p c" and "conn_serves e"
    and "rx_bytes APC_MAX_MSG_SIZE collect p [] data = (p', ms, APC_OK)" and "list_all downlink_msg ms"
  shows "\<exists>c' out. handle_read_p e c False data = Some (c', map (\<lambda>m. NotifReceived (msg_param k m) (rx_payload m)) ms @ out)
    \<and> serving k p' c' \<and> list_all is_sock out"
proof (cases "data = []")
  case True
  then show ?thesis using read_next_serving[OF assms(1,2)] assms(3) by (auto simp: handle_read_p_def)
next
  case False
  let ?H = "conn_messageReceived e (c_intfId c)"
  let ?ns = "map (\<lambda>m. NotifReceived (msg_param k m) (rx_payload m)) ms"
  have id: "c_intfId c = k" "ser_rel APC_MAX_MSG_SIZE (c_serializer c) p" using assms(1) by (simp_all add: serving_def)
  obtain c1 where c1: "rx_bytes APC_MAX_MSG_SIZE ?H p (c, []) data = (p', (c1, ?ns), APC_OK)" "serving k p c1"
    using rx_bytes_packets[of p "[]" data p' ms k p c e "[]"] assms(1,3,4) id(1) by auto
  obtain s' where s': "dataReceived ?H (c_serializer c) (c, []) data = Some (s', (c1, ?ns), APC_OK)" "ser_rel APC_MAX_MSG_SIZE s' p'"
    using dataReceived_spec[OF id(2), of ?H "(c, [])" data] c1(1) by auto
  let ?c2 = "c1\<lparr>c_serializer := s', c_kaRxTimer := map_option (recordActivity (e_now e)) (c_kaRxTimer c1)\<rparr>"
  have "bufs_inv ?c2 = bufs_inv c1" by (rule bufs_inv_cong) simp_all
  then have "serving k p' ?c2" using c1(2) s'(2) by (simp add: serving_def)
  from read_next_serving[OF this assms(2)] obtain c3 out where "handle_read_next e ?c2 = Some (c3, out)" "serving k p' c3" "list_all is_sock out"
    by blast
  moreover have "c_isWorking c1" using c1(2) by (simp add: serving_def)
  ultimately show ?thesis using False s'(1) by (simp add: handle_read_p_def Let_def)
qed

section \<open>The notification thread\<close>

text \<open>The thread works and nobody has asked it to stop.\<close>

definition notif_live :: "CAPCCtrlNotifThread \<Rightarrow> bool" where
  "notif_live n \<longleftrightarrow> notif_inv n \<and> nt_isWork n \<and> list_all (\<lambda>x. nf_type x \<noteq> NT_TERMINATE) (nt_apcNotifQ n)"

lemma post_live:
  assumes "notif_live n" and "length pl < 2 ^ 16"
  shows "\<exists>n'. notif_post (messageReceived p pl) n = Some n' \<and> notif_live n' \<and> notif_pending n' = notif_pending n @ [messageReceived p pl]"
proof -
  obtain n' where n': "notif_post (messageReceived p pl) n = Some n'" "notif_inv n'"
      "notif_pending n' = notif_pending n @ [messageReceived p pl]"
    using notif_post_accepted[of n "messageReceived p pl"] assms by (auto simp: notif_live_def)
  then have "nt_isWork n'" "list_all (\<lambda>x. nf_type x \<noteq> NT_TERMINATE) (nt_apcNotifQ n')"
    using assms(1) by (auto simp: notif_live_def notif_messageReceived_def case_prod_beta insertNotif_p_def Let_def)
  then show ?thesis using n' by (simp add: notif_live_def)
qed

lemma posts_live:
  assumes "notif_live n" and "list_all downlink_msg ms"
  shows "\<exists>n'. notif_posts (map (msg_call k) ms) n = Some n' \<and> notif_live n' \<and> notif_pending n' = notif_pending n @ map (msg_call k) ms"
  using assms
proof (induction ms arbitrary: n)
  case (Cons m ms)
  have "length (rx_payload m) < 2 ^ 16"
    using Cons.prems(2) by (simp add: downlink_msg_def sendable_def APC_MAX_MSG_SIZE_val)
  from post_live[OF Cons.prems(1) this, of "msg_param k m"] obtain n1 where
      "notif_post (msg_call k m) n = Some n1" "notif_live n1" "notif_pending n1 = notif_pending n @ [msg_call k m]"
    unfolding msg_call_def by blast
  then show ?case using Cons.IH[of n1] Cons.prems(2) by simp
qed simp

lemma serve_live:
  assumes "notif_live n"
  shows "\<exists>n' calls. threadFun n = Some (n', calls) \<and> notif_live n' \<and> notif_pending n = calls @ notif_pending n'"
proof -
  obtain n' calls where n': "threadFun n = Some (n', calls)" "notif_inv n'" "notif_pending n = calls @ notif_pending n'"
    using threadFun_ok[of n] assms by (auto simp: notif_live_def)
  have take: "nt_isWork (thread_take n) \<and> list_all (\<lambda>x. nf_type x \<noteq> NT_TERMINATE) (nt_apcNotifQ (thread_take n))"
    if "nt_apcNotifQ n \<noteq> []"
  proof -
    have "nf_type (List.last (nt_apcNotifQ n)) \<noteq> NT_TERMINATE" using assms that by (auto simp: notif_live_def list_all_iff)
    then show ?thesis using assms by (auto simp: notif_live_def thread_take_def Let_def list_all_iff dest: in_set_butlastD)
  qed
  have "nt_isWork n' \<and> list_all (\<lambda>x. nf_type x \<noteq> NT_TERMINATE) (nt_apcNotifQ n')"
    using n'(1) assms take
    by (auto simp: threadFun_def notif_live_def split: thread_pos.splits if_splits option.splits)
  then show ?thesis using n' by (simp add: notif_live_def)
qed

section \<open>From the client to the queue of the transport\<close>

definition down_bridge :: "nat \<Rightarrow> ap_intf_id_t \<Rightarrow> byte list \<Rightarrow> bridge \<Rightarrow> bool" where
  "down_bridge i k p b \<longleftrightarrow> i < length (cl_conns (br_client b)) \<and> serving k p (cl_conns (br_client b) ! i)
     \<and> cl_hasInput (br_client b) \<and> cp_transport (br_coup b)"

text \<open>Room for \<open>n\<close> commands before the manager is paused.\<close>

definition queue_room :: "nat \<Rightarrow> CAPMTransport \<Rightarrow> bool" where
  "queue_room n t \<longleftrightarrow> length (tr_outputQueue t) + n \<le> tr_capacity t
     \<and> (0 < n \<longrightarrow> length (tr_outputQueue t) + n < unat (ti_highQueueWatermark (tr_params t)))"

text \<open>The command asks the access point for what the message of the manager asked for.\<close>

definition carries :: "APMCommand \<Rightarrow> rx_msg \<Rightarrow> bool" where
  "carries cmd m \<longleftrightarrow> ac_cmdId cmd = DN_API_LOC_CMD_AP_SEND
     \<and> apsend_parse (ac_payload cmd) = Some (apsend_hdr (client_sendhdr (rx_payload m)), drop sizeof_apc_msg_net_tx_s (rx_payload m))"

lemma insert_with_room:
  assumes "te_ready e" and "queue_room (Suc n) t" and "\<not> rq_isHighPriority rq"
  shows "\<exists>t' out. call_step e t (CallInsert rq) = (t', out) \<and> tr_outputQueue t' = tr_outputQueue t @ [queued_command e rq]
    \<and> queue_room n t' \<and> (\<forall>x \<in> set out. \<exists>d. x = SerWrite d)"
proof -
  obtain t1 out1 where s: "send e True (enqueue e rq t) = (t1, out1)" by (metis surj_pair)
  have q: "tr_outputQueue t1 = tr_outputQueue t @ [queued_command e rq]" "tr_capacity t1 = tr_capacity t" "tr_params t1 = tr_params t"
    using send_fields(1,2,4)[of e True "enqueue e rq t"] assms(3) unfolding s fst_conv by (simp_all add: enqueue_def)
  have "pause_if_high e t1 = (t1, [])" using assms(2) q by (simp add: pause_if_high_def queue_room_def)
  moreover have "length (tr_outputQueue t) \<noteq> tr_capacity t" using assms(2) by (simp add: queue_room_def)
  ultimately have "insertMsg e rq t = (startQueueCheckTimer t1, APC_OK, out1)"
    using insertMsg_ready[OF assms(1)] s q by simp
  moreover have "\<forall>x \<in> set out1. \<exists>d. x = SerWrite d"
    using s by (auto simp: send_def sendCommand_def Let_def split: if_splits list.splits)
  ultimately show ?thesis using q assms(2) by (simp add: startQueueCheckTimer_def queue_room_def)
qed

lemma coup_all_writes: "\<forall>x \<in> set out. \<exists>d. x = SerWrite d \<Longrightarrow> coup_all e out c = Some (c, (), [])"
  by (induction out) (auto simp: doing_def)

lemma client_packet:
  assumes "cl_hasInput cl" and "downlink_msg m"
  shows "\<exists>cl'. client_messageReceived (msg_param k m) (rx_payload m) cl = Some (cl', (),
      [UserCall (in_dataRx (client_sendhdr (rx_payload m)) (drop sizeof_apc_msg_net_tx_s (rx_payload m)))])
    \<and> cl_conns cl' = cl_conns cl \<and> cl_hasInput cl'"
proof -
  have "rx_type m = APC_NET_TX" "\<not> length (rx_payload m) < sizeof_apc_msg_net_tx_s" using assms(2) by (simp_all add: downlink_msg_def)
  then show ?thesis
    using assms(1) by (cases "rx_flags m AND APC_HDR_FLAGS_NOTRACK = 0") (simp_all add: client_messageReceived_def msg_param_def)
qed

lemma bridge_packet:
  assumes "down_bridge i k p b" and "downlink_msg m" and "queue_room (Suc n) (br_tr b)" and "te_ready (be_tr e)"
  shows "\<exists>b' out cout cmd. bridge_notif e (msg_call k m) b = Some (b', out, cout) \<and> down_bridge i k p b'
    \<and> tr_outputQueue (br_tr b') = tr_outputQueue (br_tr b) @ [cmd] \<and> carries cmd m \<and> queue_room n (br_tr b')"
proof -
  let ?pl = "rx_payload m" and ?te = "coupled (be_coup e) (br_coup b) (be_tr e)"
  let ?u = "in_dataRx (client_sendhdr ?pl) (drop sizeof_apc_msg_net_tx_s ?pl)"
  have st: "cl_hasInput (br_client b)" "cp_transport (br_coup b)" using assms(1) by (simp_all add: down_bridge_def)
  obtain cl where cl: "client_notif (be_client e) (de_stop e) (msg_call k m) (br_client b) = Some (cl, (), [UserCall ?u])"
      "cl_conns cl = cl_conns (br_client b)" "cl_hasInput cl"
    using client_packet[OF st(1) assms(2), of k] by (auto simp: client_notif_def msg_call_def)
  obtain rq where rq: "coup_dataRx (be_coup e) (client_sendhdr ?pl) (drop sizeof_apc_msg_net_tx_s ?pl) (br_coup b) = Some (br_coup b, (), [TrInsert rq])"
      "rq_cmdId rq = DN_API_LOC_CMD_AP_SEND" "\<not> rq_isHighPriority rq"
      "apsend_parse (rq_data rq) = Some (apsend_hdr (client_sendhdr ?pl), drop sizeof_apc_msg_net_tx_s ?pl)"
    using manager_packet_reaches_ap[OF st(2)] by blast
  have "te_ready ?te" using assms(4) by (simp add: coupled_def)
  from insert_with_room[OF this assms(3) rq(3)] obtain t' out where
      t': "call_step ?te (br_tr b) (CallInsert rq) = (t', out)" "tr_outputQueue t' = tr_outputQueue (br_tr b) @ [queued_command ?te rq]"
        "queue_room n t'" "\<forall>x \<in> set out. \<exists>d. x = SerWrite d" by blast
  have "bridge_notif e (msg_call k m) b = Some (\<lparr>br_tr = t', br_coup = br_coup b, br_client = cl\<rparr>, out, [UserCall ?u])"
    using cl(1) rq(1) t'(1) coup_all_writes[OF t'(4)]
    by (simp add: bridge_notif_def mngr_notif_def doing_def tr_calls_def run.simps client_call_def)
  moreover have "carries (queued_command ?te rq) m" using rq by (simp add: carries_def queued_command_def)
  ultimately show ?thesis using t' cl(2,3) assms(1) by (auto simp: down_bridge_def)
qed

lemma bridge_packets:
  assumes "down_bridge i k p b" and "list_all downlink_msg ms" and "queue_room (length ms + n) (br_tr b)" and "te_ready (be_tr e)"
  shows "\<exists>b' out cout cmds. bridge_notifs e (map (msg_call k) ms) b = Some (b', out, cout) \<and> down_bridge i k p b'
    \<and> tr_outputQueue (br_tr b') = tr_outputQueue (br_tr b) @ cmds \<and> list_all2 carries cmds ms \<and> queue_room n (br_tr b')"
  using assms(1-3)
proof (induction ms arbitrary: b)
  case (Cons m ms)
  obtain b1 out1 cout1 cmd where b1: "bridge_notif e (msg_call k m) b = Some (b1, out1, cout1)" "down_bridge i k p b1"
      "tr_outputQueue (br_tr b1) = tr_outputQueue (br_tr b) @ [cmd]" "carries cmd m" "queue_room (length ms + n) (br_tr b1)"
    using bridge_packet[OF Cons.prems(1) _ _ assms(4), of m "length ms + n"] Cons.prems(2,3) by auto
  obtain b2 out2 cout2 cmds where b2: "bridge_notifs e (map (msg_call k) ms) b1 = Some (b2, out2, cout2)" "down_bridge i k p b2"
      "tr_outputQueue (br_tr b2) = tr_outputQueue (br_tr b1) @ cmds" "list_all2 carries cmds ms" "queue_room n (br_tr b2)"
    using Cons.IH[OF b1(2) _ b1(5)] Cons.prems(2) by auto
  then show ?case
    using b1 by (intro exI[of _ b2] exI[of _ "out1 @ out2"] exI[of _ "cout1 @ cout2"] exI[of _ "cmd # cmds"]) simp
qed simp

section \<open>Any interleaving\<close>

definition down_state :: "nat \<Rightarrow> ap_intf_id_t \<Rightarrow> byte list \<Rightarrow> rx_msg list \<Rightarrow> downlink \<Rightarrow> bool" where
  "down_state i k p pend d \<longleftrightarrow> down_bridge i k p (dl_bridge d) \<and> notif_live (dl_notif d)
     \<and> notif_pending (dl_notif d) = map (msg_call k) pend"

fun event_bytes :: "down_event \<Rightarrow> byte list" where
  "event_bytes (NetRead e data) = data"
| "event_bytes (NotifStep e) = []"

fun event_ok :: "down_event \<Rightarrow> bool" where
  "event_ok (NetRead e data) \<longleftrightarrow> conn_serves e"
| "event_ok (NotifStep e) \<longleftrightarrow> te_ready (be_tr e)"

abbreviation down_queue :: "downlink \<Rightarrow> APMCommand list" where
  "down_queue d \<equiv> tr_outputQueue (br_tr (dl_bridge d))"

lemma conn_notifs_read:
  assumes "list_all is_sock out"
  shows "conn_notifs (map (ConnOut i) (map (\<lambda>m. NotifReceived (msg_param k m) (rx_payload m)) ms @ out)) = map (msg_call k) ms"
proof -
  have "conn_notifs (map (ConnOut i) out) = []"
    using assms by (induction out rule: list.induct) (auto simp: conn_notifs_def elim: is_sock.elims(2))
  then show ?thesis by (induction ms) (simp_all add: conn_notifs_def msg_call_def)
qed

lemma down_read_ok:
  assumes "down_state i k p pend d" and "conn_serves e"
    and "rx_bytes APC_MAX_MSG_SIZE collect p [] data = (p', ms, APC_OK)" and "list_all downlink_msg ms"
  shows "\<exists>d' out. down_read i e data d = Some (d', [], out) \<and> down_state i k p' (pend @ ms) d' \<and> br_tr (dl_bridge d') = br_tr (dl_bridge d)"
proof -
  let ?cl = "br_client (dl_bridge d)"
  have st: "i < length (cl_conns ?cl)" "serving k p (cl_conns ?cl ! i)" "cl_hasInput ?cl" "cp_transport (br_coup (dl_bridge d))"
      "notif_live (dl_notif d)" "notif_pending (dl_notif d) = map (msg_call k) pend"
    using assms(1) by (simp_all add: down_state_def down_bridge_def)
  obtain c' out where c': "handle_read_p e (cl_conns ?cl ! i) False data =
        Some (c', map (\<lambda>m. NotifReceived (msg_param k m) (rx_payload m)) ms @ out)" "serving k p' c'" "list_all is_sock out"
    using read_serving[OF st(2) assms(2-4)] by blast
  obtain n' where n': "notif_posts (map (msg_call k) ms) (dl_notif d) = Some n'" "notif_live n'"
      "notif_pending n' = map (msg_call k) pend @ map (msg_call k) ms"
    using posts_live[OF st(5) assms(4), of k] st(6) by auto
  then show ?thesis
    using st c'(1,2) conn_notifs_read[OF c'(3), of i k ms]
    by (simp add: down_read_def on_conn_def down_state_def down_bridge_def)
qed

lemma down_serve_ok:
  assumes "down_state i k p pend d" and "te_ready (be_tr e)" and "list_all downlink_msg pend"
    and "queue_room (length pend + n) (br_tr (dl_bridge d))"
  shows "\<exists>d' out cout ms pend' cmds. down_serve e d = Some (d', out, cout) \<and> pend = ms @ pend' \<and> down_state i k p pend' d'
    \<and> down_queue d' = down_queue d @ cmds \<and> list_all2 carries cmds ms \<and> queue_room (length pend' + n) (br_tr (dl_bridge d'))"
proof -
  have st: "down_bridge i k p (dl_bridge d)" "notif_live (dl_notif d)" "notif_pending (dl_notif d) = map (msg_call k) pend"
    using assms(1) by (simp_all add: down_state_def)
  obtain n' calls where n': "threadFun (dl_notif d) = Some (n', calls)" "notif_live n'" "map (msg_call k) pend = calls @ notif_pending n'"
    using serve_live[OF st(2)] st(3) by metis
  then obtain ms pend' where ms: "pend = ms @ pend'" "calls = map (msg_call k) ms" "notif_pending n' = map (msg_call k) pend'"
    by (auto simp: map_eq_append_conv)
  have "list_all downlink_msg ms" "queue_room (length ms + (length pend' + n)) (br_tr (dl_bridge d))"
    using assms(3,4) ms(1) by (simp_all add: add.assoc)
  from bridge_packets[OF st(1) this assms(2)] obtain b' out cout cmds where
      b': "bridge_notifs e calls (dl_bridge d) = Some (b', out, cout)" "down_bridge i k p b'"
        "tr_outputQueue (br_tr b') = down_queue d @ cmds" "list_all2 carries cmds ms" "queue_room (length pend' + n) (br_tr b')"
    unfolding ms(2) by blast
  then show ?thesis
    using n' ms by (intro exI[of _ "\<lparr>dl_bridge = b', dl_notif = n'\<rparr>"] exI[of _ out] exI[of _ cout] exI[of _ ms] exI[of _ pend'] exI[of _ cmds])
      (simp add: down_serve_def down_state_def)
qed

lemma rx_split:
  assumes "rx_bytes M collect p [] (xs @ ys) = ([], ms, APC_OK)"
  shows "\<exists>p' ms1 ms2. rx_bytes M collect p [] xs = (p', ms1, APC_OK) \<and> rx_bytes M collect p' [] ys = ([], ms2, APC_OK) \<and> ms = ms1 @ ms2"
proof -
  obtain p' ms1 r where x: "rx_bytes M collect p [] xs = (p', ms1, r)" by (metis prod_cases3)
  then have r: "r = APC_OK" "rx_bytes M collect p' ms1 ys = ([], ms, APC_OK)" using assms by (auto simp: rx_bytes_append split: if_splits)
  have "rx_bytes M collect p' (acc @ got) ys = (case rx_bytes M collect p' got ys of (q, ns, r) \<Rightarrow> (q, acc @ ns, r))" for acc got p'
  proof (induction ys arbitrary: p' got)
    case (Cons y ys)
    obtain q ns r where "rx_byte M collect p' [] y = (q, ns, r)" by (metis prod_cases3)
    then have "rx_byte M collect p' (acc @ got) y = (q, acc @ got @ ns, r)" "rx_byte M collect p' got y = (q, got @ ns, r)"
      using rx_byte_collect[of M p' "acc @ got" y] rx_byte_collect[of M p' got y] by simp_all
    then show ?case using Cons.IH[of q "got @ ns"] by simp
  qed simp
  from this[of p' ms1 "[]"] r x show ?thesis by (auto split: prod.splits)
qed

lemma down_run_ok:
  assumes "down_state i k p pend d" and "rx_bytes APC_MAX_MSG_SIZE collect p [] (concat (map event_bytes evs)) = ([], later, APC_OK)"
    and "list_all event_ok evs" and "list_all downlink_msg (pend @ later)" and "queue_room (length (pend @ later)) (br_tr (dl_bridge d))"
  shows "\<exists>d' out cout cmds ms rest. down_run i evs d = Some (d', out, cout) \<and> pend @ later = ms @ rest \<and> down_state i k [] rest d'
    \<and> down_queue d' = down_queue d @ cmds \<and> list_all2 carries cmds ms"
  using assms
proof (induction evs arbitrary: p pend d later)
  case Nil
  then show ?case by (intro exI[of _ d] exI[of _ "[]"] exI[of _ "[]"] exI[of _ "[]"] exI[of _ "[]"] exI[of _ "pend @ later"]) simp
next
  case (Cons ev evs)
  show ?case
  proof (cases ev)
    case (NetRead e data)
    obtain p' ms1 ms2 where rx: "rx_bytes APC_MAX_MSG_SIZE collect p [] data = (p', ms1, APC_OK)"
        "rx_bytes APC_MAX_MSG_SIZE collect p' [] (concat (map event_bytes evs)) = ([], ms2, APC_OK)" "later = ms1 @ ms2"
      using rx_split[of APC_MAX_MSG_SIZE p data "concat (map event_bytes evs)" later] Cons.prems(2) NetRead by auto
    have "conn_serves e" "list_all downlink_msg ms1" using Cons.prems(3,4) NetRead rx(3) by simp_all
    from down_read_ok[OF Cons.prems(1) this(1) rx(1) this(2)] obtain d1 out1 where
        d1: "down_read i e data d = Some (d1, [], out1)" "down_state i k p' (pend @ ms1) d1" "br_tr (dl_bridge d1) = br_tr (dl_bridge d)"
      by blast
    from Cons.IH[OF d1(2) rx(2)] Cons.prems(3-5) rx(3) d1(3) obtain d' out cout cmds ms rest where
        "down_run i evs d1 = Some (d', out, cout)" "pend @ later = ms @ rest" "down_state i k [] rest d'"
        "down_queue d' = down_queue d @ cmds" "list_all2 carries cmds ms"
      by auto
    then show ?thesis
      using d1(1) NetRead
      by (intro exI[of _ d'] exI[of _ out] exI[of _ "out1 @ cout"] exI[of _ cmds] exI[of _ ms] exI[of _ rest]) simp
  next
    case (NotifStep e)
    have "te_ready (be_tr e)" "list_all downlink_msg pend" "queue_room (length pend + length later) (br_tr (dl_bridge d))"
      using Cons.prems(3-5) NotifStep by simp_all
    from down_serve_ok[OF Cons.prems(1) this] obtain d1 out1 cout1 ms1 pend1 cmds1 where
        d1: "down_serve e d = Some (d1, out1, cout1)" "pend = ms1 @ pend1" "down_state i k p pend1 d1"
          "down_queue d1 = down_queue d @ cmds1" "list_all2 carries cmds1 ms1" "queue_room (length pend1 + length later) (br_tr (dl_bridge d1))"
      by blast
    from Cons.IH[OF d1(3), of later] Cons.prems(2-4) NotifStep d1(2,6) obtain d' out cout cmds ms rest where
        d': "down_run i evs d1 = Some (d', out, cout)" "pend1 @ later = ms @ rest" "down_state i k [] rest d'"
          "down_queue d' = down_queue d1 @ cmds" "list_all2 carries cmds ms"
      by auto
    have q: "down_queue d' = down_queue d @ (cmds1 @ cmds)" "list_all2 carries (cmds1 @ cmds) (ms1 @ ms)" "pend @ later = (ms1 @ ms) @ rest"
      using d1(2,4,5) d'(2,4,5) by (simp_all add: list_all2_appendI)
    show ?thesis
      using d1(1) d'(1,3) q NotifStep
      by (intro exI[of _ d'] exI[of _ "out1 @ out"] exI[of _ "cout1 @ cout"] exI[of _ "cmds1 @ cmds"] exI[of _ "ms1 @ ms"] exI[of _ rest]) simp
  qed
qed

text \<open>
  Claim C2.  Packets of the manager reach the access point's queue.  The bytes of any sequence of \<^verbatim>\<open>APC_NET_TX\<close> messages arrive
  at the manager connection in pieces cut anywhere, and reads of the socket interleave with steps of the notification thread in any order.
  While the session is up and the queue of the transport stays below its high watermark, every event succeeds, the connector keeps
  serving, and the commands added to the queue are \<^verbatim>\<open>AP_SEND\<close> commands that the access point reads back to the
  header and the payload of a prefix of the messages, in order and each exactly once; the other messages wait in the notification thread, and none
  does once the thread sleeps.\<close>

theorem manager_packets_reach_queue:
  assumes state: "down_state i k [] [] d"
    and bytes: "concat (map event_bytes evs) = concat (map wire_bytes ms)" and msgs: "list_all downlink_msg ms"
    and envs: "list_all event_ok evs" and room: "queue_room (length ms) (br_tr (dl_bridge d))"
  shows "\<exists>d' out cout cmds n. down_run i evs d = Some (d', out, cout) \<and> down_state i k [] (drop n ms) d'
    \<and> tr_outputQueue (br_tr (dl_bridge d')) = tr_outputQueue (br_tr (dl_bridge d)) @ cmds \<and> list_all2 carries cmds (take n ms)
    \<and> notif_pending (dl_notif d') = map (msg_call k) (drop n ms)
    \<and> (nt_thread (dl_notif d') = Waiting \<longrightarrow> length cmds = length ms)"
proof -
  have "list_all (sendable APC_MAX_MSG_SIZE) ms" using msgs by (auto simp: list_all_iff downlink_msg_def)
  then have "rx_bytes APC_MAX_MSG_SIZE collect [] [] (concat (map event_bytes evs)) = ([], ms, APC_OK)"
    using rx_wire_stream[of APC_MAX_MSG_SIZE ms "[]"] bytes by simp
  from down_run_ok[OF state this envs] msgs room obtain d' out cout cmds ms1 rest where
      d': "down_run i evs d = Some (d', out, cout)" "ms = ms1 @ rest" "down_state i k [] rest d'"
        "down_queue d' = down_queue d @ cmds" "list_all2 carries cmds ms1"
    by auto
  have pending: "notif_pending (dl_notif d') = map (msg_call k) rest" "notif_inv (dl_notif d')"
    using d'(3) by (simp_all add: down_state_def notif_live_def)
  have "rest = []" if "nt_thread (dl_notif d') = Waiting"
    using that pending by (simp add: notif_inv_def notif_pending_def notif_todo_def)
  then have "nt_thread (dl_notif d') = Waiting \<longrightarrow> length cmds = length ms"
    using d'(2) list_all2_lengthD[OF d'(5)] by auto
  then show ?thesis
    using d' pending(1)
    by (intro exI[of _ d'] exI[of _ out] exI[of _ cout] exI[of _ cmds] exI[of _ "length ms1"]) simp
qed

text \<open>Two packets in three pieces, with steps of the thread between them.\<close>

definition demo_packet :: "u32 \<Rightarrow> byte \<Rightarrow> rx_msg" where
  "demo_packet q x = \<lparr>rx_type = APC_NET_TX, rx_flags = 0, rx_mySeq = q, rx_yourSeq = 0,
     rx_payload = [2, 0x34, 0x12, 0, 1, 7, 0, 0, 0, 2, 3, 0, x]\<rparr>"

definition demo_down_env :: down_env where
  "demo_down_env = \<lparr>be_tr = demo_tr_env, be_coup = demo_coup_env, be_client = demo_client_env, be_seq = 0, de_stop = drain_env\<rparr>"

definition demo_downlink :: downlink where
  "demo_downlink = \<lparr>dl_bridge = \<lparr>br_tr = demo_tr, br_coup = demo_coupler, br_client = demo_client (new_CAPCCache 2)\<rparr>,
     dl_notif = started_thread\<rparr>"

definition demo_events :: "down_event list" where
  "demo_events = (let bs = concat (map wire_bytes [demo_packet 1 8, demo_packet 2 9]) in
     [NetRead drain_env (take 20 bs), NotifStep demo_down_env, NetRead drain_env (take 13 (drop 20 bs)), NotifStep demo_down_env,
      NetRead drain_env (drop 33 bs)] @ replicate 5 (NotifStep demo_down_env))"

lemma drain_env_serves: "conn_serves drain_env"
  unfolding conn_serves_def
proof (intro conjI allI impI)
  show "e_readOk drain_env" "e_writeOk drain_env" by (simp_all add: drain_env_def quiet_env_def)
  fix k p c assume s: "serving k p c"
  have "conn_ready (c_lastReceivedSeqNum c) c" using s by (simp add: serving_def conn_ready_def)
  note r = complete_buf_ready[OF this]
  have "c_numFreeOutBuf c = 0 \<Longrightarrow> serving k p (complete_buf c)"
    using s r by (simp add: serving_def conn_ready_def complete_buf_def freeBuf_p_def incrNumFreeBuf_p_def)
  then show "serving k p (waited drain_env c)" "c_numFreeOutBuf (waited drain_env c) \<noteq> 0"
    using s r by (auto simp: drain_env_def quiet_env_def serving_def)
qed

lemma demo_events_bytes:
  "concat (map event_bytes demo_events) = concat (map wire_bytes [demo_packet 1 8, demo_packet 2 9])"
proof -
  define bs where "bs = concat (map wire_bytes [demo_packet 1 8, demo_packet 2 9])"
  have "take 33 bs = take 20 bs @ take 13 (drop 20 bs)" using take_add[of 20 13 bs] by simp
  then have "take 20 bs @ take 13 (drop 20 bs) @ drop 33 bs = bs" by (metis append.assoc append_take_drop_id)
  moreover have "concat (map event_bytes demo_events) = take 20 bs @ take 13 (drop 20 bs) @ drop 33 bs"
    unfolding demo_events_def bs_def[symmetric] Let_def by (simp only: map_append map_replicate list.map concat_append concat.simps
      concat_replicate_trivial event_bytes.simps append_Nil append_Nil2)
  ultimately show ?thesis unfolding bs_def by simp
qed

lemma demo_packet_ok: "downlink_msg (demo_packet q x)"
proof -
  have "bufferCast_p sizeof_apc_msg_net_tx_s (rx_payload (demo_packet q x))" "length (rx_payload (demo_packet q x)) = 13"
    by (simp_all add: bufferCast_p_def demo_packet_def wire_simps)
  then show ?thesis
    by (simp add: downlink_msg_def sendable_def convert_def demo_packet_def apc_const_defs wire_simps APC_MAX_MSG_SIZE_val)
qed

theorem manager_packets_reach_queue_witness:
  "\<exists>d' out cout cmds n. down_run 0 demo_events demo_downlink = Some (d', out, cout)
     \<and> tr_outputQueue (br_tr (dl_bridge d')) = tr_outputQueue (br_tr (dl_bridge demo_downlink)) @ cmds
     \<and> list_all2 carries cmds (take n [demo_packet 1 8, demo_packet 2 9])"
proof -
  let ?ms = "[demo_packet 1 8, demo_packet 2 9]"
  have live: "notif_live started_thread"
    using started_thread_inv(1) by (simp add: notif_live_def started_thread_def new_CAPCCtrlNotifThread_def)
  have conn: "serving 0 [] (cl_conns (demo_client (new_CAPCCache 2)) ! 0)"
    using demo_client_ready(3)[of "new_CAPCCache 2"] demo_conn_simps
    by (simp add: serving_def conn_ready_def demo_client_def demo_conn_def new_CAPCConnector_def APINTFID_EMPTY_def)
  have state: "down_state 0 0 [] [] demo_downlink"
    using live conn started_thread_inv(2) demo_client_ready(2)[of "new_CAPCCache 2"]
    by (simp add: down_state_def down_bridge_def demo_downlink_def demo_coupler_def demo_client_def)
  have msgs: "list_all downlink_msg ?ms" by (simp add: demo_packet_ok)
  have bytes: "concat (map event_bytes demo_events) = concat (map wire_bytes ?ms)" by (rule demo_events_bytes)
  have envs: "list_all event_ok demo_events"
    using drain_env_serves by (simp add: demo_events_def Let_def demo_down_env_def demo_tr_env_def list_all_iff)
  have room: "queue_room (length ?ms) (br_tr (dl_bridge demo_downlink))"
    unfolding demo_downlink_def by code_simp
  from manager_packets_reach_queue[OF state bytes msgs envs room] show ?thesis by blast
qed

end
