(* ===== verification/APC_Main.thy ===== *)
theory APC_Main
  imports Input_Arguments Node_State Bridge_Downlink
begin

text \<open>
  The process (\<^verbatim>\<open>APInterface/apc_main.cpp\<close>): the components are made from the arguments, opened, connected and started; the main thread waits for a stop request and stops
  them in turn.  The steps call the operations of the components' own models.  Left out are logging, the RPC server (a component
  of its own that the other parts do not depend on) and the thread that runs the asio service.
\<close>

section \<open>Parameters of the components\<close>

abbreviation text_bytes :: "string \<Rightarrow> byte list" where
  "text_bytes \<equiv> map of_char"

definition transportCfg :: "CApcProcessInputArguments \<Rightarrow> tr_init_param_t" where
  "transportCfg a = new_tr_init_param (aa_maxQueueSize a) (aa_highQueueWatermark a) (aa_lowQueueWatermark a) (aa_pingTimeout a)
     (aa_retryDelay a) (aa_retryTimeout a) (aa_maxRetries a) (aa_maxMsgSize a) (aa_maxPacketAge a)"

definition apcStartCfg :: "CApcProcessInputArguments \<Rightarrow> start_param_t" where
  "apcStartCfg a = \<lparr>sp_host = text_bytes (aa_sHostName a), sp_port = aa_port a, sp_kaTimeout = aa_apcKaTimeout a,
     sp_freeBufTimeout = aa_apcfreeBufferTimeout a, sp_reconnectionDelayMsec = aa_apcReconnectDelay a,
     sp_disconnectTimeoutMsec = aa_apcDisconnectTimeout a\<rparr>"

definition resetSignal :: "CApcProcessInputArguments \<Rightarrow> EAPResetSignal" where
  "resetSignal a = (if aa_sResetSignal a = RESET_SIGNAL_TX then AP_RESET_SIGNAL_TX else AP_RESET_SIGNAL_DTR)"

definition apcOpenCfg :: "CApcProcessInputArguments \<Rightarrow> open_param_t" where
  "apcOpenCfg a = \<lparr>op_hasInput = True, op_intfName = text_bytes (aa_clientId a)\<rparr>"

definition apm_init_params :: "CApcProcessInputArguments \<Rightarrow> coup_init_param_t" where
  "apm_init_params a = \<lparr>ci_transport = True, ci_mngrClient = True, ci_mngrClientParam = apcStartCfg a, ci_gps = True,
     ci_gpsd_conn = aa_bGpsdConn a, ci_resetBootTimeoutMsec = aa_resetBootTimeout a,
     ci_disconnectShortBootTimeoutMsec = aa_disconnectShortBootTimeoutMsec a,
     ci_disconnectLongBootTimeoutMsec = aa_disconnectLongBootTimeoutMsec a, ci_apClkSource = aa_apClkSource a\<rparr>"

section \<open>Start\<close>

record apc_proc =
  px_port :: CSerialPort
  px_bridge :: bridge
  px_notif :: CAPCCtrlNotifThread

text \<open>
  Whether the device could be opened at each attempt, whether the notification thread began in time, and the content of the members of the coupler that are
  not set before it is opened.
\<close>

record main_env =
  me_opens :: "bool list"
  me_began :: bool
  me_param0 :: start_param_t
  me_gpsd0 :: bool

text \<open>The retry loop around \<^verbatim>\<open>openPort\<close>; \<^const>\<open>None\<close>: all attempts so far failed.\<close>

fun open_loop :: "bool list \<Rightarrow> CSerialPort \<Rightarrow> CSerialPort option" where
  "open_loop [] s = None"
| "open_loop (isOpened # bs) s = (case openPort isOpened s of (s, res) \<Rightarrow> if res \<noteq> APC_OK then open_loop bs s else Some s)"

text \<open>The watchdog client of this build is the null pointer.\<close>

definition getWdClient :: bool where
  "getWdClient = False"

definition setWDClient :: "bool \<Rightarrow> CAPCoupler \<Rightarrow> CAPCoupler" where
  "setWDClient pWDdClient c = c\<lparr>cp_hasWd := pWDdClient\<rparr>"

text \<open>\<^const>\<open>Inl\<close> is a \<^verbatim>\<open>runtime_error\<close>, \<^const>\<open>None\<close> a process that does not get further: it retries, or an assertion failed.\<close>

definition main_open :: "main_env \<Rightarrow> CApcProcessInputArguments \<Rightarrow> (string + apc_proc) option" where
  "main_open e a =
     (let port = new_CSerialPort (resetSignal a) (aa_baudRate a) True;
          coupler = new_CAPCoupler (me_param0 e) (me_gpsd0 e);
          client = new_CAPCClient (aa_apcMaxQueueSize a);
          transport = new_CAPMTransport (aa_bReconnectSerial a)
      in case client_open (me_began e) (apcOpenCfg a) client new_CAPCCtrlNotifThread of None \<Rightarrow> None
         | Some (client, notif, result) \<Rightarrow>
           if result \<noteq> APC_OK then Some (Inl ''APC Client open failed'')
           else (case open_loop (me_opens e) port of None \<Rightarrow> None
             | Some port \<Rightarrow>
               let transport = tr_open (transportCfg a) transport in
               (case coup_open (apm_init_params a) coupler of None \<Rightarrow> None
                | Some (coupler, result) \<Rightarrow>
                  if result \<noteq> APC_OK then Some (Inl ''APCoupler start failed'')
                  else
                    let port = fst (ser_start port); coupler = setWDClient getWdClient coupler
                    in Some (Inr \<lparr>px_port = port, px_bridge = \<lparr>br_tr = transport, br_coup = coupler, br_client = client\<rparr>,
                                  px_notif = notif\<rparr>))))"

text \<open>
  The whole of \<^verbatim>\<open>main\<close>: the exit code, once the stop request is seen.  The stop of the components follows the wait in the order of the code.
\<close>

datatype main_stop = StopCoupler | StopService | JoinService | FinishWd | StopPort | StopRpc

definition stop_sequence :: "main_stop list" where
  "stop_sequence = [StopCoupler, StopService, JoinService, FinishWd, StopPort, StopRpc]"

definition apc_main :: "parse_env \<Rightarrow> string \<Rightarrow> main_env \<Rightarrow> node_event list \<Rightarrow> (nat \<times> main_stop list) option" where
  "apc_main pe gpsdPort e evs =
     (case apc_parse pe (new_CApcProcessInputArguments gpsdPort) of Inl _ \<Rightarrow> Some (1, [])
      | Inr a \<Rightarrow>
        (case main_open e a of None \<Rightarrow> None
         | Some (Inl _) \<Rightarrow> Some (1, [])
         | Some (Inr p) \<Rightarrow> if fst (node_run evs) = WsReturned then Some (0, stop_sequence) else None))"

section \<open>The started process\<close>

lemma open_loop_opens:
  "open_loop bs s = (if True \<in> set bs then Some (s\<lparr>sr_isOpen := True\<rparr>) else None)"
  by (induction bs arbitrary: s) (auto simp: openPort_def)

lemma client_open_fresh:
  "client_open began p (new_CAPCClient n) new_CAPCCtrlNotifThread =
     Some ((new_CAPCClient n)\<lparr>cl_hasInput := op_hasInput p, cl_intfName := op_intfName p\<rparr>,
       if began then (started_thread, APC_OK)
       else (new_CAPCCtrlNotifThread\<lparr>nt_thread := Starting, nt_hasExtrn := True, nt_isWork := False\<rparr>, APC_ERR_STATE))"
  by (simp add: client_open_def notif_init_def notif_start_def new_CAPCCtrlNotifThread_def started_thread_def Let_def)

lemma main_open_eq:
  "main_open e a =
     (if \<not> me_began e then Some (Inl ''APC Client open failed'')
      else if True \<notin> set (me_opens e) then None
      else Some (Inr \<lparr>
        px_port = (new_CSerialPort (resetSignal a) (aa_baudRate a) True)\<lparr>sr_isOpen := True, sr_hasHandler := True\<rparr>,
        px_bridge = \<lparr>br_tr = tr_open (transportCfg a) (new_CAPMTransport (aa_bReconnectSerial a)),
          br_coup = setWDClient False (fst (the (coup_open (apm_init_params a) (new_CAPCoupler (me_param0 e) (me_gpsd0 e))))),
          br_client = (new_CAPCClient (aa_apcMaxQueueSize a))\<lparr>cl_hasInput := True, cl_intfName := text_bytes (aa_clientId a)\<rparr>\<rparr>,
        px_notif = started_thread\<rparr>))"
  by (simp add: main_open_def client_open_fresh open_loop_opens apcOpenCfg_def coup_open_def apm_init_params_def new_CAPCoupler_def
      ser_start_def getWdClient_def)

text \<open>
  Claim C31.  What every component relies on holds when the process has started.  If opening the components succeeds, then the serial port is open with an idle
  decoder and a receiver, the transport has an empty queue of the configured capacity and is a start of its reachable states, the client has an empty cache of the
  configured size and reports to the coupler, the notification thread runs with nothing pending and accepts notifications, and the coupler has its transport and its
  client, well-formed data of the access point, and the configured parameters of the session.\<close>

theorem start_up_establishes_invariants:
  assumes "main_open e a = Some (Inr p)"
  shows "sr_isOpen (px_port p) \<and> sr_hasHandler (px_port p) \<and> (\<exists>enc. sr_encoder (px_port p) = Some enc \<and> hdlc_idle enc \<and> m_handler enc)
    \<and> link_reach (transportCfg a) (br_tr (px_bridge p)) [] \<and> tr_outputQueue (br_tr (px_bridge p)) = []
    \<and> tr_capacity (br_tr (px_bridge p)) = unat (aa_maxQueueSize a)
    \<and> cache_reach (aa_apcMaxQueueSize a) (cl_cache (br_client (px_bridge p))) [] \<and> cl_hasInput (br_client (px_bridge p))
    \<and> notif_live (px_notif p) \<and> notif_pending (px_notif p) = []
    \<and> cp_transport (br_coup (px_bridge p)) \<and> cp_mngrClient (br_coup (px_bridge p)) \<and> ap_info_wf (br_coup (px_bridge p))
    \<and> cp_client_start_param (br_coup (px_bridge p)) = apcStartCfg a"
proof -
  let ?c = "br_coup (px_bridge p)"
  have p: "px_port p = (new_CSerialPort (resetSignal a) (aa_baudRate a) True)\<lparr>sr_isOpen := True, sr_hasHandler := True\<rparr>"
      "br_tr (px_bridge p) = tr_open (transportCfg a) (new_CAPMTransport (aa_bReconnectSerial a))"
      "br_client (px_bridge p) = (new_CAPCClient (aa_apcMaxQueueSize a))\<lparr>cl_hasInput := True, cl_intfName := text_bytes (aa_clientId a)\<rparr>"
      "px_notif p = started_thread"
      "?c = setWDClient False (fst (the (coup_open (apm_init_params a) (new_CAPCoupler (me_param0 e) (me_gpsd0 e)))))"
    using assms unfolding main_open_eq by (auto split: if_splits)
  have coup: "cp_transport ?c" "cp_mngrClient ?c" "ap_info_wf ?c" "cp_client_start_param ?c = apcStartCfg a"
    unfolding p(5) by (simp_all add: coup_open_def apm_init_params_def new_CAPCoupler_def setWDClient_def ap_info_wf_def new_SAPMInfo_def)
  have port: "sr_isOpen (px_port p)" "sr_hasHandler (px_port p)" "sr_encoder (px_port p) = Some (new_CHDLC 256 True)"
      "hdlc_idle (new_CHDLC 256 True)" "m_handler (new_CHDLC 256 True)"
    unfolding p(1) by (simp_all add: new_CSerialPort_def MAX_HDLC_BUFFER_LEN_def hdlc_idle_def new_CHDLC_def hdlc_reset_def)
  have tr: "link_reach (transportCfg a) (br_tr (px_bridge p)) []" "tr_outputQueue (br_tr (px_bridge p)) = []"
      "tr_capacity (br_tr (px_bridge p)) = unat (aa_maxQueueSize a)"
    using link_reach.opened[of "transportCfg a" "aa_bReconnectSerial a"] unfolding p(2)
    by (simp_all add: tr_open_def startPPSTimer_def new_CAPMTransport_def transportCfg_def new_tr_init_param_def)
  have client: "cache_reach (aa_apcMaxQueueSize a) (cl_cache (br_client (px_bridge p))) []" "cl_hasInput (br_client (px_bridge p))"
    using reach_new[of "aa_apcMaxQueueSize a"] unfolding p(3) by (simp_all add: new_CAPCClient_def)
  have notif: "notif_live (px_notif p)" "notif_pending (px_notif p) = []"
    using started_thread_inv unfolding p(4) by (simp_all add: notif_live_def started_thread_def new_CAPCCtrlNotifThread_def)
  show ?thesis using coup port tr client notif by blast
qed

definition demo_main_env :: main_env where
  "demo_main_env = \<lparr>me_opens = [False, True], me_began = True, me_param0 = demo_start_param, me_gpsd0 = False\<rparr>"

theorem start_up_establishes_invariants_witness:
  "\<exists>p. main_open demo_main_env demo_args = Some (Inr p) \<and> link_reach (transportCfg demo_args) (br_tr (px_bridge p)) []
    \<and> notif_live (px_notif p)"
proof -
  obtain p where p: "main_open demo_main_env demo_args = Some (Inr p)" by (simp add: main_open_eq demo_main_env_def)
  from start_up_establishes_invariants[OF p] p show ?thesis by blast
qed

text \<open>
  Arguments that are accepted can still abort the process.  Nothing checks the delay of a reconnection against the time after which the session is given
  up: with a delay of zero and any other time-out, the assertion in the start of the manager client fails as soon as the coupler starts the client.\<close>

lemma accepted_arguments_abort:
  assumes "apc_parse pe a = Inr a'" and "main_open e a' = Some (Inr p)"
    and "aa_apcReconnectDelay a' = 0" and "aa_apcDisconnectTimeout a' \<noteq> 0" and "ce_resetOk ce"
  shows "client_start ce (cp_client_start_param (br_coup (px_bridge p))) (br_client (px_bridge p)) = None"
proof -
  have "br_client (px_bridge p) = (new_CAPCClient (aa_apcMaxQueueSize a'))\<lparr>cl_hasInput := True, cl_intfName := text_bytes (aa_clientId a')\<rparr>"
    "cp_client_start_param (br_coup (px_bridge p)) = apcStartCfg a'"
    using assms(2) unfolding main_open_eq
    by (auto simp: coup_open_def apm_init_params_def new_CAPCoupler_def setWDClient_def split: if_splits)
  then show ?thesis
    using assms(3-5) by (simp add: client_start_def new_CAPCClient_def startIOSrvThread_def new_CIOSrvThread_def apcStartCfg_def)
qed

lemma accepted_arguments_abort_example:
  "\<exists>a' p. apc_parse demo_parse_env demo_args = Inr a' \<and> main_open demo_main_env a' = Some (Inr p)
    \<and> client_start demo_client_env (cp_client_start_param (br_coup (px_bridge p))) (br_client (px_bridge p)) = None"
proof -
  have "(case apc_parse demo_parse_env demo_args of Inl _ \<Rightarrow> False | Inr a' \<Rightarrow> aa_apcReconnectDelay a' = 0 \<and> aa_apcDisconnectTimeout a' \<noteq> 0)"
    by code_simp
  then obtain a' where a': "apc_parse demo_parse_env demo_args = Inr a'" "aa_apcReconnectDelay a' = 0" "aa_apcDisconnectTimeout a' \<noteq> 0"
    by (auto split: sum.splits)
  obtain p where p: "main_open demo_main_env a' = Some (Inr p)" by (simp add: main_open_eq demo_main_env_def)
  have "ce_resetOk demo_client_env" by (simp add: demo_client_env_def)
  from accepted_arguments_abort[OF a'(1) p a'(2,3) this] a'(1) p show ?thesis by blast
qed

text \<open>
  In this build there is no watchdog client, so the checks of the coupler that would stop the process through it do nothing: an access point that is too old is
  accepted, and a refused clock source changes nothing.\<close>

lemma checks_without_watchdog:
  assumes "main_open e a = Some (Inr p)"
  shows "\<exists>c. coup_handleParamAppInfo app (br_coup (px_bridge p)) = Some (c, (), [])"
    and "handleSetClkSrcErrorResponse_p cmdId rc (br_coup (px_bridge p)) = Some (br_coup (px_bridge p), (), [])"
proof -
  have "\<not> cp_hasWd (br_coup (px_bridge p))"
    using assms unfolding main_open_eq by (auto simp: setWDClient_def split: if_splits)
  then show "\<exists>c. coup_handleParamAppInfo app (br_coup (px_bridge p)) = Some (c, (), [])"
    and "handleSetClkSrcErrorResponse_p cmdId rc (br_coup (px_bridge p)) = Some (br_coup (px_bridge p), (), [])"
    by (simp_all add: coup_handleParamAppInfo_def handleSetClkSrcErrorResponse_p_def doing_def Let_def)
qed

text \<open>The exit code does not depend on who asked for the stop, how severe it was and which exit code came with it.\<close>

lemma exit_code_fixed:
  assumes "apc_main pe g e evs = Some (k, stops)" and "apc_parse pe (new_CApcProcessInputArguments g) = Inr a" and "me_began e"
  shows "k = 0 \<and> stops = stop_sequence \<and> stop_seen evs"
  using assms node_inv[of evs] by (auto simp: apc_main_def main_open_eq split: if_splits)

end
