(* ===== verification/APC_Rpc.thy ===== *)
theory APC_Rpc
  imports Rpc_Worker Bridge_Uplink Fmt_Text
begin

text \<open>
  The RPC worker of the bridge (\<^verbatim>\<open>src/APInterface/rpc/APCRpcWorker.cpp\<close>): the commands by which a
  client reads the state and the statistics of the bridge, resets the access point, sends it a
  command and sets its clock source.  The worker reads and changes the models of the coupler, the
  transport, the manager client and the serial port.  The protobuf classes of the requests and responses are generated
  by the build: parsing and serialising are the parameters \<open>apc_pb\<close>.  The configuration file is read
  and written by the boost library: what reading gives and whether writing succeeds are part
  of the environment.
\<close>

section \<open>Messages\<close>

definition GET_APC_INFO :: byte where "GET_APC_INFO = 1"
definition GET_AP_INFO :: byte where "GET_AP_INFO = 2"
definition GET_APC_STATS :: byte where "GET_APC_STATS = 3"
definition CLEAR_APC_STATS :: byte where "CLEAR_APC_STATS = 4"
definition AP_RESET :: byte where "AP_RESET = 5"
definition AP_API :: byte where "AP_API = 6"
definition SET_AP_CLKSRC :: byte where "SET_AP_CLKSRC = 7"
definition GET_AP_CLKSRC :: byte where "GET_AP_CLKSRC = 8"

record APCInfo_t =
  ai_clientid :: frame
  ai_managerstate :: apcclient_state_t
  ai_managerhost :: "byte list"
  ai_managerport :: u16
  ai_gpsstate :: gps_status_t
  ai_gpssatsused :: u16
  ai_gpssatsvisible :: u16
  ai_apcversion :: frame

record APInfo_t =
  pi_macaddr :: "byte list"
  pi_clksource :: byte
  pi_networkid :: u16
  pi_appver :: string
  pi_apstate :: byte

record DelayStat_t =
  ds_delays :: "(int \<times> u64) list"
  ds_outthresholdevents :: "int \<times> u64"
  ds_maxdelay_usec :: int
  ds_numevents :: u64

record MgrStats_t =
  ms_queuelen :: u32
  ms_pktsent :: u32
  ms_pktrecv :: u32
  ms_tomngr :: DelayStat_t

text \<open>The rates are doubles of the class; only the numerator and the denominator of the average are kept here.\<close>

record ApStats_t =
  as_queuelen :: u32
  as_minresp :: u32
  as_maxresp :: u32
  as_avgresp :: u32
  as_pktssent :: u32
  as_pktsrecv :: u32
  as_retriessent :: u32
  as_resprecv :: u32
  as_nackrecv :: u32
  as_maxnackcount :: u32
  as_retriesrecv :: u32
  as_mintimeinqueue :: u32
  as_maxtimeinqueue :: u32
  as_avgtimeinqueue :: u32
  as_toap :: DelayStat_t
  as_fromap :: DelayStat_t
  as_numoutbuffers :: u32
  as_currpktrate :: u32
  as_avgpktrate :: "u32 \<times> u32"

datatype apc_resp =
    APCInfoResp APCInfo_t
  | APInfoResp APInfo_t
  | APCStatsResp "MgrStats_t option" "ApStats_t option"
  | AP_APIResp u32 "byte list"
  | AP_getClkSrcResp string

record apc_pb =
  pb_APCInfoReq :: "frame \<Rightarrow> bool"
  pb_APInfoReq :: "frame \<Rightarrow> bool"
  pb_APCStatsReq :: "frame \<Rightarrow> bool"
  pb_AP_APIReq :: "frame \<Rightarrow> (u32 \<times> byte list) option"
  pb_AP_setClkSrcReq :: "frame \<Rightarrow> string option"
  pb_bytes :: "apc_resp \<Rightarrow> frame"

section \<open>State and environment\<close>

record apc_rpc =
  ar_bridge :: bridge
  ar_serPort :: CSerialPort
  ar_apAPIResponse :: "byte list"
  ar_isRespReceived :: bool

text \<open>
  \<open>ae_ini\<close> is the content of the configuration file, \<^const>\<open>None\<close> if it cannot be read; \<open>ae_responses\<close>
  are the calls of \<open>handleAP_APIResponse\<close> by other threads within the 20 seconds a command is waited for.
\<close>

record apc_rpc_env =
  ae_id :: frame
  ae_version :: frame
  ae_coup :: coup_env
  ae_ini :: "(string \<rightharpoonup> string) option"
  ae_iniWritable :: bool
  ae_responses :: "(byte \<times> byte list) list"

datatype apc_call = CouplerCall coup_out | WriteIni "string \<rightharpoonup> string"

type_synonym 'm apc_res = "(apc_rpc, 'm cmd_result, apc_call) outcome"

definition CB_ApiResponse :: nat where "CB_ApiResponse = 1"

definition ar_coup :: "apc_rpc \<Rightarrow> CAPCoupler" where "ar_coup s = br_coup (ar_bridge s)"
definition ar_client :: "apc_rpc \<Rightarrow> CAPCClient" where "ar_client s = br_client (ar_bridge s)"
definition ar_tr :: "apc_rpc \<Rightarrow> CAPMTransport" where "ar_tr s = br_tr (ar_bridge s)"

text \<open>A call on the coupler and then the answer.\<close>

definition with_coupler :: "'a coup_res \<Rightarrow> apc_rpc \<Rightarrow> (apc_rpc \<Rightarrow> 'm apc_res) \<Rightarrow> 'm apc_res" where
  "with_coupler res s k =
     (case res of None \<Rightarrow> None
      | Some (c, _, out) \<Rightarrow>
          and_then (Some (s\<lparr>ar_bridge := (ar_bridge s)\<lparr>br_coup := c\<rparr>\<rparr>, (), map CouplerCall out)) (\<lambda>s _. k s))"

text \<open>Statistics of the current connector of the manager client, through a pointer that may be null.\<close>

definition client_connector :: "CAPCClient \<Rightarrow> CAPCConnector option" where
  "client_connector cl =
     (case cl_pConnector cl of None \<Rightarrow> None
      | Some i \<Rightarrow> if i < length (cl_conns cl) then Some (cl_conns cl ! i) else None)"

definition client_clearStats :: "CAPCClient \<Rightarrow> CAPCClient option" where
  "client_clearStats cl =
     (case cl_pConnector cl of None \<Rightarrow> None
      | Some i \<Rightarrow> if i < length (cl_conns cl)
                   then Some (cl\<lparr>cl_conns := (cl_conns cl)[i := conn_clearStats (cl_conns cl ! i)]\<rparr>) else None)"

section \<open>Handlers\<close>

definition ClkSourceToInt :: "EAPClockSource \<Rightarrow> byte" where
  "ClkSourceToInt apClkSrc = (if apClkSrc = PPS then DN_API_AP_CLK_SOURCE_PPS else DN_API_AP_CLK_SOURCE_AUTO)"

definition handleAPCInfo :: "'m czmq \<Rightarrow> apc_pb \<Rightarrow> apc_rpc_env \<Rightarrow> frame \<Rightarrow> apc_rpc \<Rightarrow> 'm apc_res" where
  "handleAPCInfo z pb e requestStr s =
     (if \<not> pb_APCInfoReq pb requestStr then Some (s, Parse_error, [])
      else let c = ar_coup s in
        if \<not> cp_mngrClient c then None
        else answer (createResponse z GET_APC_INFO (pb_bytes pb (APCInfoResp
               \<lparr>ai_clientid = ae_id e, ai_managerstate = cl_state (ar_client s), ai_managerhost = cp_host c,
                ai_managerport = cp_port c, ai_gpsstate = cp_cur_gps_status c,
                ai_gpssatsused = gi_satellites_used (cp_gps_info c),
                ai_gpssatsvisible = gi_satellites_visible (cp_gps_info c), ai_apcversion = ae_version e\<rparr>))) s)"

definition app_version :: "byte list \<Rightarrow> string" where
  "app_version v =
     dec_text (unat (v ! 0)) @ ''.'' @ dec_text (unat (v ! 1)) @ ''.'' @ dec_text (unat (v ! 2)) @ ''.''
     @ dec_text (unat (push_bit 8 (ucast (v ! 3) :: u16) + ucast (v ! 4)))"

definition handleAPInfo :: "'m czmq \<Rightarrow> apc_pb \<Rightarrow> frame \<Rightarrow> apc_rpc \<Rightarrow> 'm apc_res" where
  "handleAPInfo z pb requestStr s =
     (if \<not> pb_APInfoReq pb requestStr then Some (s, Parse_error, [])
      else let c = ar_coup s; apInfo = cp_apInfo c in
        if cp_apConnected c
        then answer (createResponse z GET_AP_INFO (pb_bytes pb (APInfoResp
               \<lparr>pi_macaddr = ap_mac apInfo, pi_clksource = ClkSourceToInt (cp_apClkSource c),
                pi_networkid = ap_networkId apInfo, pi_appver = app_version (ap_appVersion apInfo),
                pi_apstate = ap_apState apInfo\<rparr>))) s
        else answer (createErrorResponse z GET_AP_INFO RPC_OK []) s)"

definition convertDelayStat :: "statdelays_s \<Rightarrow> DelayStat_t" where
  "convertDelayStat st =
     (let item = (\<lambda>e. (m_threshold e sdiv 1000, m_number e))
      in \<lparr>ds_delays = map item (m_numThresholdEvents st), ds_outthresholdevents = item (m_numOutThresholdEvents st),
          ds_maxdelay_usec = sd_maxDelay st, ds_numevents = m_numEvents st\<rparr>)"

definition mgr_stats :: "apc_rpc \<Rightarrow> MgrStats_t option" where
  "mgr_stats s =
     (case client_connector (ar_client s) of None \<Rightarrow> None
      | Some con \<Rightarrow>
          (case getAPCCStatistics con of (st, _, numRcvPkt) \<Rightarrow>
             Some \<lparr>ms_queuelen = getCachedPkts (ar_client s), ms_pktsent = ucast (m_numEvents st),
                   ms_pktrecv = numRcvPkt, ms_tomngr = convertDelayStat st\<rparr>))"

definition ap_stats :: "apc_rpc \<Rightarrow> ApStats_t" where
  "ap_stats s =
     (let st = tr_stats (ar_tr s)
      in \<lparr>as_queuelen = word_of_nat (queueSize (ar_tr s)), as_minresp = ucast (st_minRspTime st),
          as_maxresp = ucast (st_maxRspTime st),
          as_avgresp = (if st_numRespRecv st > 0 then ucast (st_totalRspTime st div ucast (st_numRespRecv st)) else 0),
          as_pktssent = st_numPktsSent st, as_pktsrecv = st_numPktsRecv st, as_retriessent = st_numRetriesSent st,
          as_resprecv = st_numRespRecv st, as_nackrecv = st_numNacks st, as_maxnackcount = st_maxNackCount st,
          as_retriesrecv = st_numRetriesRecv st, as_mintimeinqueue = ucast (st_minTimeInQueue st),
          as_maxtimeinqueue = ucast (st_maxTimeInQueue st),
          as_avgtimeinqueue = (if st_numPacketsQueued st > 0
             then ucast (st_totalTimeInQueue st div ucast (st_numPacketsQueued st)) else 0),
          as_toap = convertDelayStat (getStatToAP (ar_serPort s)),
          as_fromap = convertDelayStat (getStatFromAP (ar_serPort s)),
          as_numoutbuffers = word_of_nat (getNumOutBuffers (sr_outbufPool (ar_serPort s))),
          as_currpktrate = st_packetRate st,
          as_avgpktrate = (st_numPktsRecv st - st_numRespRecv st, st_totalSecs st)\<rparr>)"

definition handleGetStats :: "'m czmq \<Rightarrow> apc_pb \<Rightarrow> frame \<Rightarrow> apc_rpc \<Rightarrow> 'm apc_res" where
  "handleGetStats z pb requestStr s =
     (if \<not> pb_APCStatsReq pb requestStr then Some (s, Parse_error, [])
      else let c = ar_coup s in
        if \<not> cp_mngrClient c then None
        else
          let managerConnected = (cl_state (ar_client s) = APCCLIENT_STATE_ONLINE) in
          if managerConnected \<and> mgr_stats s = None \<or> cp_apConnected c \<and> \<not> cp_transport c then None
          else answer (createResponse z GET_APC_STATS (pb_bytes pb (APCStatsResp
                 (if managerConnected then mgr_stats s else None) (if cp_apConnected c then Some (ap_stats s) else None)))) s)"

definition handleClearStats :: "'m czmq \<Rightarrow> apc_rpc \<Rightarrow> 'm apc_res" where
  "handleClearStats z s =
     (if \<not> cp_transport (ar_coup s) then None
      else let b = (ar_bridge s)\<lparr>br_tr := clearAPMStatistics (ar_tr s)\<rparr> in
        if \<not> cp_mngrClient (ar_coup s) then None
        else (case client_clearStats (br_client b) of None \<Rightarrow> None
              | Some cl \<Rightarrow> answer (createErrorResponse z CLEAR_APC_STATS RPC_OK []) (s\<lparr>ar_bridge := b\<lparr>br_client := cl\<rparr>\<rparr>)))"

definition handleResetAP :: "'m czmq \<Rightarrow> apc_rpc \<Rightarrow> 'm apc_res" where
  "handleResetAP z s =
     with_coupler (coup_resetAP (ar_coup s)) s (answer (createErrorResponse z AP_RESET RPC_OK []))"

definition handleAP_APIResponse :: "byte \<Rightarrow> byte list \<Rightarrow> apc_rpc \<Rightarrow> apc_rpc" where
  "handleAP_APIResponse cmdId resBuffer s = s\<lparr>ar_apAPIResponse := resBuffer, ar_isRespReceived := True\<rparr>"

text \<open>The wait for a response: the first call of \<open>handleAP_APIResponse\<close> ends it, or the timeout.\<close>

fun wait_response :: "(byte \<times> byte list) list \<Rightarrow> apc_rpc \<Rightarrow> apc_rpc" where
  "wait_response [] s = s"
| "wait_response ((c, r) # rs) s = (if ar_isRespReceived s then s else wait_response rs (handleAP_APIResponse c r s))"

definition handleAP_API :: "'m czmq \<Rightarrow> apc_pb \<Rightarrow> apc_rpc_env \<Rightarrow> frame \<Rightarrow> apc_rpc \<Rightarrow> 'm apc_res" where
  "handleAP_API z pb e requestStr s =
     (case pb_AP_APIReq pb requestStr of None \<Rightarrow> Some (s, Parse_error, [])
      | Some (cmdid, payload) \<Rightarrow>
          if length payload > 0 \<and> cp_apConnected (ar_coup s)
          then with_coupler (sendCmd (ae_coup e) (ucast cmdid) payload (Some CB_ApiResponse) None (ar_coup s))
                 (s\<lparr>ar_isRespReceived := False, ar_apAPIResponse := []\<rparr>)
                 (\<lambda>s. let s = wait_response (ae_responses e) s in
                   if ar_apAPIResponse s \<noteq> []
                   then answer (createResponse z AP_API (pb_bytes pb (AP_APIResp cmdid (ar_apAPIResponse s)))) s
                   else answer (createErrorResponse z AP_API RPC_OK []) s)
          else answer (createErrorResponse z AP_API RPC_OK []) s)"

definition AP_CLOCK_SOURCE :: string where "AP_CLOCK_SOURCE = ''ap-clock-source''"

definition handleSetAPClkSrc :: "'m czmq \<Rightarrow> apc_pb \<Rightarrow> apc_rpc_env \<Rightarrow> frame \<Rightarrow> apc_rpc \<Rightarrow> 'm apc_res" where
  "handleSetAPClkSrc z pb e requestStr s =
     (case pb_AP_setClkSrcReq pb requestStr of None \<Rightarrow> Some (s, Parse_error, [])
      | Some clkSrcStr \<Rightarrow>
          (case ae_ini e of None \<Rightarrow> None
           | Some pt \<Rightarrow>
               let oldClkSrcStr = (case pt AP_CLOCK_SOURCE of None \<Rightarrow> ''AUTO'' | Some x \<Rightarrow> x) in
               (case clkSrcStringToEnum clkSrcStr INTERNAL of (apClkSource, ok) \<Rightarrow>
                  if \<not> ok then answer (createErrorResponse z SET_AP_CLKSRC RPC_INVALID_PARAMETERS (str ''Should be GPS or AUTO'')) s
                  else if oldClkSrcStr \<noteq> clkSrcStr
                  then if \<not> ae_iniWritable e then None
                       else and_then (Some (s, (), [WriteIni (pt(AP_CLOCK_SOURCE \<mapsto> takeWhile (\<lambda>ch. ch \<noteq> CHR 0x00) clkSrcStr))]))
                              (\<lambda>s _. with_coupler (setClockSrource apClkSource (ar_coup s)) s
                                       (answer (createErrorResponse z SET_AP_CLKSRC RPC_OK [])))
                  else answer (createErrorResponse z SET_AP_CLKSRC RPC_OK []) s)))"

definition handleGetAPClkSrc :: "'m czmq \<Rightarrow> apc_pb \<Rightarrow> apc_rpc \<Rightarrow> 'm apc_res" where
  "handleGetAPClkSrc z pb s =
     answer (createResponse z GET_AP_CLKSRC
       (pb_bytes pb (AP_getClkSrcResp (clkSrcEnumToString (cp_apClkSource (ar_coup s)))))) s"

definition apc_processCmdMsg :: "'m czmq \<Rightarrow> apc_pb \<times> apc_rpc_env \<Rightarrow> (apc_rpc, 'm, apc_call) cmd_handler" where
  "apc_processCmdMsg z pe cmdId params s =
     (case pe of (pb, e) \<Rightarrow>
       if cmdId = GET_APC_INFO then handleAPCInfo z pb e params s
       else if cmdId = GET_AP_INFO then handleAPInfo z pb params s
       else if cmdId = GET_APC_STATS then handleGetStats z pb params s
       else if cmdId = CLEAR_APC_STATS then handleClearStats z s
       else if cmdId = AP_RESET then handleResetAP z s
       else if cmdId = AP_API then handleAP_API z pb e params s
       else if cmdId = SET_AP_CLKSRC then handleSetAPClkSrc z pb e params s
       else if cmdId = GET_AP_CLKSRC then handleGetAPClkSrc z pb s
       else answer (createErrorResponse z cmdId RPC_INVALID_COMMAND []) s)"

definition new_CAPCRpcWorker :: "frame \<Rightarrow> frame \<Rightarrow> rpc_worker" where
  "new_CAPCRpcWorker svrAddr identity = new_rpc_worker svrAddr (str ''apc'') None NONE identity True"

section \<open>Every command is answered\<close>

lemmas apc_cmd_defs = GET_APC_INFO_def GET_AP_INFO_def GET_APC_STATS_def CLEAR_APC_STATS_def AP_RESET_def AP_API_def
  SET_AP_CLKSRC_def GET_AP_CLKSRC_def

lemma answers_with_coupler: "(\<And>s. answers_cmd fr c (k s)) \<Longrightarrow> answers_cmd fr c (with_coupler res s k)"
  by (auto simp: answers_cmd_def with_coupler_def split: option.splits)

lemma apc_answers:
  assumes L: "czmq_laws z fr"
  shows "answers_cmd fr c (apc_processCmdMsg z pe c p s)"
proof -
  note ok = created_responses[OF L]
  have a: "answers_cmd fr GET_APC_INFO (handleAPCInfo z pb e p s)" "answers_cmd fr GET_AP_INFO (handleAPInfo z pb p s)"
    "answers_cmd fr GET_APC_STATS (handleGetStats z pb p s)" "answers_cmd fr GET_AP_CLKSRC (handleGetAPClkSrc z pb s)"
    "answers_cmd fr AP_RESET (handleResetAP z s)" for pb e
    unfolding handleAPCInfo_def handleAPInfo_def handleGetStats_def handleGetAPClkSrc_def handleResetAP_def Let_def
    by (intro answers_cmd_rules answers_with_coupler ok)+
  have b: "answers_cmd fr CLEAR_APC_STATS (handleClearStats z s)"
    unfolding handleClearStats_def Let_def
    by (intro answers_cmd_rules, cases "client_clearStats (ar_client s)")
      (auto simp: ar_client_def intro: answers_cmd_rules ok split: option.splits)
  have d: "answers_cmd fr AP_API (handleAP_API z pb e p s)" for pb e
    unfolding handleAP_API_def Let_def
    by (cases "pb_AP_APIReq pb p") (auto simp del: if_split intro!: answers_cmd_rules answers_with_coupler ok)
  have f: "answers_cmd fr SET_AP_CLKSRC (handleSetAPClkSrc z pb e p s)" for pb e
    unfolding handleSetAPClkSrc_def Let_def
    by (cases "pb_AP_setClkSrcReq pb p"; cases "ae_ini e"; cases "clkSrcStringToEnum (the (pb_AP_setClkSrcReq pb p)) INTERNAL")
      (auto simp del: if_split and_then_Some intro!: answers_cmd_rules answers_with_coupler ok)
  have g: "answers_cmd fr c (answer (createErrorResponse z c RPC_INVALID_COMMAND []) s)" by (intro answers_cmd_rules answers_with_coupler ok)
  obtain pb e where pe: "pe = (pb, e)" by fastforce
  show ?thesis unfolding apc_processCmdMsg_def pe prod.case
    using a b d f g by auto
qed

interpretation apc_rpc: rpc_handler apc_processCmdMsg
  by unfold_locales (use apc_answers in \<open>fastforce simp: answers_cmd_def\<close>)


text \<open>A bridge without a connection to the manager, protobuf codes, and a registered worker, for examples.\<close>

definition example_apc :: apc_rpc where
  "example_apc = \<lparr>ar_bridge = \<lparr>br_tr = new_CAPMTransport False, br_coup = demo_coupler, br_client = new_CAPCClient 10\<rparr>,
     ar_serPort = new_CSerialPort AP_RESET_SIGNAL_TX 115200 True, ar_apAPIResponse = [], ar_isRespReceived = False\<rparr>"

definition example_pb :: apc_pb where
  "example_pb = \<lparr>pb_APCInfoReq = (\<lambda>_. True), pb_APInfoReq = (\<lambda>_. True), pb_APCStatsReq = (\<lambda>_. True),
     pb_AP_APIReq = (\<lambda>f. Some (2, f)), pb_AP_setClkSrcReq = (\<lambda>_. Some ''gps''), pb_bytes = (\<lambda>_. [])\<rparr>"

definition example_apc_env :: apc_rpc_env where
  "example_apc_env = \<lparr>ae_id = [], ae_version = [], ae_coup = demo_coup_env, ae_ini = Some Map.empty, ae_iniWritable = True,
     ae_responses = []\<rparr>"

definition example_registered :: "frame list dispatcher" where
  "example_registered = (new_dispatcher 0)\<lparr>
     d_services := [example_service \<mapsto> \<lparr>s_requests = [], s_waiting = [example_worker], s_numWorkers = 1\<rparr>],
     d_workers := [example_worker \<mapsto> \<lparr>w_service = Some example_service, w_expiration = 0, w_logExp = 0\<rparr>],
     d_waiting := [example_worker]\<rparr>"

lemma example_registered_inv: "disp_inv example_registered"
  by (auto simp: disp_inv_def disp_wf_def settled_def srv_of_def example_registered_def split: if_splits)


section \<open>Statistics\<close>

text \<open>
  The command that clears the statistics dereferences the connector of the manager client without a check: while the client
  has no connection to the manager the command ends the process; otherwise it is
  answered with success, and the statistics of the transport and of the connector start anew.
\<close>

lemma clear_stats_needs_connection:
  assumes "czmq_laws z fr" "cp_transport (ar_coup s)" "cp_mngrClient (ar_coup s)"
    and "\<And>i. cl_pConnector (ar_client s) = Some i \<Longrightarrow> i < length (cl_conns (ar_client s))"
  shows "case cl_pConnector (ar_client s) of
      None \<Rightarrow> apc_processCmdMsg z pe CLEAR_APC_STATS p s = None
    | Some i \<Rightarrow> \<exists>s' r. apc_processCmdMsg z pe CLEAR_APC_STATS p s = Some (s', Response (Some r), [])
        \<and> fr r = reply_frames CLEAR_APC_STATS RPC_OK []
        \<and> tr_stats (ar_tr s') = stats_reset
        \<and> cl_conns (ar_client s') = (cl_conns (ar_client s))[i := conn_clearStats (cl_conns (ar_client s) ! i)]"
  using assms
  by (auto simp: apc_processCmdMsg_def apc_cmd_defs handleClearStats_def client_clearStats_def answer_def Let_def
      ar_client_def ar_tr_def ar_coup_def clearAPMStatistics_def createResponse_frames reply_frames_def
      split: option.splits)

lemma clear_stats_needs_connection_example:
  "apc_processCmdMsg list_czmq (example_pb, example_apc_env) CLEAR_APC_STATS [] example_apc = None"
proof -
  have "cl_pConnector (ar_client example_apc) = None" "cp_transport (ar_coup example_apc)" "cp_mngrClient (ar_coup example_apc)"
    by (simp_all add: ar_client_def ar_coup_def example_apc_def new_CAPCClient_def demo_coupler_def)
  then show ?thesis
    using clear_stats_needs_connection[OF list_czmq_laws, of example_apc "(example_pb, example_apc_env)" "[]"] by simp
qed

section \<open>Clock source\<close>

definition ini_clksrc :: "(string \<rightharpoonup> string) \<Rightarrow> string" where
  "ini_clksrc pt = (case pt AP_CLOCK_SOURCE of None \<Rightarrow> ''AUTO'' | Some x \<Rightarrow> x)"

lemma toupper_NUL: "toupper (CHR 0x00) = CHR 0x00"
  by code_simp

lemma no_NUL:
  assumes "map toupper txt \<in> {''GPS'', ''AUTO''}"
  shows "takeWhile (\<lambda>ch. ch \<noteq> CHR 0x00) txt = txt"
proof -
  have "CHR 0x00 \<notin> set (map toupper txt)" using assms by fastforce
  then have "CHR 0x00 \<notin> set txt" using toupper_NUL by (metis image_eqI list.set_map)
  then show ?thesis by (auto simp: takeWhile_eq_all_conv)
qed

text \<open>
  The command that sets the clock source refuses a text that is neither GPS nor AUTO in any case of letters.  It stores
  an accepted text in the configuration file and sets the source in the coupler exactly if the text differs from the one in the file:
  if they agree the command reports success and does nothing, even if the coupler runs with another source.
\<close>

lemma set_clock_source:
  assumes "czmq_laws z fr" "pb_AP_setClkSrcReq pb p = Some txt" "ae_ini e = Some pt" "ae_iniWritable e"
    and "cp_transport (ar_coup s)"
  shows "\<exists>s' r out. apc_processCmdMsg z (pb, e) SET_AP_CLKSRC p s = Some (s', Response (Some r), out)
    \<and> (if map toupper txt \<notin> {''GPS'', ''AUTO''}
       then fr r = reply_frames SET_AP_CLKSRC RPC_INVALID_PARAMETERS (str ''Should be GPS or AUTO'') \<and> s' = s \<and> out = []
       else fr r = reply_frames SET_AP_CLKSRC RPC_OK []
         \<and> (if txt = ini_clksrc pt then s' = s \<and> out = []
            else hd out = WriteIni (pt(AP_CLOCK_SOURCE \<mapsto> txt))
              \<and> cp_apClkSource (ar_coup s') = (if map toupper txt = ''GPS'' then PPS else MNGRSET)))"
proof -
  have msg: "c_str (str ''Should be GPS or AUTO'') = str ''Should be GPS or AUTO''" by (simp add: c_str_def str_def)
  have set: "\<exists>c' out. setClockSrource k c = Some (c', (), out) \<and> cp_apClkSource c' = k" if "cp_transport c" for k c
    using that by (auto simp: setClockSrource_def doing_def on_transport_def)
  show ?thesis
  proof (cases "map toupper txt \<in> {''GPS'', ''AUTO''} \<and> txt \<noteq> ini_clksrc pt")
    case True
    define k where "k = (if map toupper txt = ''GPS'' then PPS else MNGRSET)"
    obtain c' o' where c': "setClockSrource k (ar_coup s) = Some (c', (), o')" "cp_apClkSource c' = k"
      using set[OF assms(5)] by blast
    have k: "clkSrcStringToEnum txt INTERNAL = (k, True)" using True by (auto simp: clkSrcStringToEnum_def k_def)
    have ok: "map toupper txt \<in> {''GPS'', ''AUTO''}" and neq: "ini_clksrc pt \<noteq> txt" using True by auto
    let ?s = "s\<lparr>ar_bridge := (ar_bridge s)\<lparr>br_coup := c'\<rparr>\<rparr>"
    have "apc_processCmdMsg z (pb, e) SET_AP_CLKSRC p s =
        Some (?s, Response (Some (createErrorResponse z SET_AP_CLKSRC RPC_OK [])),
          WriteIni (pt(AP_CLOCK_SOURCE \<mapsto> txt)) # map CouplerCall o')"
      using assms(2-4) c'(1) neq
      by (simp add: apc_processCmdMsg_def apc_cmd_defs handleSetAPClkSrc_def ini_clksrc_def[symmetric] k no_NUL[OF ok]
          with_coupler_def answer_def)
    moreover have "cp_apClkSource (ar_coup ?s) = k" using c'(2) by (simp add: ar_coup_def)
    ultimately show ?thesis
      using ok neq by (simp add: createResponse_frames[OF assms(1)] reply_frames_def k_def)
  next
    case False
    then show ?thesis
      using assms msg
      by (auto simp: apc_processCmdMsg_def apc_cmd_defs handleSetAPClkSrc_def ini_clksrc_def[symmetric] clkSrcStringToEnum_def
          Let_def answer_def createResponse_frames reply_frames_def)
  qed
qed

lemma set_clock_source_example:
  "\<exists>s' r out. apc_processCmdMsg list_czmq (example_pb, example_apc_env) SET_AP_CLKSRC [] example_apc
       = Some (s', Response (Some r), out)
     \<and> hd out = WriteIni [AP_CLOCK_SOURCE \<mapsto> ''gps''] \<and> cp_apClkSource (ar_coup s') = PPS"
proof -
  have "map toupper ''gps'' = ''GPS''" by code_simp
  moreover have "''gps'' \<noteq> ini_clksrc Map.empty" by (simp add: ini_clksrc_def)
  moreover have "pb_AP_setClkSrcReq example_pb [] = Some ''gps''" "ae_ini example_apc_env = Some Map.empty"
    "ae_iniWritable example_apc_env" "cp_transport (ar_coup example_apc)"
    by (simp_all add: example_pb_def example_apc_env_def ar_coup_def example_apc_def demo_coupler_def)
  note set_clock_source[OF list_czmq_laws this]
  ultimately show ?thesis by auto
qed

end
