(* ===== verification/Bridge_Flow.thy ===== *)
theory Bridge_Flow
  imports Bridge_Uplink
begin

text \<open>
  What the manager hears of the access point over whole histories of the link: every event of the transport (a frame of
  the serial port, a command queued for the access point, a timer) runs through the transport, the coupler and the client as in
  \<^verbatim>\<open>Bridge_Uplink\<close>, and its notifications become messages of the session: packets, transmission reports, times, the
  loss of the access point, and the pauses and resumptions of the flow control.
\<close>

section \<open>Events\<close>

definition bridge_event :: "bridge_env \<Rightarrow> link_event \<Rightarrow> bridge \<Rightarrow> (bridge \<times> apm_out list \<times> client_out list) option" where
  "bridge_event e ev b =
     (case link_next (coupled (be_coup e) (br_coup b) (be_tr e)) ev (br_tr b) of None \<Rightarrow> None
      | Some (t, out) \<Rightarrow>
        (case coup_all (be_coup e) out (br_coup b) of None \<Rightarrow> None
         | Some (c, _, calls) \<Rightarrow>
           (case client_calls (be_client e) (be_seq e) calls (br_client b) of None \<Rightarrow> None
            | Some (cl, _, cout) \<Rightarrow> Some (\<lparr>br_tr = t, br_coup = c, br_client = cl\<rparr>, out, cout))))"

lemma bridge_event_frame: "bridge_event e (EvData frame) b = bridge_frame e frame b"
  by (simp add: bridge_event_def bridge_frame_def map_option_case split: option.split)

text \<open>A history returns what the transport put out at each event, and all that the client did.\<close>

fun bridge_events :: "(bridge_env \<times> link_event) list \<Rightarrow> bridge \<Rightarrow> (bridge \<times> apm_out list list \<times> client_out list) option" where
  "bridge_events [] b = Some (b, [], [])"
| "bridge_events ((e, ev) # evs) b = (case bridge_event e ev b of None \<Rightarrow> None
     | Some (b, out, cout) \<Rightarrow> map_option (\<lambda>(b, outs, cout'). (b, out # outs, cout @ cout')) (bridge_events evs b))"

section \<open>The messages of a notification\<close>

definition txdone_bytes :: "u16 \<Rightarrow> bool \<Rightarrow> byte list" where
  "txdone_bytes k ok = le_bytes 2 k @ [if ok then 0 else 1]"

definition timemap_bytes :: "ap_time_map_t \<Rightarrow> byte list" where
  "timemap_bytes p = le_bytes 8 (tm_timeSec p) @ le_bytes 4 (tm_timeUsec p) @ le_bytes 8 (tm_asn p) @ le_bytes 2 (tm_asnOffset p)"

text \<open>The system time of an answer of the access point: half the time the answer took is taken off.\<close>

definition answer_time :: "coup_env \<Rightarrow> int" where
  "answer_time e = co_now e - (co_lastRspTime e sdiv 2) * 1000"

definition notif_pkts :: "coup_env \<Rightarrow> IAPMNotifHandler \<Rightarrow> sent_pkt list" where
  "notif_pkts e n = (case n of
      handleAPReceive data \<Rightarrow> [(APC_NET_RX, data)]
    | handleTXDone tx \<Rightarrow> [(APC_NET_TXDONE, txdone_bytes (txd_packetId tx) (txd_status tx = 0))]
    | handleParamGetTime gt \<Rightarrow> [(APC_TIME_MAP, timemap_bytes
        \<lparr>tm_timeSec = word_of_int (sec_of (answer_time e)), tm_timeUsec = word_of_int (usec_of (answer_time e)),
         tm_asn = the (ntoh_asn (gt_asn gt) (word_of_nat DN_ASN_SIZE)), tm_asnOffset = gt_offset gt\<rparr>)]
    | handleAPLost \<Rightarrow> [(APC_AP_LOST, [])]
    | handleAPPause \<Rightarrow> [(APC_NET_TX_PAUSE, [])]
    | handleAPResume \<Rightarrow> [(APC_NET_TX_RESUME, [])]
    | _ \<Rightarrow> [])"

definition out_pkts :: "coup_env \<Rightarrow> apm_out list \<Rightarrow> sent_pkt list" where
  "out_pkts e out = concat (map (\<lambda>x. case x of ApmNotif n \<Rightarrow> notif_pkts e n | _ \<Rightarrow> []) out)"

fun run_pkts :: "(bridge_env \<times> link_event) list \<Rightarrow> apm_out list list \<Rightarrow> sent_pkt list" where
  "run_pkts ((e, ev) # evs) (out # outs) = out_pkts (be_coup e) out @ run_pkts evs outs"
| "run_pkts _ _ = []"

fun sent_msgs :: "u32 \<Rightarrow> nat \<Rightarrow> sent_pkt list \<Rightarrow> rx_msg list" where
  "sent_msgs seq k [] = []"
| "sent_msgs seq k (p # ps) = sent_msg seq (Suc k) p # sent_msgs seq (Suc k) ps"

text \<open>What the messages tell the manager of the flow: a pause while running, a resumption while paused, and nothing else.\<close>

definition msg_step :: "apm_flow_control_t \<Rightarrow> apc_msg_type_t \<Rightarrow> apm_flow_control_t option" where
  "msg_step s type =
     (if type = APC_NET_TX_PAUSE then (if s = APM_FLOW_NORMAL then Some APM_FLOW_PAUSE else None)
      else if type = APC_NET_TX_RESUME then (if s = APM_FLOW_PAUSE then Some APM_FLOW_NORMAL else None)
      else Some s)"

fun msg_flow :: "apm_flow_control_t \<Rightarrow> apc_msg_type_t list \<Rightarrow> apm_flow_control_t option" where
  "msg_flow s [] = Some s"
| "msg_flow s (x # xs) = Option.bind (msg_step s x) (\<lambda>s. msg_flow s xs)"

lemma msg_flow_append: "msg_flow s (xs @ ys) = Option.bind (msg_flow s xs) (\<lambda>s. msg_flow s ys)"
proof (induction xs arbitrary: s)
  case (Cons x xs)
  then show ?case by (cases "msg_step s x") simp_all
qed simp

text \<open>Notifications that the session carries on: a packet that fits into a message, and no boot, which starts the coupler's state machine.\<close>

fun carried :: "apm_out \<Rightarrow> bool" where
  "carried (ApmNotif (handleAPReceive data)) = uplink_fits data"
| "carried (ApmNotif handleAPBoot) = False"
| "carried (ApmNotif handleAPReboot) = False"
| "carried _ = True"

section \<open>The coupler\<close>

definition wired :: "CAPCoupler \<Rightarrow> bool" where
  "wired c \<longleftrightarrow> cp_mngrClient c \<and> cp_transport c \<and> cp_gps c"

definition cl_pkts :: "coup_out list \<Rightarrow> sent_pkt list" where
  "cl_pkts calls = concat (map (\<lambda>x. case x of
      ClSendData d \<Rightarrow> [(APC_NET_RX, d)]
    | ClSendTxDone p \<Rightarrow> [(APC_NET_TXDONE, txdone_bytes (td_txDoneId p) (td_status p = APINTF_TXDONE_OK))]
    | ClSendTimeMap p \<Rightarrow> [(APC_TIME_MAP, timemap_bytes p)]
    | ClSendApLost \<Rightarrow> [(APC_AP_LOST, [])]
    | ClSendPause \<Rightarrow> [(APC_NET_TX_PAUSE, [])]
    | ClSendResume \<Rightarrow> [(APC_NET_TX_RESUME, [])]
    | _ \<Rightarrow> []) calls)"

lemma cl_pkts_simps [simp]:
  "cl_pkts [] = []" "cl_pkts (xs @ ys) = cl_pkts xs @ cl_pkts ys"
  by (simp_all add: cl_pkts_def)

lemma cl_pkts_tr: "set out \<subseteq> {TrDisableJoin} \<union> range TrInsert \<Longrightarrow> cl_pkts out = []"
  by (auto simp: cl_pkts_def)

lemma boot_pkts:
  assumes "coup_handleAPBoot e c = Some (c', u, out) \<or> coup_handleAPReboot e c = Some (c', u, out)" and "wired c"
  shows "cl_pkts out = [] \<and> wired c'"
  using assms unfolding coup_handleAPBoot_def coup_handleAPReboot_def get_defs and_then_eq_Some doing_def
  by (auto simp: wired_def set_apState_def sendGetParam_def sendEvent_p_def coup_basics cl_pkts_def split: if_splits)

lemma apm_notif_pkts:
  assumes "apm_notif e n c = Some (c', u, out)" and "wired c"
  shows "cl_pkts out = notif_pkts e n \<and> wired c'"
proof (cases n)
  case handleAPBoot
  then show ?thesis using assms boot_pkts[of e c c' u out] by (simp add: apm_notif_def notif_pkts_def)
next
  case handleAPReboot
  then show ?thesis using assms boot_pkts[of e c c' u out] by (simp add: apm_notif_def notif_pkts_def)
next
  case (handleReadyForTime x)
  then show ?thesis
    using assms by (auto simp: apm_notif_def coup_handleReadyForTime_def sendSetSystime_def Let_def doing_def wired_def notif_pkts_def
        cl_pkts_def split: if_splits)
qed (use assms in \<open>auto simp: apm_notif_def coup_handleAPReceive_def coup_handleTXDone_def coup_handleParamMacAddress_def
      coup_handleParamMoteInfo_def coup_handleParamAppInfo_def coup_handleParamClkSrc_def coup_handleParamNetId_def
      coup_handleParamApStatus_def coup_handleAPPause_def coup_handleAPResume_def coup_handleAPLost_def coup_handleEvent_def
      coup_handleParamGetTime_def sendEvent_p_def sendGetParam_def get_defs Let_def coup_basics wired_def notif_pkts_def cl_pkts_def
      answer_time_def set_apState_def set_clksource_def split: if_splits option.splits\<close>)

lemma coup_all_pkts:
  assumes "coup_all e out c = Some (c', u, calls)" and "wired c"
  shows "cl_pkts calls = out_pkts e out \<and> wired c'"
  using assms
proof (induction e out c arbitrary: calls rule: coup_all.induct)
  case (2 e n xs c)
  then obtain c1 u1 out1 out2 where r: "apm_notif e n c = Some (c1, u1, out1)" "coup_all e xs c1 = Some (c', u, out2)" "calls = out1 @ out2"
    by (auto simp: and_then_eq_Some)
  then show ?case
    using 2(1)[OF r(2)] apm_notif_pkts[OF r(1) 2(3)] by (simp add: out_pkts_def)
qed (simp_all add: out_pkts_def doing_def)

text \<open>The coupler always returns when the access point's messages are complete, as the serializer leaves them.\<close>

fun complete :: "apm_out \<Rightarrow> bool" where
  "complete (ApmNotif n) = notif_wf n"
| "complete _ = True"

lemma coup_all_defined:
  assumes "wired c" and "list_all complete out"
  shows "\<exists>c' calls. coup_all e out c = Some (c', (), calls)"
  using assms
proof (induction e out c rule: coup_all.induct)
  case (2 e n xs c)
  then obtain c1 out1 where r: "apm_notif e n c = Some (c1, (), out1)"
    using apm_notif_defined[of c n e] by (auto simp: wired_def)
  then show ?case using 2(1)[of c1] apm_notif_pkts[OF r 2(2)] 2(3) by auto
qed (simp_all add: doing_def)

section \<open>The client\<close>

definition pkt_ok :: "sent_pkt \<Rightarrow> bool" where
  "pkt_ok p \<longleftrightarrow> uplink_fits (snd p) \<and> snd (convert HOST_TO_NET (fst p) (snd p)) = APC_OK"

lemma pkt_ok_sendable: "pkt_ok p \<Longrightarrow> sendable APC_MAX_MSG_SIZE (sent_msg seq k p)"
  by (simp add: sendable_def pkt_ok_def uplink_fits_def sent_msg_def APC_MAX_MSG_SIZE_val)

lemma sent_msgs_sendable: "list_all pkt_ok ps \<Longrightarrow> list_all (sendable APC_MAX_MSG_SIZE) (sent_msgs seq k ps)"
  by (induction seq k ps rule: sent_msgs.induct) (simp_all add: pkt_ok_sendable)

lemma sent_msgs_append: "sent_msgs seq k (xs @ ys) = sent_msgs seq k xs @ sent_msgs seq (k + length xs) ys"
  by (induction seq k xs rule: sent_msgs.induct) simp_all

lemma notif_pkts_ok:
  assumes "carried (ApmNotif n)"
  shows "list_all pkt_ok (notif_pkts e n)"
  using assms
  by (cases n) (simp_all add: notif_pkts_def pkt_ok_def uplink_fits_def txdone_bytes_def timemap_bytes_def convert_def apc_const_defs
      wire_simps APC_MAX_MSG_SIZE_val bufferCast_p_def)

lemma out_pkts_ok: "list_all carried out \<Longrightarrow> list_all pkt_ok (out_pkts e out)"
  by (induction out) (auto simp: out_pkts_def notif_pkts_ok split: apm_out.split)

lemma client_sends_pkt:
  assumes "session_up i seq n hist cl" and "0 < n" and "Suc (length hist) < 2 ^ 64" and "pkt_ok (type, ptr_bytes p)"
    and "conn_drains (ce_conn e 0)" and "unat s = length (ptr_bytes p)"
  shows "\<exists>cl'. client_sendData_p e g cl type p s None 0 =
      Some (cl', APC_OK, sock_writes i [sent_msg seq (Suc (length hist)) (type, ptr_bytes p)])
    \<and> session_up i seq n (hist @ [(type, ptr_bytes p)]) cl'"
  using client_sends[OF assms(1-3) _ assms(5,6) pkt_ok_sendable[OF assms(4)]] assms(4)
  by (simp add: pkt_ok_def sock_writes_def)

lemma client_call_pkts:
  assumes up: "session_up i seq n hist cl" "0 < n" and room: "length hist + length (cl_pkts [x]) < 2 ^ 64"
    and ok: "list_all pkt_ok (cl_pkts [x])" and drains: "conn_drains (ce_conn e 0)"
  shows "\<exists>cl'. client_call e g x cl = Some (cl', APC_OK, sock_writes i (sent_msgs seq (length hist) (cl_pkts [x])))
    \<and> session_up i seq n (hist @ cl_pkts [x]) cl'"
proof -
  have sent: "\<exists>cl'. client_sendData_p e g cl type p s None 0 =
        Some (cl', APC_OK, sock_writes i (sent_msgs seq (length hist) (cl_pkts [x])))
      \<and> session_up i seq n (hist @ cl_pkts [x]) cl'"
    if "cl_pkts [x] = [(type, ptr_bytes p)]" "unat s = length (ptr_bytes p)" for type p s
    using client_sends_pkt[OF up _ _ drains that(2)] room ok that(1) by simp
  show ?thesis
  proof (cases x)
    case (ClSendData d)
    then have "unat (ucast (word_of_nat (length d) :: u32) :: u16) = length (ptr_bytes (Some d))"
      using ok by (simp add: cl_pkts_def pkt_ok_def uplink_fits_def APC_MAX_MSG_SIZE_val ptr_bytes_def unsigned_ucast_eq
          take_bit_eq_mod unsigned_of_nat)
    then show ?thesis
      using sent[of APC_NET_RX "Some d"] ClSendData by (simp add: client_call_def client_sendData_def cl_pkts_def ptr_bytes_def)
  next
    case (ClSendTxDone p)
    then show ?thesis
      using sent[of APC_NET_TXDONE "Some (txdone_bytes (td_txDoneId p) (td_status p = APINTF_TXDONE_OK))" 3]
      by (cases "td_status p") (simp_all add: client_call_def sendTxDone_def cl_pkts_def ptr_bytes_def txdone_bytes_def wire_simps)
  next
    case (ClSendTimeMap p)
    then show ?thesis
      using sent[of APC_TIME_MAP "Some (timemap_bytes p)" 22]
      by (simp add: client_call_def sendTimeMap_def cl_pkts_def ptr_bytes_def timemap_bytes_def wire_simps)
  next
    case (ClSendGpsLock g)
    then show ?thesis using up(1) by (simp add: client_call_def sendGpsLock_def cl_pkts_def session_up_def sock_writes_def)
  qed (use up(1) sent[of _ None 0] in \<open>simp_all add: client_call_def sendApLost_def sendPause_def sendResume_def cl_pkts_def ptr_bytes_def
      sock_writes_def\<close>)
qed

lemma client_calls_pkts:
  assumes "session_up i seq n hist cl" and "0 < n" and "length hist + length (cl_pkts calls) < 2 ^ 64"
    and "list_all pkt_ok (cl_pkts calls)" and "conn_drains (ce_conn e 0)"
  shows "\<exists>cl'. client_calls e g calls cl = Some (cl', (), sock_writes i (sent_msgs seq (length hist) (cl_pkts calls)))
    \<and> session_up i seq n (hist @ cl_pkts calls) cl'"
  using assms(1,3,4)
proof (induction calls arbitrary: cl hist)
  case Nil
  then show ?case by (simp add: sock_writes_def)
next
  case (Cons x xs)
  have split: "cl_pkts (x # xs) = cl_pkts [x] @ cl_pkts xs" by (simp add: cl_pkts_def)
  obtain cl1 where c1: "client_call e g x cl = Some (cl1, APC_OK, sock_writes i (sent_msgs seq (length hist) (cl_pkts [x])))"
      "session_up i seq n (hist @ cl_pkts [x]) cl1"
    using client_call_pkts[OF Cons.prems(1) assms(2) _ _ assms(5), of x g] Cons.prems(2,3) unfolding split by auto
  obtain cl2 where c2: "client_calls e g xs cl1 = Some (cl2, (), sock_writes i (sent_msgs seq (length (hist @ cl_pkts [x])) (cl_pkts xs)))"
      "session_up i seq n ((hist @ cl_pkts [x]) @ cl_pkts xs) cl2"
    using Cons.IH[OF c1(2)] Cons.prems(2,3) unfolding split by auto
  show ?case using c1(1) c2 unfolding split by (simp add: sent_msgs_append sock_writes_def)
qed

section \<open>Flow control\<close>

lemma notif_flow:
  assumes "carried x" and "flow_step s x = Some s'"
  shows "msg_flow s (map fst (out_pkts e [x])) = Some s'"
proof (cases x)
  case (ApmNotif n)
  then show ?thesis
    using assms by (cases n) (auto simp: out_pkts_def notif_pkts_def msg_step_def apc_const_defs split: if_splits)
qed (use assms in \<open>auto simp: out_pkts_def\<close>)

lemma out_flow:
  assumes "list_all carried out" and "flow_run s out = Some s'"
  shows "msg_flow s (map fst (out_pkts e out)) = Some s'"
  using assms
proof (induction out arbitrary: s)
  case Nil
  then show ?case by (simp add: out_pkts_def)
next
  case (Cons x xs)
  obtain s1 where s1: "flow_step s x = Some s1" "flow_run s1 xs = Some s'"
    using Cons.prems(2) by (cases "flow_step s x") auto
  have "out_pkts e (x # xs) = out_pkts e [x] @ out_pkts e xs" by (simp add: out_pkts_def)
  then show ?case
    using notif_flow[OF _ s1(1)] Cons.IH[OF _ s1(2)] Cons.prems(1) by (simp add: msg_flow_append)
qed

section \<open>Histories\<close>

definition flow_state :: "nat \<Rightarrow> u32 \<Rightarrow> u32 \<Rightarrow> sent_pkt list \<Rightarrow> bridge \<Rightarrow> bool" where
  "flow_state i seq n hist b \<longleftrightarrow> link_inv (br_tr b) \<and> wired (br_coup b) \<and> session_up i seq n hist (br_client b)"

definition bridge_serves :: "bridge_env \<Rightarrow> bool" where
  "bridge_serves e \<longleftrightarrow> te_ready (be_tr e) \<and> conn_drains (ce_conn (be_client e) 0)"

lemma event_carried:
  assumes "bridge_event e ev b = Some (b', out, cout)" and "flow_state i seq n hist b" and "0 < n"
    and "length hist + length (out_pkts (be_coup e) out) < 2 ^ 64" and "list_all carried out" and "bridge_serves e"
  shows "cout = sock_writes i (sent_msgs seq (length hist) (out_pkts (be_coup e) out))
    \<and> flow_state i seq n (hist @ out_pkts (be_coup e) out) b'
    \<and> msg_flow (tr_mngrInputState (br_tr b)) (map fst (out_pkts (be_coup e) out)) = Some (tr_mngrInputState (br_tr b'))"
proof -
  have st: "link_inv (br_tr b)" "wired (br_coup b)" "session_up i seq n hist (br_client b)"
    using assms(2) by (simp_all add: flow_state_def)
  obtain t c calls cl where r: "link_next (coupled (be_coup e) (br_coup b) (be_tr e)) ev (br_tr b) = Some (t, out)"
      "coup_all (be_coup e) out (br_coup b) = Some (c, (), calls)"
      "client_calls (be_client e) (be_seq e) calls (br_client b) = Some (cl, (), cout)"
      "b' = \<lparr>br_tr = t, br_coup = c, br_client = cl\<rparr>"
    using assms(1) by (auto simp: bridge_event_def split: option.splits)
  have ready: "te_ready (coupled (be_coup e) (br_coup b) (be_tr e))" "conn_drains (ce_conn (be_client e) 0)"
    using assms(6) by (simp_all add: bridge_serves_def coupled_def)
  have tr: "link_inv t" "flow_run (tr_mngrInputState (br_tr b)) out = Some (tr_mngrInputState t)"
    using link_next_inv[OF r(1) ready(1) st(1)] by auto
  have pk: "cl_pkts calls = out_pkts (be_coup e) out" "wired c" using coup_all_pkts[OF r(2) st(2)] by auto
  then show ?thesis
    using client_calls_pkts[OF st(3) assms(3) _ _ ready(2), of calls "be_seq e"] assms(4) out_pkts_ok[OF assms(5), of "be_coup e"] r(3,4) tr
      out_flow[OF assms(5) tr(2)]
    by (auto simp: flow_state_def)
qed

lemma events_carried:
  assumes "bridge_events evs b = Some (b', outs, cout)" and "flow_state i seq n hist b" and "0 < n"
    and "length hist + length (run_pkts evs outs) < 2 ^ 64" and "list_all (list_all carried) outs" and "list_all (\<lambda>x. bridge_serves (fst x)) evs"
  shows "cout = sock_writes i (sent_msgs seq (length hist) (run_pkts evs outs)) \<and> list_all pkt_ok (run_pkts evs outs)
    \<and> flow_state i seq n (hist @ run_pkts evs outs) b'
    \<and> msg_flow (tr_mngrInputState (br_tr b)) (map fst (run_pkts evs outs)) = Some (tr_mngrInputState (br_tr b'))"
  using assms(1,2,4-6)
proof (induction evs b arbitrary: hist outs cout rule: bridge_events.induct)
  case (1 b)
  then show ?case by (simp add: sock_writes_def)
next
  case (2 e ev evs b)
  obtain b1 out cout1 outs2 cout2 where r: "bridge_event e ev b = Some (b1, out, cout1)" "bridge_events evs b1 = Some (b', outs2, cout2)"
      "outs = out # outs2" "cout = cout1 @ cout2"
    using 2(2) by (auto split: option.splits)
  let ?p = "out_pkts (be_coup e) out"
  have first: "cout1 = sock_writes i (sent_msgs seq (length hist) ?p)" "flow_state i seq n (hist @ ?p) b1"
      "msg_flow (tr_mngrInputState (br_tr b)) (map fst ?p) = Some (tr_mngrInputState (br_tr b1))"
    using event_carried[OF r(1) 2(3) assms(3)] 2(4-6) r(3) by auto
  have "list_all pkt_ok ?p" using out_pkts_ok 2(5) r(3) by simp
  then show ?case
    using 2(1)[OF r(1) refl refl r(2) first(2)] 2(4-6) r(3,4) first
    by (auto simp: sent_msgs_append msg_flow_append sock_writes_def)
qed

lemma event_defined:
  assumes "link_next (coupled (be_coup e) (br_coup b) (be_tr e)) ev (br_tr b) = Some (t, out)" and "flow_state i seq n hist b"
    and "0 < n" and "length hist + length (out_pkts (be_coup e) out) < 2 ^ 64" and "list_all carried out" and "list_all complete out"
    and "bridge_serves e"
  shows "\<exists>b' cout. bridge_event e ev b = Some (b', out, cout)"
proof -
  have st: "wired (br_coup b)" "session_up i seq n hist (br_client b)" using assms(2) by (simp_all add: flow_state_def)
  obtain c calls where c: "coup_all (be_coup e) out (br_coup b) = Some (c, (), calls)"
    using coup_all_defined[OF st(1) assms(6)] by blast
  then have "cl_pkts calls = out_pkts (be_coup e) out" using coup_all_pkts st(1) by blast
  then show ?thesis
    using client_calls_pkts[OF st(2) assms(3), of calls "be_client e" "be_seq e"] assms(1,4,7) out_pkts_ok[OF assms(5), of "be_coup e"] c
    by (auto simp: bridge_event_def bridge_serves_def)
qed

text \<open>
  Claim C3.  The manager hears everything that the access point's link reports, over any history of events: frames, queued commands, timers.  While the session is up and
  no boot interrupts, the transport, the coupler and the client together turn every received packet, transmission report, time, loss of
  the access point and change of the flow into one message of the session; whoever reads the socket, in chunks cut
  anywhere, gets exactly these messages, in order and numbered on, and they are in the cache for a replay.  The pauses and resumptions among
  them alternate, and what they add up to is the state the transport itself keeps of the manager, so that both sides always agree on whether
  the manager may send.  No further event that the transport completes makes the coupler or the client fail.\<close>

theorem manager_hears_access_point:
  assumes run: "bridge_events evs b = Some (b', outs, cout)" and state: "flow_state i seq n hist b" "0 < n"
    and room: "length hist + length (run_pkts evs outs) < 2 ^ 64"
    and outs: "list_all (list_all carried) outs" and envs: "list_all (\<lambda>x. bridge_serves (fst x)) evs"
  shows "(\<forall>chunks. concat chunks = socket_bytes cout \<longrightarrow>
         (\<exists>s'. rx_chunks (\<lambda>got m. (got @ [m], APC_OK)) (new_CAPCSerializer APC_MAX_MSG_SIZE) [] chunks
            = Some (s', sent_msgs seq (length hist) (run_pkts evs outs), APC_OK)))
    \<and> cache_reach n (cl_cache (br_client b')) (hist @ run_pkts evs outs)
    \<and> msg_flow (tr_mngrInputState (br_tr b)) (map fst (run_pkts evs outs)) = Some (tr_mngrInputState (br_tr b'))
    \<and> (\<forall>e ev t out. link_next (coupled (be_coup e) (br_coup b') (be_tr e)) ev (br_tr b') = Some (t, out)
         \<and> bridge_serves e \<and> list_all carried out \<and> list_all complete out
         \<and> length hist + length (run_pkts evs outs) + length (out_pkts (be_coup e) out) < 2 ^ 64
         \<longrightarrow> bridge_event e ev b' \<noteq> None)"
proof -
  have r: "cout = sock_writes i (sent_msgs seq (length hist) (run_pkts evs outs))" "list_all pkt_ok (run_pkts evs outs)"
      "flow_state i seq n (hist @ run_pkts evs outs) b'"
      "msg_flow (tr_mngrInputState (br_tr b)) (map fst (run_pkts evs outs)) = Some (tr_mngrInputState (br_tr b'))"
    using events_carried[OF run state room outs envs] by auto
  have "bridge_event e ev b' \<noteq> None"
    if "link_next (coupled (be_coup e) (br_coup b') (be_tr e)) ev (br_tr b') = Some (t, out)" "bridge_serves e" "list_all carried out"
      "list_all complete out" "length hist + length (run_pkts evs outs) + length (out_pkts (be_coup e) out) < 2 ^ 64" for e ev t out
    using event_defined[OF that(1) r(3) state(2) _ that(3,4,2)] that(5) by auto
  then show ?thesis
    using r(4) r(3) socket_messages[OF sent_msgs_sendable[OF r(2)]] r(1) by (auto simp: flow_state_def session_up_def)
qed

text \<open>
  Flow control over a whole cycle: a command fills the queue to its high watermark, so that the manager is paused; its answer
  empties the queue, so that the manager is resumed; a packet comes in between.
\<close>

definition demo_flow_env :: bridge_env where
  "demo_flow_env = \<lparr>be_tr = demo_tr_env, be_coup = demo_coup_env, be_client = demo_client_env, be_seq = 0\<rparr>"

definition demo_flow_bridge :: bridge where
  "demo_flow_bridge = \<lparr>br_tr = (tr_open demo_low_params (new_CAPMTransport False))\<lparr>tr_notifPacketId := 0\<rparr>,
     br_coup = demo_coupler\<lparr>cp_gps := True\<rparr>, br_client = (demo_client (new_CAPCCache 2))\<lparr>cl_state := APCCLIENT_STATE_ONLINE\<rparr>\<rparr>"

definition demo_flow_events :: "(bridge_env \<times> link_event) list" where
  "demo_flow_events = map (Pair demo_flow_env) [EvInsert (plain_request DN_API_LOC_CMD_JOIN [7]),
     EvData (notif_frame DN_API_LOC_NOTIF_AP_RECEIVE 2 [0x55]), EvData [DN_API_LOC_CMD_JOIN, 1, 1, 0]]"

definition demo_flow_outs :: "apm_out list list" where
  "demo_flow_outs = [[SerWrite [DN_API_LOC_CMD_JOIN, 1, 0, 7], ApmNotif handleAPPause],
     [ApmNotif (handleAPReceive [0x55]), SerWrite [DN_API_LOC_NOTIF_AP_RECEIVE, 0, 3, 0]], [ApmNotif handleAPResume]]"

lemma demo_flow_run: "\<exists>b' cout. bridge_events demo_flow_events demo_flow_bridge = Some (b', demo_flow_outs, cout)"
proof -
  have "map_option (fst \<circ> snd) (bridge_events demo_flow_events demo_flow_bridge) = Some demo_flow_outs" by code_simp
  then show ?thesis by auto
qed

theorem manager_hears_access_point_witness:
  "\<exists>b' cout s'. bridge_events demo_flow_events demo_flow_bridge = Some (b', demo_flow_outs, cout)
     \<and> rx_chunks (\<lambda>got m. (got @ [m], APC_OK)) (new_CAPCSerializer APC_MAX_MSG_SIZE) [] [socket_bytes cout]
         = Some (s', sent_msgs 0 0 [(APC_NET_TX_PAUSE, []), (APC_NET_RX, [0x55]), (APC_NET_TX_RESUME, [])], APC_OK)
     \<and> tr_mngrInputState (br_tr b') = APM_FLOW_NORMAL"
proof -
  obtain b' cout where run: "bridge_events demo_flow_events demo_flow_bridge = Some (b', demo_flow_outs, cout)"
    using demo_flow_run by blast
  have tr: "link_inv ((tr_open demo_low_params (new_CAPMTransport False))\<lparr>tr_notifPacketId := 0\<rparr>)"
    by (simp add: tr_open_def startPPSTimer_def new_CAPMTransport_def link_inv_def link_weak_def)
  have m0: "tr_mngrInputState (br_tr demo_flow_bridge) = APM_FLOW_NORMAL" by code_simp
  have st: "flow_state 0 0 2 [] demo_flow_bridge"
    using demo_client_ready tr reach_new
    by (simp add: flow_state_def wired_def session_up_def demo_coupler_def demo_flow_bridge_def)
  have pk: "run_pkts demo_flow_events demo_flow_outs = [(APC_NET_TX_PAUSE, []), (APC_NET_RX, [0x55]), (APC_NET_TX_RESUME, [])]"
    by (simp add: demo_flow_events_def demo_flow_outs_def out_pkts_def notif_pkts_def)
  have ok: "list_all (list_all carried) demo_flow_outs" "list_all (\<lambda>x. bridge_serves (fst x)) demo_flow_events"
    using drain_env_drains
    by (simp_all add: demo_flow_outs_def demo_flow_events_def uplink_fits_def sizeof_apc_hdr_s_def APC_MAX_MSG_SIZE_val bridge_serves_def
        demo_flow_env_def demo_tr_env_def demo_client_env_def)
  have room: "length ([] :: sent_pkt list) + length (run_pkts demo_flow_events demo_flow_outs) < 2 ^ 64" "(0 :: u32) < 2"
    by (simp_all add: pk)
  have fl: "msg_flow APM_FLOW_NORMAL (map fst (run_pkts demo_flow_events demo_flow_outs)) = Some APM_FLOW_NORMAL"
    by (simp add: pk msg_step_def apc_const_defs)
  note claims = manager_hears_access_point[OF run st room(2,1) ok]
  have "tr_mngrInputState (br_tr b') = APM_FLOW_NORMAL" using claims fl unfolding m0 by simp
  moreover have "\<exists>s'. rx_chunks collect (new_CAPCSerializer APC_MAX_MSG_SIZE) [] [socket_bytes cout]
      = Some (s', sent_msgs 0 0 [(APC_NET_TX_PAUSE, []), (APC_NET_RX, [0x55]), (APC_NET_TX_RESUME, [])], APC_OK)"
    using spec[OF conjunct1[OF claims], of "[socket_bytes cout]"] unfolding pk by simp
  ultimately show ?thesis using run by blast
qed

end
