(* ===== verification/IO_Service.thy ===== *)
theory IO_Service
  imports APC_Client
begin

text \<open>
  The thread that runs the asynchronous operations of the client, step by step (\<^verbatim>\<open>IOSrvThread.h\<close>, \<^verbatim>\<open>IOSrvThread.cpp\<close>).
  \<^verbatim>\<open>APC_Client\<close> takes start and stop of it as one operation each; here the barrier, the live timer that keeps
  \<^verbatim>\<open>io_service::run\<close> from returning, the handlers that the thread runs and the join of \<^verbatim>\<open>stopIOSrvThread\<close> are steps
  of their own.

  Of \<^verbatim>\<open>boost::asio\<close> the model uses what its documentation states: \<^verbatim>\<open>run\<close> calls the handlers of completed operations one by
  one and returns when no operation is outstanding; a wait completes when the timer expires, or with an error when it
  is cancelled, by \<^verbatim>\<open>cancel\<close>, by \<^verbatim>\<open>expires_from_now\<close> or by the destructor; a handler that is queued already can no longer be cancelled.
\<close>

section \<open>State\<close>

datatype io_phase = ThNone | ThBarrier | ThRun | ThDone

text \<open>The thread that starts and stops the service: idle, in \<^verbatim>\<open>m_pBarrier->wait()\<close>, or in \<^verbatim>\<open>m_pThread->join()\<close>.\<close>

datatype io_caller = CallerIdle | CallerBarrier | CallerJoin

text \<open>
  \<^verbatim>\<open>is_wait\<close>: a wait of the live timer is pending; \<^verbatim>\<open>is_ready\<close>: its completed waits, with their error, whose handler has not run;
  \<^verbatim>\<open>is_work\<close>: the outstanding operations of the connectors and of the reconnect timer.
\<close>

record io_state =
  is_srv :: CIOSrvThread
  is_wait :: bool
  is_ready :: "bool list"
  is_work :: nat
  is_phase :: io_phase
  is_caller :: io_caller

definition new_io_state :: io_state where
  "new_io_state = \<lparr>is_srv = new_CIOSrvThread, is_wait = False, is_ready = [], is_work = 0, is_phase = ThNone, is_caller = CallerIdle\<rparr>"

definition io_isRunning :: "io_state \<Rightarrow> bool" where
  "io_isRunning s = io_hasSrv (is_srv s)"

section \<open>Operations\<close>

definition cancel_wait :: "io_state \<Rightarrow> io_state" where
  "cancel_wait s = (if is_wait s then s\<lparr>is_wait := False, is_ready := is_ready s @ [True]\<rparr> else s)"

text \<open>\<^verbatim>\<open>armed\<close>: no exception comes out of the timer.\<close>

definition startLiveTimer_p :: "bool \<Rightarrow> io_state \<Rightarrow> io_state" where
  "startLiveTimer_p armed s = (if armed then (cancel_wait s)\<lparr>is_wait := True\<rparr> else s)"

definition timerFun_p :: "bool \<Rightarrow> bool \<Rightarrow> io_state \<Rightarrow> io_state" where
  "timerFun_p armed error s = (if error \<or> \<not> io_liveTimer (is_srv s) then s else startLiveTimer_p armed s)"

text \<open>\<^verbatim>\<open>startIOSrvThread\<close> up to the barrier; \<^verbatim>\<open>None\<close> when the barrier is reached, else the error.\<close>

definition io_start :: "bool \<Rightarrow> io_state \<Rightarrow> io_state \<times> apc_error_t option" where
  "io_start armed s =
     (if io_hasSrv (is_srv s) \<or> io_liveTimer (is_srv s) \<or> io_barrier (is_srv s) \<or> io_thread (is_srv s) then (s, Some APC_ERR_INIT)
      else
        let s = startLiveTimer_p armed (s\<lparr>is_srv := (is_srv s)\<lparr>io_hasSrv := True, io_liveTimer := True\<rparr>\<rparr>)
        in (s\<lparr>is_srv := (is_srv s)\<lparr>io_barrier := True, io_thread := True\<rparr>, is_phase := ThBarrier, is_caller := CallerBarrier\<rparr>, None))"

text \<open>\<^verbatim>\<open>stopIOSrvThread\<close> up to the join, and after it.\<close>

definition io_stop :: "io_state \<Rightarrow> io_state" where
  "io_stop s =
     (let s = s\<lparr>is_srv := (is_srv s)\<lparr>io_barrier := False\<rparr>\<rparr>;
          s = (if io_liveTimer (is_srv s) then cancel_wait s else s)
      in s\<lparr>is_caller := CallerJoin\<rparr>)"

definition io_joined :: "io_state \<Rightarrow> io_state" where
  "io_joined s =
     (let s = (if io_thread (is_srv s) then s\<lparr>is_srv := (is_srv s)\<lparr>io_thread := False\<rparr>, is_phase := ThNone\<rparr> else s);
          s = (if io_liveTimer (is_srv s) then (cancel_wait s)\<lparr>is_srv := (is_srv s)\<lparr>io_liveTimer := False\<rparr>\<rparr> else s)
      in s\<lparr>is_srv := (is_srv s)\<lparr>io_hasSrv := False\<rparr>, is_caller := CallerIdle\<rparr>)"

text \<open>
  The steps of the two threads and of the operating system.  With \<open>faults\<close> a timer may fail to be armed and a handler may
  throw, which ends \<^verbatim>\<open>threadFun_p\<close>.
\<close>

inductive io_step :: "bool \<Rightarrow> io_state \<Rightarrow> io_state \<Rightarrow> bool" for faults where
  start: "is_caller s = CallerIdle \<Longrightarrow> armed \<or> faults \<Longrightarrow> io_step faults s (fst (io_start armed s))"
| barrier: "is_caller s = CallerBarrier \<Longrightarrow> is_phase s = ThBarrier \<Longrightarrow> io_step faults s (s\<lparr>is_caller := CallerIdle, is_phase := ThRun\<rparr>)"
| expire: "is_wait s \<Longrightarrow> io_step faults s (s\<lparr>is_wait := False, is_ready := is_ready s @ [False]\<rparr>)"
| handler: "is_phase s = ThRun \<Longrightarrow> is_ready s = error # rest \<Longrightarrow> armed \<or> faults
    \<Longrightarrow> io_step faults s (timerFun_p armed error (s\<lparr>is_ready := rest\<rparr>))"
| others: "io_step faults s (s\<lparr>is_work := n\<rparr>)"
| finish: "is_phase s = ThRun \<Longrightarrow> \<not> is_wait s \<Longrightarrow> is_ready s = [] \<Longrightarrow> is_work s = 0 \<Longrightarrow> io_step faults s (s\<lparr>is_phase := ThDone\<rparr>)"
| throw: "faults \<Longrightarrow> is_phase s = ThRun \<Longrightarrow> io_step faults s (s\<lparr>is_phase := ThDone\<rparr>)"
| stop: "is_caller s = CallerIdle \<Longrightarrow> io_step faults s (io_stop s)"
| join: "is_caller s = CallerJoin \<Longrightarrow> io_thread (is_srv s) \<longrightarrow> is_phase s = ThDone \<Longrightarrow> io_step faults s (io_joined s)"

inductive io_reach :: "bool \<Rightarrow> io_state \<Rightarrow> io_state \<Rightarrow> bool" for faults s0 where
  here: "io_reach faults s0 s0"
| there: "io_reach faults s0 s \<Longrightarrow> io_step faults s s' \<Longrightarrow> io_reach faults s0 s'"

lemma io_reach_trans: "io_reach faults b c \<Longrightarrow> io_reach faults a b \<Longrightarrow> io_reach faults a c"
  by (induction rule: io_reach.induct) (auto intro: io_reach.there)

section \<open>Consistency of the pointers\<close>

lemmas io_defs = cancel_wait_def startLiveTimer_p_def timerFun_p_def io_start_def io_stop_def io_joined_def Let_def

text \<open>The pointers are set together, except that the barrier is gone while \<^verbatim>\<open>stopIOSrvThread\<close> runs.\<close>

definition io_inv :: "io_state \<Rightarrow> bool" where
  "io_inv s \<longleftrightarrow> io_liveTimer (is_srv s) = io_hasSrv (is_srv s) \<and> io_thread (is_srv s) = io_hasSrv (is_srv s)
     \<and> (io_barrier (is_srv s) \<longleftrightarrow> io_hasSrv (is_srv s) \<and> is_caller s \<noteq> CallerJoin)
     \<and> (is_phase s = ThNone \<longleftrightarrow> \<not> io_hasSrv (is_srv s)) \<and> (is_phase s = ThBarrier \<longleftrightarrow> is_caller s = CallerBarrier)
     \<and> (is_wait s \<longrightarrow> io_hasSrv (is_srv s))"

lemma io_step_inv: "io_step faults s s' \<Longrightarrow> io_inv s \<Longrightarrow> io_inv s'"
  by (induction rule: io_step.induct) (auto simp: io_defs io_inv_def)

lemma io_reach_inv: "io_reach faults s s' \<Longrightarrow> io_inv s \<Longrightarrow> io_inv s'"
  by (induction rule: io_reach.induct) (auto intro: io_step_inv)

lemma new_io_inv: "io_inv new_io_state"
  by (simp add: new_io_state_def io_inv_def new_CIOSrvThread_def)

text \<open>Start and stop as one operation each (\<^verbatim>\<open>APC_Client\<close>) are what their steps add up to.\<close>

lemma io_start_refines:
  assumes "io_start armed s = (s', r)"
  shows "startIOSrvThread (is_srv s) = (is_srv s', case r of None \<Rightarrow> APC_OK | Some err \<Rightarrow> err)"
  using assms by (auto simp: io_defs startIOSrvThread_def)

lemma io_stop_refines: "is_srv (io_joined (io_stop s)) = stopIOSrvThread (is_srv s)"
  by (simp add: io_defs stopIOSrvThread_def)

section \<open>The live timer\<close>

text \<open>Without faults, a live timer always has its wait pending or the handler that starts the next one queued.\<close>

definition live :: "io_state \<Rightarrow> bool" where
  "live s \<longleftrightarrow> is_wait s \<or> False \<in> set (is_ready s)"

lemma live_step:
  assumes "io_step False s s'" and "io_inv s" and "is_caller s' \<noteq> CallerJoin"
    and "is_caller s \<noteq> CallerJoin \<Longrightarrow> io_hasSrv (is_srv s) \<Longrightarrow> live s \<and> is_phase s \<noteq> ThDone"
    and "io_hasSrv (is_srv s')"
  shows "live s' \<and> is_phase s' \<noteq> ThDone"
  using assms
  by (cases rule: io_step.cases) (auto simp: io_defs io_inv_def live_def split: if_splits)

lemma live_reach:
  assumes "io_reach False new_io_state s" and "is_caller s \<noteq> CallerJoin" and "io_hasSrv (is_srv s)"
  shows "live s \<and> is_phase s \<noteq> ThDone"
  using assms
proof (induction rule: io_reach.induct)
  case here
  then show ?case by (simp add: new_io_state_def new_CIOSrvThread_def)
next
  case (there s s')
  then show ?case using live_step[OF there.hyps(2)] io_reach_inv[OF there.hyps(1) new_io_inv] by blast
qed

section \<open>The join\<close>

text \<open>The states while a caller waits in \<^verbatim>\<open>stopIOSrvThread\<close>, up to the one where it returns.\<close>

inductive io_joining :: "io_state \<Rightarrow> io_state \<Rightarrow> bool" for s0 where
  joining_here: "io_joining s0 s0"
| joining_there: "io_joining s0 s \<Longrightarrow> is_caller s = CallerJoin \<Longrightarrow> io_step False s s' \<Longrightarrow> io_joining s0 s'"

text \<open>Two kinds of states in the join: the live timer goes on, or only operations of others keep the thread.\<close>

definition stuck :: "io_state \<Rightarrow> bool" where
  "stuck s \<longleftrightarrow> is_caller s = CallerJoin \<and> io_thread (is_srv s) \<and> io_liveTimer (is_srv s) \<and> is_phase s = ThRun \<and> live s"

definition draining :: "io_state \<Rightarrow> bool" where
  "draining s \<longleftrightarrow> is_caller s = CallerJoin \<and> io_thread (is_srv s) \<and> (is_phase s = ThRun \<or> is_phase s = ThDone) \<and> \<not> live s"

lemma stuck_step: "io_step False s s' \<Longrightarrow> stuck s \<Longrightarrow> stuck s'"
  by (induction rule: io_step.induct) (auto simp: io_defs stuck_def live_def)

lemma draining_step: "io_step False s s' \<Longrightarrow> draining s \<Longrightarrow> draining s' \<or> is_caller s' = CallerIdle"
  by (induction rule: io_step.induct) (auto simp: io_defs draining_def live_def)

lemma stuck_forever: "io_joining s s' \<Longrightarrow> stuck s \<Longrightarrow> stuck s'"
  by (induction rule: io_joining.induct) (auto intro: stuck_step)

lemma draining_joining: "io_joining s s' \<Longrightarrow> draining s \<Longrightarrow> draining s' \<or> is_caller s' = CallerIdle"
  by (induction rule: io_joining.induct) (auto simp: draining_def dest!: draining_step)

lemma drain_ready:
  assumes "draining s" and "is_phase s = ThRun"
  shows "io_joining s (s\<lparr>is_ready := []\<rparr>)"
proof -
  have "io_joining s (s\<lparr>is_ready := drop k (is_ready s)\<rparr>)" if "k \<le> length (is_ready s)" for k
    using that
  proof (induction k)
    case 0
    show ?case using joining_here by simp
  next
    case (Suc k)
    let ?s = "s\<lparr>is_ready := drop k (is_ready s)\<rparr>"
    have split: "drop k (is_ready s) = is_ready s ! k # drop (Suc k) (is_ready s)" using Suc.prems by (simp add: Cons_nth_drop_Suc)
    have "is_ready s ! k \<in> set (is_ready s)" using Suc.prems by simp
    then have "is_ready s ! k" using assms(1) unfolding draining_def live_def by metis
    then have "io_step False ?s (s\<lparr>is_ready := drop (Suc k) (is_ready s)\<rparr>)"
      using io_step.handler[of ?s True "drop (Suc k) (is_ready s)" True False] assms(2) split by (simp add: timerFun_p_def)
    then show ?case using joining_there[OF Suc.IH] Suc.prems assms(1) by (simp add: draining_def)
  qed
  from this[of "length (is_ready s)"] show ?thesis by simp
qed

lemma drain:
  assumes "draining s"
  shows "\<exists>s'. io_joining s s' \<and> is_caller s' = CallerIdle"
proof -
  have c: "is_caller s = CallerJoin" using assms by (simp add: draining_def)
  obtain s1 where s1: "io_joining s s1" "is_phase s1 = ThDone" "is_caller s1 = CallerJoin"
  proof (cases "is_phase s = ThDone")
    case True
    then show thesis using that[OF joining_here] c by simp
  next
    case False
    then have p: "is_phase s = ThRun" "\<not> is_wait s" using assms by (auto simp: draining_def live_def)
    let ?s = "s\<lparr>is_ready := [], is_work := 0\<rparr>"
    have "io_joining s ?s" using joining_there[OF drain_ready[OF assms p(1)] _ io_step.others[where n = 0]] c by simp
    then have "io_joining s (?s\<lparr>is_phase := ThDone\<rparr>)" using joining_there[OF _ _ io_step.finish[of ?s]] p c by simp
    then show thesis using that c by simp
  qed
  have "is_caller (io_joined s1) = CallerIdle" by (simp add: io_defs)
  then show ?thesis using joining_there[OF s1(1,3) io_step.join[of s1]] s1(2,3) by auto
qed

lemma io_stop_kind:
  assumes "io_reach False new_io_state s" and "is_caller s = CallerIdle" and "io_isRunning s"
  shows "if False \<in> set (is_ready s) then stuck (io_stop s) else draining (io_stop s)"
proof -
  have r: "io_hasSrv (is_srv s)" using assms(3) by (simp add: io_isRunning_def)
  have inv: "io_inv s" using io_reach_inv[OF assms(1) new_io_inv] .
  have l: "live s" "is_phase s \<noteq> ThDone" using live_reach[OF assms(1) _ r] assms(2) by auto
  then have "is_phase s = ThRun" using inv r assms(2) by (cases "is_phase s") (auto simp: io_inv_def)
  then show ?thesis using inv r l by (auto simp: stuck_def draining_def live_def io_inv_def io_defs)
qed

text \<open>
  Claim C36.  When \<^verbatim>\<open>stopIOSrvThread\<close> returns.  While the service runs, the live timer keeps its thread from
  ending.  Stopping it works exactly when the hourly timer has not just expired: if its handler is not queued when the timer is cancelled,
  the timer is not started again, and the call can return from every state on the way, as soon as the other operations are done; but if the handler is already queued, it can no longer be cancelled,
  starts the timer anew, and again every hour, and the call never returns, whatever happens.\<close>

theorem io_stop_returns_unless_timer_expired:
  assumes "io_reach False new_io_state s" and "is_caller s = CallerIdle" and "io_isRunning s"
  shows "live s \<and> is_phase s \<noteq> ThDone
    \<and> (if False \<in> set (is_ready s) then (\<forall>s'. io_joining (io_stop s) s' \<longrightarrow> is_caller s' = CallerJoin)
       else (\<forall>s'. io_joining (io_stop s) s' \<longrightarrow> (\<exists>s''. io_joining s' s'' \<and> is_caller s'' = CallerIdle)))"
proof -
  have "live s \<and> is_phase s \<noteq> ThDone" using live_reach assms by (simp add: io_isRunning_def)
  moreover have "is_caller s' = CallerJoin" if "False \<in> set (is_ready s)" "io_joining (io_stop s) s'" for s'
    using stuck_forever[OF that(2)] io_stop_kind[OF assms] that(1) by (simp add: stuck_def)
  moreover have "\<exists>s''. io_joining s' s'' \<and> is_caller s'' = CallerIdle" if "False \<notin> set (is_ready s)" "io_joining (io_stop s) s'" for s'
    using draining_joining[OF that(2)] io_stop_kind[OF assms] that(1) drain joining_here by auto
  ultimately show ?thesis by simp
qed

text \<open>A service that was started, and one whose timer expired a moment before.\<close>

definition demo_io :: io_state where
  "demo_io = (fst (io_start True new_io_state))\<lparr>is_caller := CallerIdle, is_phase := ThRun\<rparr>"

definition demo_io_expired :: io_state where
  "demo_io_expired = demo_io\<lparr>is_wait := False, is_ready := is_ready demo_io @ [False]\<rparr>"

lemma demo_io_reach: "io_reach False new_io_state demo_io" "io_reach False new_io_state demo_io_expired"
proof -
  let ?s = "fst (io_start True new_io_state)"
  have "io_step False new_io_state ?s" by (rule io_step.start) (simp_all add: new_io_state_def)
  moreover have "io_step False ?s demo_io"
    unfolding demo_io_def by (rule io_step.barrier) (simp_all add: io_defs new_io_state_def new_CIOSrvThread_def)
  ultimately show d: "io_reach False new_io_state demo_io" by (blast intro: io_reach.intros)
  have "is_wait demo_io" by code_simp
  then have "io_step False demo_io demo_io_expired" unfolding demo_io_expired_def by (rule io_step.expire)
  then show "io_reach False new_io_state demo_io_expired" by (rule io_reach.there[OF d])
qed

theorem io_stop_returns_unless_timer_expired_witness:
  "(\<exists>s''. io_joining (io_stop demo_io) s'' \<and> is_caller s'' = CallerIdle)
   \<and> \<not> (\<exists>s'. io_joining (io_stop demo_io_expired) s' \<and> is_caller s' \<noteq> CallerJoin)"
proof -
  have c: "is_caller demo_io = CallerIdle" "io_isRunning demo_io" "is_ready demo_io = []"
    "is_caller demo_io_expired = CallerIdle" "io_isRunning demo_io_expired" "is_ready demo_io_expired = [False]" by code_simp+
  show ?thesis
    using io_stop_returns_unless_timer_expired[OF demo_io_reach(1) c(1,2)] io_stop_returns_unless_timer_expired[OF demo_io_reach(2) c(4,5)]
      c(3,6) joining_here by auto
qed

section \<open>Exceptions\<close>

text \<open>
  A handler that throws ends the thread for good: until the service is stopped no handler runs again, while \<^verbatim>\<open>isRunning\<close> still
  says that it does and a new start is refused.
\<close>

lemma exception_ends_service:
  assumes "io_step faults s s'" and "io_inv s" and "is_phase s = ThDone" and "is_caller s = CallerIdle" and "is_caller s' = CallerIdle"
  shows "is_phase s' = ThDone \<and> io_isRunning s' \<and> snd (io_start armed s') = Some APC_ERR_INIT"
proof -
  have "io_inv s'" using io_step_inv[OF assms(1,2)] .
  moreover have "is_phase s' = ThDone"
    using assms by (induction rule: io_step.induct) (auto simp: io_defs io_inv_def split: if_splits)
  ultimately show ?thesis by (auto simp: io_inv_def io_isRunning_def io_start_def)
qed

end
