(* ===== verification/Fmt_Double.thy ===== *)
theory Fmt_Double
  imports Fmt_Text
begin

text \<open>
  Properties of the conversions of floating point numbers: how far rounding goes, that whole numbers below \<open>2 ^ 51\<close> are printed
  exactly, what becomes of infinity, of zero in the exponential format and of a precision beyond the digits that are computed.
\<close>

section \<open>Rounding\<close>

lemma leading_bit_bounds:
  assumes "x \<noteq> 0"
  shows "2 powi leading_bit x \<le> \<bar>x\<bar>" and "\<bar>x\<bar> < 2 powi (leading_bit x + 1)"
proof -
  obtain n d where q: "quotient_of \<bar>x\<bar> = (n, d)" by fastforce
  have d: "d > 0" and x: "\<bar>x\<bar> = of_int n / of_int d" using quotient_of_denom_pos[OF q] quotient_of_div[OF q] by auto
  have n: "n > 0" using x d assms by (metis abs_le_zero_iff divide_nonpos_pos linorder_not_less of_int_0_less_iff of_int_le_0_iff)
  let ?a = "bitlen n" and ?b = "bitlen d"
  have ge1: "?a \<ge> 1" "?b \<ge> 1" using n d by (auto simp: bitlen_alt_def)
  have pow: "of_int (2 ^ nat k) = (2 powi k :: rat)" if "k \<ge> 0" for k using that by (simp add: power_int_def)
  have nb: "2 powi (?a - 1) \<le> (of_int n :: rat)" "(of_int n :: rat) < 2 powi ?a"
    using bitlen_bounds[OF n] ge1(1) by (metis diff_ge_0_iff_ge of_int_le_iff pow, metis bitlen_nonneg of_int_less_iff pow)
  have db: "2 powi (?b - 1) \<le> (of_int d :: rat)" "(of_int d :: rat) < 2 powi ?b"
    using bitlen_bounds[OF d] ge1(2) by (metis diff_ge_0_iff_ge of_int_le_iff pow, metis bitlen_nonneg of_int_less_iff pow)
  have up: "\<bar>x\<bar> < 2 powi (?a - ?b + 1)"
  proof -
    have "of_int n < (2 powi (?a - ?b + 1) * 2 powi (?b - 1) :: rat)"
      using nb(2) by (simp add: power_int_add[symmetric])
    also have "\<dots> \<le> 2 powi (?a - ?b + 1) * of_int d" using db(1) by (simp add: mult_left_mono)
    finally show ?thesis using d by (simp add: x divide_less_eq)
  qed
  have lo: "2 powi (?a - ?b - 1) \<le> \<bar>x\<bar>"
  proof -
    have "2 powi (?a - ?b - 1) * of_int d \<le> (2 powi (?a - ?b - 1) * 2 powi ?b :: rat)" using db(2) by (intro mult_left_mono) auto
    also have "\<dots> = 2 powi (?a - 1)" by (simp add: power_int_add[symmetric])
    finally show ?thesis using nb(1) d by (simp add: x le_divide_eq)
  qed
  show "2 powi leading_bit x \<le> \<bar>x\<bar>" "\<bar>x\<bar> < 2 powi (leading_bit x + 1)"
    using up lo by (auto simp: leading_bit_def q Let_def)
qed

lemma round_even_near: "\<bar>of_int (round_even q) - q\<bar> \<le> 1 / 2"
proof -
  have "of_int \<lfloor>q\<rfloor> \<le> q" "q < of_int \<lfloor>q\<rfloor> + 1" by linarith+
  then show ?thesis by (auto simp: round_even_def Let_def)
qed

lemma round_even_int [simp]: "round_even (of_int n) = n"
  by (simp add: round_even_def Let_def)

text \<open>Below \<open>2 ^ m\<close> rounding moves a number by at most \<open>2 ^ (m - 54)\<close>.\<close>

lemma rnd_near:
  assumes "0 < x" and "x < 2 powi m" and "- 1000 \<le> m" and "m \<le> 1000"
  shows "\<exists>y. rnd x = Fin y \<and> \<bar>y - x\<bar> \<le> 2 powi (m - 54)"
proof -
  let ?y = "of_int (round_even (x / ulp x)) * ulp x"
  have u: "ulp x > 0" by (simp add: ulp_def)
  have "2 powi leading_bit x < (2 powi m :: rat)" using leading_bit_bounds(1)[of x] assms(1,2) by simp
  then have l: "leading_bit x < m" by (metis power_int_increasing linorder_not_less one_le_numeral)
  have ul: "ulp x \<le> 2 powi (m - 53)"
    unfolding ulp_def using l assms(3) by (intro power_int_increasing) auto
  have two: "2 powi (m - 53) = (2 powi (m - 54) * 2 :: rat)"
    using power_int_add_1[of "2 :: rat" "m - 54"] by simp
  have "?y - x = (of_int (round_even (x / ulp x)) - x / ulp x) * ulp x" using u by (simp add: left_diff_distrib)
  then have "\<bar>?y - x\<bar> = \<bar>of_int (round_even (x / ulp x)) - x / ulp x\<bar> * ulp x" using u by (simp add: abs_mult)
  also have "\<dots> \<le> 1 / 2 * ulp x" using round_even_near u by (intro mult_right_mono) auto
  finally have near: "\<bar>?y - x\<bar> \<le> 2 powi (m - 54)" using ul two by linarith
  have b: "2 powi m \<le> (2 powi 1000 :: rat)" "2 powi (m - 54) \<le> (2 powi 1000 :: rat)"
    by (rule power_int_increasing; use assms(4) in simp)+
  have "(2 powi 1000 :: rat) + 2 powi 1000 < 2 ^ 1024" by (simp add: power_int_def)
  then have "\<bar>?y\<bar> < 2 ^ 1024" using b near assms(1,2) by linarith
  then show ?thesis using near assms(1) by (auto simp: rnd_def Let_def)
qed

text \<open>Whole numbers with at most 53 bits are kept.\<close>

lemma rnd_int:
  assumes "\<bar>n\<bar> < 2 ^ 53"
  shows "rnd (of_int n) = Fin (of_int n)"
proof (cases "n = 0")
  case False
  let ?x = "of_int n :: rat"
  have ab: "1 \<le> \<bar>?x\<bar>" using False by simp
  have "\<bar>?x\<bar> < 2 powi 53" using assms by (simp add: power_int_def flip: of_int_abs)
  then have "2 powi leading_bit ?x < (2 powi 53 :: rat)" using leading_bit_bounds(1)[of ?x] False by simp
  then have l: "leading_bit ?x < 53" by (metis power_int_increasing linorder_not_less one_le_numeral)
  have "(2 powi 0 :: rat) < 2 powi (leading_bit ?x + 1)" using leading_bit_bounds(2)[of ?x] False ab by simp
  then have l0: "leading_bit ?x \<ge> 0" by (metis power_int_increasing linorder_not_less one_le_numeral zle_add1_eq_le add.commute)
  define k where "k = nat (52 - leading_bit ?x)"
  have u: "ulp ?x = 1 / 2 ^ k"
    using l l0 by (simp add: ulp_def k_def power_int_def field_simps split: if_splits)
  have "?x / ulp ?x = of_int (n * 2 ^ k)" by (simp add: u)
  then have "of_int (round_even (?x / ulp ?x)) * ulp ?x = of_int (n * 2 ^ k) * ulp ?x" by (metis round_even_int)
  then have "of_int (round_even (?x / ulp ?x)) * ulp ?x = ?x" by (simp add: u)
  moreover have "\<bar>?x\<bar> < 2 ^ 1024"
  proof -
    have "\<bar>?x\<bar> < 2 ^ 53" using assms by (simp flip: of_int_abs)
    also have "(2 :: rat) ^ 53 < 2 ^ 1024" by simp
    finally show ?thesis .
  qed
  ultimately show ?thesis using False by (auto simp: rnd_def Let_def)
qed (simp add: rnd_def)

section \<open>The digits of a whole number\<close>

lemma trunc_nonneg: "0 \<le> q \<Longrightarrow> trunc q = \<lfloor>q\<rfloor>"
  by (simp add: trunc_def)

lemma tenth_near:
  assumes "0 < n" and "n < 2 ^ 51"
  shows "\<exists>y. scale (1 / 10) (Fin (of_int n)) = Fin y \<and> \<bar>y - of_int n / 10\<bar> \<le> 1 / 64 \<and> (n mod 10 = 0 \<longrightarrow> y = of_int n / 10)"
proof -
  let ?x = "of_int n / 10 :: rat"
  have n: "(of_int n :: rat) < 2 ^ 51" using assms(2) by (metis of_int_less_numeral_power_cancel_iff)
  then have "?x < 2 powi 48" by (simp add: power_int_def)
  then obtain y where y: "rnd ?x = Fin y" "\<bar>y - ?x\<bar> \<le> 2 powi (48 - 54)" using rnd_near[of ?x 48] assms(1) by auto
  have "y = ?x" if "n mod 10 = 0"
  proof -
    have "?x = of_int (n div 10)" using that by (auto simp: dvd_eq_mod_eq_0[symmetric] elim!: dvdE)
    moreover have "\<bar>n div 10\<bar> < 2 ^ 53" using assms by auto
    ultimately show ?thesis using rnd_int y(1) by simp
  qed
  then show ?thesis using y by (auto simp: power_int_def power_divide)
qed

lemma const03_near: "\<exists>c. rnd (3 / 100) = Fin c \<and> \<bar>c - 3 / 100\<bar> \<le> 2 powi (- 53)"
  using rnd_near[of "3 / 100" 1] by simp

text \<open>The fraction need only be near the digit: \<^verbatim>\<open>+ .03\<close> makes up for the rounding.\<close>

lemma plus03_digit:
  assumes r: "0 \<le> r" "r < 10" and f: "\<bar>f - of_int r / 10\<bar> \<le> 1 / 64" "0 \<le> f" "f < 1"
  shows "to_int (scale 10 (plus03 (Fin f))) = Some r"
proof -
  let ?r = "of_int r :: rat"
  have rr: "0 \<le> ?r" "?r \<le> 9" using r by auto
  obtain c where c: "rnd (3 / 100) = Fin c" "\<bar>c - 3 / 100\<bar> \<le> 2 powi (- 53)" using const03_near by blast
  have e53: "(2 powi (- 53) :: rat) \<le> 1 / 1000000" by (simp add: power_int_def power_divide)
  have c2: "\<bar>c - 3 / 100\<bar> \<le> 1 / 1000000" using c(2) e53 by linarith
  let ?s = "f + c"
  have s: "0 < ?s \<and> ?s < 2" using c2 f unfolding abs_le_iff by linarith
  then have "?s < 2 powi 1" by simp
  then obtain z where z: "rnd ?s = Fin z" "\<bar>z - ?s\<bar> \<le> 2 powi (1 - 54)" using rnd_near[of ?s 1] s by auto
  have z2: "\<bar>z - ?s\<bar> \<le> 1 / 1000000" using z(2) e53 by simp
  have zz: "\<bar>z - ?r / 10 - 3 / 100\<bar> \<le> 1 / 64 + 2 / 1000000" using z2 c2 f(1) unfolding abs_le_iff by linarith
  have z10: "0 < 10 * z \<and> 10 * z < 16" using zz rr unfolding abs_le_iff by linarith
  then have "10 * z < 2 powi 4" by (simp add: power_int_def)
  then obtain w where w: "rnd (10 * z) = Fin w" "\<bar>w - 10 * z\<bar> \<le> 2 powi (4 - 54)" using rnd_near[of "10 * z" 4] z10 by auto
  have e50: "(2 powi (4 - 54) :: rat) \<le> 1 / 1000000" by (simp add: power_int_def power_divide)
  have ww: "?r \<le> w \<and> w < ?r + 1" using w(2) e50 zz unfolding abs_le_iff by linarith
  then have "0 \<le> w" "\<lfloor>w\<rfloor> = r" using rr by (auto simp: floor_eq_iff intro: order_trans[of 0 ?r])
  then have "to_int (Fin w) = Some r" using r by (simp add: trunc_nonneg)
  then show ?thesis using c(1) z(1) w(1) by simp
qed

lemma digit_step:
  assumes "0 < n" and "n < 2 ^ 51"
  shows "\<exists>fj. modf (scale (1 / 10) (Fin (of_int n))) = (fj, Fin (of_int (n div 10)))
    \<and> to_int (scale 10 (plus03 fj)) = Some (n mod 10)"
proof -
  let ?r = "of_int (n mod 10) :: rat" and ?q = "of_int (n div 10) :: rat"
  have r: "0 \<le> n mod 10" "n mod 10 < 10" by simp_all
  have x: "of_int n / 10 = ?q + ?r / 10"
  proof -
    have "n = n div 10 * 10 + n mod 10" by simp
    then have "of_int n = ?q * 10 + ?r" by (metis of_int_add of_int_mult of_int_numeral)
    then show ?thesis by simp
  qed
  obtain y where y: "scale (1 / 10) (Fin (of_int n)) = Fin y" "\<bar>y - (?q + ?r / 10)\<bar> \<le> 1 / 64" "n mod 10 = 0 \<Longrightarrow> y = ?q"
    using tenth_near[OF assms] x by auto
  have rr: "?r = 0 \<or> 1 \<le> ?r" "?r \<le> 9" using r by (auto simp: le_less)
  have yq: "?q \<le> y \<and> y < ?q + 1"
  proof (cases "n mod 10 = 0")
    case True
    then show ?thesis using y(3) by simp
  next
    case False
    then have "1 \<le> ?r" using rr(1) by simp
    then show ?thesis using y(2) rr(2) unfolding abs_le_iff by linarith
  qed
  have fl: "\<lfloor>y\<rfloor> = n div 10" using yq by (intro floor_unique) auto
  have "0 \<le> y" using yq assms(1) by (meson of_int_0_le_iff order_trans pos_imp_zdiv_nonneg_iff zero_less_numeral less_imp_le)
  then have m: "modf (Fin y) = (Fin (y - ?q), Fin ?q)" by (simp add: trunc_nonneg fl)
  have "\<bar>(y - ?q) - ?r / 10\<bar> \<le> 1 / 64" "0 \<le> y - ?q" "y - ?q < 1" using y(2) yq by (simp_all add: algebra_simps)
  then have "to_int (scale 10 (plus03 (Fin (y - ?q)))) = Some (n mod 10)" using plus03_digit r by simp
  then show ?thesis using y(1) m by simp
qed

definition codes :: "int \<Rightarrow> int list" where
  "codes n = (if n = 0 then [] else map (\<lambda>c. int (of_char c)) (dec_text (nat n)))"

lemma codes_step:
  assumes "0 < n"
  shows "codes n = codes (n div 10) @ [n mod 10 + 48]"
proof -
  have d: "int (of_char (dec_char k)) = int k + 48" if "k < 10" for k using that by (simp add: dec_char_def)
  have m: "nat n mod 10 = nat (n mod 10)" "nat n div 10 = nat (n div 10)" using assms by (simp_all add: nat_mod_distrib nat_div_distrib)
  show ?thesis
  proof (cases "n < 10")
    case True
    then have "nat n < 10" by simp
    then show ?thesis using True assms d[of "nat n"] by (simp add: codes_def dec_text.simps[of "nat n"])
  next
    case False
    then have "n div 10 > 0" by linarith
    then show ?thesis using False assms d[of "nat (n mod 10)"] m by (simp add: codes_def dec_text.simps[of "nat n"] nat_less_iff)
  qed
qed

lemma codes_digits: "c \<in> set (codes n) \<Longrightarrow> 48 \<le> c \<and> c \<le> 57"
  by (auto simp: codes_def isdigit_def less_eq_char_def split: if_splits dest!: dec_text_digits)

lemma cvt_int_digits:
  assumes "0 \<le> n" and "n < 2 ^ 51" and "length (codes n) \<le> k" and "k \<le> length buf"
  shows "cvt_int (Fin (of_int n)) k r2 buf = Some (k - length (codes n), r2 + int (length (codes n)),
    take (k - length (codes n)) buf @ map Some (codes n) @ drop k buf)"
  using assms
proof (induction "nat n" arbitrary: n k r2 buf rule: less_induct)
  case less
  show ?case
  proof (cases "n = 0")
    case True
    then show ?thesis using less.prems by (cases k) (simp_all add: codes_def is_zero_def)
  next
    case False
    then have n: "0 < n" using less.prems by simp
    obtain p1 where k: "k = Suc p1" using less.prems(3) codes_step[OF n] by (cases k) auto
    obtain fj where st: "modf (scale (1 / 10) (Fin (of_int n))) = (fj, Fin (of_int (n div 10)))"
        "to_int (scale 10 (plus03 fj)) = Some (n mod 10)"
      using digit_step[OF n less.prems(2)] by blast
    let ?b = "buf[p1 := Some (n mod 10 + 48)]"
    have len: "length (codes (n div 10)) \<le> p1" using less.prems(3) codes_step[OF n] k by simp
    have ih: "cvt_int (Fin (of_int (n div 10))) p1 (r2 + 1) ?b = Some (p1 - length (codes (n div 10)), r2 + 1 + int (length (codes (n div 10))),
        take (p1 - length (codes (n div 10))) ?b @ map Some (codes (n div 10)) @ drop p1 ?b)"
      using less.hyps[of "n div 10" p1 ?b] n less.prems len k by (simp add: nat_less_iff)
    have "drop p1 ?b = Some (n mod 10 + 48) # drop k buf"
      using less.prems(4) k by (simp add: Cons_nth_drop_Suc[symmetric, of p1])
    then show ?thesis
      using ih st n k False by (simp add: is_zero_def codes_step[OF n])
  qed
qed

lemma cvt_copy_eq:
  assumes "length buf = NDIG" and "p1 \<le> NDIG"
  shows "cvt_copy p1 buf = (NDIG - p1, drop p1 buf @ drop (NDIG - p1) buf)"
proof -
  let ?f = "\<lambda>(p, buf) i. (p + 1, buf[p := buf ! i])"
  have "foldl ?f (0, buf) [p1..<p1 + j] = (j, take j (drop p1 buf) @ drop j buf)" if "p1 + j \<le> NDIG" for j
    using that
  proof (induction j)
    case (Suc j)
    have l: "length (take j (drop p1 buf)) = j" using Suc.prems assms(1) by simp
    have "(take j (drop p1 buf) @ drop j buf) ! (p1 + j) = buf ! (p1 + j)" using Suc.prems assms(1) by (simp add: nth_append l add.commute)
    moreover have "(take j (drop p1 buf) @ drop j buf)[j := v] = take j (drop p1 buf) @ v # drop (Suc j) buf" for v
      using Suc.prems assms(1) l by (simp add: list_update_append Cons_nth_drop_Suc[symmetric, of j buf])
    moreover have "take (Suc j) (drop p1 buf) = take j (drop p1 buf) @ [buf ! (p1 + j)]"
      using Suc.prems assms(1) by (simp add: take_Suc_conv_app_nth)
    ultimately show ?case using Suc by simp
  qed simp
  from this[of "NDIG - p1"] show ?thesis using assms by (simp add: cvt_copy_def)
qed

lemma rnd_zero [simp]: "rnd 0 = Fin 0"
  by (simp add: rnd_def)

lemma cvt_frac_zero:
  assumes "a \<le> b" and "b \<le> length buf"
  shows "cvt_frac [a..<b] (Fin 0) buf = Some (take a buf @ replicate (b - a) (Some 48) @ drop b buf)"
  using assms
proof (induction "b - a" arbitrary: a buf)
  case (Suc k)
  have u: "[a..<b] = a # [Suc a..<b]" using Suc.hyps(2) by (simp add: upt_rec)
  have "take (Suc a) (buf[a := Some 48]) = take a buf @ [Some 48]" using Suc.hyps(2) Suc.prems by (simp add: take_Suc_conv_app_nth)
  moreover have "b - a = Suc (b - Suc a)" using Suc.hyps(2) by simp
  ultimately show ?case
    using Suc.hyps(1)[of "Suc a" "buf[a := Some 48]"] Suc.hyps(2) Suc.prems by (simp add: u trunc_def)
qed simp

lemma codes_length:
  assumes "0 \<le> n" and "n < 2 ^ 51"
  shows "length (codes n) \<le> 16"
proof (cases "n = 0")
  case False
  have l: "length (codes n) = length (dec_text (nat n))" using False by (simp add: codes_def)
  have "10 ^ (length (codes n) - 1) \<le> nat n" unfolding l using dec_text_length[of "nat n"] False assms(1) by simp
  also have "nat n < 10 ^ 16" using assms by simp
  finally have "length (codes n) - 1 < 16" by (rule power_less_imp_less_exp[rotated]) simp
  then show ?thesis by simp
qed (simp add: codes_def)

text \<open>The digits of a whole number as \<^verbatim>\<open>ap_fcvt\<close> leaves them: no rounding, and a zero for every digit after the point.\<close>

lemma ap_fcvt_int:
  assumes "\<bar>n\<bar> < 2 ^ 51" and "0 \<le> prec" and "prec + int (length (codes \<bar>n\<bar>)) < 79"
  shows "\<exists>rest. ap_fcvt (Fin (of_int n)) prec = Some (map Some (codes \<bar>n\<bar> @ replicate (nat prec) 48 @ [0]) @ rest,
    int (length (codes \<bar>n\<bar>)), n < 0)"
proof -
  let ?n = "\<bar>n\<bar>" and ?buf = "replicate NDIG None :: cvt_buf"
  let ?L = "length (codes ?n)"
  let ?P = "nat prec + ?L"
  have L: "?L \<le> 16" using codes_length[OF _ assms(1)] by simp
  have arg: "modf (if lt_zero (Fin (of_int n)) then neg (Fin (of_int n)) else Fin (of_int n)) = (Fin 0, Fin (of_int ?n))"
    by (simp add: trunc_def)
  obtain buf where buf: "length buf = NDIG" "take ?L buf = map Some (codes ?n)"
    and first: "cvt_start (Fin 0) (Fin (of_int ?n)) = Some (Fin 0, ?L, int ?L, buf)"
  proof (cases "n = 0")
    case True
    then show thesis using that[of ?buf] by (simp add: cvt_start_def codes_def is_zero_def)
  next
    case False
    let ?b = "take (NDIG - ?L) ?buf @ map Some (codes ?n)"
    have c: "cvt_int (Fin (of_int ?n)) NDIG 0 ?buf = Some (NDIG - ?L, int ?L, ?b)"
      using cvt_int_digits[of ?n NDIG ?buf 0] assms(1) L by (simp add: NDIG_def)
    have b: "length ?b = NDIG" "drop (NDIG - ?L) ?b = map Some (codes ?n)" using L by (simp_all add: NDIG_def)
    show thesis
      using that[of "map Some (codes ?n) @ drop ?L ?b"] False c b(1) L cvt_copy_eq[OF b(1), of "NDIG - ?L"]
      by (simp add: cvt_start_def is_zero_def NDIG_def del: of_int_abs)
  qed
  have P: "?P < 79" "?P < NDIG" "int ?P = prec + int ?L" using assms(2,3) by (simp_all add: NDIG_def)
  define X where "X = map Some (codes ?n) @ replicate (nat prec) (Some (48 :: int))"
  define R where "R = drop (Suc ?P) buf"
  have X: "length X = ?P" by (simp add: X_def)
  have frac: "cvt_frac [?L..<min (?P + 1) NDIG] (Fin 0) buf = Some (X @ Some 48 # R)"
    using cvt_frac_zero[of ?L "Suc ?P" buf] P(2) buf by (simp add: Suc_diff_le X_def R_def replicate_app_Cons_same)
  have upd: "(X @ v # R)[?P := w] = X @ w # R" for v w using list_update_length[of X] X by metis
  have rdP: "rd (X @ v # R) ?P = v" for v using nth_append_length[of X] X by (simp add: rd_def)
  have round: "cvt_round False ?P ?P d (X @ Some 53 # R) = Some (d, ?P, X @ Some 53 # R)" for d
    using rdP[of "Some 53"] by (cases ?P) simp_all
  have nat: "nat (prec + int ?L) = ?P" using assms(2) by simp
  have cap: "(if prec \<ge> int NDIG - 1 then int NDIG - 2 else prec) = prec" using assms(3) by (simp add: NDIG_def)
  show ?thesis
    unfolding ap_fcvt_def ap_cvt_def cvt_end_def Let_def cap arg prod.case first bind.simps if_False nat
    using P frac rdP upd round assms(2) by (simp add: X_def)
qed

section \<open>Whole numbers\<close>

lemma rds_prefix: "k = length xs \<Longrightarrow> rds (map Some xs @ ys) [0..<k] = Some xs"
proof -
  have "rds buf [a..<a + length xs] = Some xs" if "take (length xs) (drop a buf) = map Some xs" for a buf
    using that
  proof (induction xs arbitrary: a)
    case (Cons x xs)
    have l: "a < length buf" using arg_cong[OF Cons.prems, of length] by simp
    then have "buf ! a = Some x" "take (length xs) (drop (Suc a) buf) = map Some xs"
      using Cons.prems by (simp_all add: Cons_nth_drop_Suc[symmetric])
    moreover have "[a..<a + length (x # xs)] = a # [Suc a..<Suc a + length xs]" by (simp add: upt_conv_Cons del: upt_Suc)
    ultimately show ?case using Cons.IH[of "Suc a"] l by (simp add: rd_def del: upt_Suc)
  qed simp
  from this[of 0 "map Some xs @ ys"] show "k = length xs \<Longrightarrow> rds (map Some xs @ ys) [0..<k] = Some xs" by simp
qed

lemma rd_str_prefix: "0 \<notin> set xs \<Longrightarrow> rd_str (map Some (xs @ [0]) @ ys) = Some xs"
  by (induction xs) simp_all

lemma code_char_of_char [simp]: "code_char (int (of_char c)) = c"
proof -
  have "int (of_char c) mod 256 = int (of_char c)" by simp
  then show ?thesis unfolding code_char_def by (simp only: nat_int char_of_char)
qed

lemma code_char_codes: "n \<noteq> 0 \<Longrightarrow> map code_char (codes n) = dec_text (nat n)"
  by (simp add: codes_def comp_def)

lemma conv_fp_int:
  assumes "\<bar>n\<bar> < 2 ^ 51" and "0 \<le> prec" and "prec \<le> 60"
  shows "conv_fp CHR ''f'' (Fin (of_int n)) add_dp prec = Some (dec_text (nat \<bar>n\<bar>)
    @ (if prec > 0 \<or> add_dp then ''.'' else []) @ replicate (nat prec) CHR ''0'', n < 0)"
proof -
  let ?c = "codes \<bar>n\<bar>" and ?z = "replicate (nat prec) (48 :: int)"
  have len: "prec + int (length ?c) < 79" using codes_length[of "\<bar>n\<bar>"] assms by simp
  obtain rest where f: "ap_fcvt (Fin (of_int n)) prec = Some (map Some (?c @ ?z @ [0]) @ rest, int (length ?c), n < 0)"
    using ap_fcvt_int[OF assms(1,2) len] by blast
  have "code_char 48 = CHR ''0''" by code_simp
  then have z: "map code_char ?z = replicate (nat prec) CHR ''0''" by simp
  have rs: "rd_str (map Some (?z @ [0]) @ rest) = Some ?z" by (rule rd_str_prefix) simp
  show ?thesis
  proof (cases "n = 0")
    case True
    then have "?c = []" by (simp add: codes_def)
    moreover have "rd (map Some (?z @ [0]) @ rest) 0 = Some (if prec > 0 then 48 else 0)"
      using assms(2) by (cases "nat prec") (simp_all add: rd_def)
    moreover have "dec_text 0 = ''0''" by code_simp
    ultimately show ?thesis
      using f rs z True assms(2) by (simp add: conv_fp_def isalpha_def)
  next
    case False
    obtain d ds where c: "?c = d # ds" using False dec_text_length[of "nat \<bar>n\<bar>"] codes_step[of "\<bar>n\<bar>"] by (cases ?c) auto
    have d: "\<not> isalpha d" using codes_digits[of d "\<bar>n\<bar>"] c by (simp add: isalpha_def)
    define B where "B = map Some (?c @ ?z @ [0]) @ rest"
    have r0: "rd B 0 = Some d" by (simp add: B_def rd_def c)
    have ds: "rds B [0..<length ?c] = Some ?c"
      unfolding B_def using rds_prefix[of _ ?c "map Some (?z @ [0]) @ rest"] by simp
    have dr: "rd_str (drop (length ?c) B) = Some ?z" using rs by (simp add: B_def)
    have p: "\<not> int (length ?c) \<le> 0" by (simp add: c)
    show ?thesis
      using f[folded B_def] r0 ds dr d p z False code_char_codes[of "\<bar>n\<bar>"] unfolding conv_fp_def by simp
  qed
qed



section \<open>Limits\<close>

text \<open>The test for infinity in \<^verbatim>\<open>conv_fp\<close> never applies: infinity is printed as zeroes.\<close>

lemma cvt_int_infinity:
  "k \<le> length buf \<Longrightarrow> cvt_int PosInf k r2 buf = Some (0, r2 + int k, replicate k (Some 48) @ drop k buf)"
proof (induction k arbitrary: r2 buf)
  case (Suc k)
  have "to_int (scale 10 (plus03 (Fin 0))) = Some 0" by (rule plus03_digit) simp_all
  moreover have "replicate k (Some 48) @ Some 48 # xs = Some 48 # replicate k (Some (48 :: int)) @ xs" for xs
    by (simp add: replicate_app_Cons_same)
  ultimately show ?case
    using Suc.IH[of "buf[k := Some 48]" "r2 + 1"] Suc.prems by (simp add: is_zero_def Cons_nth_drop_Suc[symmetric, of k])
qed simp

lemma infinity_is_zeroes: "conv_fp CHR ''f'' PosInf False 6 = Some (replicate 79 CHR ''0'' @ ''.'', False)"
proof -
  let ?z = "replicate 79 (48 :: int)"
  have c: "cvt_int PosInf NDIG 0 (replicate NDIG None) = Some (0, 80, replicate NDIG (Some 48))"
    using cvt_int_infinity[of NDIG "replicate NDIG None" 0] by (simp add: NDIG_def)
  have "replicate NDIG (Some (48 :: int)) = map Some ?z @ [Some 48]" by (simp add: NDIG_def numeral_eq_Suc)
  then have u: "(replicate NDIG (Some (48 :: int)))[NDIG - 1 := Some 0] = map Some ?z @ [Some 0]"
    by (simp add: NDIG_def list_update_append)
  have "cvt_copy 0 (replicate NDIG (Some 48)) = (NDIG, replicate NDIG (Some 48))"
    using cvt_copy_eq[of "replicate NDIG (Some 48)" 0] by simp
  then have f: "ap_fcvt PosInf 6 = Some (map Some ?z @ [Some 0], 79, False)"
    using c u unfolding ap_fcvt_def ap_cvt_def by (simp add: cvt_start_def cvt_end_def is_zero_def NDIG_def)
  have "rds (map Some ?z @ [Some 0]) [0..<79] = Some ?z" by (rule rds_prefix) simp
  moreover have "rd (map Some ?z @ [Some 0]) 0 = Some 48" by (simp add: rd_def numeral_eq_Suc)
  moreover have "code_char 48 = CHR ''0''" by code_simp
  ultimately show ?thesis
    using f by (simp add: conv_fp_def isalpha_def)
qed

text \<open>Zero in the exponential format gets the exponent of a tenth.\<close>

lemma zero_exponent: "conv_fp CHR ''e'' (Fin 0) False 6 = Some (''0.000000e-01'', False)"
  by code_simp

text \<open>\<^verbatim>\<open>%g\<close> with a precision of more than 80 reads behind the digits that \<^verbatim>\<open>ap_cvt\<close> computed.\<close>

lemma cvt_int_length: "cvt_int fi p1 r2 buf = Some (p, r, buf') \<Longrightarrow> length buf' = length buf"
  by (induction fi p1 r2 buf rule: cvt_int.induct) (auto split: if_splits prod.splits simp: bind_eq_Some_conv)

lemma cvt_copy_length: "length (snd (cvt_copy p1 buf)) = length buf"
proof -
  have "length (snd (foldl (\<lambda>(p, buf) i. (p + 1, buf[p := buf ! i])) (p0, buf) xs)) = length buf" for p0 :: nat and xs
    by (induction xs arbitrary: p0 buf) simp_all
  then show ?thesis unfolding cvt_copy_def .
qed

lemma cvt_frac_length: "cvt_frac ps arg buf = Some buf' \<Longrightarrow> length buf' = length buf"
  by (induction ps arg buf rule: cvt_frac.induct) (auto split: prod.splits simp: bind_eq_Some_conv)

lemma cvt_round_length: "cvt_round eflag q p d buf = Some (d', p', buf') \<Longrightarrow> length buf' = length buf"
  by (induction eflag q p d buf rule: cvt_round.induct) (auto split: if_splits simp: bind_eq_Some_conv)

lemma cvt_start_length: "cvt_start arg fi = Some (arg', p, r2, buf) \<Longrightarrow> length buf = NDIG"
  unfolding cvt_start_def Let_def
  by (auto simp: bind_eq_Some_conv case_prod_beta cvt_copy_length split: if_splits dest!: cvt_int_length)

lemma cvt_end_length: "cvt_end eflag ndigits arg p r2 buf = Some (buf', decpt) \<Longrightarrow> length buf' = length buf"
  unfolding cvt_end_def Let_def
  by (auto simp: bind_eq_Some_conv split: if_splits dest!: cvt_frac_length cvt_round_length)

lemma ap_cvt_length: "ap_cvt arg ndigits eflag = Some (buf, decpt, sign) \<Longrightarrow> length buf = NDIG"
  unfolding ap_cvt_def Let_def
  by (auto simp: bind_eq_Some_conv split: prod.splits dest!: cvt_start_length cvt_end_length)

lemma strip_zeroes_outside: "length buf \<le> i \<Longrightarrow> 0 < i \<Longrightarrow> strip_zeroes buf i n = None"
  by (cases i) (simp_all add: rd_def)

lemma gcvt_reads_outside:
  assumes "80 < ndigit"
  shows "ap_gcvt number ndigit altform = None"
proof (cases "ap_ecvt number ndigit")
  case (Some x)
  obtain buf decpt sign where x: "x = (buf, decpt, sign)" by (metis prod_cases3)
  have "length buf = NDIG" using Some x ap_cvt_length unfolding ap_ecvt_def by blast
  then have "strip_zeroes buf (nat ndigit - 1) (nat ndigit) = None"
    using strip_zeroes_outside assms by (simp add: NDIG_def)
  then show ?thesis using Some x by (simp add: ap_gcvt_def)
qed (simp add: ap_gcvt_def)

section \<open>Small numbers\<close>

text \<open>The loop that looks for the first digit ends within its bound: every turn makes the number at least eight times as big.\<close>

lemma ulp_bounds:
  assumes "2 powi (- 1074) \<le> x"
  shows "ulp (10 * x) \<le> x"
proof -
  have x: "x > 0" using assms by (rule order.strict_trans2[rotated]) simp
  have "2 powi leading_bit (10 * x) \<le> 10 * x" using leading_bit_bounds(1)[of "10 * x"] x by simp
  moreover have "2 powi (leading_bit (10 * x) - 52) = 2 powi leading_bit (10 * x) / (2 ^ 52 :: rat)"
    by (simp add: power_int_diff power_int_def[of _ 52])
  ultimately have "2 powi (leading_bit (10 * x) - 52) \<le> x" using x by (simp add: divide_le_eq)
  then show ?thesis using assms by (simp add: ulp_def max_def)
qed

lemma times_ten_grows:
  assumes "2 powi (- 1074) \<le> x" and "lt_one (rnd (10 * x))"
  shows "\<exists>y. rnd (10 * x) = Fin y \<and> 8 * x \<le> y \<and> y < 1"
proof -
  have x: "x > 0" using assms(1) by (rule order.strict_trans2[rotated]) simp
  let ?u = "ulp (10 * x)"
  let ?y = "of_int (round_even (10 * x / ?u)) * ?u"
  have u: "?u > 0" by (simp add: ulp_def)
  have "?y - 10 * x = (of_int (round_even (10 * x / ?u)) - 10 * x / ?u) * ?u" using u by (simp add: left_diff_distrib)
  then have "\<bar>?y - 10 * x\<bar> = \<bar>of_int (round_even (10 * x / ?u)) - 10 * x / ?u\<bar> * ?u" using u by (simp add: abs_mult)
  also have "\<dots> \<le> 1 / 2 * ?u" using round_even_near u by (intro mult_right_mono) auto
  finally have y: "8 * x \<le> ?y" using ulp_bounds[OF assms(1)] x unfolding abs_le_iff by linarith
  moreover have "\<not> ?y \<le> - (2 ^ 1024)"
  proof -
    have "- (2 ^ 1024 :: rat) \<le> 0" by simp
    then show ?thesis using y x by linarith
  qed
  ultimately show ?thesis using assms(2) x by (auto simp: rnd_def Let_def split: if_splits)
qed

lemma cvt_small_steps:
  assumes "2 powi (- 1074) \<le> x" and "1 \<le> x * 8 ^ k"
  shows "cvt_small (Suc k) (Fin x) r2 \<noteq> None"
  using assms
proof (induction k arbitrary: x r2)
  case 0
  then have "\<not> lt_one (rnd (10 * x))" using times_ten_grows[OF 0(1)] by fastforce
  then show ?case by (simp add: Let_def)
next
  case (Suc k)
  show ?case
  proof (cases "lt_one (rnd (10 * x))")
    case True
    obtain y where y: "rnd (10 * x) = Fin y" "8 * x \<le> y" using times_ten_grows[OF Suc.prems(1) True] by blast
    have x: "x > 0" using Suc.prems(1) by (rule order.strict_trans2[rotated]) simp
    have "x * 8 ^ Suc k \<le> y * 8 ^ k" using y(2) by (simp add: mult_right_mono flip: mult.assoc add: mult.commute)
    then have "cvt_small (Suc k) (Fin y) (r2 - 1) \<noteq> None" using Suc.IH[of y "r2 - 1"] Suc.prems y(2) x by linarith
    then show ?thesis using True y(1) by (subst cvt_small.simps) (simp add: Let_def del: cvt_small.simps)
  next
    case False
    then show ?thesis by (simp add: Let_def)
  qed
qed

lemma double_min:
  assumes "is_double x" and "0 < x"
  shows "2 powi (- 1074) \<le> x"
proof -
  have u: "2 powi (- 1074) \<le> ulp x" unfolding ulp_def by (intro power_int_increasing) auto
  have e: "x = of_int (round_even (x / ulp x)) * ulp x"
    using assms by (auto simp: is_double_def rnd_def Let_def split: if_splits)
  have up: "ulp x > 0" by (simp add: ulp_def)
  then have "round_even (x / ulp x) > 0" using e assms(2) by (metis mult_pos_pos not_less of_int_0_less_iff mult_nonpos_nonneg of_int_le_0_iff less_imp_le)
  then have "1 \<le> (of_int (round_even (x / ulp x)) :: rat)" by simp
  then have "1 * ulp x \<le> of_int (round_even (x / ulp x)) * ulp x" using up by (intro mult_right_mono) auto
  then have "ulp x \<le> x" using e by simp
  then show ?thesis using u by simp
qed

lemma cvt_small_ends:
  assumes "is_double x" and "0 < x"
  shows "cvt_small CVT_FUEL (Fin x) r2 \<noteq> None"
proof -
  have m: "2 powi (- 1074) \<le> x" using double_min[OF assms] .
  have "(1 :: rat) \<le> 2 powi (- 1074) * 8 ^ 359" by (simp add: power_int_def power_divide)
  also have "\<dots> \<le> x * 8 ^ 359" using m by (intro mult_right_mono) auto
  finally show ?thesis using cvt_small_steps[OF m, of 359 r2] by (simp add: CVT_FUEL_def)
qed

end
