(* ===== verification/Diagnostics.thy ===== *)
theory Diagnostics
  imports Fmt_Text APC_Serializer "HOL-Library.Signed_Division"
begin

text \<open>
  Texts for logs: the trace of a message (\<^verbatim>\<open>CAPCSerializer::trace_p\<close>), times (\<^verbatim>\<open>common/common.cpp\<close>), dumps of buffers (\<^verbatim>\<open>logging/Logger.cpp\<close>) and of
  multi-part messages (\<^verbatim>\<open>zmqUtils.h\<close>).  The names of enumerators come from generated code and are parameters, and so are the local
  time of a time, the loggers of log4cxx and the hexadecimal text of a frame, which czmq makes.
\<close>

section \<open>Format strings with matching arguments\<close>

text \<open>
  Format strings of plain characters and the conversions \<^verbatim>\<open>%d\<close>, \<^verbatim>\<open>%u\<close>, \<^verbatim>\<open>%x\<close> and \<^verbatim>\<open>%s\<close>, with arguments of the types these ask for.
\<close>

fun args_match :: "string \<Rightarrow> fmt_args \<Rightarrow> bool" where
  "args_match [] ap = True"
| "args_match (c # fmt) ap =
     (if c \<noteq> CHR ''%'' then args_match fmt ap
      else case fmt of [] \<Rightarrow> True
        | d # fmt \<Rightarrow>
            (case ap of
               FInt v # ap \<Rightarrow> (d = CHR ''d'' \<or> d = CHR ''u'' \<or> d = CHR ''x'') \<and> args_match fmt ap
             | FStr v # ap \<Rightarrow> d = CHR ''s'' \<and> args_match fmt ap
             | _ \<Rightarrow> False))"

lemma simple_spec:
  assumes "d = CHR ''d'' \<or> d = CHR ''u'' \<or> d = CHR ''x'' \<or> d = CHR ''s''"
  shows "parse_spec (d # fmt) ap = Some (default_spec, d # fmt, ap)"
proof -
  have "ap_islower d" using assms by (elim disjE) (simp_all add: ap_islower_def less_eq_char_def)
  moreover have "parse_modifier (d # fmt) default_spec = (default_spec, d # fmt)"
    using assms by (elim disjE) (simp_all add: parse_modifier_def next_is_def default_spec_def)
  ultimately show ?thesis by (simp add: parse_spec_def)
qed

lemma num_conv_text:
  assumes "d = CHR ''d'' \<or> d = CHR ''u'' \<or> d = CHR ''x''"
  shows "\<exists>s neg i'. length s \<le> 20 \<and> conv_arg ext i default_spec (d # fmt) (FInt v # ap) =
    Some (ConvText s (if neg then Some CHR ''-'' else None) False, i', fmt, ap)"
proof -
  have sp: "var_type default_spec = IS_INT" "adjust_precision default_spec = None" "\<not> pad_zero default_spec" "\<not> alternate_form default_spec"
    "sign_prefix default_spec b = (if b then Some CHR ''-'' else None)" for b
    by (simp_all add: default_spec_def sign_prefix_def)
  have dec: "length (dec_text k) \<le> 20" if "k < 2 ^ 64" for k using dec_text_u64[OF that] by simp
  have ua: "unat w < 2 ^ 64" for w :: u64 by (rule order_less_le_trans[OF unsigned_less]) simp
  have sa: "nat \<bar>sint w\<bar> < 2 ^ 64" for w :: u64 using sint_ge[of w] sint_lt[of w] by (simp add: nat_less_iff abs_less_iff)
  have hex: "\<exists>s. conv_p2 (ucast v) 4 CHR ''x'' [] = Some s \<and> length s \<le> 8"
  proof -
    have "unat (ucast v :: u64) \<le> unat v" by (simp add: unsigned_ucast_eq take_bit_eq_mod)
    moreover have "unat v < 16 ^ Suc 7" by (rule order_less_le_trans[OF unsigned_less]) simp
    ultimately show ?thesis
      using conv_p2_hex[of "ucast v" 7 "[]"] by (auto simp: conv_p2_def NUM_BUF_SIZE_def)
  qed
  consider "d = CHR ''d''" | "d = CHR ''u''" | "d = CHR ''x''" using assms by blast
  then show ?thesis
  proof cases
    case 1
    then show ?thesis using dec[OF sa] by (fastforce simp: conv_arg_def num_arg_def sp conv_10_text FIX_PRECISION_def)
  next
    case 2
    then show ?thesis using dec[OF ua] by (fastforce simp: conv_arg_def num_arg_def sp conv_10_text FIX_PRECISION_def)
  next
    case 3
    then show ?thesis using hex by (fastforce simp: conv_arg_def num_arg_def sp FIX_PRECISION_def)
  qed
qed

lemma simple_item:
  assumes "(\<exists>v. a = FInt v \<and> (d = CHR ''d'' \<or> d = CHR ''u'' \<or> d = CHR ''x'')) \<or> (\<exists>v. a = FStr v \<and> d = CHR ''s'')"
  shows "\<exists>t i'. fmt_item ext i (d # fmt) (a # ap) = Some (ItemText t, i', fmt, ap)"
proof -
  have f: "field_text default_spec s None z = Some s" for s z by (simp add: field_text_def default_spec_def)
  consider (num) v where "a = FInt v" "d = CHR ''d'' \<or> d = CHR ''u'' \<or> d = CHR ''x''" | (str) v where "a = FStr v" "d = CHR ''s''"
    using assms by blast
  then show ?thesis
  proof cases
    case num
    note a = num(1) and d = num(2)
    obtain s neg i' where c: "length s \<le> 20"
        "conv_arg ext i default_spec (d # fmt) (FInt v # ap) = Some (ConvText s (if neg then Some CHR ''-'' else None) False, i', fmt, ap)"
      using num_conv_text[OF d] by blast
    have "\<exists>t. field_text default_spec s (if neg then Some CHR ''-'' else None) False = Some t"
      using c(1) by (simp add: field_text_def default_spec_def prepend_def NUM_BUF_SIZE_def)
    then show ?thesis using c(2) simple_spec[of d] d a by (auto simp: fmt_item_def)
  next
    case str
    then show ?thesis using simple_spec[of "CHR ''s''"] by (simp add: fmt_item_def conv_arg_def f)
  qed
qed

lemma args_match_defined:
  assumes "args_match fmt ap"
  shows "\<exists>x. esl_vformatter CFmtString_putCh ext i fmt ap r cc st = Some x"
  using assms
proof (induction fmt ap arbitrary: i r cc rule: args_match.induct)
  case (2 c fmt ap)
  show ?case
  proof (cases "c = CHR ''%''")
    case False
    then show ?thesis using 2(1)[OF False] 2(4) by (simp add: esl_char del: INS_CHARS.simps)
  next
    case True
    show ?thesis
    proof (cases fmt)
      case Nil
      have "fmt_item ext i [] ap = Some (ItemEnd, i, [], ap)"
        by (simp add: fmt_item_def parse_spec_def parse_width_def parse_precision_def parse_modifier_def next_is_def next_isdigit_def conv_arg_def)
      then show ?thesis using True Nil by (simp add: esl_item)
    next
      case (Cons d f)
      then obtain a ap' where ap: "ap = a # ap'" using 2(4) True by (cases ap) simp_all
      have m: "args_match f ap'" and k: "(\<exists>v. a = FInt v \<and> (d = CHR ''d'' \<or> d = CHR ''u'' \<or> d = CHR ''x'')) \<or> (\<exists>v. a = FStr v \<and> d = CHR ''s'')"
        using 2(4) True Cons ap by (cases a; simp)+
      obtain t i' where item: "fmt_item ext i (d # f) (a # ap') = Some (ItemText t, i', f, ap')" using simple_item[OF k] by blast
      have "\<exists>x. esl_vformatter CFmtString_putCh ext i' f ap' (r @ t) (cc + length t) st = Some x"
        using k 2(2,3) True Cons ap m by (cases a) auto
      then show ?thesis using item by (simp add: True Cons ap esl_item)
    qed
  qed
qed simp

context fmt_printer
begin

text \<open>Such calls always return, on every output, and so does a dump after a plain title.\<close>

lemma printfs_match:
  assumes "list_all (\<lambda>(fmt, ap). args_match fmt ap) calls" and "valid s"
  shows "\<exists>t s' ccs. printfs putCh flush ext calls s = Some (s', ccs) \<and> wrote s t s' \<and> (visible s \<longrightarrow> visible s')"
  using assms
proof (induction calls arbitrary: s)
  case (Cons c calls)
  obtain fmt ap where c: "c = (fmt, ap)" "args_match fmt ap" using Cons.prems(1) by (cases c) simp
  obtain x where x: "esl_vformatter CFmtString_putCh ext 0 fmt ap [] 0 [] = Some x" using args_match_defined[OF c(2)] by blast
  from formatter_writes[OF x Cons.prems(2)] obtain t s1 n st where e: "esl_vformatter putCh ext 0 fmt ap s 0 [] = Some (s1, n, st)" "wrote s t s1"
    by (auto simp: matches_def)
  then have f: "wrote s t (flush s1)" "valid (flush s1)" "visible (flush s1)"
    using flush_shows wrote_flush[OF e(2)] by (simp_all add: wrote_def)
  from Cons.IH[OF _ f(2)] Cons.prems(1) obtain u s' ccs where
    u: "printfs putCh flush ext calls (flush s1) = Some (s', ccs)" "wrote (flush s1) u s'" "visible s'"
    using f(3) by auto
  then show ?case using e(1) c(1) wrote_append[OF f(1) u(2)] by (auto simp: vprintf_def)
qed (use wrote_Nil in auto)

lemma titled_dump:
  assumes "CHR ''%'' \<notin> set sep" and "CHR ''%'' \<notin> set h" and "valid s"
  shows "\<exists>t s'. printDump putCh flush ext bs sep (Some h) None s = Some s' \<and> wrote s t s' \<and> visible s'"
proof -
  have "no_flush CFmtString_putCh ext h [] [] = Some h"
    using esl_plain[OF assms(2), of ext 0 "[]" "[]"] by (simp add: no_flush_def printfNoFlush_p_def)
  from no_flush_writes[OF this assms(3)] obtain s1 where s1: "no_flush putCh ext h [] s = Some s1" "wrote s h s1" by blast
  then have "valid s1" by (simp add: wrote_def)
  from dump_loop_writes[OF assms(1) this, of ext True bs] obtain s2 where
    s2: "dump_loop putCh ext sep True bs s1 = Some s2" "wrote s1 (hex_text sep bs) s2" by auto
  then have "visible (flush s2)" using flush_shows by (simp add: wrote_def)
  then show ?thesis using s1(1) s2(1) wrote_flush[OF wrote_append[OF s1(2) s2(2)]] by (auto simp: printDump_def)
qed

end

section \<open>The trace of a message\<close>

text \<open>The header as it stands in the message: its numbers are in network byte order.\<close>

definition trace_title :: "(apc_msg_type_t \<Rightarrow> string option) \<Rightarrow> string \<Rightarrow> u32 \<Rightarrow> apc_hdr_s \<Rightarrow> string \<times> fmt_args" where
  "trace_title toStr title intfId hdr =
     (''%s #%d %s flags=0x%x mySeq=%d yourSeq=%d '', [FStr (Some title), FInt intfId, FStr (toStr (h_type hdr)), FInt (ucast (h_flags hdr)),
        FInt (ntohl (h_mySeq hdr)), FInt (ntohl (h_yourSeq hdr))])"

definition trace_fields :: "apc_msg_type_t \<Rightarrow> byte list \<Rightarrow> (string \<times> fmt_args) list" where
  "trace_fields type p =
     (if type = APC_NET_TX then
        if bufferCast_p sizeof_apc_msg_net_tx_s p then
          (''txdoneid=%d dst=%d'', [FInt (ucast (ntohs (le_word (bytes_at 1 2 p)))), FInt (ucast (ntohs (le_word (bytes_at 10 2 p))))])
          # (if p ! 3 AND APC_NETTX_FL_USETXINFO \<noteq> 0
             then [('' frame=%d slot=%u offset=%d'', [FInt (ucast (p ! 4)), FInt (ntohl (le_word (bytes_at 5 4 p))), FInt (ucast (p ! 9))])]
             else [])
        else []
      else if type = APC_NET_TXDONE then
        if bufferCast_p sizeof_apc_msg_net_txdone_s p then [(''txdoneid=%d'', [FInt (ucast (ntohs (le_word (bytes_at 0 2 p))))])] else []
      else if type = APC_TIME_MAP then
        if bufferCast_p sizeof_apc_msg_timemap_s p then
          [(''sec=%u, usec=%d asn=%d offset=%d'', [FInt (ucast (ntohll (le_word (bytes_at 0 8 p)))), FInt (ntohl (le_word (bytes_at 8 4 p))),
             FInt (ucast (ntohll (le_word (bytes_at 12 8 p)))), FInt (ucast (ntohs (le_word (bytes_at 20 2 p))))])]
        else []
      else if type = APC_CONNECT then
        if bufferCast_p sizeof_apc_msg_connect_s p then
          [(''flags=0x%x, sesId=%d'', [FInt (ntohl (le_word (bytes_at 1 4 p))), FInt (ntohl (le_word (bytes_at 37 4 p)))])]
        else []
      else [])"

text \<open>\<open>mem\<close> is what the 256 characters of the buffer hold before; the result is the text handed to the logger.\<close>

definition trace_p ::
  "(apc_msg_type_t \<Rightarrow> string option) \<Rightarrow> ext_table \<Rightarrow> string \<Rightarrow> bool \<Rightarrow> string \<Rightarrow> u32 \<Rightarrow> apc_hdr_s \<Rightarrow> byte list \<Rightarrow> string option option" where
  "trace_p toStr ext mem enabled title intfId hdr payload =
     (if \<not> enabled then Some None
      else
        Option.bind (new_CFmtBufferWrap mem) (\<lambda>fb.
        Option.bind (printfs fb_putCh fb_flush ext (trace_title toStr title intfId hdr # trace_fields (h_type hdr) payload) fb) (\<lambda>(fb, _).
        Option.bind
          (if h_type hdr \<in> {APC_NET_TX, APC_NET_TXDONE, APC_TIME_MAP, APC_CONNECT} \<or> payload = [] then Some fb
           else printDump fb_putCh fb_flush ext payload '':'' (Some ''data='') None fb)
          (\<lambda>fb. Some (Some (fb_str fb))))))"

lemma trace_match: "list_all (\<lambda>(fmt, ap). args_match fmt ap) (trace_title toStr title k hdr # trace_fields type p)"
proof -
  have "args_match ''%s #%d %s flags=0x%x mySeq=%d yourSeq=%d '' [FStr a, FInt b, FStr c, FInt d, FInt e, FInt f]" for a b c d e f by simp
  moreover have "args_match ''txdoneid=%d dst=%d'' [FInt a, FInt b]" "args_match '' frame=%d slot=%u offset=%d'' [FInt a, FInt b, FInt c]"
    "args_match ''txdoneid=%d'' [FInt a]" "args_match ''sec=%u, usec=%d asn=%d offset=%d'' [FInt a, FInt b, FInt c, FInt d]"
    "args_match ''flags=0x%x, sesId=%d'' [FInt a, FInt b]" for a b c d by simp_all
  ultimately show ?thesis unfolding trace_title_def trace_fields_def by (simp del: args_match.simps)
qed

lemma fb_str_le: "fb_closed b \<Longrightarrow> length (fb_str b) \<le> length (fb_written b)"
proof -
  assume c: "fb_closed b"
  have "length (takeWhile P xs) \<le> k" if "k < length xs" "\<not> P (xs ! k)" for P k and xs :: string
    using that nth_length_takeWhile[of P xs] by (metis set_takeWhileD takeWhile_nth linorder_not_less nth_mem)
  from this[of "fb_cp b" "fb_buf b"] show ?thesis using c by (simp add: fb_str_def fb_written_def fb_closed_def fb_valid_def)
qed

text \<open>
  Tracing is safe: whatever message is sent or received, of a known type or not, complete or not, the trace reads no byte outside of the
  payload, its arguments have the types its format strings ask for, and the text stays within the 256 characters of its buffer.
\<close>

lemma trace_safe:
  assumes "length mem = 256"
  shows "\<exists>r. trace_p toStr ext mem enabled title intfId hdr payload = Some r \<and> (r \<noteq> None \<longleftrightarrow> enabled) \<and> (\<forall>t. r = Some t \<longrightarrow> length t \<le> 255)"
proof (cases enabled)
  case True
  have "mem \<noteq> []" using assms by auto
  from new_buffer[OF this] obtain b0 where b0: "new_CFmtBufferWrap mem = Some b0" "fb_closed b0" "fb_written b0 = []" "fb_room b0 = Some 255"
    using assms by auto
  then have v0: "fb_valid b0" by (simp add: fb_closed_def)
  obtain t b1 ccs where b1: "printfs fb_putCh fb_flush ext (trace_title toStr title intfId hdr # trace_fields (h_type hdr) payload) b0 = Some (b1, ccs)"
      "fmt_buffer.wrote b0 t b1" "fb_closed b1"
    using fmt_buffer_printer.printfs_match[OF trace_match v0] b0(2) by blast
  have sep: "CHR ''%'' \<notin> set '':''" "CHR ''%'' \<notin> set ''data=''" by simp_all
  have v1: "fb_valid b1" using b1(3) by (simp add: fb_closed_def)
  obtain u b2 where b2: "printDump fb_putCh fb_flush ext payload '':'' (Some ''data='') None b1 = Some b2" "fmt_buffer.wrote b1 u b2" "fb_closed b2"
    using fmt_buffer_printer.titled_dump[OF sep v1] by blast
  have le: "length (fb_str b) \<le> 255" if "fmt_buffer.wrote b0 w b" "fb_closed b" for w b
    using fb_str_le[OF that(2)] that(1) b0(3,4) by (simp add: fmt_buffer.wrote_def fmt_buffer.accepted_def)
  show ?thesis
    using True b0(1) b1(1) b2(1) le[OF b1(2,3)] le[OF fmt_buffer.wrote_append[OF b1(2) b2(2)] b2(3)] by (auto simp: trace_p_def)
qed (simp add: trace_p_def)

section \<open>Times\<close>

text \<open>Times are nanoseconds since the epoch of their clock; conversions of durations round towards zero.\<close>

definition to_usec :: "int \<Rightarrow> int" where "to_usec d = d sdiv 1000"
definition to_msec :: "int \<Rightarrow> int" where "to_msec d = d sdiv 1000000"

definition time_mngr2sys :: "int \<Rightarrow> int \<Rightarrow> int \<Rightarrow> int" where
  "time_mngr2sys sysNow now t = sysNow - to_usec (now - t) * 1000"

definition time_sys2mngr :: "int \<Rightarrow> int \<Rightarrow> int \<Rightarrow> int" where
  "time_sys2mngr sysNow now t = now - to_usec (sysNow - t) * 1000"

definition systime2msec :: "int \<Rightarrow> int" where "systime2msec utc = to_msec utc"

definition mngr_time2msec :: "int \<Rightarrow> int \<Rightarrow> int \<Rightarrow> int" where
  "mngr_time2msec sysNow now t = to_msec (time_mngr2sys sysNow now t)"

definition getCurrentTimeSecs :: "int \<Rightarrow> int" where "getCurrentTimeSecs sysNow = sysNow sdiv 1000000000"

lemma usec_near: "\<bar>to_usec d * 1000 - d\<bar> < 1000"
proof -
  have "\<bar>d\<bar> div 1000 * 1000 = \<bar>d\<bar> - \<bar>d\<bar> mod 1000" by (simp add: minus_mod_eq_div_mult)
  moreover have "0 \<le> \<bar>d\<bar> mod 1000" "\<bar>d\<bar> mod 1000 < 1000" by simp_all
  ultimately show ?thesis by (cases "d < 0") (auto simp: to_usec_def signed_divide_int_def sgn_if)
qed

text \<open>There and back is the same time up to a microsecond, when both clocks are read at the same moment.\<close>

lemma time_roundtrip: "\<bar>time_sys2mngr sysNow now (time_mngr2sys sysNow now t) - t\<bar> < 1000"
proof -
  have "to_usec (to_usec d * 1000) = to_usec d" for d
    by (cases "to_usec d < 0") (auto simp: to_usec_def[of "to_usec d * 1000"] signed_divide_int_def sgn_if)
  then show ?thesis using usec_near[of "now - t"] by (simp add: time_sys2mngr_def time_mngr2sys_def)
qed

text \<open>The local time of a number of seconds, with the offset of the time zone.\<close>

record tm =
  tm_year :: int
  tm_mon :: int
  tm_mday :: int
  tm_hour :: int
  tm_min :: int
  tm_sec :: int

type_synonym localtime = "int \<Rightarrow> tm \<times> int"

text \<open>The last argument of this call is a 64-bit number, where \<^verbatim>\<open>%03d\<close> asks for an \<^verbatim>\<open>int\<close>.\<close>

definition printTime :: "('s \<Rightarrow> char \<Rightarrow> bool \<times> 's) \<Rightarrow> ('s \<Rightarrow> 's) \<Rightarrow> ext_table \<Rightarrow> localtime \<Rightarrow> int \<Rightarrow> 's \<Rightarrow> 's option" where
  "printTime putCh flush ext convertToLocaltime time fo =
     (let msec = to_msec time; (locTime, _) = convertToLocaltime (msec sdiv 1000)
      in map_option fst (vprintf putCh flush ext ''%2d:%02d:%02d.%03d''
           [FInt (word_of_int (tm_hour locTime)), FInt (word_of_int (tm_min locTime)), FInt (word_of_int (tm_sec locTime)),
            FLong (word_of_int (msec smod 1000))] fo))"

text \<open>Numbers on a stream filled with zeroes up to a width.\<close>

definition os_w :: "nat \<Rightarrow> int \<Rightarrow> string" where
  "os_w w i = (let t = signed_text i in replicate (w - length t) CHR ''0'' @ t)"

definition os_date :: "char \<Rightarrow> tm \<Rightarrow> int \<Rightarrow> string" where
  "os_date sep t utc = signed_text (tm_year t + 1900) @ ''-'' @ os_w 2 (tm_mon t + 1) @ ''-'' @ os_w 2 (tm_mday t) @ [sep]
     @ os_w 2 (tm_hour t) @ '':'' @ os_w 2 (tm_min t) @ '':'' @ os_w 2 (tm_sec t) @ ''.'' @ os_w 3 (to_msec utc smod 1000)"

text \<open>\<^verbatim>\<open>to_time_t\<close> gives whole seconds.\<close>

definition toString_sys :: "localtime \<Rightarrow> int \<Rightarrow> string" where
  "toString_sys convertToLocaltime utc = os_date CHR '' '' (fst (convertToLocaltime (utc sdiv 1000000000))) utc"

definition toStringISO :: "localtime \<Rightarrow> int \<Rightarrow> string" where
  "toStringISO convertToLocaltime utc =
     (case convertToLocaltime (utc sdiv 1000000000) of (locTime, tz) \<Rightarrow>
        os_date CHR ''T'' locTime utc @ (if tz < 0 then ''-'' else ''+'')
        @ os_w 2 (\<bar>tz\<bar> div 3600) @ '':'' @ os_w 2 (\<bar>tz\<bar> mod 3600 div 60))"

definition toStringElapsed :: "ext_table \<Rightarrow> int \<Rightarrow> string option" where
  "toStringElapsed ext msec =
     (let s = word_of_int (msec sdiv 1000) :: u32; ms = word_of_int (msec smod 1000);
          m = s div 60; s = s mod 60;
          h = m div 60; m = m mod 60;
          d = h div 24; h = h mod 24
      in map_option fst (vprintf CFmtString_putCh (\<lambda>s. s) ext ''%d-%02d:%02d:%02d.%03d'' [FInt d, FInt h, FInt m, FInt s, FInt ms] []))"

text \<open>A decimal number filled with zeroes.\<close>

definition dec_pad :: "nat \<Rightarrow> nat \<Rightarrow> string" where
  "dec_pad w n = replicate (w - length (dec_text n)) CHR ''0'' @ dec_text n"

lemma small_sint:
  fixes v :: u32
  assumes "unat v < 2 ^ 31"
  shows "sint v = int (unat v)" and "sint (scast v :: u64) = int (unat v)"
proof -
  define k where "k = unat v"
  have u: "uint v = int k" by (simp add: k_def)
  have "signed_take_bit 31 (int k) = int k" "signed_take_bit 63 (int k) = int k"
    by (rule signed_take_bit_int_eq_self; use assms in \<open>simp add: k_def[symmetric]\<close>)+
  moreover from this(1) show s: "sint v = int (unat v)" by (simp add: sint_uint u k_def[symmetric])
  moreover have "sint (scast v :: u64) = signed_take_bit 63 (sint v)" by (simp add: signed_scast_eq)
  ultimately show "sint (scast v :: u64) = int (unat v)" unfolding k_def by simp
qed

lemma decimal_item:
  assumes "unat v < 2 ^ 31"
  shows "\<exists>i'. fmt_item ext i (CHR ''d'' # fmt) (FInt v # ap) = Some (ItemText (dec_text (unat v)), i', fmt, ap)"
    and "\<exists>i'. fmt_item ext i (''02d'' @ fmt) (FInt v # ap) = Some (ItemText (dec_pad 2 (unat v)), i', fmt, ap)"
    and "\<exists>i'. fmt_item ext i (''03d'' @ fmt) (FInt v # ap) = Some (ItemText (dec_pad 3 (unat v)), i', fmt, ap)"
proof -
  note s = small_sint(2)[OF assms]
  have n: "dec_text (unat v) \<noteq> []" by (subst dec_text.simps) simp
  have c: "conv_arg ext i sp (CHR ''d'' # fmt) (FInt v # ap) = Some (ConvText (dec_text (unat v)) None (pad_zero sp), scast v, fmt, ap)"
    if "var_type sp = IS_INT" "adjust_precision sp = None" "\<not> print_sign sp" "\<not> print_blank sp" for sp
    using that by (simp add: conv_arg_def num_arg_def conv_10_text s FIX_PRECISION_def sign_prefix_def)
  have sp: "parse_spec (''02d'' @ fmt) ap = Some (default_spec\<lparr>pad_zero := True, adjust_width := Some 2\<rparr>, CHR ''d'' # fmt, ap)"
    "parse_spec (''03d'' @ fmt) ap = Some (default_spec\<lparr>pad_zero := True, adjust_width := Some 3\<rparr>, CHR ''d'' # fmt, ap)" for ap
    by (simp_all add: parse_spec_def ap_islower_def parse_width_def parse_precision_def parse_modifier_def next_is_def next_isdigit_def isdigit_def
        default_spec_def INT_MAX_def less_char_def less_eq_char_def)
  show "\<exists>i'. fmt_item ext i (CHR ''d'' # fmt) (FInt v # ap) = Some (ItemText (dec_text (unat v)), i', fmt, ap)"
    using simple_spec[of "CHR ''d''"] c[of default_spec] by (simp add: fmt_item_def default_spec_def field_text_def)
  show "\<exists>i'. fmt_item ext i (''02d'' @ fmt) (FInt v # ap) = Some (ItemText (dec_pad 2 (unat v)), i', fmt, ap)"
    "\<exists>i'. fmt_item ext i (''03d'' @ fmt) (FInt v # ap) = Some (ItemText (dec_pad 3 (unat v)), i', fmt, ap)"
    unfolding fmt_item_def sp bind.simps prod.case
    using c[of "default_spec\<lparr>pad_zero := True, adjust_width := Some 2\<rparr>"] c[of "default_spec\<lparr>pad_zero := True, adjust_width := Some 3\<rparr>"] n
    by (auto simp: default_spec_def field_text_def dec_pad_def Let_def)
qed

lemma string_item:
  assumes "\<And>i. \<exists>i'. fmt_item ext i fmt ap = Some (ItemText t, i', fmt', ap')"
    and "\<And>i cc. \<exists>cc'. esl_vformatter CFmtString_putCh ext i fmt' ap' (r @ t) cc st = Some (R, cc', st)"
  shows "\<exists>cc'. esl_vformatter CFmtString_putCh ext i (CHR ''%'' # fmt) ap r cc st = Some (R, cc', st)"
proof -
  obtain i' where "fmt_item ext i fmt ap = Some (ItemText t, i', fmt', ap')" using assms(1) by blast
  then show ?thesis using assms(2)[of i' "cc + length t"] by (simp add: esl_item)
qed

lemma string_plain:
  assumes "c \<noteq> CHR ''%''" and "\<And>i cc. \<exists>cc'. esl_vformatter CFmtString_putCh ext i fmt ap (r @ [c]) cc st = Some (R, cc', st)"
  shows "\<exists>cc'. esl_vformatter CFmtString_putCh ext i (c # fmt) ap r cc st = Some (R, cc', st)"
  using assms(2)[of i "cc + 1"] by (simp add: esl_char[OF assms(1)] CFmtString_putCh_def)

text \<open>
  The text of an elapsed time: days, hours, minutes, seconds and milliseconds, which add up to the time again.  Up to \<open>2 ^ 32\<close> seconds, that is
  136 years, nothing is lost.
\<close>

lemma elapsed_text:
  assumes "0 \<le> msec" and "msec < 2 ^ 32 * 1000"
  shows "\<exists>d h m s ms. toStringElapsed ext msec =
      Some (dec_text d @ ''-'' @ dec_pad 2 h @ '':'' @ dec_pad 2 m @ '':'' @ dec_pad 2 s @ ''.'' @ dec_pad 3 ms)
    \<and> h < 24 \<and> m < 60 \<and> s < 60 \<and> ms < 1000 \<and> int ((((d * 24 + h) * 60 + m) * 60 + s) * 1000 + ms) = msec"
proof -
  define n where "n = nat msec"
  let ?s = "word_of_int (msec sdiv 1000) :: u32" and ?ms = "word_of_int (msec smod 1000) :: u32"
  have sd: "msec sdiv 1000 = int (n div 1000)" "msec smod 1000 = int (n mod 1000)"
    using assms(1) by (simp_all add: n_def signed_divide_int_def signed_modulo_int_def sgn_if zdiv_int zmod_int)
  have nb: "n div 1000 < 2 ^ 32" using assms by (simp add: n_def nat_less_iff less_mult_imp_div_less)
  have us: "unat ?s = n div 1000" "unat ?ms = n mod 1000"
    using nb unfolding sd by (simp_all add: unsigned_of_nat take_bit_nat_eq_self)
  define S where "S = n div 1000"
  let ?d = "?s div 60 div 60 div 24" and ?h = "?s div 60 div 60 mod 24" and ?m = "?s div 60 mod 60" and ?sec = "?s mod 60"
  have un: "unat ?d = S div 60 div 60 div 24" "unat ?h = S div 60 div 60 mod 24" "unat ?m = S div 60 mod 60" "unat ?sec = S mod 60"
    by (simp_all add: unat_div unat_mod us S_def)
  have "S div 60 div 60 div 24 < 2 ^ 31" using nb by (simp add: S_def less_mult_imp_div_less)
  then have lt: "unat ?d < 2 ^ 31" "unat ?h < 2 ^ 31" "unat ?m < 2 ^ 31" "unat ?sec < 2 ^ 31" "unat ?ms < 2 ^ 31"
    unfolding un us
    by (simp_all add: order_less_trans[OF mod_less_divisor])
  note items = decimal_item(1)[OF lt(1)] decimal_item(2)[OF lt(2)] decimal_item(2)[OF lt(3)] decimal_item(2)[OF lt(4)] decimal_item(3)[OF lt(5)]
  let ?R = "dec_text (unat ?d) @ ''-'' @ dec_pad 2 (unat ?h) @ '':'' @ dec_pad 2 (unat ?m) @ '':'' @ dec_pad 2 (unat ?sec) @ ''.'' @ dec_pad 3 (unat ?ms)"
  have "\<exists>cc'. esl_vformatter CFmtString_putCh ext 0 (''%d-%02d:%02d:%02d.%03d'') [FInt ?d, FInt ?h, FInt ?m, FInt ?sec, FInt ?ms] [] 0 []
      = Some (?R, cc', [])"
    by (rule string_item, rule items(1), rule string_plain, simp, rule string_item, rule items(2)[unfolded append.simps], rule string_plain, simp,
        rule string_item, rule items(3)[unfolded append.simps], rule string_plain, simp, rule string_item, rule items(4)[unfolded append.simps],
        rule string_plain, simp, rule string_item, rule items(5)[where fmt = "[]", unfolded append.simps], simp)
  then have "toStringElapsed ext msec = Some ?R" by (auto simp: toStringElapsed_def vprintf_def Let_def)
  moreover have "int ((((unat ?d * 24 + unat ?h) * 60 + unat ?m) * 60 + unat ?sec) * 1000 + unat ?ms) = msec"
  proof -
    have "((S div 60 div 60 div 24 * 24 + S div 60 div 60 mod 24) * 60 + S div 60 mod 60) * 60 + S mod 60 = S" by simp
    then show ?thesis using assms(1) unfolding un us by (simp add: S_def n_def)
  qed
  moreover have "unat ?h < 24" "unat ?m < 60" "unat ?sec < 60" "unat ?ms < 1000" unfolding un us by simp_all
  ultimately show ?thesis by blast
qed

text \<open>The time of day cannot be printed without a mismatch of argument and conversion.\<close>

lemma printTime_mismatch: "printTime CFmtString_putCh flush ext lt time fo = None"
proof -
  let ?l = "fst (lt (to_msec time sdiv 1000))"
  have spec: "parse_spec (''2d'' @ fmt) ap = Some (default_spec\<lparr>adjust_width := Some 2\<rparr>, CHR ''d'' # fmt, ap)"
    "parse_spec (''02d'' @ fmt) ap = Some (default_spec\<lparr>pad_zero := True, adjust_width := Some 2\<rparr>, CHR ''d'' # fmt, ap)"
    "parse_spec (''03d'' @ fmt) ap = Some (default_spec\<lparr>pad_zero := True, adjust_width := Some 3\<rparr>, CHR ''d'' # fmt, ap)" for fmt ap
    by (simp_all add: parse_spec_def ap_islower_def parse_width_def parse_precision_def parse_modifier_def next_is_def next_isdigit_def isdigit_def
        default_spec_def INT_MAX_def less_char_def less_eq_char_def)
  have skip: "esl_vformatter CFmtString_putCh ext i (CHR ''%'' # f @ fmt) (FInt v # ap) r cc st = None"
    if "\<And>ap. parse_spec (f @ fmt) ap = Some (sp, CHR ''d'' # fmt, ap)" "var_type sp = IS_INT \<and> adjust_precision sp = None"
      "\<And>i r cc. esl_vformatter CFmtString_putCh ext i fmt ap r cc st = None" for i f fmt v ap r cc st sp
  proof -
    let ?t = "field_text sp (dec_text (nat \<bar>sint (scast v :: u64)\<bar>)) (sign_prefix sp (sint (scast v :: u64) < 0)) (pad_zero sp)"
    have "fmt_item ext i (f @ fmt) (FInt v # ap) = map_option (\<lambda>t. (ItemText t, scast v, fmt, ap)) ?t"
      unfolding fmt_item_def that(1) using that(2) by (simp add: conv_arg_def num_arg_def conv_10_text FIX_PRECISION_def)
    then show ?thesis using that(3) by (cases ?t) (simp_all add: esl_item)
  qed
  have sp: "var_type (default_spec\<lparr>adjust_width := Some 2\<rparr>) = IS_INT \<and> adjust_precision (default_spec\<lparr>adjust_width := Some 2\<rparr>) = None"
    "var_type (default_spec\<lparr>pad_zero := True, adjust_width := Some 2\<rparr>) = IS_INT
     \<and> adjust_precision (default_spec\<lparr>pad_zero := True, adjust_width := Some 2\<rparr>) = None"
    by (simp_all add: default_spec_def)
  have last: "esl_vformatter CFmtString_putCh ext i (CHR ''%'' # ''03d'') [FLong w] r cc st = None" for i w r cc st
  proof -
    have "fmt_item ext i ''03d'' [FLong w] = None"
      using spec(3)[of "[]"] by (simp add: fmt_item_def conv_arg_def num_arg_def default_spec_def)
    then show ?thesis by (simp add: esl_item)
  qed
  have plain: "esl_vformatter CFmtString_putCh ext i (c # fmt) ap r cc st = None"
    if "c \<noteq> CHR ''%''" "\<And>r cc. esl_vformatter CFmtString_putCh ext i fmt ap r cc st = None" for i c fmt ap r cc st
    using that by (simp add: esl_char CFmtString_putCh_def)
  have e1: "esl_vformatter CFmtString_putCh ext i ''.%03d'' [FLong w] r cc st = None" for i w r cc st
    by (rule plain) (simp, rule last)
  have e2: "esl_vformatter CFmtString_putCh ext i ''%02d.%03d'' [FInt c, FLong w] r cc st = None" for i c w r cc st
    using skip[of "''02d''" "''.%03d''", OF spec(2) sp(2) e1] by simp
  have e3: "esl_vformatter CFmtString_putCh ext i '':%02d.%03d'' [FInt c, FLong w] r cc st = None" for i c w r cc st
    by (rule plain) (simp, rule e2)
  have e4: "esl_vformatter CFmtString_putCh ext i ''%02d:%02d.%03d'' [FInt b, FInt c, FLong w] r cc st = None" for i b c w r cc st
    using skip[of "''02d''" "'':%02d.%03d''", OF spec(2) sp(2) e3] by simp
  have e5: "esl_vformatter CFmtString_putCh ext i '':%02d:%02d.%03d'' [FInt b, FInt c, FLong w] r cc st = None" for i b c w r cc st
    by (rule plain) (simp, rule e4)
  have "esl_vformatter CFmtString_putCh ext i ''%2d:%02d:%02d.%03d'' [FInt a, FInt b, FInt c, FLong w] r cc st = None" for i a b c w r cc st
    using skip[of "''2d''" "'':%02d:%02d.%03d''", OF spec(1) sp(1) e5] by simp
  then show ?thesis by (simp add: printTime_def vprintf_def Let_def case_prod_beta)
qed

section \<open>Dumps\<close>

text \<open>
  \<^verbatim>\<open>logDumpData\<close> asks whether the given level is enabled, and then logs at the trace level; the result is what the logger gets.
\<close>

datatype log_level = LvTrace | LvDebug | LvInfo | LvWarn | LvError | LvFatal

fun dump_lines :: "nat \<Rightarrow> byte list \<Rightarrow> string" where
  "dump_lines i [] = []"
| "dump_lines i (b # bs) = (if i > 0 \<and> i mod 20 = 0 then CHR 0x0A # ''  '' else []) @ hex_byte b @ '' '' @ dump_lines (Suc i) bs"

definition logDumpData :: "(log_level \<Rightarrow> bool) \<Rightarrow> log_level \<Rightarrow> string \<Rightarrow> byte list \<Rightarrow> (log_level \<times> string) list" where
  "logDumpData isEnabledFor level prefix buffer =
     (if \<not> isEnabledFor level then []
      else if isEnabledFor LvTrace then [(LvTrace, prefix @ '':'' @ CHR 0x0A # ''  '' @ dump_lines 0 buffer)] else [])"

text \<open>A dump at a level that is enabled is lost unless the trace level is enabled, too.\<close>

lemma dump_lost: "\<not> isEnabledFor LvTrace \<Longrightarrow> logDumpData isEnabledFor level prefix buffer = []"
  by (simp add: logDumpData_def)

text \<open>The loggers of the process, by name and level.\<close>

type_synonym loggers = "(string \<times> log_level) list"

definition setLevelForAll :: "log_level \<Rightarrow> loggers \<Rightarrow> loggers" where
  "setLevelForAll level ls = map (\<lambda>(name, _). (name, level)) ls"

definition printLoggers :: "loggers \<Rightarrow> string" where
  "printLoggers ls = concat (map (\<lambda>(name, _). name @ [CHR 0x0A]) ls)"

fun isLogger :: "string \<Rightarrow> loggers \<Rightarrow> bool" where
  "isLogger name [] = False"
| "isLogger name ((n, _) # ls) = (if name = n then True else isLogger name ls)"

lemma isLogger_iff: "isLogger name ls \<longleftrightarrow> name \<in> fst ` set ls"
  by (induction name ls rule: isLogger.induct) auto

text \<open>Setting the level keeps the loggers.\<close>

lemma setLevelForAll_loggers: "isLogger name (setLevelForAll level ls) = isLogger name ls"
  by (force simp: isLogger_iff setLevelForAll_def)

text \<open>
  \<^verbatim>\<open>zmessage::dump\<close>: frames of printable characters as text, others in hexadecimal; \<open>strhex\<close> is \<^verbatim>\<open>zframe_strhex\<close>.  A character with the high bit set is
  negative; \<^verbatim>\<open>isprint\<close> of the C library says no for it.
\<close>

definition isprint :: "byte \<Rightarrow> bool" where
  "isprint b \<longleftrightarrow> 32 \<le> unat b \<and> unat b \<le> 126"

definition dump_frame :: "(byte list \<Rightarrow> string) \<Rightarrow> string \<Rightarrow> byte list \<Rightarrow> string" where
  "dump_frame strhex delimiter data =
     ''['' @ dec_text (length data) @ ''] ''
     @ (if data = [] then [] else if list_all isprint data then map (\<lambda>b. char_of (unat b)) data else strhex data) @ delimiter"

definition zm_dump :: "(byte list \<Rightarrow> string) \<Rightarrow> string \<Rightarrow> byte list list \<Rightarrow> string" where
  "zm_dump strhex delimiter frames = concat (map (dump_frame strhex delimiter) frames)"

end
