(* ===== verification/System_Util.thy ===== *)
theory System_Util
  imports Common_Util
begin

text \<open>
  Helpers around the operating system: the files of IPC endpoints (\<^verbatim>\<open>rpc/ChangeIPCFilePrivilege.cpp\<close>), names of files and hosts
  (\<^verbatim>\<open>common/common.cpp\<close>) and the bound on lists in answers (\<^verbatim>\<open>rpc/RpcCommon.cpp\<close>).  What the operating system and the boost file
  system library answer are parameters.
\<close>

section \<open>Files of IPC endpoints\<close>

definition GR_NAME :: string where "GR_NAME = ''dust''"
definition IPC_PREFIX :: string where "IPC_PREFIX = ''ipc://''"

text \<open>\<^verbatim>\<open>S_IRGRP | S_IWGRP | S_IXGRP\<close>\<close>

definition GROUP_RWX :: u32 where "GROUP_RWX = 0x38"

record file_attr =
  fa_mode :: u32
  fa_uid :: nat
  fa_gid :: nat

record os_env =
  os_getgrnam :: "string \<Rightarrow> nat option"
  os_chmod :: "string \<Rightarrow> bool"
  os_chown :: "string \<Rightarrow> bool"
  os_strerror :: string

type_synonym files = "string \<Rightarrow> file_attr option"

definition changeIPCFilePrivilege :: "os_env \<Rightarrow> string \<Rightarrow> files \<Rightarrow> files \<times> bool \<times> string option" where
  "changeIPCFilePrivilege e serverAddr fs =
     (if map tolower (take (length IPC_PREFIX) serverAddr) \<noteq> IPC_PREFIX then (fs, True, None)
      else
        let fileName = drop (length IPC_PREFIX) serverAddr;
            failed = Some (os_strerror e @ ''. File: '' @ CHR 0x27 # fileName @ [CHR 0x27])
        in case os_getgrnam e GR_NAME of None \<Rightarrow> (fs, False, Some (''Can not find group '' @ CHR 0x27 # GR_NAME @ [CHR 0x27]))
           | Some gid \<Rightarrow>
             (case fs fileName of None \<Rightarrow> (fs, False, failed)
              | Some st \<Rightarrow>
                  if os_chmod e fileName then
                    let st = st\<lparr>fa_mode := fa_mode st OR GROUP_RWX\<rparr>; fs = fs(fileName \<mapsto> st)
                    in if os_chown e fileName then (fs(fileName \<mapsto> st\<lparr>fa_gid := gid\<rparr>), True, None) else (fs, False, failed)
                  else (fs, False, failed)))"

text \<open>
  Only the file of the endpoint changes, its owner and the permissions it had are kept, and on success the members of the group may
  read and write it; an address of another protocol changes nothing.
\<close>

lemma changeIPC_effect:
  assumes "changeIPCFilePrivilege e serverAddr fs = (fs', ok, err)"
  shows "(\<forall>f. f \<noteq> drop (length IPC_PREFIX) serverAddr \<longrightarrow> fs' f = fs f) \<and> (err = None \<longleftrightarrow> ok)
    \<and> (ok \<and> map tolower (take (length IPC_PREFIX) serverAddr) = IPC_PREFIX \<longrightarrow>
         (\<exists>st gid. fs (drop (length IPC_PREFIX) serverAddr) = Some st \<and> os_getgrnam e GR_NAME = Some gid
            \<and> fs' (drop (length IPC_PREFIX) serverAddr) = Some (st\<lparr>fa_mode := fa_mode st OR GROUP_RWX, fa_gid := gid\<rparr>)))"
  using assms by (auto simp: changeIPCFilePrivilege_def Let_def split: if_splits option.splits)

text \<open>When the group cannot be set the file is left with the new permissions for its old group.\<close>

lemma changeIPC_partial:
  assumes "map tolower (take (length IPC_PREFIX) serverAddr) = IPC_PREFIX" and "os_getgrnam e GR_NAME = Some gid"
    and "fs (drop (length IPC_PREFIX) serverAddr) = Some st" and "os_chmod e (drop (length IPC_PREFIX) serverAddr)"
    and "\<not> os_chown e (drop (length IPC_PREFIX) serverAddr)"
  shows "fst (changeIPCFilePrivilege e serverAddr fs) (drop (length IPC_PREFIX) serverAddr) = Some (st\<lparr>fa_mode := fa_mode st OR GROUP_RWX\<rparr>)"
  using assms by (simp add: changeIPCFilePrivilege_def Let_def)

section \<open>Names\<close>

text \<open>\<open>absolute\<close> and \<open>join\<close> are \<^verbatim>\<open>boost::filesystem::absolute\<close> and \<^verbatim>\<open>operator /=\<close> on the texts of paths.\<close>

definition getFullFileName :: "string option \<Rightarrow> (string \<Rightarrow> string) \<Rightarrow> (string \<Rightarrow> string \<Rightarrow> string) \<Rightarrow> string \<Rightarrow> string \<Rightarrow> string" where
  "getFullFileName voyagerHome absolute join strSubDir strFileName =
     (if absolute strFileName = strFileName then strFileName
      else if strSubDir \<noteq> [] \<and> absolute strSubDir = strSubDir then join strSubDir strFileName
      else join (join (case voyagerHome of None \<Rightarrow> [] | Some r \<Rightarrow> r) strSubDir) strFileName)"

text \<open>The result of a second call on the name is the name itself, where joining to an absolute path gives an absolute one.\<close>

lemma getFullFileName_idem:
  assumes "\<And>p q. absolute p = p \<Longrightarrow> absolute (join p q) = join p q" and "voyagerHome = Some r" and "absolute r = r"
  shows "getFullFileName voyagerHome absolute join d (getFullFileName voyagerHome absolute join d f) = getFullFileName voyagerHome absolute join d f"
  using assms by (simp add: getFullFileName_def)

text \<open>\<open>None\<close> for a host that cannot be resolved: the results keep their values.\<close>

definition getIPAddress :: "string \<Rightarrow> (string \<Rightarrow> string option) \<Rightarrow> string \<times> string \<Rightarrow> (string \<times> string) \<times> int" where
  "getIPAddress hostname gethostbyname r = (case gethostbyname hostname of None \<Rightarrow> (r, -1) | Some a \<Rightarrow> ((a, hostname), 0))"

section \<open>Lists in answers\<close>

definition DEFAULT_MAX_SIZE :: u32 where "DEFAULT_MAX_SIZE = 1000"

definition setMaxSizeListResp :: "u32 \<Rightarrow> u32 \<Rightarrow> u32" where
  "setMaxSizeListResp val max_results_v = (if val = 0 then DEFAULT_MAX_SIZE else val)"

lemma setMaxSizeListResp_positive: "0 < setMaxSizeListResp val v"
  by (simp add: setMaxSizeListResp_def DEFAULT_MAX_SIZE_def word_neq_0_conv)

end
