(* ===== verification/Spec2Isabelle.thy ===== *)
theory Spec2Isabelle
  imports GPS_Client APC_Main APC_Rpc Rpc_Server Bridge_Flow IO_Service Fmt_Double Diagnostics System_Util
begin

text \<open>
  Verification of the access point bridge: the program \<^verbatim>\<open>apc\<close> under \<^verbatim>\<open>src/APInterface\<close> with the libraries \<^verbatim>\<open>src/common\<close>,
  \<^verbatim>\<open>src/rpc\<close>, \<^verbatim>\<open>src/logging\<close> and \<^verbatim>\<open>src/watchdog\<close>.


  The program

  The bridge connects an access point mote, attached over a serial line, with the manager of a wireless mesh network, reached over TCP.
  Bytes of the serial line pass through the HDLC parser (\<^verbatim>\<open>HDLC.cpp\<close>, \<^verbatim>\<open>SerialPort.cpp\<close>); frames go to the transport
  (\<^verbatim>\<open>APMTransport.cpp\<close>), which acknowledges them, drops repetitions, sends one command at a time with retries and parses responses and
  notifications (\<^verbatim>\<open>APMSerializer.cpp\<close>).  The coupler (\<^verbatim>\<open>APCoupler.cpp\<close>) stands between the transport and the manager client: it hands packets,
  status and flow control to and fro, answers requests for the time, keeps the clock source as configured and runs a state machine that brings
  the access point and the session up again.  The manager client (\<^verbatim>\<open>APCClient.cpp\<close>) numbers and caches what it sends (\<^verbatim>\<open>APCCache.cpp\<close>),
  reconnects and replays; its connector (\<^verbatim>\<open>APCConnector.cpp\<close>) frames messages (\<^verbatim>\<open>APCSerializer.cpp\<close>), owns two output buffers and the keep-alive
  timers, and reports through a thread of its own (\<^verbatim>\<open>APCCntrlNotifThread.cpp\<close>).  A thread watches the GPS daemon (\<^verbatim>\<open>GPS.cpp\<close>).
  The RPC library serves commands of administrators: a dispatcher (\<^verbatim>\<open>RpcDispatcherBase.cpp\<close>) routes requests to workers
  (\<^verbatim>\<open>RpcWorker.cpp\<close>), among them the worker of the bridge (\<^verbatim>\<open>APCRpcWorker.cpp\<close>) and the one for log levels.  \<^verbatim>\<open>apc_main.cpp\<close> puts the
  components together from the command line and a configuration file and waits for a stop request.


  How the code is modelled

  A class is a record with the source's members, an enumeration a datatype, an integer a word of its width; only sizes of containers and clock readings are
  \<^typ>\<open>nat\<close> or \<^typ>\<open>int\<close>, and 64-bit sums that could wrap are written with their modulus.  A method is a
  function from its arguments and the object to the new object, the result and the list of calls it makes on other parts, in order.  A call that
  cannot return normally (a failed assertion, an access outside a buffer, a null pointer, an exception nobody catches) gives
  \<^const>\<open>None\<close>, so a theorem that the result is \<^const>\<open>Some\<close> is a statement of memory safety and of progress.  What a call finds out from outside (the clock,
  whether an asynchronous operation could be started, what other threads did while a lock was released) is an environment record passed to that call;
  theorems quantify over it.  Threads are step functions with explicit positions, a section under a lock is one step, and concurrency is a list
  of events in any order.  Structures copied by \<^verbatim>\<open>memcpy\<close> are byte lists: the host is little-endian with 64-bit pointers and 32-bit \<^verbatim>\<open>int\<close>.
  Library code that is not in the repository is a parameter: the czmq messages (a record of operations with the laws \<open>czmq_laws\<close>), the
  generated protocol buffers, log4cxx, boost's program options, property trees and file names, the GPS daemon, the socket and the serial device.


  Theories, bottom up (operations keep the source's names; a prefix such as \<open>tr_\<close>, \<open>cp_\<close>, \<open>cl_\<close> names the class where names would clash)

  \<^item> \<open>APB_Prelude\<close>: words and their byte images, copies into buffers, results with outputs (\<open>and_then\<close>), runs of step functions, and the interfaces as
    locales: \<open>frame_codec\<close> (HDLC and manager messages), \<open>step_invariant\<close>, \<open>buffer_pool\<close> (output buffers of a connector), \<open>message_service\<close>
    (notification thread, remote logger).
  \<^item> \<open>APC_Types\<close>, \<open>APM_Types\<close>: the constants and structures of the two protocols that the bridge uses (\<^verbatim>\<open>common.h\<close>, \<^verbatim>\<open>APCProto.h\<close>,
    \<^verbatim>\<open>public/IAPCCommon.h\<close>, \<^verbatim>\<open>dn_api_*.h\<close>).
  \<^item> \<open>HDLC\<close>: checksum, encoder, parser.  The table-driven checksum is the bitwise one; any sequence of packets survives encoding
    and parsing; a packet is delivered exactly if its checksum is right; the parser finds the next frame after any noise; its buffer is bounded.
  \<^item> \<open>APC_Cache\<close>: the ring of sent packets refines a list of all packets sent; confirmations and the replay are described by that list;
    the locale \<open>replay_source\<close> carries the replay loop.
  \<^item> \<open>APC_Serializer\<close>: messages survive conversion, chunking anywhere and reassembly; the receive loop ends and stays in its buffer.
  \<^item> \<open>Stat_Delays\<close>: delay statistics.
  \<^item> \<open>APC_Connector\<close>: buffers given to the socket are not reused before they are written; the read callback never fails and acknowledges in time.
  \<^item> \<open>Notif_Thread\<close>: exactly the accepted notifications, in order, whatever the interleaving; stopping ends the thread.
  \<^item> \<open>APC_Client\<close>, \<open>APC_Session\<close>: the client and the thread of its IO service; what it caches, what it replays after a reconnection, when it gives up.
  \<^item> \<open>IO_Service\<close>: the thread of the IO service (\<^verbatim>\<open>IOSrvThread.cpp\<close>) as a step relation of its caller, its barrier and its live timer, which refines the single
    operations used by the client; stopping returns in every interleaving except after an expiry of the timer whose handler has not run.
  \<^item> \<open>APM_Serializer\<close>, \<open>APM_Transport\<close>, \<open>APM_Link\<close>: the transport; its queue is never stuck, a silent access point is reported lost
    after the configured retries, a notification is handled once, flow control calls alternate, and what a high priority command does.
  \<^item> \<open>Common_Util\<close>, \<open>Fmt_Numbers\<close>, \<open>Fmt_Float\<close>, \<open>Fmt_Output\<close>, \<open>Fmt_Text\<close>, \<open>Fmt_Double\<close>: helper functions, the printf engine with its three kinds of output
    (locale \<open>fmt_output\<close>), texts.  Floating point numbers are rationals rounded to IEEE doubles after every operation; whole numbers below \<open>2 ^ 53\<close> are printed exactly.
  \<^item> \<open>Diagnostics\<close>, \<open>System_Util\<close>: the trace of manager messages, conversions and texts of times, dumps and log levels; file names, the host address, the rights of
    the RPC socket.  A trace stays in its buffer and matches its format strings for every message; the texts of elapsed times are described exactly.
  \<^item> \<open>AP_Coupler\<close>, \<open>Coupler_Machine\<close>, \<open>Coupler_Props\<close>: the coupler, its state machine as a step function, and their properties.
  \<^item> \<open>Serial_Port\<close>, \<open>GPS_Client\<close>: the serial port with its buffer pool (locale \<open>slot_pool\<close>) and the GPS thread.
  \<^item> \<open>Bridge_Uplink\<close>, \<open>Bridge_Downlink\<close>: the components put together in both directions: packets of the mote reach the reader of the manager's socket, and packets
    of the manager the queue of the transport, exactly once, in order and unchanged, for every cut of the byte streams and, downwards, every
    interleaving of reads with the notification thread.
  \<^item> \<open>Bridge_Flow\<close>: whole histories of the link, with its commands, timers and flow control: all that the access point reports becomes messages of the session, in order,
    and manager and transport agree on whether the manager may send.
  \<^item> \<open>Rpc_Message\<close>, \<open>Rpc_Dispatcher\<close>, \<open>Rpc_Routing\<close>, \<open>Rpc_Worker\<close>, \<open>Rpc_Protocol\<close>, \<open>Rpc_Server\<close>, \<open>APC_Rpc\<close>: the RPC library and the workers.  The dispatcher keeps the
    requests of every service in order (each service refines a queue) and fails for exactly the inputs stated; a request is answered once and the answer reaches its client;
    a command needs its privilege; a nonce is accepted once.  The locale \<open>rpc_handler\<close> is the interface of a worker to its commands.
  \<^item> \<open>Input_Arguments\<close>, \<open>Node_State\<close>, \<open>APC_Main\<close>: options (a table of lenses, locale \<open>option_table\<close>), the stop request, and the process: starting it establishes the invariants that
    the theorems about its parts assume.


  Bounds and fuel

  The receive loop of the serializer recurses on the bytes left, with a termination proof.  The replay of the cache runs with one step more than there are packets,
  and the theorems show that this is enough.  \<open>thread_join\<close> takes the number of steps of the joined thread; three are proved to suffice.  The wait for the clock
  source makes at most a hundred looks, as in the code.  The conversion of an IPv6 address makes its eight turns; the search for the first digit of a
  double below one has 360 turns, more than the smallest double needs (\<open>cvt_small_ends\<close>).  Loops that retry for ever
  (opening the serial port, the reconnection, the state machine) are functions of the list of outcomes, so that not returning is visible as \<^const>\<open>None\<close> or as a position.


  Not modelled

  The text of log lines and the levels at which they are written, except for traces of messages and dumps; the encoder for base 64, a composition of library iterators; the names of
  enumerators, which macros generate (they are parameters where they are printed); the C library's local time and random numbers; the test program in
  \<^verbatim>\<open>FmtOutput.cpp\<close> and the branches for Windows; \<^verbatim>\<open>patches/zmq.hpp\<close>, a copy of a library header; the declarations of the mote's serial
  interface that the bridge does not use (most of \<^verbatim>\<open>shared/include\<close>); the watchdog interface, of which this build has only an empty wrapper; socket options, DNS and the inside of
  asio, czmq, log4cxx, gpsd and protobuf; the Python clients, tests and packaging.
\<close>

end
